(* ===== verification/Tile_Prelude.thy ===== *)
theory Tile_Prelude
  imports Main "HOL-Library.Word"
begin

text \<open>
  Shared vocabulary of the development: the C integer conversions that the sources rely on, C
  strings as character lists together with the few formatted print and scan directives the
  sources use, byte encodings of 32-bit integers, and generic list lemmas. Of the program only
  two constants of \<^verbatim>\<open>includes/render_config.h\<close> are here; every other theory imports this one.

  Conventions. A C \<open>int\<close> is a mathematical integer; where a value can leave the 32-bit range the
  conversion \<open>wrap32\<close> is written out. Unsigned 64-bit arithmetic is done on \<open>64 word\<close>. A
  C string is the list of its characters before the terminating zero byte.
\<close>

unbundle bit_operations_syntax

named_theorems queue_simps
named_theorems store_simps
named_theorems serve_simps

section \<open>Constants of the build configuration\<close>

definition MAX_ZOOM :: int where
  "MAX_ZOOM = 20"

definition METATILE :: int where
  "METATILE = 8"

section \<open>Integers\<close>

definition wrap32 :: "int \<Rightarrow> int" where
  "wrap32 i = (i + 2147483648) mod 4294967296 - 2147483648"

definition clamp64 :: "int \<Rightarrow> int" where
  "clamp64 i = max (-9223372036854775808) (min 9223372036854775807 i)"

definition in_int32 :: "int \<Rightarrow> bool" where
  "in_int32 i \<longleftrightarrow> -2147483648 \<le> i \<and> i < 2147483648"

definition in_long64 :: "int \<Rightarrow> bool" where
  "in_long64 i \<longleftrightarrow> -9223372036854775808 \<le> i \<and> i < 9223372036854775808"

text \<open>C division of signed integers truncates towards zero.\<close>

definition cdiv :: "int \<Rightarrow> int \<Rightarrow> int" where
  "cdiv a b = sgn a * sgn b * (\<bar>a\<bar> div \<bar>b\<bar>)"

section \<open>Characters and strings\<close>

definition char_code :: "char \<Rightarrow> nat" where
  "char_code c = of_char c"

text \<open>Plain \<open>char\<close> is signed on the supported platforms.\<close>

definition char_sint :: "char \<Rightarrow> int" where
  "char_sint c = (if char_code c < 128 then int (char_code c) else int (char_code c) - 256)"

definition is_digit :: "char \<Rightarrow> bool" where
  "is_digit c \<longleftrightarrow> 48 \<le> char_code c \<and> char_code c \<le> 57"

definition is_space :: "char \<Rightarrow> bool" where
  "is_space c \<longleftrightarrow> char_code c = 32 \<or> (9 \<le> char_code c \<and> char_code c \<le> 13)"

definition digit_char :: "nat \<Rightarrow> char" where
  "digit_char d = char_of (48 + d)"

definition digit_val :: "char \<Rightarrow> nat" where
  "digit_val c = char_code c - 48"

text \<open>The \<open>%u\<close> and \<open>%d\<close> directives of \<open>printf\<close>.\<close>

fun show_nat :: "nat \<Rightarrow> string" where
  "show_nat n = (if n < 10 then [digit_char n] else show_nat (n div 10) @ [digit_char (n mod 10)])"

definition show_int :: "int \<Rightarrow> string" where
  "show_int i = (if i < 0 then CHR ''-'' # show_nat (nat (- i)) else show_nat (nat i))"

definition digits_val :: "string \<Rightarrow> nat" where
  "digits_val ds = foldl (\<lambda>a c. a * 10 + digit_val c) 0 ds"

text \<open>
  The \<open>%d\<close> directive of \<open>sscanf\<close>: optional white space, an optional sign and at least one digit.
  The C library converts as \<open>strtol\<close> does (clamping to 64 bits) and stores the value into an
  \<open>int\<close>. The result is the value and the unread rest of the input.
\<close>

definition scan_int :: "string \<Rightarrow> (int \<times> string) option" where
  "scan_int s =
     (let t = dropWhile is_space s;
          neg = (t \<noteq> [] \<and> hd t = CHR ''-'');
          u = (if t \<noteq> [] \<and> (hd t = CHR ''-'' \<or> hd t = CHR ''+'') then tl t else t);
          ds = takeWhile is_digit u
      in if ds = [] then None
         else Some (wrap32 (clamp64 (if neg then - int (digits_val ds) else int (digits_val ds))),
                    dropWhile is_digit u))"

text \<open>A literal character of a scan format.\<close>

definition scan_char :: "char \<Rightarrow> string \<Rightarrow> string option" where
  "scan_char c s = (case s of [] \<Rightarrow> None | d # r \<Rightarrow> if d = c then Some r else None)"

text \<open>The directive \<open>%w[^c]\<close>: between one and \<open>w\<close> characters different from \<open>c\<close>.\<close>

definition scan_until :: "nat \<Rightarrow> char \<Rightarrow> string \<Rightarrow> (string \<times> string) option" where
  "scan_until w c s =
     (let t = takeWhile (\<lambda>d. d \<noteq> c) (take w s)
      in if t = [] then None else Some (t, drop (length t) s))"

text \<open>\<open>snprintf\<close> into a buffer of \<open>n\<close> bytes, for \<open>n\<close> at least one: the text is cut to \<open>n - 1\<close>.\<close>

definition snprintf :: "nat \<Rightarrow> string \<Rightarrow> string" where
  "snprintf n s = take (n - 1) s"

text \<open>Largest size of a path buffer on the supported platforms (\<open>PATH_MAX\<close>).\<close>

definition PATH_MAX :: nat where
  "PATH_MAX = 4096"

text \<open>\<open>strstr(s, p) == s\<close> and \<open>strncmp(p, s, strlen(p)) == 0\<close>: the string starts with \<open>p\<close>.\<close>

fun starts_with :: "string \<Rightarrow> string \<Rightarrow> bool" where
  "starts_with [] s = True"
| "starts_with (c # p) [] = False"
| "starts_with (c # p) (d # s) = (c = d \<and> starts_with p s)"

text \<open>\<open>strstr(s, p)\<close>: the rest of \<open>s\<close> from the first occurrence of \<open>p\<close>.\<close>

fun strstr :: "string \<Rightarrow> string \<Rightarrow> string option" where
  "strstr [] p = (if p = [] then Some [] else None)"
| "strstr (d # s) p = (if starts_with p (d # s) then Some (d # s) else strstr s p)"

text \<open>\<open>strrchr(s, c)\<close>: the parts of \<open>s\<close> before and after the last \<open>c\<close>.\<close>

definition strrchr :: "string \<Rightarrow> char \<Rightarrow> (string \<times> string) option" where
  "strrchr s c =
     (let r = rev s; suf = takeWhile (\<lambda>d. d \<noteq> c) r; rest = dropWhile (\<lambda>d. d \<noteq> c) r
      in if rest = [] then None else Some (rev (tl rest), rev suf))"

section \<open>Bytes\<close>

type_synonym byte = "8 word"

text \<open>A 32-bit \<open>int\<close> in memory, little endian, and back.\<close>

definition le32 :: "int \<Rightarrow> byte list" where
  "le32 i = map (\<lambda>k. word_of_int (i div 256 ^ k)) [0, 1, 2, 3]"

definition rd32 :: "byte list \<Rightarrow> int" where
  "rd32 bs = wrap32 (uint (bs ! 0) + 256 * uint (bs ! 1) + 65536 * uint (bs ! 2) + 16777216 * uint (bs ! 3))"

definition char_byte :: "char \<Rightarrow> byte" where
  "char_byte c = word_of_nat (char_code c)"

definition byte_char :: "byte \<Rightarrow> char" where
  "byte_char b = char_of (unat b)"

text \<open>A fixed array of \<open>n\<close> characters holding a string, padded with zero bytes, and back.\<close>

definition chars_field :: "nat \<Rightarrow> string \<Rightarrow> byte list" where
  "chars_field n s = map char_byte (take n s) @ replicate (n - length s) 0"

definition field_chars :: "byte list \<Rightarrow> string" where
  "field_chars bs = map byte_char (takeWhile (\<lambda>b. b \<noteq> 0) bs)"

section \<open>Integer lemmas\<close>

lemma wrap32_id [simp]: "in_int32 i \<Longrightarrow> wrap32 i = i"
  by (simp add: wrap32_def in_int32_def)

lemma wrap32_range: "in_int32 (wrap32 i)"
  by (simp add: wrap32_def in_int32_def)

lemma clamp64_id: "in_int32 i \<Longrightarrow> clamp64 i = i"
  by (simp add: clamp64_def in_int32_def)

lemma cdiv_nonneg: "0 \<le> a \<Longrightarrow> 0 < b \<Longrightarrow> cdiv a b = a div b"
  by (cases "a = 0") (simp_all add: cdiv_def)

section \<open>Decimal numbers\<close>

declare show_nat.simps [simp del]

lemma char_code_digit_char [simp]: "d < 10 \<Longrightarrow> char_code (digit_char d) = 48 + d"
  by (simp add: char_code_def digit_char_def)

lemma is_digit_digit_char [simp]: "d < 10 \<Longrightarrow> is_digit (digit_char d)"
  by (simp add: is_digit_def)

lemma digit_val_digit_char [simp]: "d < 10 \<Longrightarrow> digit_val (digit_char d) = d"
  by (simp add: digit_val_def)

lemma show_nat_digits: "\<forall>c \<in> set (show_nat n). is_digit c"
proof (induction n rule: show_nat.induct)
  case (1 n)
  then show ?case by (subst show_nat.simps) auto
qed

lemma show_nat_nonempty [simp]: "show_nat n \<noteq> []"
  by (subst show_nat.simps) simp

lemma digits_val_snoc: "digits_val (ds @ [c]) = digits_val ds * 10 + digit_val c"
  by (simp add: digits_val_def)

lemma digits_val_show_nat [simp]: "digits_val (show_nat n) = n"
proof (induction n rule: show_nat.induct)
  case (1 n)
  then show ?case
    by (subst show_nat.simps) (auto simp: digits_val_snoc digits_val_def [of "[_]"])
qed

lemma show_nat_inj: "show_nat m = show_nat n \<Longrightarrow> m = n"
  by (metis digits_val_show_nat)

text \<open>Text that a \<open>%d\<close> directive stops in front of.\<close>

definition no_digit_head :: "string \<Rightarrow> bool" where
  "no_digit_head r \<longleftrightarrow> r = [] \<or> \<not> is_digit (hd r)"

lemma takeWhile_digits:
  assumes "\<forall>c \<in> set ds. is_digit c" and "no_digit_head r"
  shows "takeWhile is_digit (ds @ r) = ds" and "dropWhile is_digit (ds @ r) = r"
  using assms by (induction ds) (cases r; auto simp: no_digit_head_def)+

lemma hd_show_nat_digit: "is_digit (hd (show_nat n))"
  using show_nat_digits [of n] by (cases "show_nat n") auto

lemma digit_not_space: "is_digit c \<Longrightarrow> \<not> is_space c"
  by (auto simp: is_digit_def is_space_def)

lemma not_digit_minus [simp]: "\<not> is_digit (CHR ''-'')" "\<not> is_digit (CHR ''+'')"
    "\<not> is_digit (CHR ''/'')" "\<not> is_digit (CHR ''.'')"
    "\<not> is_space (CHR ''-'')" "\<not> is_space (CHR ''+'')" "\<not> is_space (CHR ''/'')"
  by (simp_all add: is_digit_def is_space_def char_code_def)

lemma dropWhile_space_show_nat: "dropWhile is_space (show_nat n @ r) = show_nat n @ r"
  using hd_show_nat_digit [of n] by (cases "show_nat n") (auto simp: digit_not_space)

lemma hd_show_nat_not_sign [simp]:
  "hd (show_nat n) \<noteq> CHR ''-''" "hd (show_nat n) \<noteq> CHR ''+''"
  using hd_show_nat_digit [of n] by auto

lemma scan_int_show_nat:
  assumes "int n < 2147483648" and "no_digit_head r"
  shows "scan_int (show_nat n @ r) = Some (int n, r)"
  using assms
  by (simp add: scan_int_def Let_def dropWhile_space_show_nat
      takeWhile_digits [OF show_nat_digits] clamp64_id in_int32_def)

lemma scan_int_show_int:
  assumes "in_int32 i" and "no_digit_head r"
  shows "scan_int (show_int i @ r) = Some (i, r)"
proof (cases "i < 0")
  case True
  then have "scan_int (show_int i @ r) = Some (wrap32 (clamp64 (- int (nat (- i)))), r)"
    using assms(2) by (simp add: scan_int_def Let_def show_int_def takeWhile_digits [OF show_nat_digits])
  with True assms(1) show ?thesis by (simp add: clamp64_id)
next
  case False
  then show ?thesis
    using assms scan_int_show_nat [of "nat i" r] by (simp add: show_int_def in_int32_def)
qed

lemma show_nat_no_slash: "CHR ''/'' \<notin> set (show_nat n)"
  using show_nat_digits [of n] not_digit_minus(3) by blast

lemma show_nat_no_dot: "CHR ''.'' \<notin> set (show_nat n)"
  using show_nat_digits [of n] not_digit_minus(4) by blast

lemma show_int_no_slash: "CHR ''/'' \<notin> set (show_int i)"
  by (simp add: show_int_def show_nat_no_slash)

lemma scan_until_field:
  assumes "t \<noteq> []" and "length t \<le> w" and "c \<notin> set t"
  shows "scan_until w c (t @ c # r) = Some (t, c # r)"
proof -
  have "takeWhile (\<lambda>d. d \<noteq> c) (t @ u) = t @ takeWhile (\<lambda>d. d \<noteq> c) u" for u
    using assms(3) by (induction t) auto
  from this [of "[]"] this have "takeWhile (\<lambda>d. d \<noteq> c) (take w (t @ c # r)) = t"
    using assms(2) by (cases "w - length t") (simp_all del: takeWhile_eq_all_conv)
  with assms(1) show ?thesis
    by (simp add: scan_until_def Let_def)
qed

section \<open>Byte encodings\<close>

lemma length_le32 [simp]: "length (le32 i) = 4"
  by (simp add: le32_def)

lemma rd32_le32:
  assumes "in_int32 i"
  shows "rd32 (le32 i @ r) = i"
proof -
  have b: "uint (word_of_int (i div 256 ^ k) :: byte) = (i div 256 ^ k) mod 256" for k :: nat
    by (simp add: uint_word_of_int)
  have m1: "i mod 4294967296 = 16777216 * (i div 16777216 mod 256) + i mod 16777216"
    using zmod_zmult2_eq [of 256 i 16777216] by simp
  have m2: "i mod 16777216 = 65536 * (i div 65536 mod 256) + i mod 65536"
    using zmod_zmult2_eq [of 256 i 65536] by simp
  have m3: "i mod 65536 = 256 * (i div 256 mod 256) + i mod 256"
    using zmod_zmult2_eq [of 256 i 256] by simp
  have d: "i mod 256 + 256 * ((i div 256) mod 256) + 65536 * ((i div 65536) mod 256)
      + 16777216 * ((i div 16777216) mod 256) = i mod 4294967296"
    using m1 m2 m3 by linarith
  have "rd32 (le32 i @ r) = wrap32 (i mod 4294967296)"
    unfolding d [symmetric] using b [of 0] b [of 1] b [of 2] b [of 3]
    by (simp add: rd32_def le32_def)
  also have "\<dots> = i"
    using assms wrap32_id [of i] by (simp add: wrap32_def mod_simps)
  finally show ?thesis .
qed

lemma byte_char_byte [simp]: "byte_char (char_byte c) = c"
  by (simp add: byte_char_def char_byte_def char_code_def unat_of_nat)

lemma length_chars_field [simp]: "length (chars_field n s) = n"
  by (simp add: chars_field_def)

end
