(* ===== verification/Protocol.thy ===== *)
theory Protocol
  imports Tile_Prelude
begin

text \<open>
  The protocol between the clients of the render daemon and the daemon itself
  (\<^verbatim>\<open>includes/protocol.h\<close>, \<^verbatim>\<open>src/protocol_helper.c\<close>): the command structure, its
  byte layout in the three protocol versions, and the two functions that send and receive a
  command on a socket. The socket calls of the operating system are parameters
  (\<open>sock_os\<close>); what they return, short reads and errors included, is arbitrary.
\<close>

section \<open>Data\<close>

definition XMLCONFIG_MAX :: nat where
  "XMLCONFIG_MAX = 41"

text \<open>
  \<open>strncpy\<close> of at most \<open>XMLCONFIG_MAX - 1\<close> characters into an array whose former contents are \<open>raw\<close>; the last
  byte is not written, so a name of 40 characters or more is not terminated by the copy.
\<close>

definition strncpy_name :: "string \<Rightarrow> string \<Rightarrow> string" where
  "strncpy_name raw name =
     takeWhile (\<lambda>c. c \<noteq> CHR 0x00)
       (take (XMLCONFIG_MAX - 1) (name @ replicate (XMLCONFIG_MAX - 1) (CHR 0x00)) @ drop (XMLCONFIG_MAX - 1) raw)"

definition PROTO_VER :: int where
  "PROTO_VER = 3"

text \<open>
  An \<open>enum protoCmd\<close> read from a socket can hold any 32-bit value; the constructor \<open>cmdUnknown\<close>
  stands for the values that are none of the enumeration's names.
\<close>

datatype protoCmd =
    cmdIgnore | cmdRender | cmdDirty | cmdDone | cmdNotDone
  | cmdRenderPrio | cmdRenderBulk | cmdRenderLow | cmdUnknown int

record protocol =
  pr_ver :: int
  pr_cmd :: protoCmd
  pr_x :: int
  pr_y :: int
  pr_z :: int
  pr_xmlname :: string
  pr_mimetype :: string
  pr_options :: string

fun cmd_code :: "protoCmd \<Rightarrow> int" where
  "cmd_code cmdIgnore = 0"
| "cmd_code cmdRender = 1"
| "cmd_code cmdDirty = 2"
| "cmd_code cmdDone = 3"
| "cmd_code cmdNotDone = 4"
| "cmd_code cmdRenderPrio = 5"
| "cmd_code cmdRenderBulk = 6"
| "cmd_code cmdRenderLow = 7"
| "cmd_code (cmdUnknown v) = v"

definition cmd_of_code :: "int \<Rightarrow> protoCmd" where
  "cmd_of_code v =
     (if v = 0 then cmdIgnore else if v = 1 then cmdRender else if v = 2 then cmdDirty
      else if v = 3 then cmdDone else if v = 4 then cmdNotDone else if v = 5 then cmdRenderPrio
      else if v = 6 then cmdRenderBulk else if v = 7 then cmdRenderLow else cmdUnknown v)"

text \<open>
  The sizes of \<open>struct protocol_v1\<close> (five integers), \<open>struct protocol_v2\<close> (and one name of 41
  bytes, padded to a multiple of four) and \<open>struct protocol\<close> (three names, padded).
\<close>

definition sizeof_protocol_v1 :: nat where
  "sizeof_protocol_v1 = 20"

definition sizeof_protocol_v2 :: nat where
  "sizeof_protocol_v2 = 64"

definition sizeof_protocol :: nat where
  "sizeof_protocol = 144"

text \<open>The memory image of a \<open>struct protocol\<close>; the byte after the last name is padding.\<close>

definition protocol_bytes :: "protocol \<Rightarrow> byte list" where
  "protocol_bytes c =
     le32 (pr_ver c) @ le32 (cmd_code (pr_cmd c)) @ le32 (pr_x c) @ le32 (pr_y c) @ le32 (pr_z c)
     @ chars_field XMLCONFIG_MAX (pr_xmlname c) @ chars_field XMLCONFIG_MAX (pr_mimetype c)
     @ chars_field XMLCONFIG_MAX (pr_options c) @ [0]"

definition bytes_protocol :: "byte list \<Rightarrow> protocol" where
  "bytes_protocol bs =
     \<lparr>pr_ver = rd32 bs, pr_cmd = cmd_of_code (rd32 (drop 4 bs)),
      pr_x = rd32 (drop 8 bs), pr_y = rd32 (drop 12 bs), pr_z = rd32 (drop 16 bs),
      pr_xmlname = field_chars (take XMLCONFIG_MAX (drop 20 bs)),
      pr_mimetype = field_chars (take XMLCONFIG_MAX (drop 61 bs)),
      pr_options = field_chars (take XMLCONFIG_MAX (drop 102 bs))\<rparr>"

section \<open>Sockets\<close>

text \<open>
  The socket calls: \<open>getsockopt(fd, SOL_SOCKET, SO_TYPE)\<close>, \<open>send\<close> and \<open>recv\<close> with
  \<open>MSG_WAITALL\<close> (\<open>True\<close>) or \<open>MSG_DONTWAIT\<close> (\<open>False\<close>). A \<open>recv\<close> yields its return value and the
  bytes it stored.
\<close>

record 's sock_os =
  so_getsockopt :: "'s \<Rightarrow> int \<Rightarrow> int"
  so_send :: "'s \<Rightarrow> int \<Rightarrow> byte list \<Rightarrow> int \<times> 's"
  so_recv :: "'s \<Rightarrow> int \<Rightarrow> nat \<Rightarrow> bool \<Rightarrow> (int \<times> byte list) \<times> 's"

definition expected_len :: "int \<Rightarrow> nat" where
  "expected_len v =
     (if v = 1 then sizeof_protocol_v1 else if v = 2 then sizeof_protocol_v2
      else if v = 3 then sizeof_protocol else 0)"

definition send_cmd :: "'s sock_os \<Rightarrow> 's \<Rightarrow> protocol \<Rightarrow> int \<Rightarrow> int \<times> 's" where
  "send_cmd os s c fd =
     (if fd < 0 then (-1, s)
      else if pr_ver c > 3 \<or> pr_ver c < 1 then (-1, s)
      else if so_getsockopt os s fd < 0 then (-1, s)
      else so_send os s fd (take (expected_len (pr_ver c)) (protocol_bytes c)))"

text \<open>Storing received bytes into the structure at an offset.\<close>

definition store_at :: "nat \<Rightarrow> byte list \<Rightarrow> byte list \<Rightarrow> byte list" where
  "store_at off bs buf = take off buf @ bs @ drop (off + length bs) buf"

definition recv_cmd :: "'s sock_os \<Rightarrow> 's \<Rightarrow> int \<Rightarrow> bool \<Rightarrow> int \<times> protocol \<times> 's" where
  "recv_cmd os s fd block =
     (let buf0 = replicate sizeof_protocol 0;
          ((ret, bs1), s1) = so_recv os s fd sizeof_protocol_v1 block;
          buf1 = store_at 0 bs1 buf0;
          v = pr_ver (bytes_protocol buf1)
      in if ret < 1 then (-1, bytes_protocol buf1, s1)
         else if ret < int sizeof_protocol_v1 then (0, bytes_protocol buf1, s1)
         else if v > 3 \<or> v < 1 then (-1, bytes_protocol buf1, s1)
         else let ((ret2, bs2), s2) =
                    (if v = 1 then ((0, []), s1)
                     else if v = 2
                     then so_recv os s1 fd (sizeof_protocol_v2 - sizeof_protocol_v1) block
                     else so_recv os s1 fd (sizeof_protocol - sizeof_protocol_v1) block);
                  buf2 = store_at sizeof_protocol_v1 bs2 buf1
              in if v > 1 \<and> ret2 < 1 then (-1, bytes_protocol buf2, s2)
                 else if ret + ret2 = int sizeof_protocol \<or> ret + ret2 = int sizeof_protocol_v1
                         \<or> ret + ret2 = int sizeof_protocol_v2
                 then (ret + ret2, bytes_protocol buf2, s2)
                 else (0, bytes_protocol buf2, s2))"

text \<open>A command whose fields fit their C types, with names that are terminated C strings.\<close>

definition c_name :: "string \<Rightarrow> bool" where
  "c_name s \<longleftrightarrow> length s < XMLCONFIG_MAX \<and> CHR 0x00 \<notin> set s"

definition wf_protocol :: "protocol \<Rightarrow> bool" where
  "wf_protocol c \<longleftrightarrow>
     in_int32 (pr_ver c) \<and> in_int32 (pr_x c) \<and> in_int32 (pr_y c) \<and> in_int32 (pr_z c)
     \<and> in_int32 (cmd_code (pr_cmd c)) \<and> cmd_of_code (cmd_code (pr_cmd c)) = pr_cmd c
     \<and> c_name (pr_xmlname c) \<and> c_name (pr_mimetype c) \<and> c_name (pr_options c)"

text \<open>
  What a version carries: version 1 has no names; version 2 has the map name, and its three
  padding bytes are the start of the sender's \<open>mimetype\<close>; version 3 has everything.
\<close>

definition carried :: "protocol \<Rightarrow> protocol" where
  "carried c =
     (if pr_ver c = 1 then c\<lparr>pr_xmlname := [], pr_mimetype := [], pr_options := []\<rparr>
      else if pr_ver c = 2 then c\<lparr>pr_mimetype := take 3 (pr_mimetype c), pr_options := []\<rparr>
      else c)"

text \<open>A socket that delivers the bytes \<open>bs\<close> to the two reads of a receiver.\<close>

definition delivers :: "'s sock_os \<Rightarrow> 's \<Rightarrow> int \<Rightarrow> bool \<Rightarrow> byte list \<Rightarrow> bool" where
  "delivers os s fd block bs \<longleftrightarrow>
     (\<exists>s1. so_recv os s fd 20 block = ((20, take 20 bs), s1)
        \<and> (20 < length bs \<longrightarrow>
             (\<exists>s2. so_recv os s1 fd (length bs - 20) block
                    = ((int (length bs) - 20, drop 20 bs), s2))))"

section \<open>The byte layout\<close>

lemma length_protocol_bytes [simp]: "length (protocol_bytes c) = 144"
  by (simp add: protocol_bytes_def XMLCONFIG_MAX_def)

lemma field_chars_chars_field:
  assumes "length s < n" and "CHR 0x00 \<notin> set s"
  shows "field_chars (chars_field n s) = s"
proof -
  have nz: "char_byte c \<noteq> 0" if "c \<in> set s" for c
  proof
    assume z: "char_byte c = 0"
    have "byte_char 0 = CHR 0x00" by (simp add: byte_char_def char_of_def)
    with z byte_char_byte [of c] that assms(2) show False by simp
  qed
  have "takeWhile (\<lambda>b. b \<noteq> 0) (map char_byte s @ replicate k 0) = map char_byte s" for k
    using nz by (induction s) auto
  then show ?thesis
    using assms(1) by (simp add: field_chars_def chars_field_def comp_def)
qed

lemma chars_field_take:
  assumes "k \<le> n"
  shows "take k (chars_field n s) @ replicate (n - k) 0 = chars_field n (take k s)"
proof (cases "length s \<le> k")
  case True
  with assms have "take k (chars_field n s) = map char_byte s @ replicate (k - length s) 0"
    by (simp add: chars_field_def min_def)
  moreover have "replicate (k - length s) 0 @ replicate (n - k) 0 = replicate (n - length s) (0 :: byte)"
    using True assms by (simp flip: replicate_add)
  ultimately show ?thesis
    using True assms by (simp add: chars_field_def)
next
  case False
  with assms show ?thesis
    by (simp add: chars_field_def take_map min_def)
qed

lemma chars_field_Nil: "chars_field n [] = replicate n 0"
  by (simp add: chars_field_def)

lemma bytes_protocol_image:
  assumes "length f1 = 41" and "length f2 = 41" and "length f3 = 41"
    and "in_int32 v" and "in_int32 c" and "in_int32 px" and "in_int32 py" and "in_int32 pz"
  shows "bytes_protocol (le32 v @ le32 c @ le32 px @ le32 py @ le32 pz @ f1 @ f2 @ f3 @ r) =
    \<lparr>pr_ver = v, pr_cmd = cmd_of_code c, pr_x = px, pr_y = py, pr_z = pz,
     pr_xmlname = field_chars f1, pr_mimetype = field_chars f2, pr_options = field_chars f3\<rparr>"
  using assms by (simp add: bytes_protocol_def rd32_le32 XMLCONFIG_MAX_def)

lemma bytes_protocol_bytes: "wf_protocol c \<Longrightarrow> bytes_protocol (protocol_bytes c) = c"
  by (simp add: protocol_bytes_def bytes_protocol_image XMLCONFIG_MAX_def wf_protocol_def c_name_def
      field_chars_chars_field)

text \<open>The image of a received message, with the unread tail of the structure still zero.\<close>

lemma replicate_split: "k \<le> n \<Longrightarrow> replicate n x = replicate k x @ replicate (n - k) x"
  by (metis le_add_diff_inverse replicate_add)

lemma received_image:
  assumes "wf_protocol c" and "pr_ver c \<in> {1, 2, 3}"
  shows "bytes_protocol (take (expected_len (pr_ver c)) (protocol_bytes c)
           @ replicate (144 - expected_len (pr_ver c)) 0) = carried c"
proof -
  let ?ints = "le32 (pr_ver c) @ le32 (cmd_code (pr_cmd c)) @ le32 (pr_x c) @ le32 (pr_y c) @ le32 (pr_z c)"
  have three_le: "(3 :: nat) \<le> 41" by simp
  note wf = assms(1) [unfolded wf_protocol_def c_name_def XMLCONFIG_MAX_def]
  consider "pr_ver c = 1" | "pr_ver c = 2" | "pr_ver c = 3" using assms(2) by auto
  then show ?thesis
  proof cases
    case 1
    have "take 20 (protocol_bytes c) @ replicate 124 0 =
        ?ints @ chars_field 41 [] @ chars_field 41 [] @ chars_field 41 [] @ [0]"
      by (simp add: protocol_bytes_def chars_field_Nil numeral_eq_Suc)
    then have "bytes_protocol (take 20 (protocol_bytes c) @ replicate 124 0) = carried c"
      using wf 1 by (simp add: bytes_protocol_image field_chars_chars_field carried_def)
    then show ?thesis using 1 by (simp add: expected_len_def sizeof_protocol_v1_def)
  next
    case 2
    have "take 64 (protocol_bytes c) @ replicate 80 0 =
        ?ints @ chars_field 41 (pr_xmlname c)
          @ (take 3 (chars_field 41 (pr_mimetype c)) @ replicate (41 - 3) 0) @ chars_field 41 [] @ [0]"
      by (simp add: protocol_bytes_def XMLCONFIG_MAX_def chars_field_Nil
          replicate_split [of 38 80] replicate_split [of 41 42])
    then have "bytes_protocol (take 64 (protocol_bytes c) @ replicate 80 0) = carried c"
      using wf 2 unfolding chars_field_take [of 3 41 "pr_mimetype c", OF three_le]
      by (simp add: bytes_protocol_image field_chars_chars_field carried_def
          field_chars_chars_field [of "take 3 (pr_mimetype c)", OF _ contra_subsetD [OF set_take_subset]])
    then show ?thesis using 2 by (simp add: expected_len_def sizeof_protocol_v2_def)
  next
    case 3
    then show ?thesis
      using bytes_protocol_bytes [OF assms(1)]
      by (simp add: expected_len_def sizeof_protocol_def carried_def)
  qed
qed

section \<open>Receiving what was sent\<close>

lemmas sizeof_defs = sizeof_protocol_def sizeof_protocol_v1_def sizeof_protocol_v2_def

lemma recv_cmd_two_reads:
  assumes r1: "so_recv os s fd 20 block = ((20, b1), s1)" "length b1 = 20"
    and v: "pr_ver (bytes_protocol (b1 @ replicate 124 0)) = v" "v = 2 \<or> v = 3"
    and m: "m = (if v = 2 then 44 else 124)"
    and r2: "so_recv os s1 fd m block = ((int m, b2), s2)" "length b2 = m"
  shows "recv_cmd os s fd block = (20 + int m, bytes_protocol (b1 @ b2 @ replicate (124 - m) 0), s2)"
  using assms by (auto simp: recv_cmd_def sizeof_defs Let_def store_at_def)

lemma recv_cmd_one_read:
  assumes "so_recv os s fd 20 block = ((20, b1), s1)" "length b1 = 20"
    and "pr_ver (bytes_protocol (b1 @ replicate 124 0)) = 1"
  shows "recv_cmd os s fd block = (20, bytes_protocol (b1 @ replicate 124 0), s1)"
  using assms by (simp add: recv_cmd_def sizeof_defs Let_def store_at_def)

lemma recv_cmd_delivered:
  assumes wf: "wf_protocol c" and ver: "pr_ver c \<in> {1, 2, 3}"
    and del: "delivers os s fd block (take (expected_len (pr_ver c)) (protocol_bytes c))"
  shows "\<exists>s'. recv_cmd os s fd block = (int (expected_len (pr_ver c)), carried c, s')"
proof -
  let ?pb = "protocol_bytes c"
  note img = received_image [OF wf ver]
  have v1: "pr_ver (bytes_protocol (take 20 ?pb @ replicate 124 0)) = pr_ver c"
    using wf by (simp add: bytes_protocol_def protocol_bytes_def rd32_le32 wf_protocol_def)
  have split: "take 20 ?pb @ drop 20 (take n ?pb) @ r = take n ?pb @ r" if "20 \<le> n" for n r
    using that by (metis append.assoc append_take_drop_id min.absorb1 take_take)
  consider "pr_ver c = 1" | "pr_ver c = 2" | "pr_ver c = 3" using ver by auto
  then show ?thesis
  proof cases
    case 1
    with del img v1 show ?thesis
      by (auto simp: delivers_def expected_len_def sizeof_defs recv_cmd_one_read)
  next
    case 2
    with del obtain s1 s2 where "so_recv os s fd 20 block = ((20, take 20 ?pb), s1)"
      "so_recv os s1 fd 44 block = ((44, drop 20 (take 64 ?pb)), s2)"
      by (auto simp: delivers_def expected_len_def sizeof_defs)
    with 2 img v1 split [of 64] recv_cmd_two_reads [of os s fd block "take 20 ?pb" s1 2 44 "drop 20 (take 64 ?pb)" s2]
    show ?thesis by (simp add: expected_len_def sizeof_defs flip: append_assoc)
  next
    case 3
    with del obtain s1 s2 where "so_recv os s fd 20 block = ((20, take 20 ?pb), s1)"
      "so_recv os s1 fd 124 block = ((124, drop 20 (take 144 ?pb)), s2)"
      by (auto simp: delivers_def expected_len_def sizeof_defs)
    with 3 img v1 split [of 144] recv_cmd_two_reads [of os s fd block "take 20 ?pb" s1 3 124 "drop 20 (take 144 ?pb)" s2]
    show ?thesis by (simp add: expected_len_def sizeof_defs flip: append_assoc)
  qed
qed

end
