(* ===== verification/Request_Queue.thy ===== *)
theory Request_Queue
  imports Protocol "HOL-Library.Monad_Syntax"
begin

text \<open>
  The request queue of the render daemon (\<^verbatim>\<open>src/request_queue.c\<close>): five waiting lists and
  the list of requests being rendered, all doubly linked through the items themselves, and a hash
  index over the queued items. The store of \<open>struct item\<close> objects is explicit: an address
  is one of the six list heads embedded in \<open>struct request_queue\<close> or an object obtained from
  \<open>malloc\<close>, so that the pointer updates of the code are the updates of the model. Every
  operation of the code holds the queue's mutex from its first to its last access, so one operation
  is one atomic step. This theory holds the data and the operations; the theories
  \<open>Request_Queue_Structures\<close> and \<open>Request_Queue_Spec\<close> hold what is proved about them.
\<close>

section \<open>Data\<close>

definition FD_INVALID :: int where
  "FD_INVALID = -1"

definition REQ_LIMIT :: int where
  "REQ_LIMIT = 256"

definition DIRTY_LIMIT :: int where
  "DIRTY_LIMIT = 8000"

definition HASHIDX_SIZE :: nat where
  "HASHIDX_SIZE = 2213"

datatype queueEnum =
    queueRequest | queueRequestPrio | queueRequestBulk | queueDirty | queueRender
  | queueDuplicate | queueRequestLow

datatype iaddr =
    reqHead | reqPrioHead | reqLowHead | reqBulkHead | dirtyHead | renderHead | Obj nat

text \<open>The \<open>duplicates\<close> pointer only ever points to an object from \<open>malloc\<close>, or is null.\<close>

record item =
  it_next :: iaddr
  it_prev :: iaddr
  it_req :: protocol
  it_mx :: int
  it_my :: int
  it_fd :: int
  it_duplicates :: "nat option"
  it_inQueue :: queueEnum
  it_originatedQueue :: queueEnum

record stats_struct =
  noDirtyRender :: int
  noReqRender :: int
  noReqPrioRender :: int
  noReqLowRender :: int
  noReqBulkRender :: int
  noReqDroped :: int
  noZoomRender :: "int list"
  timeReqRender :: int
  timeReqPrioRender :: int
  timeReqLowRender :: int
  timeReqBulkRender :: int
  timeReqDirty :: int
  timeZoomRender :: "int list"

text \<open>
  A slot of the hash index: the first \<open>struct item_idx\<close> is embedded in the array and its item may
  be null; the chain of allocated nodes behind it is the list of their items.
\<close>

record item_idx =
  idx_item :: "nat option"
  idx_next :: "nat list"

text \<open>
  The queue. \<open>q_mem\<close> is the store of items, the six heads included; \<open>q_alloc\<close> tells
  which objects are allocated; the array \<open>item_hashidx\<close> is a function of its index.
\<close>

record request_queue =
  q_mem :: "iaddr \<Rightarrow> item"
  q_alloc :: "nat \<Rightarrow> bool"
  q_hashidxSize :: nat
  q_hashidx :: "nat \<Rightarrow> item_idx"
  q_reqNum :: int
  q_reqPrioNum :: int
  q_reqLowNum :: int
  q_reqBulkNum :: int
  q_dirtyNum :: int
  q_stats :: stats_struct

section \<open>Writing to the store\<close>

definition set_next :: "(iaddr \<Rightarrow> item) \<Rightarrow> iaddr \<Rightarrow> iaddr \<Rightarrow> iaddr \<Rightarrow> item" where
  "set_next m a b = m(a := (m a)\<lparr>it_next := b\<rparr>)"

definition set_prev :: "(iaddr \<Rightarrow> item) \<Rightarrow> iaddr \<Rightarrow> iaddr \<Rightarrow> iaddr \<Rightarrow> item" where
  "set_prev m a b = m(a := (m a)\<lparr>it_prev := b\<rparr>)"

definition set_fd :: "(iaddr \<Rightarrow> item) \<Rightarrow> iaddr \<Rightarrow> int \<Rightarrow> iaddr \<Rightarrow> item" where
  "set_fd m a f = m(a := (m a)\<lparr>it_fd := f\<rparr>)"

definition set_inQueue :: "(iaddr \<Rightarrow> item) \<Rightarrow> iaddr \<Rightarrow> queueEnum \<Rightarrow> iaddr \<Rightarrow> item" where
  "set_inQueue m a e = m(a := (m a)\<lparr>it_inQueue := e\<rparr>)"

definition set_originated :: "(iaddr \<Rightarrow> item) \<Rightarrow> iaddr \<Rightarrow> queueEnum \<Rightarrow> iaddr \<Rightarrow> item" where
  "set_originated m a e = m(a := (m a)\<lparr>it_originatedQueue := e\<rparr>)"

definition set_duplicates :: "(iaddr \<Rightarrow> item) \<Rightarrow> iaddr \<Rightarrow> nat option \<Rightarrow> iaddr \<Rightarrow> item" where
  "set_duplicates m a d = m(a := (m a)\<lparr>it_duplicates := d\<rparr>)"

definition free_item :: "nat \<Rightarrow> request_queue \<Rightarrow> request_queue" where
  "free_item a q = q\<lparr>q_alloc := (q_alloc q)(a := False)\<rparr>"

section \<open>The hash index\<close>

text \<open>The sum of the characters of the map name, in 64-bit arithmetic.\<close>

definition xmlnameHash :: "string \<Rightarrow> 64 word" where
  "xmlnameHash s = foldl (\<lambda>h c. h + word_of_int (char_sint c)) 0 (take XMLCONFIG_MAX s)"

definition calcHashKey :: "request_queue \<Rightarrow> item \<Rightarrow> nat" where
  "calcHashKey q i =
     (let key = push_bit 52 (xmlnameHash (pr_xmlname (it_req i)) AND 0x1FF)
              + push_bit 48 (word_of_int (pr_z (it_req i)))
              + push_bit 24 (word_of_int (it_mx i AND 0xFFFFFF))
              + (word_of_int (it_my i AND 0xFFFFFF) :: 64 word)
      in unat key mod q_hashidxSize q)"

text \<open>The comparison of two items in the index: same metatile of the same map.\<close>

definition same_tile :: "item \<Rightarrow> item \<Rightarrow> bool" where
  "same_tile i t \<longleftrightarrow>
     it_mx i = it_mx t \<and> it_my i = it_my t \<and> pr_z (it_req i) = pr_z (it_req t)
     \<and> pr_xmlname (it_req i) = pr_xmlname (it_req t)"

fun lookup_chain :: "(iaddr \<Rightarrow> item) \<Rightarrow> item \<Rightarrow> nat list \<Rightarrow> nat option" where
  "lookup_chain m i [] = None"
| "lookup_chain m i (t # ts) = (if same_tile i (m (Obj t)) then Some t else lookup_chain m i ts)"

definition lookup_item_idx :: "request_queue \<Rightarrow> item \<Rightarrow> nat option" where
  "lookup_item_idx q i =
     (let slot = q_hashidx q (calcHashKey q i)
      in case idx_item slot of
           None \<Rightarrow> None
         | Some t \<Rightarrow> lookup_chain (q_mem q) i (t # idx_next slot))"

text \<open>The embedded node is used when it is empty; otherwise a new node goes to the chain's end.\<close>

definition insert_item_idx :: "request_queue \<Rightarrow> nat \<Rightarrow> request_queue" where
  "insert_item_idx q a =
     (let key = calcHashKey q (q_mem q (Obj a)); slot = q_hashidx q key;
          slot' = (case idx_item slot of
                     None \<Rightarrow> slot\<lparr>idx_item := Some a\<rparr>
                   | Some t \<Rightarrow> slot\<lparr>idx_next := idx_next slot @ [a]\<rparr>)
      in q\<lparr>q_hashidx := (q_hashidx q)(key := slot')\<rparr>)"

text \<open>Removing the first match from the chain of allocated nodes.\<close>

fun remove_chain :: "(iaddr \<Rightarrow> item) \<Rightarrow> item \<Rightarrow> nat list \<Rightarrow> nat list" where
  "remove_chain m i [] = []"
| "remove_chain m i (t # ts) = (if same_tile i (m (Obj t)) then ts else t # remove_chain m i ts)"

text \<open>
  When the embedded node matches, the second node is copied over it (or it becomes empty);
  otherwise the matching node behind it is unlinked.
\<close>

definition remove_item_idx :: "request_queue \<Rightarrow> item \<Rightarrow> request_queue" where
  "remove_item_idx q i =
     (let key = calcHashKey q i; slot = q_hashidx q key
      in case idx_item slot of
           None \<Rightarrow> q
         | Some t \<Rightarrow>
             (let slot' =
                    (if same_tile i (q_mem q (Obj t))
                     then (case idx_next slot of
                             [] \<Rightarrow> slot\<lparr>idx_item := None, idx_next := []\<rparr>
                           | n # ns \<Rightarrow> slot\<lparr>idx_item := Some n, idx_next := ns\<rparr>)
                     else slot\<lparr>idx_next := remove_chain (q_mem q) i (idx_next slot)\<rparr>)
              in q\<lparr>q_hashidx := (q_hashidx q)(key := slot')\<rparr>))"

section \<open>Adding and fetching requests\<close>

definition pending :: "request_queue \<Rightarrow> nat \<Rightarrow> protoCmd \<times> request_queue" where
  "pending q a =
     (case lookup_item_idx q (q_mem q (Obj a)) of
        None \<Rightarrow> (cmdRender, q)
      | Some i \<Rightarrow>
          if it_inQueue (q_mem q (Obj i)) \<in> {queueRender, queueRequest, queueRequestPrio, queueRequestLow}
          then let m1 = set_duplicates (q_mem q) (Obj a) (it_duplicates (q_mem q (Obj i)));
                   m2 = set_duplicates m1 (Obj i) (Some a);
                   m3 = set_inQueue m2 (Obj a) queueDuplicate
               in (cmdIgnore, q\<lparr>q_mem := m3\<rparr>)
          else if it_inQueue (q_mem q (Obj i)) \<in> {queueDirty, queueRequestBulk}
          then (cmdNotDone, q)
          else (cmdRender, q))"

text \<open>Linking an item in front of a list head, that is at the end of the circular list.\<close>

definition link_tail :: "(iaddr \<Rightarrow> item) \<Rightarrow> iaddr \<Rightarrow> iaddr \<Rightarrow> iaddr \<Rightarrow> item" where
  "link_tail m h a =
     (let m1 = set_next m a h;
          m2 = set_prev m1 a (it_prev (m1 h));
          m3 = set_next m2 (it_prev (m2 a)) a
      in set_prev m3 h a)"

text \<open>Taking an item out of the list it is on.\<close>

definition unlink_item :: "(iaddr \<Rightarrow> item) \<Rightarrow> iaddr \<Rightarrow> iaddr \<Rightarrow> item" where
  "unlink_item m a =
     (let m1 = set_prev m (it_next (m a)) (it_prev (m a))
      in set_next m1 (it_prev (m1 a)) (it_next (m1 a)))"

text \<open>Linking an item right behind a list head, that is at the front of the list.\<close>

definition link_front :: "(iaddr \<Rightarrow> item) \<Rightarrow> iaddr \<Rightarrow> iaddr \<Rightarrow> iaddr \<Rightarrow> item" where
  "link_front m h a =
     (let m1 = set_prev m a h;
          m2 = set_next m1 a (it_next (m1 h));
          m3 = set_prev m2 (it_next (m2 h)) a
      in set_next m3 h a)"

text \<open>
  The choice of the list and the bookkeeping of a new request. \<open>None\<close> is the last branch of the
  code: every list that could take the request is full.
\<close>

definition choose_list :: "request_queue \<Rightarrow> nat \<Rightarrow> (iaddr \<times> request_queue) option" where
  "choose_list q a =
     (let c = pr_cmd (it_req (q_mem q (Obj a)));
          place = (\<lambda>e. set_originated (set_inQueue (q_mem q) (Obj a) e) (Obj a) e)
      in if c = cmdRender \<and> q_reqNum q < REQ_LIMIT
         then Some (reqHead, q\<lparr>q_mem := place queueRequest, q_reqNum := q_reqNum q + 1\<rparr>)
         else if c = cmdRenderPrio \<and> q_reqPrioNum q < REQ_LIMIT
         then Some (reqPrioHead, q\<lparr>q_mem := place queueRequestPrio, q_reqPrioNum := q_reqPrioNum q + 1\<rparr>)
         else if c = cmdRenderLow \<and> q_reqLowNum q < REQ_LIMIT
         then Some (reqLowHead, q\<lparr>q_mem := place queueRequestLow, q_reqLowNum := q_reqLowNum q + 1\<rparr>)
         else if c = cmdRenderBulk \<and> q_reqBulkNum q < REQ_LIMIT
         then Some (reqBulkHead, q\<lparr>q_mem := place queueRequestBulk, q_reqBulkNum := q_reqBulkNum q + 1\<rparr>)
         else if q_dirtyNum q < DIRTY_LIMIT
         then Some (dirtyHead, q\<lparr>q_mem := set_fd (place queueDirty) (Obj a) FD_INVALID,
                                 q_dirtyNum := q_dirtyNum q + 1\<rparr>)
         else None)"

text \<open>The locked part of \<open>request_queue_add_request\<close>.\<close>

definition add_request :: "request_queue \<Rightarrow> nat \<Rightarrow> protoCmd \<times> request_queue" where
  "add_request q a =
     (let (status, q1) = pending q a
      in if status = cmdNotDone then (cmdNotDone, free_item a q1)
         else if status = cmdIgnore then (cmdIgnore, q1)
         else case choose_list q1 a of
                None \<Rightarrow>
                  (cmdNotDone,
                   free_item a (q1\<lparr>q_stats := (q_stats q1)\<lparr>noReqDroped := noReqDroped (q_stats q1) + 1\<rparr>\<rparr>))
              | Some (h, q2) \<Rightarrow>
                  (if h = dirtyHead then cmdNotDone else cmdIgnore,
                   insert_item_idx (q2\<lparr>q_mem := link_tail (q_mem q2) h (Obj a)\<rparr>) a))"

text \<open>A null queue pointer ends the process with exit code 3 (\<open>Inl 3\<close>).\<close>

definition request_queue_add_request ::
    "request_queue option \<Rightarrow> nat \<Rightarrow> int + (protoCmd \<times> request_queue)" where
  "request_queue_add_request qp a =
     (case qp of None \<Rightarrow> Inl 3 | Some q \<Rightarrow> Inr (add_request q a))"

text \<open>The list and the counters that a fetch takes its request from.\<close>

definition pick_list :: "request_queue \<Rightarrow> (iaddr \<times> request_queue) option" where
  "pick_list q =
     (let st = q_stats q
      in if q_reqPrioNum q \<noteq> 0
         then Some (reqPrioHead, q\<lparr>q_reqPrioNum := q_reqPrioNum q - 1,
                                   q_stats := st\<lparr>noReqPrioRender := noReqPrioRender st + 1\<rparr>\<rparr>)
         else if q_reqNum q \<noteq> 0
         then Some (reqHead, q\<lparr>q_reqNum := q_reqNum q - 1,
                               q_stats := st\<lparr>noReqRender := noReqRender st + 1\<rparr>\<rparr>)
         else if q_reqLowNum q \<noteq> 0
         then Some (reqLowHead, q\<lparr>q_reqLowNum := q_reqLowNum q - 1,
                                  q_stats := st\<lparr>noReqLowRender := noReqLowRender st + 1\<rparr>\<rparr>)
         else if q_dirtyNum q \<noteq> 0
         then Some (dirtyHead, q\<lparr>q_dirtyNum := q_dirtyNum q - 1,
                                 q_stats := st\<lparr>noDirtyRender := noDirtyRender st + 1\<rparr>\<rparr>)
         else if q_reqBulkNum q \<noteq> 0
         then Some (reqBulkHead, q\<lparr>q_reqBulkNum := q_reqBulkNum q - 1,
                                   q_stats := st\<lparr>noReqBulkRender := noReqBulkRender st + 1\<rparr>\<rparr>)
         else None)"

text \<open>
  \<open>None\<close>: all five counters are zero, the caller stays in \<open>pthread_cond_wait\<close> and the queue is
  unchanged. Otherwise the fetched item and the queue after it was moved to the render list.
\<close>

definition request_queue_fetch_request :: "request_queue \<Rightarrow> (iaddr \<times> request_queue) option" where
  "request_queue_fetch_request q =
     (case pick_list q of
        None \<Rightarrow> None
      | Some (h, q1) \<Rightarrow>
          let a = it_next (q_mem q1 h);
              m1 = unlink_item (q_mem q1) a;
              m2 = link_front m1 renderHead a
          in Some (a, q1\<lparr>q_mem := set_inQueue m2 a queueRender\<rparr>))"

section \<open>Forgetting a file descriptor\<close>

text \<open>
  The two nested loops over a list and over the duplicates of each item. They follow pointers, so
  a corrupted list could make them run forever; \<open>None\<close> is not returning.
\<close>

partial_function (option) clear_dups ::
    "int \<Rightarrow> (iaddr \<Rightarrow> item) \<Rightarrow> nat option \<Rightarrow> (iaddr \<Rightarrow> item) option" where
  "clear_dups fd m p =
     (case p of
        None \<Rightarrow> Some m
      | Some d \<Rightarrow>
          let m' = (if it_fd (m (Obj d)) = fd then set_fd m (Obj d) FD_INVALID else m)
          in clear_dups fd m' (it_duplicates (m' (Obj d))))"

partial_function (option) clear_list ::
    "int \<Rightarrow> iaddr \<Rightarrow> (iaddr \<Rightarrow> item) \<Rightarrow> iaddr \<Rightarrow> (iaddr \<Rightarrow> item) option" where
  "clear_list fd h m a =
     (if a = h then Some m
      else let m1 = (if it_fd (m a) = fd then set_fd m a FD_INVALID else m)
           in do { m2 \<leftarrow> clear_dups fd m1 (it_duplicates (m1 a));
                   clear_list fd h m2 (it_next (m2 a)) })"

fun clear_heads :: "int \<Rightarrow> iaddr list \<Rightarrow> (iaddr \<Rightarrow> item) \<Rightarrow> (iaddr \<Rightarrow> item) option" where
  "clear_heads fd [] m = Some m"
| "clear_heads fd (h # hs) m =
     (case clear_list fd h m (it_next (m h)) of
        None \<Rightarrow> None
      | Some m' \<Rightarrow> clear_heads fd hs m')"

definition request_queue_clear_requests_by_fd ::
    "request_queue \<Rightarrow> int \<Rightarrow> request_queue option" where
  "request_queue_clear_requests_by_fd q fd =
     (case clear_heads fd [reqHead, renderHead, reqPrioHead, reqBulkHead, reqLowHead] (q_mem q) of
        None \<Rightarrow> None
      | Some m \<Rightarrow> Some (q\<lparr>q_mem := m\<rparr>))"

section \<open>Removing a rendered request, statistics\<close>

text \<open>The render time accounted to the list the request came from.\<close>

definition add_render_time :: "queueEnum \<Rightarrow> int \<Rightarrow> stats_struct \<Rightarrow> stats_struct" where
  "add_render_time e t st =
     (case e of
        queueRequestPrio \<Rightarrow> st\<lparr>timeReqPrioRender := timeReqPrioRender st + t\<rparr>
      | queueRequest \<Rightarrow> st\<lparr>timeReqRender := timeReqRender st + t\<rparr>
      | queueRequestLow \<Rightarrow> st\<lparr>timeReqLowRender := timeReqLowRender st + t\<rparr>
      | queueDirty \<Rightarrow> st\<lparr>timeReqDirty := timeReqDirty st + t\<rparr>
      | queueRequestBulk \<Rightarrow> st\<lparr>timeReqBulkRender := timeReqBulkRender st + t\<rparr>
      | _ \<Rightarrow> st)"

text \<open>The two arrays indexed by zoom level; a zoom outside of them is a write out of bounds.\<close>

definition add_zoom_time :: "int \<Rightarrow> int \<Rightarrow> stats_struct \<Rightarrow> stats_struct option" where
  "add_zoom_time z t st =
     (if 0 \<le> z \<and> z \<le> MAX_ZOOM
      then Some (st\<lparr>noZoomRender := (noZoomRender st)[nat z := noZoomRender st ! nat z + 1],
                    timeZoomRender := (timeZoomRender st)[nat z := timeZoomRender st ! nat z + t]\<rparr>)
      else None)"

text \<open>
  \<open>None\<close>: the statistics arrays are written out of bounds. The check that the item is on the
  render list only logs a warning.
\<close>

definition request_queue_remove_request ::
    "request_queue \<Rightarrow> iaddr \<Rightarrow> int \<Rightarrow> request_queue option" where
  "request_queue_remove_request q a render_time =
     (let i = q_mem q a;
          st = (if render_time > 0
                then add_zoom_time (pr_z (it_req i)) render_time
                       (add_render_time (it_originatedQueue i) render_time (q_stats q))
                else Some (q_stats q))
      in case st of
           None \<Rightarrow> None
         | Some st' \<Rightarrow>
             let q1 = q\<lparr>q_stats := st', q_mem := unlink_item (q_mem q) a\<rparr>
             in Some (remove_item_idx q1 (q_mem q1 a)))"

definition request_queue_no_requests_queued :: "request_queue \<Rightarrow> protoCmd \<Rightarrow> int" where
  "request_queue_no_requests_queued q c =
     (case c of
        cmdRenderPrio \<Rightarrow> q_reqPrioNum q
      | cmdRender \<Rightarrow> q_reqNum q
      | cmdRenderLow \<Rightarrow> q_reqLowNum q
      | cmdDirty \<Rightarrow> q_dirtyNum q
      | cmdRenderBulk \<Rightarrow> q_reqBulkNum q
      | _ \<Rightarrow> -1)"

definition request_queue_copy_stats :: "request_queue \<Rightarrow> stats_struct" where
  "request_queue_copy_stats q = q_stats q"

section \<open>Creation and release\<close>

definition zero_protocol :: protocol where
  "zero_protocol = \<lparr>pr_ver = 0, pr_cmd = cmdIgnore, pr_x = 0, pr_y = 0, pr_z = 0,
                    pr_xmlname = [], pr_mimetype = [], pr_options = []\<rparr>"

definition zero_stats :: stats_struct where
  "zero_stats =
     \<lparr>noDirtyRender = 0, noReqRender = 0, noReqPrioRender = 0, noReqLowRender = 0,
      noReqBulkRender = 0, noReqDroped = 0, noZoomRender = replicate 21 0, timeReqRender = 0,
      timeReqPrioRender = 0, timeReqLowRender = 0, timeReqBulkRender = 0, timeReqDirty = 0,
      timeZoomRender = replicate 21 0\<rparr>"

text \<open>
  The queue structure comes zeroed from \<open>calloc\<close> and each head is linked to itself. The contents
  of objects that are not allocated are never read.
\<close>

definition empty_item :: "iaddr \<Rightarrow> item" where
  "empty_item h = \<lparr>it_next = h, it_prev = h, it_req = zero_protocol, it_mx = 0, it_my = 0, it_fd = 0,
                   it_duplicates = None, it_inQueue = queueRequest, it_originatedQueue = queueRequest\<rparr>"

definition empty_queue :: request_queue where
  "empty_queue =
     \<lparr>q_mem = empty_item, q_alloc = (\<lambda>_. False), q_hashidxSize = HASHIDX_SIZE,
      q_hashidx = (\<lambda>_. \<lparr>idx_item = None, idx_next = []\<rparr>),
      q_reqNum = 0, q_reqPrioNum = 0, q_reqLowNum = 0, q_reqBulkNum = 0, q_dirtyNum = 0,
      q_stats = zero_stats\<rparr>"

text \<open>
  The outcome of the two allocations and of the two initialisations of the thread primitives are
  arguments; every failure releases what was obtained before and returns a null pointer.
\<close>

definition request_queue_init :: "bool \<Rightarrow> int \<Rightarrow> int \<Rightarrow> bool \<Rightarrow> request_queue option" where
  "request_queue_init calloc_ok mutex_res cond_res malloc_ok =
     (if \<not> calloc_ok then None
      else if mutex_res \<noteq> 0 then None
      else if cond_res \<noteq> 0 then None
      else if \<not> malloc_ok then None
      else Some empty_queue)"

text \<open>Closing releases the index and the queue but no item: the objects still allocated.\<close>

definition request_queue_close :: "request_queue \<Rightarrow> nat \<Rightarrow> bool" where
  "request_queue_close q = q_alloc q"

end
