(* ===== verification/Interfaces.thy ===== *)
theory Interfaces
  imports Main
begin

text \<open>
  The interfaces between components, as locales: an index of objects by key, a family of linked
  lists over one store, a queue whose operations are steps. What a client needs of an interface is proved here once; the theories of
  the components that provide an interface interpret it on their own operations.
\<close>

section \<open>An index of objects by key\<close>

text \<open>
  \<open>entries\<close> are the objects in the index, \<open>key\<close> reads an object's key from the state and
  \<open>key_of\<close> the key of a probe. The index holds at most one object per key.
\<close>

locale keyed_index =
  fixes invar :: "'q \<Rightarrow> bool"
    and entries :: "'q \<Rightarrow> nat set"
    and key :: "'q \<Rightarrow> nat \<Rightarrow> 'k"
    and key_of :: "'t \<Rightarrow> 'k"
    and lookup :: "'q \<Rightarrow> 't \<Rightarrow> nat option"
    and ins :: "'q \<Rightarrow> nat \<Rightarrow> 'q"
    and del :: "'q \<Rightarrow> 't \<Rightarrow> 'q"
  assumes lookup_sound: "invar q \<Longrightarrow> lookup q t = Some a \<Longrightarrow> a \<in> entries q \<and> key q a = key_of t"
    and lookup_complete: "invar q \<Longrightarrow> lookup q t = None \<Longrightarrow> a \<in> entries q \<Longrightarrow> key q a \<noteq> key_of t"
    and key_unique: "invar q \<Longrightarrow> a \<in> entries q \<Longrightarrow> b \<in> entries q \<Longrightarrow> key q a = key q b \<Longrightarrow> a = b"
    and invar_ins: "invar q \<Longrightarrow> key q a \<notin> key q ` entries q \<Longrightarrow> invar (ins q a)"
    and entries_ins: "invar q \<Longrightarrow> key q a \<notin> key q ` entries q \<Longrightarrow> entries (ins q a) = insert a (entries q)"
    and key_ins: "key (ins q a) = key q"
    and invar_del: "invar q \<Longrightarrow> invar (del q t)"
    and entries_del: "invar q \<Longrightarrow> entries (del q t) = {a \<in> entries q. key q a \<noteq> key_of t}"
    and key_del: "key (del q t) = key q"
begin

lemma lookup_iff: "invar q \<Longrightarrow> lookup q t = Some a \<longleftrightarrow> a \<in> entries q \<and> key q a = key_of t"
  by (metis key_unique lookup_complete lookup_sound option.exhaust)

lemma lookup_None_iff: "invar q \<Longrightarrow> lookup q t = None \<longleftrightarrow> key_of t \<notin> key q ` entries q"
  using lookup_complete lookup_sound by (metis (no_types, lifting) image_iff not_Some_eq)

lemma lookup_ins:
  assumes "invar q" and "key q a \<notin> key q ` entries q"
  shows "lookup (ins q a) t = (if key_of t = key q a then Some a else lookup q t)"
proof (cases "lookup (ins q a) t")
  case None
  with assms have "key_of t \<notin> key q ` insert a (entries q)"
    by (simp add: lookup_None_iff invar_ins entries_ins key_ins)
  with assms(1) show ?thesis using None lookup_None_iff [of q t] by auto
next
  case (Some b)
  with assms have "b \<in> insert a (entries q)" "key q b = key_of t"
    using lookup_iff [OF invar_ins [OF assms], of t b] by (auto simp: entries_ins key_ins)
  moreover have "c \<in> entries q \<Longrightarrow> key q c \<noteq> key q a" for c using assms(2) by (metis image_eqI)
  ultimately show ?thesis using assms(1) Some lookup_iff [of q t b] by auto
qed

lemma lookup_del:
  assumes "invar q"
  shows "lookup (del q t) u = (if key_of u = key_of t then None else lookup q u)"
proof (cases "lookup (del q t) u")
  case None
  then have "key_of u \<notin> key q ` {a \<in> entries q. key q a \<noteq> key_of t}"
    using assms lookup_None_iff [OF invar_del [OF assms]] by (simp add: entries_del key_del)
  then show ?thesis using None assms lookup_None_iff [of q u] by auto
next
  case (Some b)
  then have "b \<in> entries q" "key q b \<noteq> key_of t" "key q b = key_of u"
    using lookup_iff [OF invar_del [OF assms], of t u b] assms by (auto simp: entries_del key_del)
  with assms Some show ?thesis using lookup_iff [of q u b] by auto
qed

end

section \<open>Linked lists over one store\<close>

text \<open>
  \<open>on m h xs\<close>: the list with head \<open>h\<close> holds the objects \<open>xs\<close>, in this order. The lists of
  different heads live in the same store \<open>m\<close> and do not share objects.
\<close>

locale linked_lists =
  fixes on :: "'m \<Rightarrow> 'h \<Rightarrow> nat list \<Rightarrow> bool"
    and add_tail :: "'m \<Rightarrow> 'h \<Rightarrow> nat \<Rightarrow> 'm"
    and add_front :: "'m \<Rightarrow> 'h \<Rightarrow> nat \<Rightarrow> 'm"
    and take_out :: "'m \<Rightarrow> nat \<Rightarrow> 'm"
    and head :: "'h \<Rightarrow> bool"
  assumes on_tail: "head h \<Longrightarrow> on m h xs \<Longrightarrow> distinct (xs @ [a]) \<Longrightarrow> on (add_tail m h a) h (xs @ [a])"
    and on_tail_other: "head h \<Longrightarrow> head k \<Longrightarrow> h \<noteq> k \<Longrightarrow> on m h xs \<Longrightarrow> on m k ys \<Longrightarrow> set ys \<inter> set xs = {}
        \<Longrightarrow> a \<notin> set ys \<Longrightarrow> on (add_tail m h a) k ys"
    and on_front: "head h \<Longrightarrow> on m h xs \<Longrightarrow> distinct (a # xs) \<Longrightarrow> on (add_front m h a) h (a # xs)"
    and on_front_other: "head h \<Longrightarrow> head k \<Longrightarrow> h \<noteq> k \<Longrightarrow> on m h xs \<Longrightarrow> on m k ys \<Longrightarrow> set ys \<inter> set xs = {}
        \<Longrightarrow> a \<notin> set ys \<Longrightarrow> on (add_front m h a) k ys"
    and on_take: "head h \<Longrightarrow> on m h (xs @ a # ys) \<Longrightarrow> distinct (xs @ a # ys) \<Longrightarrow> on (take_out m a) h (xs @ ys)"
    and on_take_other: "head h \<Longrightarrow> head k \<Longrightarrow> h \<noteq> k \<Longrightarrow> on m h (xs @ a # ys) \<Longrightarrow> on m k zs
        \<Longrightarrow> set zs \<inter> set (xs @ a # ys) = {} \<Longrightarrow> on (take_out m a) k zs"
begin

text \<open>Moving the first object of one list to the front of another.\<close>

lemma move_front:
  assumes "head h" "head k" "h \<noteq> k" "on m h (a # xs)" "on m k ys" "distinct (a # xs @ ys)"
  shows "on (add_front (take_out m a) k a) h xs" and "on (add_front (take_out m a) k a) k (a # ys)"
proof -
  have h: "on (take_out m a) h xs"
    using on_take [of h m "[]" a xs] assms by simp
  have k: "on (take_out m a) k ys"
    using on_take_other [of h k m "[]" a xs ys] assms by auto
  show "on (add_front (take_out m a) k a) k (a # ys)"
    using on_front [OF assms(2) k] assms(6) by simp
  show "on (add_front (take_out m a) k a) h xs"
    using on_front_other [OF assms(2,1) _ k h] assms(3,6) by auto
qed

lemma move_front_other:
  assumes "head h" "head k" "head l" "h \<noteq> k" "l \<noteq> h" "l \<noteq> k" "on m h (a # xs)" "on m k ys" "on m l zs"
    "distinct (a # xs @ ys @ zs)"
  shows "on (add_front (take_out m a) k a) l zs"
proof -
  have "on (take_out m a) k ys"
    using on_take_other [of h k m "[]" a xs ys] assms by auto
  moreover have "on (take_out m a) l zs"
    using on_take_other [of h l m "[]" a xs zs] assms by auto
  ultimately show ?thesis
    using on_front_other [of k l "take_out m a" ys zs a] assms by auto
qed

end

section \<open>Queues\<close>

text \<open>
  A run of a queue: the values put in and taken out, in the order in which the steps were made. The
  steps are relations, since an operation may wait, fail or depend on the operating system.
\<close>

inductive queue_run :: "('q \<Rightarrow> 'a \<Rightarrow> 'q \<Rightarrow> bool) \<Rightarrow> ('q \<Rightarrow> 'a \<Rightarrow> 'q \<Rightarrow> bool) \<Rightarrow> 'q \<Rightarrow> 'a list \<Rightarrow> 'a list \<Rightarrow> 'q \<Rightarrow> bool"
  for enq deq q0 where
  run_start: "queue_run enq deq q0 [] [] q0"
| run_enq: "queue_run enq deq q0 ins outs q \<Longrightarrow> enq q x q' \<Longrightarrow> queue_run enq deq q0 (ins @ [x]) outs q'"
| run_deq: "queue_run enq deq q0 ins outs q \<Longrightarrow> deq q x q' \<Longrightarrow> queue_run enq deq q0 ins (outs @ [x]) q'"

locale fifo =
  fixes invar :: "'q \<Rightarrow> bool"
    and view :: "'q \<Rightarrow> 'a list"
    and enq :: "'q \<Rightarrow> 'a \<Rightarrow> 'q \<Rightarrow> bool"
    and deq :: "'q \<Rightarrow> 'a \<Rightarrow> 'q \<Rightarrow> bool"
  assumes enq_law: "invar q \<Longrightarrow> enq q x q' \<Longrightarrow> invar q' \<and> view q' = view q @ [x]"
    and deq_law: "invar q \<Longrightarrow> deq q x q' \<Longrightarrow> invar q' \<and> view q = x # view q'"
begin

text \<open>Nothing is lost, duplicated or overtaken.\<close>

lemma run_order: "queue_run enq deq q0 ins outs q \<Longrightarrow> invar q0 \<Longrightarrow> invar q \<and> view q0 @ ins = outs @ view q"
proof (induction rule: queue_run.induct)
  case (run_enq ins outs q x q')
  then show ?case using enq_law [of q x q'] by simp
next
  case (run_deq ins outs q x q')
  then show ?case using deq_law [of q x q'] by simp
qed simp

lemma drained_run: "queue_run enq deq q0 ins outs q \<Longrightarrow> invar q0 \<Longrightarrow> view q = [] \<Longrightarrow> outs = view q0 @ ins"
  using run_order by fastforce

end

section \<open>Opening connections\<close>

text \<open>
  A function that opens a connection: a descriptor or a negative number, the open descriptors, and the state.
\<close>

locale connector =
  fixes connect :: "'c \<Rightarrow> int list \<Rightarrow> 's \<Rightarrow> int \<times> int list \<times> 's"
  assumes opened: "connect c op s = (fd, op', s') \<Longrightarrow> op' = (if fd < 0 then op else fd # op)"
begin

lemma close_restores: "connect c op s = (fd, op', s') \<Longrightarrow> (if fd < 0 then op' else remove1 fd op') = op"
  by (drule opened) simp

lemma failed_leaves_nothing: "connect c op s = (fd, op', s') \<Longrightarrow> fd < 0 \<Longrightarrow> op' = op"
  by (drule opened) simp

end

end
