(* ===== verification/Request_Queue_Structures.thy ===== *)
theory Request_Queue_Structures
  imports Request_Queue Interfaces
begin

text \<open>
  The two data structures inside the request queue: the circular doubly linked lists over the store
  of items, which interpret the interface of linked lists, and the hash index, which interprets the
  interface of an index by key.
\<close>

section \<open>Definitions\<close>

text \<open>
  A doubly linked segment from \<open>a\<close> over the objects \<open>xs\<close> to \<open>b\<close>, for a successor and a
  predecessor function; a list is a segment from its head back to its head.
\<close>

fun lseg :: "('a \<Rightarrow> 'a) \<Rightarrow> ('a \<Rightarrow> 'a) \<Rightarrow> 'a \<Rightarrow> 'a list \<Rightarrow> 'a \<Rightarrow> bool" where
  "lseg nx pv a [] b = (nx a = b \<and> pv b = a)"
| "lseg nx pv a (x # xs) b = (nx a = x \<and> pv x = a \<and> lseg nx pv x xs b)"

definition linked :: "(iaddr \<Rightarrow> item) \<Rightarrow> iaddr \<Rightarrow> nat list \<Rightarrow> bool" where
  "linked m h xs \<longleftrightarrow> lseg (\<lambda>a. it_next (m a)) (\<lambda>a. it_prev (m a)) h (map Obj xs) h"

definition is_head :: "iaddr \<Rightarrow> bool" where
  "is_head h \<longleftrightarrow> h \<in> {reqHead, reqPrioHead, reqLowHead, reqBulkHead, dirtyHead, renderHead}"

text \<open>The key of an item in the index.\<close>

type_synonym probe_key = "int \<times> int \<times> int \<times> string"

definition item_key :: "item \<Rightarrow> probe_key" where
  "item_key i = (it_mx i, it_my i, pr_z (it_req i), pr_xmlname (it_req i))"

definition idx_chain :: "item_idx \<Rightarrow> nat list" where
  "idx_chain s = (case idx_item s of None \<Rightarrow> [] | Some t \<Rightarrow> t # idx_next s)"

definition index_entries :: "request_queue \<Rightarrow> nat set" where
  "index_entries q = (\<Union>k. set (idx_chain (q_hashidx q k)))"

definition queue_key :: "request_queue \<Rightarrow> nat \<Rightarrow> probe_key" where
  "queue_key q a = item_key (q_mem q (Obj a))"

definition index_invar :: "request_queue \<Rightarrow> bool" where
  "index_invar q \<longleftrightarrow>
     (\<forall>k. (idx_item (q_hashidx q k) = None \<longrightarrow> idx_next (q_hashidx q k) = [])
          \<and> distinct (idx_chain (q_hashidx q k))
          \<and> (\<forall>a \<in> set (idx_chain (q_hashidx q k)). calcHashKey q (q_mem q (Obj a)) = k))
     \<and> inj_on (queue_key q) (index_entries q)"

section \<open>Segments\<close>

lemma lseg_append:
  "lseg nx pv a (xs @ y # ys) b \<longleftrightarrow> lseg nx pv a xs y \<and> lseg nx pv y ys b"
  by (induction xs arbitrary: a) auto

lemma lseg_snoc: "lseg nx pv a (xs @ [y]) b \<longleftrightarrow> lseg nx pv a xs y \<and> nx y = b \<and> pv b = y"
  by (simp add: lseg_append)

lemma lseg_next_frame: "c \<notin> set (a # xs) \<Longrightarrow> lseg (nx(c := d)) pv a xs b = lseg nx pv a xs b"
  by (induction xs arbitrary: a) auto

lemma lseg_prev_frame: "c \<notin> set xs \<Longrightarrow> c \<noteq> b \<Longrightarrow> lseg nx (pv(c := d)) a xs b = lseg nx pv a xs b"
  by (induction xs arbitrary: a) auto

lemmas lseg_frames = lseg_next_frame lseg_prev_frame

lemma lseg_prev_end: "lseg nx pv a xs b \<Longrightarrow> pv b = last (a # xs)"
  by (induction xs arbitrary: a) auto

lemma lseg_next_start: "lseg nx pv a xs b \<Longrightarrow> nx a = hd (xs @ [b])"
  by (cases xs) auto

lemma lseg_add_tail:
  assumes "lseg nx pv h xs h" and "distinct (h # xs @ [a])"
  shows "lseg (nx(a := h, pv h := a)) (pv(a := pv h, h := a)) h (xs @ [a]) h"
proof (cases xs rule: rev_cases)
  case Nil
  with assms show ?thesis by auto
next
  case (snoc ys z)
  with assms(1) have z: "lseg nx pv h ys z" "nx z = h" "pv h = z" by (simp_all add: lseg_snoc)
  from snoc assms(2) have "lseg (nx(a := h, z := a)) (pv(a := z, h := a)) h ys z = lseg nx pv h ys z"
    by (auto simp: lseg_frames eq_commute)
  with z snoc assms(2) show ?thesis by (auto simp: lseg_append)
qed

lemma lseg_add_front:
  assumes "lseg nx pv h xs h" and "distinct (h # a # xs)"
  shows "lseg (nx(a := nx h, h := a)) (pv(a := h, nx h := a)) h (a # xs) h"
proof (cases xs)
  case Nil
  with assms show ?thesis by auto
next
  case (Cons y ys)
  with assms(2) have "lseg (nx(a := y, h := a)) (pv(a := h, y := a)) y ys h = lseg nx pv y ys h"
    by (auto simp: lseg_frames eq_commute)
  with Cons assms show ?thesis by auto
qed

lemma lseg_take_out:
  assumes "lseg nx pv h (xs @ a # ys) h" and "distinct (h # xs @ a # ys)"
  shows "lseg (nx(pv a := nx a)) (pv(nx a := pv a)) h (xs @ ys) h"
proof -
  from assms(1) have l: "lseg nx pv h xs a" and r: "lseg nx pv a ys h" by (simp_all add: lseg_append)
  let ?p = "last (h # xs)" and ?n = "hd (ys @ [h])"
  have p: "pv a = ?p" and n: "nx a = ?n"
    using lseg_prev_end [OF l] lseg_next_start [OF r] by auto
  have left: "lseg (nx(?p := ?n)) (pv(?n := ?p)) h xs ?n"
  proof (cases xs rule: rev_cases)
    case Nil
    then show ?thesis by simp
  next
    case (snoc us z)
    with l assms(2) show ?thesis
      by (cases ys) (auto simp: lseg_append lseg_frames)
  qed
  show ?thesis
  proof (cases ys)
    case Nil
    with left p n show ?thesis by simp
  next
    case (Cons y vs)
    with r assms(2) have "lseg (nx(?p := y)) (pv(y := ?p)) y vs h"
      by (cases xs rule: rev_cases) (auto simp: lseg_frames)
    with left Cons p n show ?thesis by (simp add: lseg_append)
  qed
qed

section \<open>The store\<close>

lemma set_next_simps [simp]:
  "it_next (set_next m a b c) = (if c = a then b else it_next (m c))"
  "it_prev (set_next m a b c) = it_prev (m c)"
  "it_req (set_next m a b c) = it_req (m c)"
  "it_mx (set_next m a b c) = it_mx (m c)"
  "it_my (set_next m a b c) = it_my (m c)"
  "it_fd (set_next m a b c) = it_fd (m c)"
  "it_duplicates (set_next m a b c) = it_duplicates (m c)"
  "it_inQueue (set_next m a b c) = it_inQueue (m c)"
  "it_originatedQueue (set_next m a b c) = it_originatedQueue (m c)"
  by (simp_all add: set_next_def)

lemma set_prev_simps [simp]:
  "it_next (set_prev m a b c) = it_next (m c)"
  "it_prev (set_prev m a b c) = (if c = a then b else it_prev (m c))"
  "it_req (set_prev m a b c) = it_req (m c)"
  "it_mx (set_prev m a b c) = it_mx (m c)"
  "it_my (set_prev m a b c) = it_my (m c)"
  "it_fd (set_prev m a b c) = it_fd (m c)"
  "it_duplicates (set_prev m a b c) = it_duplicates (m c)"
  "it_inQueue (set_prev m a b c) = it_inQueue (m c)"
  "it_originatedQueue (set_prev m a b c) = it_originatedQueue (m c)"
  by (simp_all add: set_prev_def)

lemma set_fd_simps [simp]:
  "it_next (set_fd m a f c) = it_next (m c)"
  "it_prev (set_fd m a f c) = it_prev (m c)"
  "it_req (set_fd m a f c) = it_req (m c)"
  "it_mx (set_fd m a f c) = it_mx (m c)"
  "it_my (set_fd m a f c) = it_my (m c)"
  "it_fd (set_fd m a f c) = (if c = a then f else it_fd (m c))"
  "it_duplicates (set_fd m a f c) = it_duplicates (m c)"
  "it_inQueue (set_fd m a f c) = it_inQueue (m c)"
  "it_originatedQueue (set_fd m a f c) = it_originatedQueue (m c)"
  by (simp_all add: set_fd_def)

lemma set_inQueue_simps [simp]:
  "it_next (set_inQueue m a e c) = it_next (m c)"
  "it_prev (set_inQueue m a e c) = it_prev (m c)"
  "it_req (set_inQueue m a e c) = it_req (m c)"
  "it_mx (set_inQueue m a e c) = it_mx (m c)"
  "it_my (set_inQueue m a e c) = it_my (m c)"
  "it_fd (set_inQueue m a e c) = it_fd (m c)"
  "it_duplicates (set_inQueue m a e c) = it_duplicates (m c)"
  "it_inQueue (set_inQueue m a e c) = (if c = a then e else it_inQueue (m c))"
  "it_originatedQueue (set_inQueue m a e c) = it_originatedQueue (m c)"
  by (simp_all add: set_inQueue_def)

lemma set_originated_simps [simp]:
  "it_next (set_originated m a e c) = it_next (m c)"
  "it_prev (set_originated m a e c) = it_prev (m c)"
  "it_req (set_originated m a e c) = it_req (m c)"
  "it_mx (set_originated m a e c) = it_mx (m c)"
  "it_my (set_originated m a e c) = it_my (m c)"
  "it_fd (set_originated m a e c) = it_fd (m c)"
  "it_duplicates (set_originated m a e c) = it_duplicates (m c)"
  "it_inQueue (set_originated m a e c) = it_inQueue (m c)"
  "it_originatedQueue (set_originated m a e c) = (if c = a then e else it_originatedQueue (m c))"
  by (simp_all add: set_originated_def)

lemma set_duplicates_simps [simp]:
  "it_next (set_duplicates m a d c) = it_next (m c)"
  "it_prev (set_duplicates m a d c) = it_prev (m c)"
  "it_req (set_duplicates m a d c) = it_req (m c)"
  "it_mx (set_duplicates m a d c) = it_mx (m c)"
  "it_my (set_duplicates m a d c) = it_my (m c)"
  "it_fd (set_duplicates m a d c) = it_fd (m c)"
  "it_duplicates (set_duplicates m a d c) = (if c = a then d else it_duplicates (m c))"
  "it_inQueue (set_duplicates m a d c) = it_inQueue (m c)"
  "it_originatedQueue (set_duplicates m a d c) = it_originatedQueue (m c)"
  by (simp_all add: set_duplicates_def)

text \<open>Linking and unlinking only write the two list pointers.\<close>

definition same_payload :: "item \<Rightarrow> item \<Rightarrow> bool" where
  "same_payload i j \<longleftrightarrow> i\<lparr>it_next := reqHead, it_prev := reqHead\<rparr> = j\<lparr>it_next := reqHead, it_prev := reqHead\<rparr>"

lemma same_payloadD:
  assumes "same_payload i j"
  shows "it_req i = it_req j" "it_mx i = it_mx j" "it_my i = it_my j" "it_fd i = it_fd j"
    "it_duplicates i = it_duplicates j" "it_inQueue i = it_inQueue j"
    "it_originatedQueue i = it_originatedQueue j"
  using assms by (cases i; cases j; simp add: same_payload_def)+

lemma link_payload [simp]:
  "same_payload (link_tail m h a c) (m c)"
  "same_payload (link_front m h a c) (m c)"
  "same_payload (unlink_item m a c) (m c)"
  by (simp_all add: same_payload_def link_tail_def link_front_def unlink_item_def Let_def
      set_next_def set_prev_def)

lemmas link_fields [simp] =
  link_payload(1) [THEN same_payloadD(1)] link_payload(2) [THEN same_payloadD(1)] link_payload(3) [THEN same_payloadD(1)]
  link_payload(1) [THEN same_payloadD(2)] link_payload(2) [THEN same_payloadD(2)] link_payload(3) [THEN same_payloadD(2)]
  link_payload(1) [THEN same_payloadD(3)] link_payload(2) [THEN same_payloadD(3)] link_payload(3) [THEN same_payloadD(3)]
  link_payload(1) [THEN same_payloadD(4)] link_payload(2) [THEN same_payloadD(4)] link_payload(3) [THEN same_payloadD(4)]
  link_payload(1) [THEN same_payloadD(5)] link_payload(2) [THEN same_payloadD(5)] link_payload(3) [THEN same_payloadD(5)]
  link_payload(1) [THEN same_payloadD(6)] link_payload(2) [THEN same_payloadD(6)] link_payload(3) [THEN same_payloadD(6)]
  link_payload(1) [THEN same_payloadD(7)] link_payload(2) [THEN same_payloadD(7)] link_payload(3) [THEN same_payloadD(7)]

section \<open>The doubly linked lists\<close>

abbreviation nexts :: "(iaddr \<Rightarrow> item) \<Rightarrow> iaddr \<Rightarrow> iaddr" where
  "nexts m \<equiv> \<lambda>a. it_next (m a)"

abbreviation prevs :: "(iaddr \<Rightarrow> item) \<Rightarrow> iaddr \<Rightarrow> iaddr" where
  "prevs m \<equiv> \<lambda>a. it_prev (m a)"

lemma nexts_link_tail: "a \<noteq> h \<Longrightarrow> nexts (link_tail m h a) = (nexts m)(a := h, prevs m h := a)"
  by (auto simp: link_tail_def Let_def)

lemma prevs_link_tail: "a \<noteq> h \<Longrightarrow> prevs (link_tail m h a) = (prevs m)(a := prevs m h, h := a)"
  by (auto simp: link_tail_def Let_def)

lemma nexts_link_front: "a \<noteq> h \<Longrightarrow> nexts (link_front m h a) = (nexts m)(a := nexts m h, h := a)"
  by (auto simp: link_front_def Let_def)

lemma prevs_link_front: "a \<noteq> h \<Longrightarrow> prevs (link_front m h a) = (prevs m)(a := h, nexts m h := a)"
  by (auto simp: link_front_def Let_def)

lemma nexts_unlink: "nexts m a \<noteq> a \<Longrightarrow> nexts (unlink_item m a) = (nexts m)(prevs m a := nexts m a)"
  by (auto simp: unlink_item_def Let_def)

lemma prevs_unlink: "nexts m a \<noteq> a \<Longrightarrow> prevs (unlink_item m a) = (prevs m)(nexts m a := prevs m a)"
  by (auto simp: unlink_item_def Let_def)

lemmas link_pointers = nexts_link_tail prevs_link_tail nexts_link_front prevs_link_front
  nexts_unlink prevs_unlink

lemma is_head_not_Obj [simp]: "\<not> is_head (Obj a)" "is_head h \<Longrightarrow> h \<noteq> Obj a" "is_head h \<Longrightarrow> Obj a \<noteq> h"
  by (auto simp: is_head_def)

lemma linked_ends:
  assumes "linked m h xs"
  shows "prevs m h = last (h # map Obj xs)" and "nexts m h = hd (map Obj xs @ [h])"
  using assms lseg_prev_end lseg_next_start unfolding linked_def by fastforce+

text \<open>A list is not touched by pointer writes to nodes that are not its own.\<close>

lemma linked_frame:
  assumes "linked m k zs" and "\<And>c. c = k \<or> c \<in> Obj ` set zs \<Longrightarrow> nexts m' c = nexts m c \<and> prevs m' c = prevs m c"
  shows "linked m' k zs"
proof -
  have "lseg nx pv a xs b = lseg nx' pv' a xs b"
    if "\<And>c. c \<in> insert a (insert b (set xs)) \<Longrightarrow> nx c = nx' c \<and> pv c = pv' c"
    for nx nx' pv pv' :: "iaddr \<Rightarrow> iaddr" and a b xs
    using that by (induction xs arbitrary: a) auto
  from this [of k k "map Obj zs" "nexts m" "nexts m'" "prevs m" "prevs m'"] assms show ?thesis
    by (auto simp: linked_def)
qed

interpretation ll: linked_lists linked "\<lambda>m h a. link_tail m h (Obj a)"
  "\<lambda>m h a. link_front m h (Obj a)" "\<lambda>m a. unlink_item m (Obj a)" is_head
proof (unfold_locales, goal_cases)
  case (1 h m xs a)
  then have "lseg (nexts m) (prevs m) h (map Obj xs) h" "distinct (h # map Obj xs @ [Obj a])"
    by (auto simp: linked_def distinct_map inj_on_def)
  from lseg_add_tail [OF this] 1 show ?case
    by (simp add: linked_def link_pointers)
next
  case (2 h k m xs ys a)
  then have "prevs m h = h \<or> prevs m h \<in> Obj ` set xs"
    using linked_ends(1) [OF 2(4)] by (auto simp: last_map)
  with 2 show ?case
    by (intro linked_frame [OF 2(5)]) (auto simp: link_tail_def Let_def)
next
  case (3 h m xs a)
  then have "lseg (nexts m) (prevs m) h (map Obj xs) h" "distinct (h # Obj a # map Obj xs)"
    by (auto simp: linked_def distinct_map inj_on_def)
  from lseg_add_front [OF this] 3 show ?case
    by (simp add: linked_def link_pointers)
next
  case (4 h k m xs ys a)
  then have "nexts m h = h \<or> nexts m h \<in> Obj ` set xs"
    using linked_ends(2) [OF 4(4)] by (cases xs) auto
  with 4 show ?case
    by (intro linked_frame [OF 4(5)]) (auto simp: link_front_def Let_def)
next
  case (5 h m xs a ys)
  then have s: "lseg (nexts m) (prevs m) h (map Obj xs @ Obj a # map Obj ys) h"
      "distinct (h # map Obj xs @ Obj a # map Obj ys)"
    by (auto simp: linked_def distinct_map inj_on_def)
  then have "nexts m (Obj a) = hd (map Obj ys @ [h])"
    by (auto simp: lseg_append dest: lseg_next_start)
  with s(2) have "nexts m (Obj a) \<noteq> Obj a" by (cases ys) auto
  with lseg_take_out [OF s] show ?case
    by (simp add: linked_def link_pointers)
next
  case (6 h k m xs a ys zs)
  have "lseg (nexts m) (prevs m) h (map Obj xs) (Obj a)" "lseg (nexts m) (prevs m) (Obj a) (map Obj ys) h"
    using 6(4) by (simp_all add: linked_def lseg_append)
  then have "prevs m (Obj a) = last (h # map Obj xs)" "nexts m (Obj a) = hd (map Obj ys @ [h])"
    by (auto dest: lseg_prev_end lseg_next_start)
  then have "prevs m (Obj a) \<in> insert h (Obj ` set xs)" "nexts m (Obj a) \<in> insert h (Obj ` set ys)"
    by (cases xs rule: rev_cases; cases ys; auto)+
  with 6 show ?case
    by (intro linked_frame [OF 6(5)]) (auto simp: unlink_item_def Let_def)
qed

section \<open>The hash index\<close>

lemma same_tile_key: "same_tile i t \<longleftrightarrow> item_key i = item_key t"
  by (auto simp: same_tile_def item_key_def)

lemma calcHashKey_key: "item_key i = item_key t \<Longrightarrow> calcHashKey q i = calcHashKey q t"
  by (auto simp: item_key_def calcHashKey_def)

lemma lookup_chain_find: "lookup_chain m i ts = find (\<lambda>t. item_key (m (Obj t)) = item_key i) ts"
  by (induction ts) (auto simp: same_tile_key)

lemma lookup_item_idx_chain:
  "lookup_item_idx q i = lookup_chain (q_mem q) i (idx_chain (q_hashidx q (calcHashKey q i)))"
  by (auto simp: lookup_item_idx_def idx_chain_def Let_def split: option.splits)

lemma remove_chain_filter:
  assumes "distinct ts" and "inj_on (\<lambda>t. item_key (m (Obj t))) (set ts)"
  shows "remove_chain m i ts = filter (\<lambda>t. item_key (m (Obj t)) \<noteq> item_key i) ts"
  using assms
proof (induction ts)
  case (Cons t ts)
  show ?case
  proof (cases "item_key (m (Obj t)) = item_key i")
    case True
    with Cons.prems have "filter (\<lambda>t. item_key (m (Obj t)) \<noteq> item_key i) ts = ts"
      by (intro filter_True) (force simp: inj_on_def)
    with True show ?thesis by (simp add: same_tile_key)
  next
    case False
    with Cons show ?thesis by (auto simp: same_tile_key)
  qed
qed simp

lemma index_invarD:
  assumes "index_invar q"
  shows "idx_item (q_hashidx q k) = None \<Longrightarrow> idx_next (q_hashidx q k) = []"
    and "distinct (idx_chain (q_hashidx q k))"
    and "a \<in> set (idx_chain (q_hashidx q k)) \<Longrightarrow> calcHashKey q (q_mem q (Obj a)) = k"
    and "inj_on (queue_key q) (index_entries q)"
  using assms by (auto simp: index_invar_def)

lemma in_entries: "index_invar q \<Longrightarrow> a \<in> index_entries q \<longleftrightarrow>
    a \<in> set (idx_chain (q_hashidx q (calcHashKey q (q_mem q (Obj a)))))"
  using index_invarD(3) [of q a] by (auto simp: index_entries_def)

lemma chain_entries: "a \<in> set (idx_chain (q_hashidx q k)) \<Longrightarrow> a \<in> index_entries q"
  by (auto simp: index_entries_def)

lemma idx_chain_insert:
  "idx_item (q_hashidx q k) = None \<longrightarrow> idx_next (q_hashidx q k) = [] \<Longrightarrow>
   idx_chain (q_hashidx (insert_item_idx q a) k) =
     (if k = calcHashKey q (q_mem q (Obj a)) then idx_chain (q_hashidx q k) @ [a] else idx_chain (q_hashidx q k))"
  by (auto simp: insert_item_idx_def idx_chain_def Let_def split: option.splits)

lemma insert_item_idx_simps [simp]:
  "q_mem (insert_item_idx q a) = q_mem q"
  "q_alloc (insert_item_idx q a) = q_alloc q"
  "q_hashidxSize (insert_item_idx q a) = q_hashidxSize q"
  "q_reqNum (insert_item_idx q a) = q_reqNum q"
  "q_reqPrioNum (insert_item_idx q a) = q_reqPrioNum q"
  "q_reqLowNum (insert_item_idx q a) = q_reqLowNum q"
  "q_reqBulkNum (insert_item_idx q a) = q_reqBulkNum q"
  "q_dirtyNum (insert_item_idx q a) = q_dirtyNum q"
  "q_stats (insert_item_idx q a) = q_stats q"
  by (simp_all add: insert_item_idx_def Let_def)

lemma remove_item_idx_simps [simp]:
  "q_mem (remove_item_idx q i) = q_mem q"
  "q_alloc (remove_item_idx q i) = q_alloc q"
  "q_hashidxSize (remove_item_idx q i) = q_hashidxSize q"
  "q_reqNum (remove_item_idx q i) = q_reqNum q"
  "q_reqPrioNum (remove_item_idx q i) = q_reqPrioNum q"
  "q_reqLowNum (remove_item_idx q i) = q_reqLowNum q"
  "q_reqBulkNum (remove_item_idx q i) = q_reqBulkNum q"
  "q_dirtyNum (remove_item_idx q i) = q_dirtyNum q"
  "q_stats (remove_item_idx q i) = q_stats q"
  by (simp_all add: remove_item_idx_def Let_def split: option.split)

lemma calcHashKey_size: "q_hashidxSize q' = q_hashidxSize q \<Longrightarrow> calcHashKey q' = calcHashKey q"
  by (rule ext) (simp add: calcHashKey_def)

lemma queue_key_mem [simp]: "queue_key (insert_item_idx q a) = queue_key q"
    "queue_key (remove_item_idx q i) = queue_key q"
  by (simp_all add: queue_key_def fun_eq_iff)

lemma idx_chain_remove:
  assumes "index_invar q"
  shows "idx_chain (q_hashidx (remove_item_idx q i) k) =
    filter (\<lambda>t. queue_key q t \<noteq> item_key i) (idx_chain (q_hashidx q k))"
proof (cases "k = calcHashKey q i")
  case False
  have "queue_key q t \<noteq> item_key i" if "t \<in> set (idx_chain (q_hashidx q k))" for t
    using index_invarD(3) [OF assms that] False calcHashKey_key by (metis queue_key_def)
  then have "filter (\<lambda>t. queue_key q t \<noteq> item_key i) (idx_chain (q_hashidx q k)) = idx_chain (q_hashidx q k)"
    by simp
  with False show ?thesis by (auto simp: remove_item_idx_def Let_def split: option.splits)
next
  case True
  show ?thesis
  proof (cases "idx_item (q_hashidx q k)")
    case None
    with True show ?thesis by (simp add: remove_item_idx_def Let_def idx_chain_def)
  next
    case (Some t)
    let ?ts = "t # idx_next (q_hashidx q k)"
    from Some have c: "idx_chain (q_hashidx q k) = ?ts" by (simp add: idx_chain_def)
    have "set ?ts \<subseteq> index_entries q" using chain_entries [of _ q k] c by auto
    then have "inj_on (\<lambda>t. item_key (q_mem q (Obj t))) (set ?ts)" "distinct ?ts"
      using index_invarD(2) [OF assms, of k] inj_on_subset [OF index_invarD(4) [OF assms]] c
      unfolding queue_key_def by auto
    then have r: "remove_chain (q_mem q) i ?ts = filter (\<lambda>t. queue_key q t \<noteq> item_key i) ?ts"
      using remove_chain_filter [of ?ts "q_mem q" i] unfolding queue_key_def by blast
    have "idx_chain (q_hashidx (remove_item_idx q i) k) = remove_chain (q_mem q) i ?ts"
      using Some True by (auto simp: remove_item_idx_def Let_def idx_chain_def split: list.split)
    with r c show ?thesis by simp
  qed
qed

interpretation idx: keyed_index index_invar index_entries queue_key item_key
  lookup_item_idx insert_item_idx remove_item_idx
proof (unfold_locales, goal_cases)
  case (1 q t a)
  then show ?case
    using chain_entries [of a q "calcHashKey q t"]
    by (auto simp: lookup_item_idx_chain lookup_chain_find find_Some_iff queue_key_def)
next
  case (2 q t a)
  then show ?case
    using in_entries [of q a] calcHashKey_key [of "q_mem q (Obj a)" t q]
    by (auto simp: lookup_item_idx_chain lookup_chain_find find_None_iff queue_key_def)
next
  case (3 q a b)
  then show ?case using index_invarD(4) by (auto simp: inj_on_def)
next
  case (5 q a)
  note c = idx_chain_insert [of q _ a] index_invarD(1) [OF 5(1)]
  show ?case using c by (auto simp: index_entries_def split: if_splits)
next
  case (4 q a)
  note c = idx_chain_insert [of q _ a] index_invarD(1) [OF 4(1)]
  have new: "a \<notin> index_entries q" using 4(2) by auto
  have e: "index_entries (insert_item_idx q a) = insert a (index_entries q)"
    using c by (auto simp: index_entries_def split: if_splits)
  have inj: "inj_on (queue_key (insert_item_idx q a)) (insert a (index_entries q))"
    using 4 index_invarD(4) by auto
  have s: "idx_item (q_hashidx (insert_item_idx q a) k) = None \<Longrightarrow> idx_next (q_hashidx (insert_item_idx q a) k) = []" for k
    using index_invarD(1) [OF 4(1)] by (auto simp: insert_item_idx_def Let_def split: if_splits option.splits)
  have n: "a \<notin> set (idx_chain (q_hashidx q k))" for k using new chain_entries by metis
  show ?case
    unfolding index_invar_def e
    using s inj n c index_invarD(2,3) [OF 4(1)] by (auto simp: calcHashKey_size [of "insert_item_idx q a" q])
next
  case (6 q a)
  show ?case by simp
next
  case (8 q t)
  then show ?case by (auto simp: index_entries_def idx_chain_remove)
next
  case (7 q t)
  have s: "idx_item (q_hashidx (remove_item_idx q t) k) = None \<Longrightarrow> idx_next (q_hashidx (remove_item_idx q t) k) = []" for k
    using index_invarD(1) [OF 7]
    by (auto simp: remove_item_idx_def Let_def split: if_splits option.splits list.splits)
  have "index_entries (remove_item_idx q t) \<subseteq> index_entries q"
    using 7 by (auto simp: index_entries_def idx_chain_remove)
  then have "inj_on (queue_key (remove_item_idx q t)) (index_entries (remove_item_idx q t))"
    using index_invarD(4) [OF 7] by (auto intro: inj_on_subset)
  with s index_invarD(2,3) [OF 7] show ?case
    unfolding index_invar_def
    by (simp add: idx_chain_remove [OF 7] calcHashKey_size [of "remove_item_idx q t" q])
next
  case (9 q t)
  show ?case by simp
qed

end
