(* ===== verification/Request_Queue_Spec.thy ===== *)
theory Request_Queue_Spec
  imports Request_Queue_Structures
begin

text \<open>
  Correctness of the request queue. The pointer structure is related to a view of plain lists
  (\<open>qview\<close>): the six lists of items and, for each item, the list of its duplicates. The relation
  \<open>repr\<close> is the invariant of the queue, the operations on the view are its abstract specification,
  and each operation of the code is shown to implement the operation on the view.
\<close>

section \<open>The abstract queue\<close>

text \<open>
  The view of the queue as plain lists: the items on each of the six lists, oldest first (newest
  first on the render list), and the requests attached to an item as its duplicates, newest first.
\<close>

record qview =
  v_list :: "iaddr \<Rightarrow> nat list"
  v_dups :: "nat \<Rightarrow> nat list"

definition queued :: "qview \<Rightarrow> nat set" where
  "queued v = (\<Union>h. set (v_list v h))"

definition owned :: "qview \<Rightarrow> nat set" where
  "owned v = queued v \<union> (\<Union>a. set (v_dups v a))"

definition empty_view :: qview where
  "empty_view = \<lparr>v_list = (\<lambda>_. []), v_dups = (\<lambda>_. [])\<rparr>"

text \<open>No object is on two lists, or twice on one, or attached to two items.\<close>

definition view_ok :: "qview \<Rightarrow> bool" where
  "view_ok v \<longleftrightarrow>
     (\<forall>h. \<not> is_head h \<longrightarrow> v_list v h = []) \<and> (\<forall>h. distinct (v_list v h))
     \<and> (\<forall>h k. h \<noteq> k \<longrightarrow> set (v_list v h) \<inter> set (v_list v k) = {})
     \<and> (\<forall>a. a \<notin> queued v \<longrightarrow> v_dups v a = []) \<and> (\<forall>a. distinct (v_dups v a))
     \<and> (\<forall>a. set (v_dups v a) \<inter> queued v = {})
     \<and> (\<forall>a b. a \<noteq> b \<longrightarrow> set (v_dups v a) \<inter> set (v_dups v b) = {})
     \<and> (\<forall>a \<in> set (v_list v dirtyHead) \<union> set (v_list v reqBulkHead). v_dups v a = [])"

text \<open>The chain of duplicates that starts with the pointer \<open>p\<close>.\<close>

fun dchain :: "(iaddr \<Rightarrow> item) \<Rightarrow> nat option \<Rightarrow> nat list \<Rightarrow> bool" where
  "dchain m p [] = (p = None)"
| "dchain m p (d # ds) = (p = Some d \<and> dchain m (it_duplicates (m (Obj d))) ds)"

fun queue_of :: "iaddr \<Rightarrow> queueEnum" where
  "queue_of reqHead = queueRequest"
| "queue_of reqPrioHead = queueRequestPrio"
| "queue_of reqLowHead = queueRequestLow"
| "queue_of reqBulkHead = queueRequestBulk"
| "queue_of dirtyHead = queueDirty"
| "queue_of renderHead = queueRender"
| "queue_of (Obj a) = queueDuplicate"

definition mem_ok :: "(iaddr \<Rightarrow> item) \<Rightarrow> qview \<Rightarrow> bool" where
  "mem_ok m v \<longleftrightarrow>
     (\<forall>h. is_head h \<longrightarrow> linked m h (v_list v h))
     \<and> (\<forall>a \<in> queued v. dchain m (it_duplicates (m (Obj a))) (v_dups v a))
     \<and> (\<forall>h. \<forall>a \<in> set (v_list v h). it_inQueue (m (Obj a)) = queue_of h)
     \<and> (\<forall>a. \<forall>d \<in> set (v_dups v a). item_key (m (Obj d)) = item_key (m (Obj a)))
     \<and> (\<forall>a \<in> set (v_list v dirtyHead). it_fd (m (Obj a)) = FD_INVALID)"

definition counts_ok :: "request_queue \<Rightarrow> qview \<Rightarrow> bool" where
  "counts_ok q v \<longleftrightarrow>
     q_reqNum q = int (length (v_list v reqHead)) \<and> q_reqPrioNum q = int (length (v_list v reqPrioHead))
     \<and> q_reqLowNum q = int (length (v_list v reqLowHead)) \<and> q_reqBulkNum q = int (length (v_list v reqBulkHead))
     \<and> q_dirtyNum q = int (length (v_list v dirtyHead))
     \<and> q_reqNum q \<le> REQ_LIMIT \<and> q_reqPrioNum q \<le> REQ_LIMIT \<and> q_reqLowNum q \<le> REQ_LIMIT
     \<and> q_reqBulkNum q \<le> REQ_LIMIT \<and> q_dirtyNum q \<le> DIRTY_LIMIT"

definition repr :: "request_queue \<Rightarrow> qview \<Rightarrow> bool" where
  "repr q v \<longleftrightarrow>
     view_ok v \<and> mem_ok (q_mem q) v \<and> counts_ok q v \<and> (\<forall>a \<in> owned v. q_alloc q a)
     \<and> index_invar q \<and> index_entries q = queued v \<and> 0 < q_hashidxSize q"

text \<open>
  What the operations do to the view: the abstract queue, in which a tile is looked up by searching
  all lists.
\<close>

definition v_push :: "iaddr \<Rightarrow> nat \<Rightarrow> qview \<Rightarrow> qview" where
  "v_push h a v = v\<lparr>v_list := (v_list v)(h := v_list v h @ [a])\<rparr>"

definition v_attach :: "nat \<Rightarrow> nat \<Rightarrow> qview \<Rightarrow> qview" where
  "v_attach i a v = v\<lparr>v_dups := (v_dups v)(i := a # v_dups v i)\<rparr>"

definition v_start :: "iaddr \<Rightarrow> qview \<Rightarrow> qview" where
  "v_start h v = v\<lparr>v_list := (v_list v)(h := tl (v_list v h),
                                      renderHead := hd (v_list v h) # v_list v renderHead)\<rparr>"

definition v_drop :: "nat \<Rightarrow> qview \<Rightarrow> qview" where
  "v_drop a v = \<lparr>v_list = (\<lambda>h. removeAll a (v_list v h)), v_dups = (v_dups v)(a := [])\<rparr>"

text \<open>The lists a duplicate can be attached on, those it is dropped on, and the order of fetching.\<close>

definition attach_heads :: "iaddr list" where
  "attach_heads = [renderHead, reqHead, reqPrioHead, reqLowHead]"

definition refuse_heads :: "iaddr list" where
  "refuse_heads = [dirtyHead, reqBulkHead]"

definition fetch_order :: "iaddr list" where
  "fetch_order = [reqPrioHead, reqHead, reqLowHead, dirtyHead, reqBulkHead]"

text \<open>The list a new tile goes to, when one of them has room.\<close>

fun head_for :: "protoCmd \<Rightarrow> iaddr" where
  "head_for cmdRender = reqHead"
| "head_for cmdRenderPrio = reqPrioHead"
| "head_for cmdRenderLow = reqLowHead"
| "head_for cmdRenderBulk = reqBulkHead"
| "head_for _ = dirtyHead"

definition room :: "iaddr \<Rightarrow> qview \<Rightarrow> bool" where
  "room h v \<longleftrightarrow> int (length (v_list v h)) < (if h = dirtyHead then DIRTY_LIMIT else REQ_LIMIT)"

definition v_place :: "protoCmd \<Rightarrow> nat \<Rightarrow> qview \<Rightarrow> protoCmd \<times> qview" where
  "v_place c a v =
     (if head_for c \<noteq> dirtyHead \<and> room (head_for c) v then (cmdIgnore, v_push (head_for c) a v)
      else if room dirtyHead v then (cmdNotDone, v_push dirtyHead a v)
      else (cmdNotDone, v))"

definition v_add :: "(nat \<Rightarrow> probe_key) \<Rightarrow> protoCmd \<Rightarrow> nat \<Rightarrow> qview \<Rightarrow> protoCmd \<times> qview" where
  "v_add key c a v =
     (case find (\<lambda>i. key i = key a) (concat (map (v_list v) attach_heads)) of
        Some i \<Rightarrow> (cmdIgnore, v_attach i a v)
      | None \<Rightarrow>
          if \<exists>i \<in> set (concat (map (v_list v) refuse_heads)). key i = key a then (cmdNotDone, v)
          else v_place c a v)"

definition v_fetch :: "qview \<Rightarrow> (nat \<times> qview) option" where
  "v_fetch v =
     (case find (\<lambda>h. v_list v h \<noteq> []) fetch_order of
        None \<Rightarrow> None
      | Some h \<Rightarrow> Some (hd (v_list v h), v_start h v))"

section \<open>Frames\<close>

lemma is_head_heads [simp]: "is_head reqHead" "is_head reqPrioHead" "is_head reqLowHead" "is_head reqBulkHead"
    "is_head dirtyHead" "is_head renderHead"
  by (simp_all add: is_head_def)

lemma linked_fields [simp]:
  "linked (set_inQueue m a e) h xs = linked m h xs"
  "linked (set_originated m a e) h xs = linked m h xs"
  "linked (set_duplicates m a d) h xs = linked m h xs"
  "linked (set_fd m a f) h xs = linked m h xs"
  by (simp_all add: linked_def)

lemma dchain_frame:
  assumes "\<And>d. d \<in> set ds \<Longrightarrow> it_duplicates (m' (Obj d)) = it_duplicates (m (Obj d))"
  shows "dchain m' p ds = dchain m p ds"
  using assms by (induction ds arbitrary: p) auto

lemma view_okD:
  assumes "view_ok v"
  shows "\<not> is_head h \<Longrightarrow> v_list v h = []" and "distinct (v_list v h)"
    and "h \<noteq> k \<Longrightarrow> set (v_list v h) \<inter> set (v_list v k) = {}"
    and "a \<notin> queued v \<Longrightarrow> v_dups v a = []" and "distinct (v_dups v a)"
    and "set (v_dups v a) \<inter> queued v = {}"
    and "a \<noteq> b \<Longrightarrow> set (v_dups v a) \<inter> set (v_dups v b) = {}"
    and "a \<in> set (v_list v dirtyHead) \<Longrightarrow> v_dups v a = []"
    and "a \<in> set (v_list v reqBulkHead) \<Longrightarrow> v_dups v a = []"
  using assms by (auto simp: view_ok_def)

lemma view_ok_elems:
  assumes "view_ok v"
  shows "h \<noteq> k \<Longrightarrow> x \<in> set (v_list v h) \<Longrightarrow> x \<notin> set (v_list v k)"
    and "x \<in> set (v_dups v a) \<Longrightarrow> x \<notin> queued v"
    and "a \<noteq> b \<Longrightarrow> x \<in> set (v_dups v a) \<Longrightarrow> x \<notin> set (v_dups v b)"
  using view_okD(3,6,7) [OF assms] by blast+

lemma mem_okD:
  assumes "mem_ok m v"
  shows "is_head h \<Longrightarrow> linked m h (v_list v h)"
    and "a \<in> queued v \<Longrightarrow> dchain m (it_duplicates (m (Obj a))) (v_dups v a)"
    and "a \<in> set (v_list v h) \<Longrightarrow> it_inQueue (m (Obj a)) = queue_of h"
    and "d \<in> set (v_dups v a) \<Longrightarrow> item_key (m (Obj d)) = item_key (m (Obj a))"
    and "a \<in> set (v_list v dirtyHead) \<Longrightarrow> it_fd (m (Obj a)) = FD_INVALID"
  using assms by (auto simp: mem_ok_def)

lemma queuedI: "a \<in> set (v_list v h) \<Longrightarrow> a \<in> queued v"
  by (auto simp: queued_def)

lemma queued_heads:
  assumes "view_ok v"
  shows "queued v = set (concat (map (v_list v) (attach_heads @ refuse_heads)))"
proof -
  have "v_list v (Obj a) = []" for a using view_okD(1) [OF assms] by simp
  then have "a \<in> set (v_list v h) \<Longrightarrow> h \<in> set (attach_heads @ refuse_heads)" for a h
    by (cases h) (auto simp: attach_heads_def refuse_heads_def)
  then show ?thesis by (auto simp: queued_def)
qed

text \<open>The index only reads the keys of the items and its own slots.\<close>

lemma index_frame:
  assumes "q_hashidx q' = q_hashidx q" "q_hashidxSize q' = q_hashidxSize q"
    and "\<And>a. queue_key q' a = queue_key q a"
  shows "index_invar q' = index_invar q" and "index_entries q' = index_entries q"
proof -
  have "calcHashKey q' (q_mem q' (Obj a)) = calcHashKey q (q_mem q (Obj a))" for a
    using calcHashKey_size [OF assms(2)] calcHashKey_key [of "q_mem q' (Obj a)" "q_mem q (Obj a)" q] assms(3)
    by (simp add: queue_key_def)
  moreover have "queue_key q' = queue_key q" using assms(3) by blast
  moreover show "index_entries q' = index_entries q" using assms by (simp add: index_entries_def)
  ultimately show "index_invar q' = index_invar q"
    using assms by (simp add: index_invar_def)
qed

lemma lookup_queued:
  assumes "repr q v"
  shows "lookup_item_idx q i = Some a \<longleftrightarrow> a \<in> queued v \<and> queue_key q a = item_key i"
    and "lookup_item_idx q i = None \<longleftrightarrow> item_key i \<notin> queue_key q ` queued v"
  using idx.lookup_iff [of q i a] idx.lookup_None_iff [of q i] assms by (simp_all add: repr_def)

section \<open>The initial queue\<close>

lemma repr_empty: "repr empty_queue empty_view"
  by (auto simp: repr_def empty_queue_def empty_view_def view_ok_def mem_ok_def counts_ok_def queued_def
      owned_def index_invar_def index_entries_def idx_chain_def linked_def empty_item_def HASHIDX_SIZE_def
      REQ_LIMIT_def DIRTY_LIMIT_def)

section \<open>Attaching a duplicate\<close>

lemma notin_owned:
  assumes "a \<notin> owned v"
  shows "a \<notin> queued v" "a \<notin> set (v_list v h)" "a \<notin> set (v_dups v b)"
  using assms by (auto simp: owned_def queued_def)

lemma queued_attach [simp]: "queued (v_attach i a v) = queued v"
  by (simp add: queued_def v_attach_def)

lemma owned_attach: "owned (v_attach i a v) = insert a (owned v)"
  by (auto simp: owned_def v_attach_def queued_def split: if_splits)

lemma attach_not_refused:
  assumes "view_ok v" and "i \<in> set (concat (map (v_list v) attach_heads))"
  shows "i \<notin> set (v_list v dirtyHead)" "i \<notin> set (v_list v reqBulkHead)"
  using assms view_okD(3) [OF assms(1)] by (fastforce simp: attach_heads_def)+

lemma view_ok_attach:
  assumes "view_ok v" "a \<notin> owned v" "i \<in> set (concat (map (v_list v) attach_heads))"
  shows "view_ok (v_attach i a v)"
proof -
  note d = view_okD [OF assms(1)] and n = notin_owned [OF assms(2)]
    and r = attach_not_refused [OF assms(1,3)]
  have "i \<in> queued v" using assms(3) by (auto simp: queued_def)
  then show ?thesis
    unfolding view_ok_def queued_attach
    using d n r by (auto simp: v_attach_def)
qed

definition attach_mem :: "(iaddr \<Rightarrow> item) \<Rightarrow> nat \<Rightarrow> nat \<Rightarrow> iaddr \<Rightarrow> item" where
  "attach_mem m i a =
     set_inQueue (set_duplicates (set_duplicates m (Obj a) (it_duplicates (m (Obj i)))) (Obj i) (Some a))
       (Obj a) queueDuplicate"

lemma attach_mem_key [simp]: "item_key (attach_mem m i a c) = item_key (m c)"
  by (simp add: attach_mem_def item_key_def)

lemma mem_ok_attach:
  assumes "view_ok v" "mem_ok m v" "a \<notin> owned v" "i \<in> set (concat (map (v_list v) attach_heads))"
    "item_key (m (Obj a)) = item_key (m (Obj i))"
  shows "mem_ok (attach_mem m i a) (v_attach i a v)"
proof -
  note d = view_okD [OF assms(1)] and e = mem_okD [OF assms(2)] and n = notin_owned [OF assms(3)]
    and r = attach_not_refused [OF assms(1,4)]
  have i: "i \<in> queued v" using assms(4) by (auto simp: queued_def)
  then have ia: "i \<noteq> a" using n by auto
  have dup: "it_duplicates (attach_mem m i a c) =
      (if c = Obj i then Some a else if c = Obj a then it_duplicates (m (Obj i)) else it_duplicates (m c))" for c
    using ia by (simp add: attach_mem_def)
  have "linked (attach_mem m i a) h (v_list v h)" if "is_head h" for h
    by (rule linked_frame [OF e(1) [OF that]]) (simp add: attach_mem_def)
  moreover have "dchain (attach_mem m i a) (it_duplicates (attach_mem m i a (Obj b))) (v_dups (v_attach i a v) b)"
    if b: "b \<in> queued v" for b
  proof -
    have f: "dchain (attach_mem m i a) p (v_dups v b) = dchain m p (v_dups v b)" for p
      by (rule dchain_frame) (use d(6) [of b] i n(3) in \<open>auto simp: dup\<close>)
    show ?thesis
    proof (cases "b = i")
      case True
      with f e(2) [OF b] ia show ?thesis by (auto simp: dup v_attach_def)
    next
      case False
      with f e(2) [OF b] b n(1) show ?thesis by (auto simp: dup v_attach_def)
    qed
  qed
  moreover have "it_inQueue (attach_mem m i a (Obj b)) = queue_of h" if "b \<in> set (v_list v h)" for b h
    using e(3) [OF that] n(2) [of h] that by (auto simp: attach_mem_def)
  moreover have "it_fd (attach_mem m i a c) = it_fd (m c)" for c by (simp add: attach_mem_def)
  ultimately show ?thesis
    using e(4,5) assms(5) by (auto simp: mem_ok_def v_attach_def queued_def)
qed

lemma repr_attach:
  assumes "repr q v" "a \<notin> owned v" "q_alloc q a" "i \<in> set (concat (map (v_list v) attach_heads))"
    "queue_key q a = queue_key q i"
  shows "repr (q\<lparr>q_mem := attach_mem (q_mem q) i a\<rparr>) (v_attach i a v)"
proof -
  let ?q = "q\<lparr>q_mem := attach_mem (q_mem q) i a\<rparr>"
  have "index_invar ?q = index_invar q" "index_entries ?q = index_entries q"
    using index_frame [of ?q q] by (simp_all add: queue_key_def)
  moreover have "counts_ok ?q (v_attach i a v) = counts_ok q v"
    by (simp add: counts_ok_def v_attach_def)
  ultimately show ?thesis
    using assms view_ok_attach mem_ok_attach
    by (simp add: repr_def owned_attach queue_key_def)
qed

section \<open>Placing a new item\<close>

lemma queued_push: "queued (v_push h a v) = insert a (queued v)"
  by (auto simp: queued_def v_push_def split: if_splits)

lemma owned_push: "owned (v_push h a v) = insert a (owned v)"
  by (auto simp: owned_def queued_push) (simp add: v_push_def)+

lemma view_ok_push:
  assumes "view_ok v" "a \<notin> owned v" "is_head h"
  shows "view_ok (v_push h a v)"
proof -
  note d = view_okD [OF assms(1)] and n = notin_owned [OF assms(2)]
  have "v_dups v a = []" using d(4) n(1) by blast
  moreover have "v_dups (v_push h a v) = v_dups v" by (simp add: v_push_def)
  moreover have "v_list (v_push h a v) k = (if k = h then v_list v h @ [a] else v_list v k)" for k
    by (simp add: v_push_def)
  ultimately show ?thesis
    unfolding view_ok_def queued_push
    using d n assms(3) by (auto split: if_splits)
qed


text \<open>The fields of the new item that its placement sets before it is linked.\<close>

definition place_mem :: "(iaddr \<Rightarrow> item) \<Rightarrow> iaddr \<Rightarrow> nat \<Rightarrow> iaddr \<Rightarrow> item" where
  "place_mem m h a =
     (let m' = set_originated (set_inQueue m (Obj a) (queue_of h)) (Obj a) (queue_of h)
      in if h = dirtyHead then set_fd m' (Obj a) FD_INVALID else m')"

lemma place_mem_simps [simp]:
  "it_next (place_mem m h a c) = it_next (m c)"
  "it_prev (place_mem m h a c) = it_prev (m c)"
  "it_duplicates (place_mem m h a c) = it_duplicates (m c)"
  "item_key (place_mem m h a c) = item_key (m c)"
  "it_inQueue (place_mem m h a c) = (if c = Obj a then queue_of h else it_inQueue (m c))"
  "it_fd (place_mem m h a c) = (if c = Obj a \<and> h = dirtyHead then FD_INVALID else it_fd (m c))"
  by (simp_all add: place_mem_def Let_def item_key_def)

lemma item_key_link [simp]:
  "item_key (link_tail m h b c) = item_key (m c)"
  "item_key (link_front m h b c) = item_key (m c)"
  "item_key (unlink_item m b c) = item_key (m c)"
  by (simp_all add: item_key_def)

lemma mem_ok_push:
  assumes "view_ok v" "mem_ok m v" "a \<notin> owned v" "is_head h" "it_duplicates (m (Obj a)) = None"
  shows "mem_ok (link_tail (place_mem m h a) h (Obj a)) (v_push h a v)"
proof -
  let ?m = "place_mem m h a"
  let ?m' = "link_tail ?m h (Obj a)"
  note d = view_okD [OF assms(1)] and e = mem_okD [OF assms(2)] and n = notin_owned [OF assms(3)]
  have l: "linked ?m k (v_list v k)" if "is_head k" for k
    by (rule linked_frame [OF e(1) [OF that]]) simp
  have "linked ?m' k (v_list (v_push h a v) k)" if k: "is_head k" for k
  proof (cases "k = h")
    case True
    have "distinct (v_list v h @ [a])" using d(2) [of h] n(2) [of h] by simp
    from ll.on_tail [OF k [unfolded True] l [OF k, unfolded True] this] True show ?thesis by (simp add: v_push_def)
  next
    case False
    with ll.on_tail_other [OF assms(4) k _ l [OF assms(4)] l [OF k], of a] d(3) [OF False] n(2) [of k]
    show ?thesis by (auto simp: v_push_def)
  qed
  moreover have "dchain ?m' (it_duplicates (?m' (Obj b))) (v_dups v b)" if "b \<in> insert a (queued v)" for b
  proof -
    have "v_dups v a = []" using d(4) n(1) by blast
    moreover have "dchain ?m' p (v_dups v b) = dchain m p (v_dups v b)" for p by (rule dchain_frame) simp
    ultimately show ?thesis using that e(2) assms(5) by auto
  qed
  moreover have "it_inQueue (?m' (Obj b)) = queue_of k" if "b \<in> set (v_list (v_push h a v) k)" for b k
    using that e(3) n(2) [of k] d(3) [of h k] by (auto simp: v_push_def split: if_splits)
  moreover have "it_fd (?m' (Obj b)) = FD_INVALID" if "b \<in> set (v_list (v_push h a v) dirtyHead)" for b
    using that e(5) n(2) by (auto simp: v_push_def split: if_splits)
  moreover have "v_dups (v_push h a v) = v_dups v" by (simp add: v_push_def)
  ultimately show ?thesis
    unfolding mem_ok_def queued_push using e(4) by auto
qed

text \<open>One counter follows its list.\<close>

definition bump :: "iaddr \<Rightarrow> request_queue \<Rightarrow> request_queue" where
  "bump h q =
     (case h of
        reqHead \<Rightarrow> q\<lparr>q_reqNum := q_reqNum q + 1\<rparr>
      | reqPrioHead \<Rightarrow> q\<lparr>q_reqPrioNum := q_reqPrioNum q + 1\<rparr>
      | reqLowHead \<Rightarrow> q\<lparr>q_reqLowNum := q_reqLowNum q + 1\<rparr>
      | reqBulkHead \<Rightarrow> q\<lparr>q_reqBulkNum := q_reqBulkNum q + 1\<rparr>
      | dirtyHead \<Rightarrow> q\<lparr>q_dirtyNum := q_dirtyNum q + 1\<rparr>
      | _ \<Rightarrow> q)"

lemma bump_simps [simp]:
  "q_mem (bump h q) = q_mem q" "q_alloc (bump h q) = q_alloc q" "q_hashidx (bump h q) = q_hashidx q"
  "q_hashidxSize (bump h q) = q_hashidxSize q" "q_stats (bump h q) = q_stats q"
  by (simp_all add: bump_def split: iaddr.splits)

lemma counts_bump:
  assumes "counts_ok q v" "room h v" "is_head h"
  shows "counts_ok (bump h q) (v_push h a v)"
  using assms by (cases h) (auto simp: counts_ok_def bump_def room_def v_push_def is_head_def)

lemma counts_frame:
  assumes "q_reqNum q' = q_reqNum q" "q_reqPrioNum q' = q_reqPrioNum q" "q_reqLowNum q' = q_reqLowNum q"
    "q_reqBulkNum q' = q_reqBulkNum q" "q_dirtyNum q' = q_dirtyNum q"
  shows "counts_ok q' v = counts_ok q v"
  using assms by (simp add: counts_ok_def)

text \<open>The queue after a new item was placed on list \<open>h\<close>.\<close>

definition placed :: "iaddr \<Rightarrow> nat \<Rightarrow> request_queue \<Rightarrow> request_queue" where
  "placed h a q =
     insert_item_idx ((bump h q)\<lparr>q_mem := link_tail (place_mem (q_mem q) h a) h (Obj a)\<rparr>) a"

lemma repr_placed:
  assumes "repr q v" "a \<notin> owned v" "q_alloc q a" "is_head h" "room h v"
    "it_duplicates (q_mem q (Obj a)) = None" "queue_key q a \<notin> queue_key q ` queued v"
  shows "repr (placed h a q) (v_push h a v)"
proof -
  let ?q = "(bump h q)\<lparr>q_mem := link_tail (place_mem (q_mem q) h a) h (Obj a)\<rparr>"
  have k: "queue_key ?q b = queue_key q b" for b by (simp add: queue_key_def)
  then have kf: "queue_key ?q = queue_key q" by blast
  have i: "index_invar ?q" "index_entries ?q = queued v"
    using index_frame [of ?q q] k assms(1) by (simp_all add: repr_def)
  have "counts_ok (placed h a q) (v_push h a v)"
    using counts_bump [of q v h a] assms by (simp add: placed_def counts_ok_def repr_def)
  moreover have "mem_ok (q_mem (placed h a q)) (v_push h a v)"
    using mem_ok_push assms by (simp add: placed_def repr_def)
  moreover have "index_invar (placed h a q)" "index_entries (placed h a q) = insert a (queued v)"
    using idx.invar_ins [of ?q a] idx.entries_ins [of ?q a] i assms(7) by (simp_all add: placed_def kf)
  ultimately show ?thesis
    using assms view_ok_push by (auto simp: repr_def queued_push owned_push placed_def)
qed

lemma choose_list_spec:
  assumes "counts_ok q v" and "c = pr_cmd (it_req (q_mem q (Obj a)))"
  shows "choose_list q a =
    (let to = (\<lambda>h. Some (h, (bump h q)\<lparr>q_mem := place_mem (q_mem q) h a\<rparr>))
     in if head_for c \<noteq> dirtyHead \<and> room (head_for c) v then to (head_for c)
        else if room dirtyHead v then to dirtyHead else None)"
proof -
  have "q_reqNum q < REQ_LIMIT \<longleftrightarrow> room reqHead v" "q_reqPrioNum q < REQ_LIMIT \<longleftrightarrow> room reqPrioHead v"
    "q_reqLowNum q < REQ_LIMIT \<longleftrightarrow> room reqLowHead v" "q_reqBulkNum q < REQ_LIMIT \<longleftrightarrow> room reqBulkHead v"
    "q_dirtyNum q < DIRTY_LIMIT \<longleftrightarrow> room dirtyHead v"
    using assms(1) by (auto simp: counts_ok_def room_def)
  then show ?thesis
    unfolding choose_list_def Let_def assms(2) [symmetric]
    by (cases c) (simp_all add: bump_def place_mem_def)
qed

section \<open>Adding a request\<close>

text \<open>The branches of an addition, over the view.\<close>

lemma head_for_head [simp]: "is_head (head_for c)"
  by (cases c) (simp_all add: is_head_def)

lemma head_for_waiting [simp]: "head_for c \<noteq> renderHead" "renderHead \<noteq> head_for c"
  by (cases c; simp)+

lemma find_Some_member: "find P xs = Some x \<Longrightarrow> x \<in> set xs \<and> P x"
  by (auto simp: find_Some_iff)

lemma pending_attach:
  assumes "repr q v" "find (\<lambda>i. queue_key q i = queue_key q a) (concat (map (v_list v) attach_heads)) = Some i"
  shows "pending q a = (cmdIgnore, q\<lparr>q_mem := attach_mem (q_mem q) i a\<rparr>)"
proof -
  from find_Some_member [OF assms(2)] have i: "i \<in> set (concat (map (v_list v) attach_heads))"
    and k: "queue_key q i = queue_key q a" by auto
  then have "lookup_item_idx q (q_mem q (Obj a)) = Some i"
    using lookup_queued(1) [OF assms(1)] queued_heads assms(1) by (auto simp: repr_def queue_key_def)
  moreover have "it_inQueue (q_mem q (Obj i)) \<in> {queueRender, queueRequest, queueRequestPrio, queueRequestLow}"
    using i assms(1) by (auto simp: attach_heads_def repr_def dest: mem_okD(3))
  ultimately show ?thesis by (simp add: pending_def attach_mem_def Let_def)
qed

lemma pending_refuse:
  assumes "repr q v" "i \<in> set (concat (map (v_list v) refuse_heads))" "queue_key q i = queue_key q a"
  shows "pending q a = (cmdNotDone, q)"
proof -
  have "lookup_item_idx q (q_mem q (Obj a)) = Some i"
    using lookup_queued(1) [OF assms(1)] queued_heads assms by (auto simp: repr_def queue_key_def)
  moreover have "it_inQueue (q_mem q (Obj i)) \<in> {queueDirty, queueRequestBulk}"
    using assms by (auto simp: refuse_heads_def repr_def dest: mem_okD(3))
  ultimately show ?thesis by (auto simp: pending_def)
qed

lemma pending_new:
  assumes "repr q v" "queue_key q a \<notin> queue_key q ` queued v"
  shows "pending q a = (cmdRender, q)"
  using lookup_queued(2) [OF assms(1), of "q_mem q (Obj a)"] assms(2) by (simp add: pending_def queue_key_def)

lemma repr_free:
  assumes "repr q v" "a \<notin> owned v"
  shows "repr (free_item a q) v" and "repr (free_item a (q\<lparr>q_stats := st\<rparr>)) v"
proof -
  have "index_invar (free_item a q) = index_invar q" "index_entries (free_item a q) = index_entries q"
    "index_invar (free_item a (q\<lparr>q_stats := st\<rparr>)) = index_invar q"
    "index_entries (free_item a (q\<lparr>q_stats := st\<rparr>)) = index_entries q"
    using index_frame [of "free_item a q" q] index_frame [of "free_item a (q\<lparr>q_stats := st\<rparr>)" q]
    by (simp_all add: free_item_def queue_key_def)
  with assms show "repr (free_item a q) v" "repr (free_item a (q\<lparr>q_stats := st\<rparr>)) v"
    by (auto simp: repr_def free_item_def counts_ok_def)
qed

lemma add_request_new:
  assumes "repr q v" "queue_key q a \<notin> queue_key q ` queued v" and c: "c = pr_cmd (it_req (q_mem q (Obj a)))"
  shows "add_request q a =
    (if head_for c \<noteq> dirtyHead \<and> room (head_for c) v then (cmdIgnore, placed (head_for c) a q)
     else if room dirtyHead v then (cmdNotDone, placed dirtyHead a q)
     else (cmdNotDone, free_item a (q\<lparr>q_stats := (q_stats q)\<lparr>noReqDroped := noReqDroped (q_stats q) + 1\<rparr>\<rparr>)))"
proof -
  have "counts_ok q v" using assms(1) by (simp add: repr_def)
  from choose_list_spec [OF this c] pending_new [OF assms(1,2)] show ?thesis
    by (auto simp: add_request_def placed_def Let_def)
qed

text \<open>The four outcomes of an addition, in the code and on the view.\<close>

lemma add_request_cases:
  assumes "repr q v"
  obtains (attach) i where "i \<in> set (concat (map (v_list v) attach_heads))" "queue_key q i = queue_key q a"
      "add_request q a = (cmdIgnore, q\<lparr>q_mem := attach_mem (q_mem q) i a\<rparr>)"
      "v_add (queue_key q) (pr_cmd (it_req (q_mem q (Obj a)))) a v = (cmdIgnore, v_attach i a v)"
  | (refuse) "add_request q a = (cmdNotDone, free_item a q)"
      "v_add (queue_key q) (pr_cmd (it_req (q_mem q (Obj a)))) a v = (cmdNotDone, v)"
  | (place) h r where "queue_key q a \<notin> queue_key q ` queued v" "is_head h" "room h v"
      "add_request q a = (r, placed h a q)"
      "v_add (queue_key q) (pr_cmd (it_req (q_mem q (Obj a)))) a v = (r, v_push h a v)"
  | (full) st where "add_request q a = (cmdNotDone, free_item a (q\<lparr>q_stats := st\<rparr>))"
      "v_add (queue_key q) (pr_cmd (it_req (q_mem q (Obj a)))) a v = (cmdNotDone, v)"
proof (cases "find (\<lambda>i. queue_key q i = queue_key q a) (concat (map (v_list v) attach_heads))")
  case (Some i)
  have "add_request q a = (cmdIgnore, q\<lparr>q_mem := attach_mem (q_mem q) i a\<rparr>)"
    by (simp add: add_request_def pending_attach [OF assms(1) Some])
  with find_Some_member [OF Some] Some show ?thesis by (intro attach [of i]) (auto simp: v_add_def)
next
  case None
  show ?thesis
  proof (cases "\<exists>i \<in> set (concat (map (v_list v) refuse_heads)). queue_key q i = queue_key q a")
    case True
    then obtain i where i: "i \<in> set (concat (map (v_list v) refuse_heads))" "queue_key q i = queue_key q a"
      by blast
    have "add_request q a = (cmdNotDone, free_item a q)"
      by (simp add: add_request_def pending_refuse [OF assms(1) i])
    with None True show ?thesis by (intro refuse) (auto simp: v_add_def)
  next
    case False
    have "queued v = set (concat (map (v_list v) (attach_heads @ refuse_heads)))"
      using queued_heads assms(1) by (simp add: repr_def)
    with None False have "queue_key q b \<noteq> queue_key q a" if "b \<in> queued v" for b
      using that by (auto simp: find_None_iff)
    then have new: "queue_key q a \<notin> queue_key q ` queued v" by force
    have va: "v_add (queue_key q) c a v = v_place c a v" for c using None False by (simp add: v_add_def)
    note ar = add_request_new [OF assms new refl]
    let ?c = "pr_cmd (it_req (q_mem q (Obj a)))"
    consider "head_for ?c \<noteq> dirtyHead \<and> room (head_for ?c) v"
      | "\<not> (head_for ?c \<noteq> dirtyHead \<and> room (head_for ?c) v)" "room dirtyHead v"
      | "\<not> (head_for ?c \<noteq> dirtyHead \<and> room (head_for ?c) v)" "\<not> room dirtyHead v" by blast
    then show ?thesis
    proof cases
      case 1
      then show ?thesis using ar new by (intro place [of "head_for ?c"]) (auto simp: va v_place_def)
    next
      case 2
      then show ?thesis using ar new by (intro place [of dirtyHead]) (auto simp: va v_place_def)
    next
      case 3
      then show ?thesis using ar by (intro full) (auto simp: va v_place_def)
    qed
  qed
qed

text \<open>The addition of a request implements the addition to the view.\<close>

lemma add_request_refines:
  assumes "repr q v" "a \<notin> owned v" "q_alloc q a" "it_duplicates (q_mem q (Obj a)) = None"
    and va: "v_add (queue_key q) (pr_cmd (it_req (q_mem q (Obj a)))) a v = (r, v')"
  shows "fst (add_request q a) = r \<and> repr (snd (add_request q a)) v'"
  using assms(1)
proof (cases rule: add_request_cases [where a = a])
  case (attach i)
  with repr_attach [OF assms(1-3), of i] va show ?thesis by simp
next
  case refuse
  with repr_free(1) [OF assms(1,2)] va show ?thesis by simp
next
  case (place h r)
  with repr_placed [OF assms(1-3) _ _ assms(4), of h] va show ?thesis by auto
next
  case (full st)
  with repr_free(2) [OF assms(1,2)] va show ?thesis by simp
qed

text \<open>The object of a request is released exactly when the queue does not own it afterwards.\<close>

lemma add_request_alloc:
  assumes "repr q v" "a \<notin> owned v" "q_alloc q a"
    and va: "v_add (queue_key q) (pr_cmd (it_req (q_mem q (Obj a)))) a v = (r, v')"
  shows "q_alloc (snd (add_request q a)) b = (if b = a then a \<in> owned v' else q_alloc q b)"
  using assms(1)
  by (cases rule: add_request_cases [where a = a])
    (use assms(2,3) va in \<open>auto simp: free_item_def placed_def owned_attach owned_push\<close>)

section \<open>Fetching a request\<close>

lemma queued_start: "v_list v h \<noteq> [] \<Longrightarrow> h \<noteq> renderHead \<Longrightarrow> queued (v_start h v) = queued v"
proof -
  assume "v_list v h \<noteq> []" "h \<noteq> renderHead"
  then have l: "set (v_list v h) = insert (hd (v_list v h)) (set (tl (v_list v h)))" by (cases "v_list v h") auto
  have "queued (v_start h v) = set (v_list (v_start h v) h) \<union> set (v_list (v_start h v) renderHead)
      \<union> (\<Union>k \<in> - {h, renderHead}. set (v_list v k))"
    by (auto simp: queued_def v_start_def split: if_splits)
  moreover have "queued v = set (v_list v h) \<union> set (v_list v renderHead) \<union> (\<Union>k \<in> - {h, renderHead}. set (v_list v k))"
    by (auto simp: queued_def)
  ultimately show ?thesis using l \<open>h \<noteq> renderHead\<close> by (auto simp: v_start_def)
qed

lemma view_ok_start:
  assumes "view_ok v" "v_list v h = a # xs" "h \<noteq> renderHead"
  shows "view_ok (v_start h v)"
proof -
  note d = view_okD [OF assms(1)]
  have q: "queued (v_start h v) = queued v" using queued_start assms by simp
  have h: "is_head h" using d(1) [of h] assms(2) by auto
  have l: "v_list (v_start h v) k = (if k = renderHead then a # v_list v renderHead else if k = h then xs else v_list v k)" for k
    using assms by (simp add: v_start_def)
  have u: "v_dups (v_start h v) = v_dups v" by (simp add: v_start_def)
  have sub: "set (v_list (v_start h v) k) \<subseteq> set (v_list v k)" if "k \<noteq> renderHead" for k
    using that assms(2) by (auto simp: l)
  have "distinct (v_list (v_start h v) k)" for k
    using d(2) [of k] d(2) [of h] d(3) [of h renderHead] assms(2,3) by (auto simp: l)
  moreover have "set (v_list (v_start h v) j) \<inter> set (v_list (v_start h v) k) = {}" if "j \<noteq> k" for j k
    using that d(2) [of h] d(3) [of j k] d(3) [of h k] d(3) [of j h] assms(2) unfolding l by auto
  moreover have "v_dups v b = []" if "b \<in> set (v_list (v_start h v) dirtyHead) \<union> set (v_list (v_start h v) reqBulkHead)" for b
    using that sub [of dirtyHead] sub [of reqBulkHead] d(8,9) by auto
  ultimately show ?thesis
    unfolding view_ok_def q u using d(1,4-7) h by (auto simp: l is_head_def)
qed

definition fetch_mem :: "(iaddr \<Rightarrow> item) \<Rightarrow> nat \<Rightarrow> iaddr \<Rightarrow> item" where
  "fetch_mem m a = set_inQueue (link_front (unlink_item m (Obj a)) renderHead (Obj a)) (Obj a) queueRender"

lemma fetch_mem_simps [simp]:
  "it_duplicates (fetch_mem m a c) = it_duplicates (m c)"
  "item_key (fetch_mem m a c) = item_key (m c)"
  "it_fd (fetch_mem m a c) = it_fd (m c)"
  "it_inQueue (fetch_mem m a c) = (if c = Obj a then queueRender else it_inQueue (m c))"
  by (simp_all add: fetch_mem_def item_key_def)

lemma mem_ok_start:
  assumes "view_ok v" "mem_ok m v" "v_list v h = a # xs" "h \<noteq> renderHead"
  shows "mem_ok (fetch_mem m a) (v_start h v)"
proof -
  note d = view_okD [OF assms(1)] and e = mem_okD [OF assms(2)]
  have q: "queued (v_start h v) = queued v" using queued_start assms by simp
  have h: "is_head h" using d(1) [of h] assms(3) by auto
  have r: "is_head renderHead" by (simp add: is_head_def)
  let ?m = "link_front (unlink_item m (Obj a)) renderHead (Obj a)"
  have l: "v_list (v_start h v) k = (if k = renderHead then a # v_list v renderHead else if k = h then xs else v_list v k)" for k
    using assms by (simp add: v_start_def)
  have u: "v_dups (v_start h v) = v_dups v" by (simp add: v_start_def)
  have dd: "distinct (a # xs @ v_list v renderHead)"
    using d(2) [of h] d(2) [of renderHead] d(3) [OF assms(4)] assms(3) by auto
  have mf: "linked ?m h xs" "linked ?m renderHead (a # v_list v renderHead)"
    using ll.move_front [OF h r assms(4) e(1) [OF h, unfolded assms(3)] e(1) [OF r] dd] .
  have "linked ?m k (v_list (v_start h v) k)" if k: "is_head k" for k
  proof (cases "k = h \<or> k = renderHead")
    case True
    with mf assms(4) show ?thesis by (auto simp: l)
  next
    case False
    then have "distinct (a # xs @ v_list v renderHead @ v_list v k)"
      using dd d(2) [of k] d(3) [of h k] d(3) [of renderHead k] assms(3) by auto
    from ll.move_front_other [OF h r k assms(4) _ _ e(1) [OF h, unfolded assms(3)] e(1) [OF r] e(1) [OF k] this] False
    show ?thesis by (auto simp: l)
  qed
  then have "linked (fetch_mem m a) k (v_list (v_start h v) k)" if "is_head k" for k
    using that by (simp add: fetch_mem_def)
  moreover have "dchain (fetch_mem m a) (it_duplicates (fetch_mem m a (Obj b))) (v_dups v b)" if "b \<in> queued v" for b
    using e(2) [OF that] dchain_frame [of "v_dups v b" "fetch_mem m a" m] by simp
  moreover have "it_inQueue (fetch_mem m a (Obj b)) = queue_of k" if "b \<in> set (v_list (v_start h v) k)" for b k
    using that e(3) [of b k] d(3) [of h k] dd assms(3) by (auto simp: l split: if_splits)
  moreover have "it_fd (fetch_mem m a (Obj b)) = FD_INVALID" if "b \<in> set (v_list (v_start h v) dirtyHead)" for b
    using that e(5) assms(3) by (auto simp: l split: if_splits)
  ultimately show ?thesis
    unfolding mem_ok_def q u using e(4) by simp
qed

lemma counts_nonempty:
  assumes "counts_ok q v"
  shows "q_reqNum q \<noteq> 0 \<longleftrightarrow> v_list v reqHead \<noteq> []" "q_reqPrioNum q \<noteq> 0 \<longleftrightarrow> v_list v reqPrioHead \<noteq> []"
    "q_reqLowNum q \<noteq> 0 \<longleftrightarrow> v_list v reqLowHead \<noteq> []" "q_reqBulkNum q \<noteq> 0 \<longleftrightarrow> v_list v reqBulkHead \<noteq> []"
    "q_dirtyNum q \<noteq> 0 \<longleftrightarrow> v_list v dirtyHead \<noteq> []"
  using assms by (auto simp: counts_ok_def)

lemma int_length_tl: "xs \<noteq> [] \<Longrightarrow> int (length (tl xs)) = int (length xs) - 1"
  by (cases xs) auto

text \<open>The list a fetch takes from is the first nonempty one in the order of priorities.\<close>

lemma pick_list_none:
  "counts_ok q v \<Longrightarrow> find (\<lambda>h. v_list v h \<noteq> []) fetch_order = None \<Longrightarrow> pick_list q = None"
  using counts_nonempty [of q v] by (auto simp: pick_list_def Let_def find_None_iff fetch_order_def)

lemma pick_list_some:
  assumes "counts_ok q v" "find (\<lambda>h. v_list v h \<noteq> []) fetch_order = Some h"
  shows "\<exists>q1. pick_list q = Some (h, q1) \<and> counts_ok q1 (v_start h v) \<and> q_mem q1 = q_mem q
           \<and> q_alloc q1 = q_alloc q \<and> q_hashidx q1 = q_hashidx q \<and> q_hashidxSize q1 = q_hashidxSize q"
proof -
  note n = counts_nonempty [OF assms(1)]
  show ?thesis
    using assms n unfolding pick_list_def fetch_order_def Let_def
    by (auto simp: counts_ok_def v_start_def int_length_tl simp del: length_tl split: if_splits)
qed

lemma fetch_heads:
  assumes "find (\<lambda>h. v_list v h \<noteq> []) fetch_order = Some h"
  shows "h \<noteq> renderHead" "v_list v h = hd (v_list v h) # tl (v_list v h)" "is_head h"
  using find_Some_member [OF assms] by (auto simp: fetch_order_def)

lemma fetch_refines:
  assumes "repr q v"
  shows "case v_fetch v of
      None \<Rightarrow> request_queue_fetch_request q = None
    | Some (a, v') \<Rightarrow> \<exists>q'. request_queue_fetch_request q = Some (Obj a, q') \<and> repr q' v'
                     \<and> q_mem q' = fetch_mem (q_mem q) a \<and> q_alloc q' = q_alloc q"
proof (cases "find (\<lambda>h. v_list v h \<noteq> []) fetch_order")
  case None
  then show ?thesis
    using pick_list_none [of q v] assms by (simp add: v_fetch_def request_queue_fetch_request_def repr_def)
next
  case (Some h)
  note f = fetch_heads [OF Some]
  obtain a xs where h: "v_list v h = a # xs" using f(2) by blast
  obtain q1 where q1: "pick_list q = Some (h, q1)" "counts_ok q1 (v_start h v)" "q_mem q1 = q_mem q"
      "q_alloc q1 = q_alloc q" "q_hashidx q1 = q_hashidx q" "q_hashidxSize q1 = q_hashidxSize q"
    using pick_list_some [OF _ Some, of q] assms unfolding repr_def by blast
  have "linked (q_mem q) h (a # xs)" using assms f(3) h by (metis mem_okD(1) repr_def)
  then have n: "it_next (q_mem q h) = Obj a" using linked_ends(2) [of "q_mem q" h] by fastforce
  let ?q = "q1\<lparr>q_mem := fetch_mem (q_mem q) a\<rparr>"
  have fr: "request_queue_fetch_request q = Some (Obj a, ?q)"
    by (simp add: request_queue_fetch_request_def q1 Let_def n fetch_mem_def)
  have "queued (v_start h v) = queued v" using queued_start h f(1) by simp
  moreover from this have "owned (v_start h v) = owned v" by (simp add: owned_def) (simp add: v_start_def)
  moreover have "index_invar ?q = index_invar q" "index_entries ?q = index_entries q"
    using index_frame [of ?q q] q1 by (simp_all add: queue_key_def)
  moreover have "counts_ok ?q (v_start h v)" using q1(2) by (simp add: counts_ok_def)
  ultimately have "repr ?q (v_start h v)"
    using assms view_ok_start [OF _ h f(1)] mem_ok_start [OF _ _ h f(1)] q1 by (simp add: repr_def)
  with fr q1 Some h show ?thesis by (simp add: v_fetch_def)
qed

section \<open>Removing a rendered request\<close>

lemma queued_drop: "queued (v_drop a v) = queued v - {a}"
  by (auto simp: queued_def v_drop_def)

lemma owned_drop:
  assumes "view_ok v" "a \<in> queued v"
  shows "owned (v_drop a v) = owned v - insert a (set (v_dups v a))"
proof -
  note d = view_ok_elems [OF assms(1)]
  define R where "R = (\<Union>b \<in> - {a}. set (v_dups v b))"
  have "R \<inter> insert a (set (v_dups v a)) = {}"
    using d(2) assms(2) d(3) [of _ a] by (auto simp: R_def)
  moreover have "queued v \<inter> set (v_dups v a) = {}" using d(2) by auto
  moreover have "owned (v_drop a v) = (queued v - {a}) \<union> R"
    by (auto simp: owned_def queued_drop R_def) (auto simp: v_drop_def split: if_splits)
  moreover have "owned v = queued v \<union> R \<union> set (v_dups v a)"
    by (auto simp: owned_def R_def)
  ultimately show ?thesis by blast
qed

lemma view_ok_drop:
  assumes "view_ok v" "a \<in> queued v"
  shows "view_ok (v_drop a v)"
proof -
  note d = view_okD [OF assms(1)]
  have u: "v_dups (v_drop a v) b = (if b = a then [] else v_dups v b)" for b by (simp add: v_drop_def)
  have l: "v_list (v_drop a v) h = removeAll a (v_list v h)" for h by (simp add: v_drop_def)
  have "set (removeAll a (v_list v h)) \<inter> set (removeAll a (v_list v k)) = {}" if "h \<noteq> k" for h k
    using d(3) [OF that] by auto
  moreover have "set (v_dups (v_drop a v) b) \<inter> (queued v - {a}) = {}" for b
    using d(6) [of b] by (auto simp: u)
  moreover have "set (v_dups (v_drop a v) b) \<inter> set (v_dups (v_drop a v) c) = {}" if "b \<noteq> c" for b c
    using d(7) [OF that] by (simp add: u)
  moreover have "v_dups (v_drop a v) b = []"
    if "b \<in> set (removeAll a (v_list v dirtyHead)) \<union> set (removeAll a (v_list v reqBulkHead))" for b
    using that d(8,9) by (auto simp: u)
  ultimately show ?thesis
    unfolding view_ok_def queued_drop l
    using d(1,2,4,5) by (simp add: u distinct_removeAll)
qed

lemma removeAll_split: "distinct (xs @ a # ys) \<Longrightarrow> removeAll a (xs @ a # ys) = xs @ ys"
  by simp

lemma mem_ok_drop:
  assumes "view_ok v" "mem_ok m v" "a \<in> set (v_list v h)"
  shows "mem_ok (unlink_item m (Obj a)) (v_drop a v)"
proof -
  note d = view_okD [OF assms(1)] and e = mem_okD [OF assms(2)]
  have h: "is_head h" using d(1) [of h] assms(3) by (cases "is_head h") auto
  obtain xs ys where s: "v_list v h = xs @ a # ys" using split_list assms(3) by metis
  have "linked (unlink_item m (Obj a)) k (v_list (v_drop a v) k)" if k: "is_head k" for k
  proof (cases "k = h")
    case True
    then show ?thesis
      using ll.on_take [OF h e(1) [OF h, unfolded s] d(2) [of h, unfolded s]] removeAll_split [OF d(2) [of h, unfolded s]] s
      by (simp add: v_drop_def)
  next
    case False
    have "a \<notin> set (v_list v k)" using d(3) [OF False] assms(3) by auto
    moreover have "linked (unlink_item m (Obj a)) k (v_list v k)"
      by (rule ll.on_take_other [OF h k _ e(1) [OF h, unfolded s] e(1) [OF k]])
        (use False d(3) [OF False] s in auto)
    ultimately show ?thesis by (simp add: v_drop_def)
  qed
  moreover have "dchain (unlink_item m (Obj a)) p ds = dchain m p ds" for p ds by (rule dchain_frame) simp
  ultimately show ?thesis
    unfolding mem_ok_def queued_drop
    using e(2-5) by (auto simp: v_drop_def)
qed

lemma counts_drop:
  assumes "view_ok v" "counts_ok q v" "a \<in> set (v_list v renderHead)"
  shows "counts_ok q (v_drop a v)"
proof -
  have "a \<notin> set (v_list v h)" if "h \<noteq> renderHead" for h
    using view_okD(3) [OF assms(1) that] assms(3) by auto
  then have "v_list (v_drop a v) h = v_list v h" if "h \<noteq> renderHead" for h
    using that by (simp add: v_drop_def)
  with assms(2) show ?thesis by (simp add: counts_ok_def)
qed

text \<open>What the statistics become; \<open>None\<close> is the write out of bounds.\<close>

definition stats_after :: "item \<Rightarrow> int \<Rightarrow> stats_struct \<Rightarrow> stats_struct option" where
  "stats_after i t st =
     (if t > 0 then add_zoom_time (pr_z (it_req i)) t (add_render_time (it_originatedQueue i) t st) else Some st)"

lemma stats_after_Some:
  "t \<le> 0 \<or> (0 \<le> pr_z (it_req i) \<and> pr_z (it_req i) \<le> MAX_ZOOM) \<Longrightarrow> \<exists>st'. stats_after i t st = Some st'"
  by (auto simp: stats_after_def add_zoom_time_def)

lemma remove_refines:
  assumes "repr q v" "a \<in> set (v_list v renderHead)" "stats_after (q_mem q (Obj a)) t (q_stats q) = Some st"
  shows "\<exists>q'. request_queue_remove_request q (Obj a) t = Some q' \<and> repr q' (v_drop a v)
           \<and> q_mem q' = unlink_item (q_mem q) (Obj a) \<and> q_alloc q' = q_alloc q \<and> q_stats q' = st"
proof -
  let ?q1 = "q\<lparr>q_stats := st, q_mem := unlink_item (q_mem q) (Obj a)\<rparr>"
  let ?q2 = "remove_item_idx ?q1 (q_mem ?q1 (Obj a))"
  have r: "request_queue_remove_request q (Obj a) t = Some ?q2"
    using assms(3) by (simp add: request_queue_remove_request_def stats_after_def Let_def)
  note v = assms(1) [unfolded repr_def]
  have aq: "a \<in> queued v" using assms(2) by (rule queuedI)
  have "queue_key ?q1 b = queue_key q b" for b by (simp add: queue_key_def)
  then have i: "index_invar ?q1" "index_entries ?q1 = queued v" "queue_key ?q1 = queue_key q"
    using index_frame [of ?q1 q] v by auto
  have "index_entries ?q2 = {b \<in> queued v. queue_key q b \<noteq> queue_key q a}"
    using idx.entries_del [OF i(1), of "q_mem ?q1 (Obj a)"] i(2,3) by (simp add: queue_key_def)
  also have "\<dots> = queued v - {a}"
    using idx.key_unique [of q] v aq by auto
  finally have "index_entries ?q2 = queued (v_drop a v)" by (simp add: queued_drop)
  moreover have "index_invar ?q2" by (rule idx.invar_del [OF i(1)])
  moreover have "counts_ok ?q2 (v_drop a v)"
    using counts_drop [OF _ _ assms(2), of ?q2] counts_frame [of ?q2 q v] v by simp
  ultimately have "repr ?q2 (v_drop a v)"
    using v view_ok_drop mem_ok_drop assms(2) owned_drop aq by (auto simp: repr_def)
  with r show ?thesis by simp
qed

section \<open>Forgetting a file descriptor\<close>

definition clear_set :: "int \<Rightarrow> nat set \<Rightarrow> (iaddr \<Rightarrow> item) \<Rightarrow> iaddr \<Rightarrow> item" where
  "clear_set fd S m c = (if c \<in> Obj ` S \<and> it_fd (m c) = fd then (m c)\<lparr>it_fd := FD_INVALID\<rparr> else m c)"

lemma clear_set_simps [simp]:
  "it_next (clear_set fd S m c) = it_next (m c)"
  "it_prev (clear_set fd S m c) = it_prev (m c)"
  "it_duplicates (clear_set fd S m c) = it_duplicates (m c)"
  "it_inQueue (clear_set fd S m c) = it_inQueue (m c)"
  "it_req (clear_set fd S m c) = it_req (m c)"
  "item_key (clear_set fd S m c) = item_key (m c)"
  by (simp_all add: clear_set_def item_key_def)

lemma clear_set_fd: "it_fd (clear_set fd S m c) =
    (if c \<in> Obj ` S \<and> it_fd (m c) = fd then FD_INVALID else it_fd (m c))"
  by (simp add: clear_set_def)

lemma clear_set_empty [simp]: "clear_set fd {} m = m"
  by (simp add: clear_set_def fun_eq_iff)

lemma clear_set_union: "clear_set fd S (clear_set fd T m) = clear_set fd (T \<union> S) m"
  by (auto simp: clear_set_def fun_eq_iff)

lemma clear_set_single: "(if it_fd (m (Obj d)) = fd then set_fd m (Obj d) FD_INVALID else m) = clear_set fd {d} m"
  by (auto simp: clear_set_def set_fd_def fun_eq_iff)

lemma clear_set_linked [simp]: "linked (clear_set fd S m) h xs = linked m h xs"
  by (simp add: linked_def)

lemma clear_set_dchain [simp]: "dchain (clear_set fd S m) p ds = dchain m p ds"
  by (rule dchain_frame) simp

text \<open>The two loops end, and what they leave.\<close>

lemma clear_dups_returns: "dchain m p ds \<Longrightarrow> clear_dups fd m p = Some (clear_set fd (set ds) m)"
proof (induction ds arbitrary: m p)
  case Nil
  then show ?case by (subst clear_dups.simps) simp
next
  case (Cons d ds)
  then have p: "p = Some d" and d: "dchain m (it_duplicates (m (Obj d))) ds" by auto
  have "clear_dups fd m p = clear_dups fd (clear_set fd {d} m) (it_duplicates (m (Obj d)))"
    by (subst clear_dups.simps) (simp add: p clear_set_single Let_def)
  also have "\<dots> = Some (clear_set fd (set ds) (clear_set fd {d} m))"
    using d by (intro Cons.IH) simp
  finally show ?case by (simp add: clear_set_union)
qed

lemma clear_list_returns:
  assumes "lseg (nexts m) (prevs m) p (map Obj xs) h" "is_head h"
    and "\<forall>x \<in> set xs. dchain m (it_duplicates (m (Obj x))) (D x)"
  shows "clear_list fd h m (it_next (m p)) = Some (clear_set fd (\<Union>x \<in> set xs. insert x (set (D x))) m)"
  using assms
proof (induction xs arbitrary: m p)
  case Nil
  then show ?case by (simp add: clear_list.simps [of fd h m])
next
  case (Cons x xs)
  let ?S = "insert x (set (D x))" and ?m = "clear_set fd (insert x (set (D x))) m"
  from Cons.prems have n: "it_next (m p) = Obj x" "Obj x \<noteq> h" by auto
  have "clear_dups fd (clear_set fd {x} m) (it_duplicates (clear_set fd {x} m (Obj x))) =
      Some (clear_set fd (set (D x)) (clear_set fd {x} m))"
    by (rule clear_dups_returns) (use Cons.prems(3) in simp)
  then have "clear_list fd h m (it_next (m p)) = clear_list fd h ?m (it_next (?m (Obj x)))"
    unfolding n(1) using n(2)
    by (subst clear_list.simps) (simp add: clear_set_single Let_def clear_set_union split del: if_split)
  also have "\<dots> = Some (clear_set fd (\<Union>x \<in> set xs. insert x (set (D x))) ?m)"
    by (rule Cons.IH) (use Cons.prems in auto)
  finally show ?case by (simp add: clear_set_union Un_commute)
qed

definition clear_span :: "qview \<Rightarrow> iaddr list \<Rightarrow> nat set" where
  "clear_span v hs = (\<Union>h \<in> set hs. \<Union>x \<in> set (v_list v h). insert x (set (v_dups v x)))"

lemma mem_ok_clear:
  assumes "mem_ok m v"
  shows "mem_ok (clear_set fd S m) v"
  using mem_okD [OF assms] by (auto simp: mem_ok_def clear_set_fd)

lemma clear_heads_returns:
  "mem_ok m v \<Longrightarrow> \<forall>h \<in> set hs. is_head h \<Longrightarrow> clear_heads fd hs m = Some (clear_set fd (clear_span v hs) m)"
proof (induction hs arbitrary: m)
  case Nil
  then show ?case by (simp add: clear_span_def)
next
  case (Cons h hs)
  note e = mem_okD [OF Cons.prems(1)]
  let ?S = "\<Union>x \<in> set (v_list v h). insert x (set (v_dups v x))"
  have "clear_list fd h m (it_next (m h)) = Some (clear_set fd ?S m)"
    by (rule clear_list_returns) (use e(1) [of h] e(2) Cons.prems(2) in \<open>auto simp: linked_def intro: queuedI\<close>)
  moreover have "clear_span v (h # hs) = ?S \<union> clear_span v hs" by (auto simp: clear_span_def)
  ultimately show ?case
    using Cons.IH [OF mem_ok_clear [OF Cons.prems(1)]] Cons.prems(2) by (simp add: clear_set_union)
qed

lemma clear_fd_refines:
  assumes "repr q v"
  shows "\<exists>q'. request_queue_clear_requests_by_fd q fd = Some q' \<and> repr q' v
    \<and> q' = q\<lparr>q_mem := clear_set fd (clear_span v [reqHead, renderHead, reqPrioHead, reqBulkHead, reqLowHead]) (q_mem q)\<rparr>"
proof -
  let ?m = "clear_set fd (clear_span v [reqHead, renderHead, reqPrioHead, reqBulkHead, reqLowHead]) (q_mem q)"
  let ?q = "q\<lparr>q_mem := ?m\<rparr>"
  have m: "mem_ok (q_mem q) v" using assms by (simp add: repr_def)
  have "request_queue_clear_requests_by_fd q fd = Some ?q"
    using clear_heads_returns [OF m, of "[reqHead, renderHead, reqPrioHead, reqBulkHead, reqLowHead]" fd]
    by (simp add: request_queue_clear_requests_by_fd_def)
  moreover have "index_invar ?q = index_invar q" "index_entries ?q = index_entries q"
    using index_frame [of ?q q] by (simp_all add: queue_key_def)
  then have "repr ?q v"
    using assms mem_ok_clear [OF m] counts_frame [of ?q q v] by (simp add: repr_def)
  ultimately show ?thesis by blast
qed

lemma owned_clear_span:
  assumes "view_ok v"
  shows "owned v = clear_span v [reqHead, renderHead, reqPrioHead, reqBulkHead, reqLowHead] \<union> set (v_list v dirtyHead)"
proof -
  note d = view_okD [OF assms]
  have "owned v = (\<Union>a \<in> queued v. insert a (set (v_dups v a)))"
    using d(4) by (auto simp: owned_def) fastforce
  then show ?thesis
    using queued_heads [OF assms] d(8) by (auto simp: clear_span_def attach_heads_def refuse_heads_def)
qed

lemma clear_fd_forgets:
  assumes "repr q v" "fd \<noteq> FD_INVALID" "a \<in> owned v" "request_queue_clear_requests_by_fd q fd = Some q'"
  shows "it_fd (q_mem q' (Obj a)) = (if it_fd (q_mem q (Obj a)) = fd then FD_INVALID else it_fd (q_mem q (Obj a)))"
proof -
  have "view_ok v" "mem_ok (q_mem q) v" using assms(1) by (auto simp: repr_def)
  then show ?thesis
    using owned_clear_span [of v] clear_fd_refines [OF assms(1), of fd] assms mem_okD(5) [of "q_mem q" v a]
    by (auto simp: clear_set_fd)
qed

end
