(* ===== verification/Renderd.thy ===== *)
theory Renderd
  imports Request_Queue_Spec
begin

text \<open>
  The render daemon around its queue (\<^verbatim>\<open>src/renderd.c\<close>): receiving a request, the event loop over the
  client connections, answering the clients that wait for a tile, the thread that forwards requests
  to a slave daemon, and the statistics file. The operating system (sockets, \<open>poll\<close>, \<open>accept\<close>,
  \<open>malloc\<close>, \<open>errno\<close>) is a parameter; the lists of commands sent are the calls of \<open>send_cmd\<close> in
  their order. The second half proves what holds in every state the daemon can reach.
\<close>

section \<open>Commands\<close>

definition MAX_CONNECTIONS :: nat where
  "MAX_CONNECTIONS = 2048"

definition XMLCONFIG_DEFAULT :: string where
  "XMLCONFIG_DEFAULT = ''default''"

definition cmdStr :: "protoCmd \<Rightarrow> string" where
  "cmdStr c =
     (case c of
        cmdIgnore \<Rightarrow> ''Ignore'' | cmdRender \<Rightarrow> ''Render'' | cmdRenderPrio \<Rightarrow> ''RenderPrio''
      | cmdRenderLow \<Rightarrow> ''RenderLow'' | cmdRenderBulk \<Rightarrow> ''RenderBulk'' | cmdDirty \<Rightarrow> ''Dirty''
      | cmdDone \<Rightarrow> ''Done'' | cmdNotDone \<Rightarrow> ''NotDone'' | cmdUnknown _ \<Rightarrow> ''Unknown'')"

section \<open>Answering\<close>

definition wants_answer :: "item \<Rightarrow> bool" where
  "wants_answer i \<longleftrightarrow>
     it_fd i \<noteq> FD_INVALID \<and> pr_cmd (it_req i) \<in> {cmdRender, cmdRenderPrio, cmdRenderLow, cmdRenderBulk}"

text \<open>
  The loop of \<open>send_response\<close> over an item and its duplicates; each object is released after it was
  read. The result is the store, the socket state and the commands sent.
\<close>

partial_function (option) respond_loop ::
    "'s sock_os \<Rightarrow> protoCmd \<Rightarrow> request_queue \<Rightarrow> 's \<Rightarrow> (int \<times> protocol) list \<Rightarrow> nat option
     \<Rightarrow> (request_queue \<times> 's \<times> (int \<times> protocol) list) option" where
  "respond_loop os rsp q s out p =
     (case p of
        None \<Rightarrow> Some (q, s, out)
      | Some a \<Rightarrow>
          let i = q_mem q (Obj a);
              msg = (it_req i)\<lparr>pr_cmd := rsp\<rparr>;
              (s', out') = (if wants_answer i then (snd (send_cmd os s msg (it_fd i)), out @ [(it_fd i, msg)])
                            else (s, out))
          in respond_loop os rsp (free_item a q) s' out' (it_duplicates i))"

definition send_response ::
    "'s sock_os \<Rightarrow> request_queue \<Rightarrow> 's \<Rightarrow> nat \<Rightarrow> protoCmd \<Rightarrow> int
     \<Rightarrow> (request_queue \<times> 's \<times> (int \<times> protocol) list) option" where
  "send_response os q s a rsp render_time =
     (case request_queue_remove_request q (Obj a) render_time of
        None \<Rightarrow> None
      | Some q1 \<Rightarrow> respond_loop os rsp q1 s [] (Some a))"

section \<open>Receiving a request\<close>

text \<open>Requests of versions 1 and 2 are completed to version 3; the version number is kept.\<close>

definition upgrade :: "protocol \<Rightarrow> protocol" where
  "upgrade req =
     (let r1 = (if pr_ver req = 1 then req\<lparr>pr_xmlname := snprintf XMLCONFIG_MAX XMLCONFIG_DEFAULT\<rparr> else req)
      in if pr_ver r1 < 3
         then r1\<lparr>pr_mimetype := snprintf XMLCONFIG_MAX ''image/png'', pr_options := []\<rparr>
         else r1)"

text \<open>The item built from a request; the fields the code does not set keep what the memory holds.\<close>

definition make_item :: "item \<Rightarrow> protocol \<Rightarrow> int \<Rightarrow> item" where
  "make_item old req fd =
     old\<lparr>it_req := req, it_duplicates := None, it_fd := (if pr_cmd req = cmdDirty then FD_INVALID else fd),
         it_mx := pr_x req AND NOT (METATILE - 1), it_my := pr_y req AND NOT (METATILE - 1)\<rparr>"

definition store_item :: "nat \<Rightarrow> item \<Rightarrow> request_queue \<Rightarrow> request_queue" where
  "store_item a i q = q\<lparr>q_mem := (q_mem q)(Obj a := i), q_alloc := (q_alloc q)(a := True)\<rparr>"

text \<open>
  \<open>mal\<close> is the result of \<open>malloc\<close>. The result is the status, the request as the caller sees it
  afterwards (it was passed by reference), and the queue.
\<close>

definition rx_request ::
    "nat option \<Rightarrow> request_queue \<Rightarrow> protocol \<Rightarrow> int \<Rightarrow> protoCmd \<times> protocol \<times> request_queue" where
  "rx_request mal q req0 fd =
     (let req = upgrade req0
      in if pr_ver req > 3 then (cmdNotDone, req, q)
         else if pr_cmd req \<notin> {cmdRender, cmdRenderPrio, cmdRenderLow, cmdDirty, cmdRenderBulk}
         then (cmdNotDone, req, q)
         else case mal of
                None \<Rightarrow> (cmdNotDone, req, q)
              | Some a \<Rightarrow>
                  let (st, q') = add_request (store_item a (make_item (q_mem q (Obj a)) req fd) q) a
                  in (st, req, q'))"

section \<open>The event loop\<close>

text \<open>
  The state of \<open>process_loop\<close>: the file descriptors of the client slots (the entries of \<open>pfd\<close> behind
  the two special ones, as many as \<open>num_cslots\<close>), the number of connections, the queue, the state
  of the operating system and the commands sent so far.
\<close>

record 's loop_state =
  pl_slots :: "int list"
  pl_conns :: int
  pl_queue :: request_queue
  pl_os :: 's
  pl_sent :: "(int \<times> protocol) list"

text \<open>The outcome of one \<open>poll\<close>: its return value and which descriptors are readable.\<close>

record poll_result =
  po_num :: int
  po_exit :: bool
  po_listen :: bool
  po_ready :: "nat \<Rightarrow> bool"

record 's daemon_os =
  do_sock :: "'s sock_os"
  do_poll :: "'s \<Rightarrow> int list \<Rightarrow> poll_result \<times> 's"
  do_accept :: "'s \<Rightarrow> int \<times> 's"
  do_close :: "'s \<Rightarrow> int \<Rightarrow> 's"
  do_malloc :: "'s \<Rightarrow> (nat \<Rightarrow> bool) \<Rightarrow> nat option \<times> 's"

text \<open>The first unused slot, if any.\<close>

fun unused_slot :: "int list \<Rightarrow> nat \<Rightarrow> nat option" where
  "unused_slot [] i = None"
| "unused_slot (fd # fds) i = (if fd = FD_INVALID then Some i else unused_slot fds (Suc i))"

definition accept_client :: "'s daemon_os \<Rightarrow> 's loop_state \<Rightarrow> 's loop_state" where
  "accept_client os st =
     (let (incoming, s1) = do_accept os (pl_os st)
      in if incoming < 0 then st\<lparr>pl_os := s1\<rparr>
         else case unused_slot (pl_slots st) 0 of
                Some i \<Rightarrow> st\<lparr>pl_os := s1, pl_slots := (pl_slots st)[i := incoming], pl_conns := pl_conns st + 1\<rparr>
              | None \<Rightarrow>
                  if length (pl_slots st) = MAX_CONNECTIONS
                  then st\<lparr>pl_os := do_close os s1 incoming\<rparr>
                  else st\<lparr>pl_os := s1, pl_slots := pl_slots st @ [incoming], pl_conns := pl_conns st + 1\<rparr>)"

text \<open>
  One readable client. \<open>None\<close>: forgetting the descriptor does not return. \<open>rx_request\<close> may change the
  command it was given, which is then sent back with the status.
\<close>

definition serve_client :: "'s daemon_os \<Rightarrow> nat \<Rightarrow> int \<Rightarrow> 's loop_state \<Rightarrow> 's loop_state option" where
  "serve_client os i fd st =
     (let (ret, cmd, s1) = recv_cmd (do_sock os) (pl_os st) fd False
      in if ret < 1
         then (case request_queue_clear_requests_by_fd (pl_queue st) fd of
                 None \<Rightarrow> None
               | Some q1 \<Rightarrow> Some (st\<lparr>pl_conns := pl_conns st - 1, pl_queue := q1, pl_os := do_close os s1 fd,
                                   pl_slots := (pl_slots st)[i := FD_INVALID]\<rparr>))
         else let (mal, s2) = do_malloc os s1 (q_alloc (pl_queue st));
                  (rsp, cmd', q1) = rx_request mal (pl_queue st) cmd fd
              in if rsp = cmdNotDone
                 then let msg = cmd'\<lparr>pr_cmd := rsp\<rparr>
                      in Some (st\<lparr>pl_queue := q1, pl_os := snd (send_cmd (do_sock os) s2 msg fd),
                                  pl_sent := pl_sent st @ [(fd, msg)]\<rparr>)
                 else Some (st\<lparr>pl_queue := q1, pl_os := s2\<rparr>))"

text \<open>
  The loop over the client slots: slot \<open>i\<close> and the \<open>n - i\<close> behind it. An accepted connection can be
  in a slot whose \<open>revents\<close> is from an earlier connection; \<open>ready\<close> is what \<open>poll\<close> left there.
\<close>

fun serve_slots :: "'s daemon_os \<Rightarrow> (nat \<Rightarrow> bool) \<Rightarrow> nat \<Rightarrow> nat \<Rightarrow> 's loop_state \<Rightarrow> 's loop_state option" where
  "serve_slots os ready i 0 st = Some st"
| "serve_slots os ready i (Suc n) st =
     (let fd = pl_slots st ! i
      in if 0 \<le> fd \<and> ready i
         then (case serve_client os i fd st of
                 None \<Rightarrow> None
               | Some st' \<Rightarrow> serve_slots os ready (Suc i) n st')
         else serve_slots os ready (Suc i) n st)"

text \<open>One turn of the loop: \<open>Some (True, _)\<close> leaves the loop.\<close>

definition process_turn :: "'s daemon_os \<Rightarrow> 's loop_state \<Rightarrow> (bool \<times> 's loop_state) option" where
  "process_turn os st =
     (let (p, s1) = do_poll os (pl_os st) (pl_slots st); st1 = st\<lparr>pl_os := s1\<rparr>
      in if po_num p = -1 then Some (False, st1)
         else if po_num p \<noteq> 0
         then if po_exit p then Some (True, st1)
              else let st2 = (if po_listen p then accept_client os st1 else st1)
                   in (case serve_slots os (po_ready p) 0 (length (pl_slots st2)) st2 of
                         None \<Rightarrow> None
                       | Some st3 \<Rightarrow> Some (False, st3))
         else Some (False, st1))"

text \<open>The whole loop; \<open>None\<close> also stands for running until the process is killed.\<close>

partial_function (option) process_loop :: "'s daemon_os \<Rightarrow> 's loop_state \<Rightarrow> 's loop_state option" where
  "process_loop os st =
     (case process_turn os st of
        None \<Rightarrow> None
      | Some (stop, st') \<Rightarrow> if stop then Some st' else process_loop os st')"

section \<open>The states the daemon reaches\<close>

text \<open>
  The queue operations are atomic, so the threads of the daemon interleave as a sequence of steps:
  the event loop receives requests and forgets closed connections; a render thread fetches an item,
  holds it while it renders, and answers it. The state is the queue, the state of the sockets and
  the items held by render threads. A render time is positive only for a tile whose zoom was checked
  before it was rendered.
\<close>

type_synonym 's daemon = "request_queue \<times> 's \<times> nat set"

definition zoom_checked :: "request_queue \<Rightarrow> nat \<Rightarrow> int \<Rightarrow> bool" where
  "zoom_checked q a t \<longleftrightarrow>
     t \<le> 0 \<or> (0 \<le> pr_z (it_req (q_mem q (Obj a))) \<and> pr_z (it_req (q_mem q (Obj a))) \<le> MAX_ZOOM)"

inductive daemon_step :: "'s sock_os \<Rightarrow> 's daemon \<Rightarrow> 's daemon \<Rightarrow> bool" for os where
  receive: "(\<forall>a. mal = Some a \<longrightarrow> \<not> q_alloc q a) \<Longrightarrow> rx_request mal q req fd = (st, req', q')
      \<Longrightarrow> daemon_step os (q, s, H) (q', s, H)"
| fetch: "request_queue_fetch_request q = Some (Obj a, q') \<Longrightarrow> daemon_step os (q, s, H) (q', s, insert a H)"
| respond: "a \<in> H \<Longrightarrow> zoom_checked q a t \<Longrightarrow> send_response os q s a rsp t = Some (q', s', out)
      \<Longrightarrow> daemon_step os (q, s, H) (q', s', H - {a})"
| forget: "request_queue_clear_requests_by_fd q fd = Some q' \<Longrightarrow> daemon_step os (q, s, H) (q', s, H)"

inductive daemon_reach :: "'s sock_os \<Rightarrow> 's daemon \<Rightarrow> bool" for os where
  start: "request_queue_init True 0 0 True = Some q \<Longrightarrow> daemon_reach os (q, s, {})"
| step: "daemon_reach os d \<Longrightarrow> daemon_step os d d' \<Longrightarrow> daemon_reach os d'"

text \<open>
  The invariant: the queue is well formed, the render list holds exactly the items the render threads
  hold, and the objects allocated are exactly those the queue owns, so that nothing is leaked.
\<close>

definition daemon_inv :: "'s daemon \<Rightarrow> qview \<Rightarrow> bool" where
  "daemon_inv d v \<longleftrightarrow>
     repr (fst d) v \<and> set (v_list v renderHead) = snd (snd d) \<and> {a. q_alloc (fst d) a} = owned v"

section \<open>Answers\<close>

definition answers :: "(iaddr \<Rightarrow> item) \<Rightarrow> protoCmd \<Rightarrow> nat list \<Rightarrow> (int \<times> protocol) list" where
  "answers m rsp ds =
     map (\<lambda>d. (it_fd (m (Obj d)), (it_req (m (Obj d)))\<lparr>pr_cmd := rsp\<rparr>)) (filter (\<lambda>d. wants_answer (m (Obj d))) ds)"

definition free_all :: "nat set \<Rightarrow> request_queue \<Rightarrow> request_queue" where
  "free_all S q = q\<lparr>q_alloc := (\<lambda>a. q_alloc q a \<and> a \<notin> S)\<rparr>"

lemma free_all_simps [simp]:
  "q_mem (free_all S q) = q_mem q" "q_alloc (free_all S q) a = (q_alloc q a \<and> a \<notin> S)"
  "free_all {} q = q" "free_all S (free_item a q) = free_all (insert a S) q"
  by (auto simp: free_all_def free_item_def fun_eq_iff)

lemma respond_loop_returns:
  "dchain (q_mem q) p ds \<Longrightarrow>
   \<exists>s'. respond_loop os rsp q s out p = Some (free_all (set ds) q, s', out @ answers (q_mem q) rsp ds)"
proof (induction ds arbitrary: q s out p)
  case Nil
  then show ?case by (subst respond_loop.simps) (simp add: answers_def)
next
  case (Cons d ds)
  then have p: "p = Some d" and d: "dchain (q_mem (free_item d q)) (it_duplicates (q_mem q (Obj d))) ds"
    by (auto simp: free_item_def)
  let ?i = "q_mem q (Obj d)"
  let ?msg = "(it_req ?i)\<lparr>pr_cmd := rsp\<rparr>"
  let ?s = "if wants_answer ?i then snd (send_cmd os s ?msg (it_fd ?i)) else s"
  let ?out = "if wants_answer ?i then out @ [(it_fd ?i, ?msg)] else out"
  have "respond_loop os rsp q s out p =
      respond_loop os rsp (free_item d q) ?s ?out (it_duplicates ?i)"
    by (subst respond_loop.simps) (simp add: p Let_def)
  with Cons.IH [OF d, of ?s ?out] show ?case
    by (auto simp: answers_def free_item_def free_all_def fun_eq_iff cong: conj_cong)
qed

lemma repr_free_all:
  assumes "repr q v" "S \<inter> owned v = {}"
  shows "repr (free_all S q) v"
proof -
  have "index_invar (free_all S q) = index_invar q" "index_entries (free_all S q) = index_entries q"
    using index_frame [of "free_all S q" q] by (simp_all add: free_all_def queue_key_def)
  with assms show ?thesis
    using counts_frame [of "free_all S q" q v] by (auto simp: repr_def free_all_def)
qed

text \<open>
  Answering a held item: the call returns, every waiting client of the tile gets one answer, the item
  and its duplicates leave the queue and are released.
\<close>

lemma send_response_spec:
  assumes "repr q v" "a \<in> set (v_list v renderHead)" "zoom_checked q a t"
  shows "\<exists>q' s'. send_response os q s a rsp t = Some (q', s', answers (q_mem q) rsp (a # v_dups v a))
           \<and> repr q' (v_drop a v) \<and> (\<forall>b. q_alloc q' b \<longleftrightarrow> q_alloc q b \<and> b \<notin> insert a (set (v_dups v a)))
           \<and> q_mem q' = unlink_item (q_mem q) (Obj a)"
proof -
  have a: "a \<in> queued v" "view_ok v" "mem_ok (q_mem q) v" using assms queuedI by (auto simp: repr_def)
  obtain st where "stats_after (q_mem q (Obj a)) t (q_stats q) = Some st"
    using stats_after_Some assms(3) unfolding zoom_checked_def by blast
  from remove_refines [OF assms(1,2) this] obtain q1 where
    q1: "request_queue_remove_request q (Obj a) t = Some q1" "repr q1 (v_drop a v)"
      "q_mem q1 = unlink_item (q_mem q) (Obj a)" "q_alloc q1 = q_alloc q" by blast
  have "dchain (q_mem q1) (it_duplicates (q_mem q1 (Obj a))) (v_dups v a)"
    using mem_okD(2) [OF a(3,1)] dchain_frame [of "v_dups v a" "q_mem q1" "q_mem q"] by (simp add: q1(3))
  then have "dchain (q_mem q1) (Some a) (a # v_dups v a)" by simp
  from respond_loop_returns [OF this, of os rsp s "[]"] obtain s' where
    "respond_loop os rsp q1 s [] (Some a) = Some (free_all (set (a # v_dups v a)) q1, s', answers (q_mem q1) rsp (a # v_dups v a))"
    by auto
  moreover have "answers (q_mem q1) rsp ds = answers (q_mem q) rsp ds" for ds
    by (simp add: answers_def q1(3) wants_answer_def)
  moreover have "set (a # v_dups v a) \<inter> owned (v_drop a v) = {}"
    using owned_drop [OF a(2,1)] by auto
  then have "repr (free_all (set (a # v_dups v a)) q1) (v_drop a v)"
    by (rule repr_free_all [OF q1(2)])
  ultimately show ?thesis using q1 by (simp add: send_response_def)
qed

section \<open>Receiving\<close>

lemma repr_store_item:
  assumes "repr q v" "a \<notin> owned v"
  shows "repr (store_item a i q) v"
proof -
  let ?q = "store_item a i q" and ?m = "(q_mem q)(Obj a := i)"
  note n = notin_owned [OF assms(2)] and v = assms(1) [unfolded repr_def]
  note d = view_okD [OF v [THEN conjunct1]]
  have m: "mem_ok (q_mem q) v" using v by blast
  note e = mem_okD [OF m]
  have "linked ?m h (v_list v h)" if "is_head h" for h
    by (rule linked_frame [OF e(1) [OF that]]) (use n(2) [of h] that in auto)
  moreover have "dchain ?m p (v_dups v b) = dchain (q_mem q) p (v_dups v b)" for p b
    by (rule dchain_frame) (use n(3) [of b] in auto)
  moreover have "v_dups v a = []" using d(4) n(1) by blast
  ultimately have "mem_ok ?m v"
    using e(2-5) n d(4) unfolding mem_ok_def by auto
  moreover have c: "calcHashKey ?q = calcHashKey q" by (rule calcHashKey_size) (simp add: store_item_def)
  have same: "b \<in> index_entries q \<Longrightarrow> q_mem ?q (Obj b) = q_mem q (Obj b)" for b
    using v n(1) by (auto simp: store_item_def)
  have ent: "index_entries ?q = index_entries q" by (simp add: index_entries_def store_item_def)
  have "index_invar ?q"
    using index_invarD [of q] v c same chain_entries [of _ q] n(1)
    unfolding index_invar_def ent by (auto simp: inj_on_def queue_key_def store_item_def)
  ultimately show ?thesis
    using v ent counts_frame [of ?q q v] by (auto simp: repr_def store_item_def)
qed


text \<open>A request that passes the checks and finds memory is added to the queue as the view prescribes.\<close>

definition accepted :: "protocol \<Rightarrow> bool" where
  "accepted req \<longleftrightarrow> pr_ver req \<le> 3 \<and> pr_cmd req \<in> {cmdRender, cmdRenderPrio, cmdRenderLow, cmdDirty, cmdRenderBulk}"

definition request_key :: "protocol \<Rightarrow> probe_key" where
  "request_key req =
     (pr_x req AND NOT (METATILE - 1), pr_y req AND NOT (METATILE - 1), pr_z req, pr_xmlname (upgrade req))"

lemma upgrade_keeps [simp]:
  "pr_ver (upgrade r) = pr_ver r" "pr_cmd (upgrade r) = pr_cmd r" "pr_x (upgrade r) = pr_x r"
  "pr_y (upgrade r) = pr_y r" "pr_z (upgrade r) = pr_z r"
  by (simp_all add: upgrade_def Let_def)

lemma make_item_key: "item_key (make_item old (upgrade req) fd) = request_key req"
  by (simp add: make_item_def item_key_def request_key_def)

lemma rx_request_cases:
  "rx_request mal q req fd =
     (if \<not> accepted req then (cmdNotDone, upgrade req, q)
      else case mal of None \<Rightarrow> (cmdNotDone, upgrade req, q)
         | Some a \<Rightarrow> (fst (add_request (store_item a (make_item (q_mem q (Obj a)) (upgrade req) fd) q) a), upgrade req,
                     snd (add_request (store_item a (make_item (q_mem q (Obj a)) (upgrade req) fd) q) a)))"
  by (auto simp: rx_request_def accepted_def Let_def case_prod_beta split: option.splits)

lemma rx_request_refines:
  assumes "repr q v" "a \<notin> owned v" "accepted req"
    and "v_add ((queue_key q)(a := request_key req)) (pr_cmd req) a v = (r, v')"
  shows "\<exists>q'. rx_request (Some a) q req fd = (r, upgrade req, q') \<and> repr q' v'
           \<and> (\<forall>b. b \<noteq> a \<longrightarrow> q_alloc q' b = q_alloc q b)
           \<and> (q_alloc q' a \<longleftrightarrow> a \<in> owned v')"
proof -
  let ?q = "store_item a (make_item (q_mem q (Obj a)) (upgrade req) fd) q"
  have r: "repr ?q v" by (rule repr_store_item [OF assms(1,2)])
  have al: "q_alloc ?q a" by (simp add: store_item_def)
  have du: "it_duplicates (q_mem ?q (Obj a)) = None" by (simp add: store_item_def make_item_def)
  have "queue_key ?q = (queue_key q)(a := request_key req)"
    using make_item_key by (simp add: fun_eq_iff queue_key_def store_item_def)
  moreover have "pr_cmd (it_req (q_mem ?q (Obj a))) = pr_cmd req" by (simp add: store_item_def make_item_def)
  ultimately have va: "v_add (queue_key ?q) (pr_cmd (it_req (q_mem ?q (Obj a)))) a v = (r, v')"
    using assms(4) by simp
  note a = add_request_refines [OF r assms(2) al du va] add_request_alloc [OF r assms(2) al va]
  have "b \<noteq> a \<Longrightarrow> q_alloc ?q b = q_alloc q b" for b by (simp add: store_item_def)
  with a rx_request_cases [of "Some a" q req fd] assms(3) show ?thesis by auto
qed

text \<open>What every step keeps.\<close>

lemma owned_add:
  assumes "view_ok v" "a \<notin> owned v" "v_add key c a v = (r, v')"
  shows "v_list v' renderHead = v_list v renderHead" and "owned v' \<subseteq> insert a (owned v)" and "owned v \<subseteq> owned v'"
  using assms(3)
  by (auto simp: v_add_def v_place_def owned_push owned_attach split: option.splits if_splits)
    (auto simp: v_push_def v_attach_def)

lemma daemon_inv_step:
  assumes "daemon_step os d d'" "daemon_inv d v"
  shows "\<exists>v'. daemon_inv d' v'"
  using assms
proof (induction rule: daemon_step.induct)
  case (receive mal q req fd st req' q' s H)
  then have r: "repr q v" and H: "set (v_list v renderHead) = H" and al: "{a. q_alloc q a} = owned v"
    by (auto simp: daemon_inv_def)
  show ?case
  proof (cases "accepted req \<and> (\<exists>a. mal = Some a)")
    case False
    with receive(2) have "q' = q" using rx_request_cases [of mal q req fd] by (auto split: if_splits option.splits)
    with receive(3) show ?thesis by (auto simp: daemon_inv_def)
  next
    case True
    then obtain a where a: "mal = Some a" "accepted req" by blast
    with receive(1) al have na: "a \<notin> owned v" by auto
    obtain st' v' where va: "v_add ((queue_key q)(a := request_key req)) (pr_cmd req) a v = (st', v')"
      by fastforce
    from rx_request_refines [OF r na a(2) va, of fd] receive(2) a(1)
    have q': "repr q' v'" "\<And>b. b \<noteq> a \<Longrightarrow> q_alloc q' b = q_alloc q b" "q_alloc q' a \<longleftrightarrow> a \<in> owned v'"
      by auto
    have "view_ok v" using r by (simp add: repr_def)
    note o = owned_add [OF this na va]
    have "q_alloc q' b \<longleftrightarrow> b \<in> owned v'" for b
      using q'(2,3) o(2,3) al by (cases "b = a") auto
    with q'(1) o(1) H show ?thesis by (auto simp: daemon_inv_def)
  qed
next
  case (fetch q a q' s H)
  then have r: "repr q v" and H: "set (v_list v renderHead) = H" and al: "{a. q_alloc q a} = owned v"
    by (auto simp: daemon_inv_def)
  from fetch_refines [OF r] fetch(1) obtain v' where
    f: "v_fetch v = Some (a, v')" "repr q' v'" "q_alloc q' = q_alloc q" by (auto split: option.splits)
  then obtain h where h: "find (\<lambda>h. v_list v h \<noteq> []) fetch_order = Some h" "a = hd (v_list v h)" "v' = v_start h v"
    by (auto simp: v_fetch_def split: option.splits)
  note fh = fetch_heads [OF h(1)]
  have "queued v' = queued v" using queued_start fh h by (metis list.discI)
  then have "owned v' = owned v" by (simp add: owned_def) (simp add: h v_start_def)
  with f H al h fh(1) show ?case by (auto simp: daemon_inv_def v_start_def)
next
  case (respond a H q t s rsp q' s' out)
  then have r: "repr q v" and a: "a \<in> set (v_list v renderHead)" and H: "set (v_list v renderHead) = H"
    and al: "{a. q_alloc q a} = owned v" by (auto simp: daemon_inv_def)
  from send_response_spec [OF r a respond(2), of os s rsp] respond(3)
  have q': "repr q' (v_drop a v)" "\<And>b. q_alloc q' b \<longleftrightarrow> q_alloc q b \<and> b \<notin> insert a (set (v_dups v a))" by auto
  have "owned (v_drop a v) = owned v - insert a (set (v_dups v a))"
    using owned_drop [of v a] r queuedI [OF a] by (simp add: repr_def)
  then have "daemon_inv (q', s', H - {a}) (v_drop a v)"
    using q' al H by (auto simp: daemon_inv_def v_drop_def)
  then show ?case by blast
next
  case (forget q fd q' s H)
  then have r: "repr q v" by (auto simp: daemon_inv_def)
  from clear_fd_refines [OF r, of fd] forget show ?case by (auto simp: daemon_inv_def)
qed

lemma daemon_reach_inv: "daemon_reach os d \<Longrightarrow> \<exists>v. daemon_inv d v"
proof (induction rule: daemon_reach.induct)
  case (start q s)
  then have "q = empty_queue" by (simp add: request_queue_init_def)
  then show ?case
    using repr_empty by (auto simp: daemon_inv_def empty_view_def owned_def queued_def empty_queue_def)
next
  case (step d d')
  then show ?case using daemon_inv_step by blast
qed

section \<open>The event loop and the render threads together\<close>

text \<open>
  The system: the event loop accepts and serves clients one at a time, render threads fetch and
  answer in between, and the operating system's state can change at any time (data arrives, clients
  connect and go). \<open>malloc\<close> never returns an object that is in use.
\<close>

definition malloc_fresh :: "'s daemon_os \<Rightarrow> bool" where
  "malloc_fresh os \<longleftrightarrow> (\<forall>s al a s'. do_malloc os s al = (Some a, s') \<longrightarrow> \<not> al a)"

inductive sys_step :: "'s daemon_os \<Rightarrow> 's loop_state \<times> nat set \<Rightarrow> 's loop_state \<times> nat set \<Rightarrow> bool" for os where
  sys_accept: "sys_step os (st, H) (accept_client os st, H)"
| sys_serve: "i < length (pl_slots st) \<Longrightarrow> 0 \<le> pl_slots st ! i \<Longrightarrow> serve_client os i (pl_slots st ! i) st = Some st'
      \<Longrightarrow> sys_step os (st, H) (st', H)"
| sys_fetch: "request_queue_fetch_request (pl_queue st) = Some (Obj a, q')
      \<Longrightarrow> sys_step os (st, H) (st\<lparr>pl_queue := q'\<rparr>, insert a H)"
| sys_respond: "a \<in> H \<Longrightarrow> zoom_checked (pl_queue st) a t
      \<Longrightarrow> send_response (do_sock os) (pl_queue st) (pl_os st) a rsp t = Some (q', s', out)
      \<Longrightarrow> sys_step os (st, H) (st\<lparr>pl_queue := q', pl_os := s', pl_sent := pl_sent st @ out\<rparr>, H - {a})"
| sys_os: "sys_step os (st, H) (st\<lparr>pl_os := s\<rparr>, H)"

inductive sys_reach :: "'s daemon_os \<Rightarrow> 's loop_state \<times> nat set \<Rightarrow> bool" for os where
  sys_start: "request_queue_init True 0 0 True = Some q
      \<Longrightarrow> sys_reach os (\<lparr>pl_slots = [], pl_conns = 0, pl_queue = q, pl_os = s, pl_sent = []\<rparr>, {})"
| sys_next: "sys_reach os d \<Longrightarrow> sys_step os d d' \<Longrightarrow> sys_reach os d'"

text \<open>The slots stay within the array, the count of connections is right.\<close>

definition slots_ok :: "'s loop_state \<Rightarrow> bool" where
  "slots_ok st \<longleftrightarrow>
     length (pl_slots st) \<le> MAX_CONNECTIONS
     \<and> pl_conns st = int (length (filter (\<lambda>fd. fd \<noteq> FD_INVALID) (pl_slots st)))"

text \<open>Every descriptor the queue holds is that of an open connection.\<close>

definition fds_ok :: "request_queue \<Rightarrow> int set \<Rightarrow> bool" where
  "fds_ok q fds \<longleftrightarrow> (\<forall>a. q_alloc q a \<longrightarrow> it_fd (q_mem q (Obj a)) \<in> insert FD_INVALID fds)"

definition sys_inv :: "'s loop_state \<times> nat set \<Rightarrow> qview \<Rightarrow> bool" where
  "sys_inv d v \<longleftrightarrow>
     daemon_inv (pl_queue (fst d), pl_os (fst d), snd d) v \<and> slots_ok (fst d)
     \<and> fds_ok (pl_queue (fst d)) (set (pl_slots (fst d)))"

lemma unused_slot_Some: "unused_slot fds k = Some i \<Longrightarrow> k \<le> i \<and> i - k < length fds \<and> fds ! (i - k) = FD_INVALID"
proof (induction fds k rule: unused_slot.induct)
  case (2 fd fds k)
  show ?case
  proof (cases "fd = FD_INVALID")
    case True
    with 2 show ?thesis by auto
  next
    case False
    with 2 have "Suc k \<le> i \<and> i - Suc k < length fds \<and> fds ! (i - Suc k) = FD_INVALID" by auto
    moreover from this have "i - k = Suc (i - Suc k)" by linarith
    ultimately show ?thesis by simp
  qed
qed simp

lemma filter_length_update:
  assumes "i < length xs"
  shows "int (length (filter P (xs[i := x]))) =
    int (length (filter P xs)) - (if P (xs ! i) then 1 else 0) + (if P x then 1 else 0)"
proof -
  have "int (length (filter P ((ys @ y # zs)[length ys := x]))) =
      int (length (filter P (ys @ y # zs))) - (if P ((ys @ y # zs) ! length ys) then 1 else 0) + (if P x then 1 else 0)"
    for ys y zs by simp
  from this [of "take i xs" "xs ! i" "drop (Suc i) xs"] show ?thesis
    using id_take_nth_drop [OF assms] assms by (simp add: min_def)
qed


lemma slots_accept: "slots_ok st \<Longrightarrow> slots_ok (accept_client os st)"
  using unused_slot_Some [of "pl_slots st" 0]
  by (auto simp: accept_client_def slots_ok_def case_prod_beta FD_INVALID_def filter_length_update split: option.split)

lemma slots_accept_old:
  assumes "fd \<in> set (pl_slots st)" "fd \<noteq> FD_INVALID"
  shows "fd \<in> set (pl_slots (accept_client os st))"
proof -
  have "fd \<in> set ((pl_slots st)[i := x])" if "unused_slot (pl_slots st) 0 = Some i" for i x
  proof -
    from assms(1) obtain j where j: "j < length (pl_slots st)" "pl_slots st ! j = fd" by (auto simp: in_set_conv_nth)
    with unused_slot_Some [OF that] assms(2) have "i \<noteq> j" by auto
    with j show ?thesis by (metis length_list_update nth_list_update_neq nth_mem)
  qed
  with assms(1) show ?thesis by (auto simp: accept_client_def case_prod_beta split: option.split)
qed

lemma accept_queue [simp]: "pl_queue (accept_client os st) = pl_queue st"
  by (auto simp: accept_client_def case_prod_beta split: option.split)

lemma add_request_alloc_subset:
  assumes "repr q v"
  shows "q_alloc (snd (add_request q a)) b \<Longrightarrow> q_alloc q b"
  using assms
  by (cases rule: add_request_cases [where a = a])
    (auto simp: free_item_def placed_def split: if_splits)

lemma add_request_fd:
  assumes "repr q v"
  shows "it_fd (q_mem (snd (add_request q a)) (Obj b)) = it_fd (q_mem q (Obj b))
    \<or> it_fd (q_mem (snd (add_request q a)) (Obj b)) = FD_INVALID"
  using assms
  by (cases rule: add_request_cases [where a = a])
    (auto simp: free_item_def placed_def attach_mem_def)

lemma rx_request_fd:
  assumes "repr q v" "{a. q_alloc q a} = owned v" "\<forall>a. mal = Some a \<longrightarrow> \<not> q_alloc q a"
    "rx_request mal q req fd = (st, req', q')" "q_alloc q' b"
  shows "q_alloc q b \<and> it_fd (q_mem q' (Obj b)) = it_fd (q_mem q (Obj b)) \<or> it_fd (q_mem q' (Obj b)) \<in> {fd, FD_INVALID}"
proof (cases "accepted req \<and> mal \<noteq> None")
  case False
  with assms(4,5) show ?thesis using rx_request_cases [of mal q req fd] by (auto split: if_splits option.splits)
next
  case True
  then obtain c where c: "mal = Some c" by blast
  let ?q = "store_item c (make_item (q_mem q (Obj c)) (upgrade req) fd) q"
  have q': "q' = snd (add_request ?q c)" using assms(4) c True rx_request_cases [of mal q req fd] by auto
  have nc: "c \<notin> owned v" using assms(2,3) c by auto
  have r: "repr ?q v" by (rule repr_store_item [OF assms(1) nc])
  have "q_alloc ?q b" using add_request_alloc_subset [OF r] assms(5) q' by simp
  moreover from add_request_fd [OF r, of c b] have
    "it_fd (q_mem q' (Obj b)) \<in> {it_fd (q_mem ?q (Obj b)), FD_INVALID}" using q' by auto
  ultimately show ?thesis by (auto simp: store_item_def make_item_def split: if_splits)
qed

text \<open>A serving step is a receiving or a forgetting step.\<close>

lemma serve_client_step:
  assumes "malloc_fresh os" "serve_client os i fd st = Some st'"
  shows "daemon_step (do_sock os) (pl_queue st, s, H) (pl_queue st', s, H)"
proof -
  obtain ret cmd s1 where r: "recv_cmd (do_sock os) (pl_os st) fd False = (ret, cmd, s1)" by (metis prod_cases3)
  obtain mal s2 where m: "do_malloc os s1 (q_alloc (pl_queue st)) = (mal, s2)" by fastforce
  obtain rsp cmd' q1 where x: "rx_request mal (pl_queue st) cmd fd = (rsp, cmd', q1)" by (metis prod_cases3)
  show ?thesis
  proof (cases "ret < 1")
    case True
    with assms(2) r show ?thesis
      by (auto simp: serve_client_def split: option.splits intro: daemon_step.forget)
  next
    case False
    have "\<forall>a. mal = Some a \<longrightarrow> \<not> q_alloc (pl_queue st) a"
      using assms(1) m unfolding malloc_fresh_def by metis
    from daemon_step.receive [OF this x] assms(2) r m x False show ?thesis
      by (auto simp: serve_client_def Let_def split: if_splits)
  qed
qed

lemma serve_client_slots:
  assumes "serve_client os i fd st = Some st'" "slots_ok st" "i < length (pl_slots st)" "pl_slots st ! i = fd" "0 \<le> fd"
  shows "slots_ok st'"
  using assms by (auto simp: serve_client_def slots_ok_def Let_def case_prod_beta filter_length_update FD_INVALID_def
      split: if_splits option.splits)

text \<open>Closing a connection forgets its descriptor; a new request carries the descriptor it came on.\<close>

lemma forget_fds:
  assumes "repr q v" "{a. q_alloc q a} = owned v" "fds_ok q (set fds)" "i < length fds" "0 \<le> fds ! i"
    "request_queue_clear_requests_by_fd q (fds ! i) = Some q'"
  shows "fds_ok q' (set (fds[i := FD_INVALID]))"
proof -
  have al: "q_alloc q' = q_alloc q" using clear_fd_refines [OF assms(1), of "fds ! i"] assms(6) by auto
  have "it_fd (q_mem q' (Obj a)) \<in> insert FD_INVALID (set fds - {fds ! i})" if "q_alloc q a" for a
  proof -
    have "a \<in> owned v" using that assms(2) by blast
    from clear_fd_forgets [OF assms(1) _ this assms(6)] assms(3,5) that show ?thesis
      by (auto simp: FD_INVALID_def fds_ok_def)
  qed
  moreover have "set fds - {fds ! i} \<subseteq> set (fds[i := FD_INVALID])"
    by (auto simp: in_set_conv_nth nth_list_update) (metis nth_list_update_neq)
  ultimately show ?thesis unfolding fds_ok_def al by blast
qed

lemma serve_client_fds:
  assumes "malloc_fresh os" "serve_client os i (pl_slots st ! i) st = Some st'" "i < length (pl_slots st)"
    "0 \<le> pl_slots st ! i" "repr (pl_queue st) v" "{a. q_alloc (pl_queue st) a} = owned v"
    "fds_ok (pl_queue st) (set (pl_slots st))"
  shows "fds_ok (pl_queue st') (set (pl_slots st'))"
proof -
  let ?fd = "pl_slots st ! i"
  obtain ret cmd s1 where r: "recv_cmd (do_sock os) (pl_os st) ?fd False = (ret, cmd, s1)" by (metis prod_cases3)
  obtain mal s2 where m: "do_malloc os s1 (q_alloc (pl_queue st)) = (mal, s2)" by fastforce
  obtain rsp cmd' q1 where x: "rx_request mal (pl_queue st) cmd ?fd = (rsp, cmd', q1)" by (metis prod_cases3)
  show ?thesis
  proof (cases "ret < 1")
    case True
    with assms(2) r obtain q1 where "request_queue_clear_requests_by_fd (pl_queue st) ?fd = Some q1"
      "pl_queue st' = q1" "pl_slots st' = (pl_slots st)[i := FD_INVALID]"
      by (auto simp: serve_client_def split: option.splits)
    with forget_fds [OF assms(5-7,3,4)] show ?thesis by simp
  next
    case False
    have "\<forall>a. mal = Some a \<longrightarrow> \<not> q_alloc (pl_queue st) a"
      using assms(1) m unfolding malloc_fresh_def by metis
    note f = rx_request_fd [OF assms(5,6) this x]
    have "pl_queue st' = q1 \<and> pl_slots st' = pl_slots st"
      using assms(2) r m x False by (auto simp: serve_client_def Let_def split: if_splits)
    moreover have "?fd \<in> set (pl_slots st)" using assms(3) by simp
    ultimately show ?thesis using f assms(7) by (fastforce simp: fds_ok_def)
  qed
qed

lemma sys_inv_step:
  assumes "sys_step os d d'" "malloc_fresh os" "sys_inv d v"
  shows "\<exists>v'. sys_inv d' v'"
  using assms
proof (induction rule: sys_step.induct)
  case (sys_accept st H)
  then have "fds_ok (pl_queue st) (set (pl_slots (accept_client os st)))"
    using slots_accept_old [of _ st os] by (auto simp: sys_inv_def fds_ok_def)
  with sys_accept slots_accept show ?case by (auto simp: sys_inv_def daemon_inv_def)
next
  case (sys_serve i st st' H)
  then have d: "daemon_inv (pl_queue st, pl_os st, H) v" by (simp add: sys_inv_def)
  from daemon_inv_step [OF serve_client_step [OF sys_serve(4,3)] d] obtain v' where
    "daemon_inv (pl_queue st', pl_os st, H) v'" by blast
  moreover have "slots_ok st'" "fds_ok (pl_queue st') (set (pl_slots st'))"
    using serve_client_slots [OF sys_serve(3)] serve_client_fds [OF sys_serve(4,3)] sys_serve d
    by (auto simp: sys_inv_def daemon_inv_def)
  ultimately show ?case by (auto simp: sys_inv_def daemon_inv_def)
next
  case (sys_fetch st a q' H)
  then have d: "daemon_inv (pl_queue st, pl_os st, H) v" by (simp add: sys_inv_def)
  from daemon_inv_step [OF daemon_step.fetch [OF sys_fetch(1)] d] obtain v' where
    "daemon_inv (q', pl_os st, insert a H) v'" by blast
  moreover from fetch_refines [of "pl_queue st" v] d sys_fetch(1)
  have "q_mem q' = fetch_mem (q_mem (pl_queue st)) a" "q_alloc q' = q_alloc (pl_queue st)"
    by (auto simp: daemon_inv_def split: option.splits)
  then have "fds_ok q' (set (pl_slots st))" using sys_fetch(3) by (simp add: sys_inv_def fds_ok_def)
  ultimately show ?case using sys_fetch(3) by (auto simp: sys_inv_def daemon_inv_def slots_ok_def)
next
  case (sys_respond a H st t rsp q' s' out)
  then have d: "daemon_inv (pl_queue st, pl_os st, H) v" by (simp add: sys_inv_def)
  from daemon_inv_step [OF daemon_step.respond [OF sys_respond(1-3)] d] obtain v' where
    "daemon_inv (q', s', H - {a}) v'" by blast
  moreover have "repr (pl_queue st) v" "a \<in> set (v_list v renderHead)"
    using d sys_respond(1) by (auto simp: daemon_inv_def)
  from send_response_spec [OF this sys_respond(2), of "do_sock os" "pl_os st" rsp] sys_respond(3)
  have "q_mem q' = unlink_item (q_mem (pl_queue st)) (Obj a)" "\<And>b. q_alloc q' b \<Longrightarrow> q_alloc (pl_queue st) b" by auto
  then have "fds_ok q' (set (pl_slots st))" using sys_respond(5) by (simp add: sys_inv_def fds_ok_def)
  ultimately show ?case using sys_respond(5) by (auto simp: sys_inv_def daemon_inv_def slots_ok_def)
next
  case (sys_os st H s)
  then show ?case by (auto simp: sys_inv_def daemon_inv_def slots_ok_def)
qed

lemma sys_reach_os: "sys_reach os (st, H) \<Longrightarrow> sys_reach os (st\<lparr>pl_os := s\<rparr>, H)"
  by (erule sys_reach.sys_next) (rule sys_step.sys_os)

lemma sys_reach_accept: "sys_reach os (st, H) \<Longrightarrow> sys_reach os (accept_client os st, H)"
  by (erule sys_reach.sys_next) (rule sys_step.sys_accept)

lemma owned_empty_view [simp]: "owned empty_view = {}"
  by (simp add: owned_def queued_def empty_view_def)

lemma sys_reach_inv: "sys_reach os d \<Longrightarrow> malloc_fresh os \<Longrightarrow> \<exists>v. sys_inv d v"
proof (induction rule: sys_reach.induct)
  case (sys_start q s)
  then have "q = empty_queue" by (simp add: request_queue_init_def)
  then show ?case
    using repr_empty by (auto simp: sys_inv_def slots_ok_def fds_ok_def daemon_inv_def empty_view_def owned_def
        queued_def empty_queue_def)
next
  case (sys_next d d')
  then show ?case using sys_inv_step by blast
qed

text \<open>The requests that wait, in the order in which they will be rendered.\<close>

definition waiting :: "qview \<Rightarrow> nat list" where
  "waiting v = concat (map (v_list v) fetch_order)"

text \<open>Repeated fetching, with no other operation in between.\<close>

fun fetch_n :: "nat \<Rightarrow> request_queue \<Rightarrow> iaddr list \<times> request_queue" where
  "fetch_n 0 q = ([], q)"
| "fetch_n (Suc n) q =
     (case request_queue_fetch_request q of
        None \<Rightarrow> ([], q)
      | Some (a, q') \<Rightarrow> (case fetch_n n q' of (as, q'') \<Rightarrow> (a # as, q'')))"

lemma waiting_fetch: "v_fetch v = Some (a, v') \<Longrightarrow> waiting v = a # waiting v'"
  by (auto simp: v_fetch_def waiting_def fetch_order_def v_start_def split: if_splits)

lemma waiting_none: "v_fetch v = None \<longleftrightarrow> waiting v = []"
  by (auto simp: v_fetch_def waiting_def fetch_order_def)

lemma fetch_n_drains:
  "repr q v \<Longrightarrow> waiting v = as \<Longrightarrow>
   fst (fetch_n (length as) q) = map Obj as \<and> request_queue_fetch_request (snd (fetch_n (length as) q)) = None"
proof (induction as arbitrary: q v)
  case Nil
  then have "v_fetch v = None" by (simp add: waiting_none)
  with fetch_refines [OF Nil(1)] show ?case by simp
next
  case (Cons a as)
  then obtain v' where f: "v_fetch v = Some (a, v')" "waiting v' = as"
    using waiting_fetch waiting_none by (metis list.inject not_Some_eq old.prod.exhaust list.distinct(1))
  from fetch_refines [OF Cons.prems(1)] f obtain q' where
    "request_queue_fetch_request q = Some (Obj a, q')" "repr q' v'" by auto
  with Cons.IH f(2) show ?case by (simp add: case_prod_beta)
qed

lemma serve_client_returns:
  assumes "repr (pl_queue st) v"
  shows "\<exists>st'. serve_client os i fd st = Some st'"
  using clear_fd_refines [OF assms, of fd]
  by (auto simp: serve_client_def Let_def case_prod_beta split: option.splits)

lemma serve_client_length: "serve_client os i fd st = Some st' \<Longrightarrow> length (pl_slots st') = length (pl_slots st)"
  by (auto simp: serve_client_def Let_def case_prod_beta split: if_splits option.splits)

lemma serve_slots_returns:
  assumes "malloc_fresh os" "sys_reach os (st, H)" "i + n \<le> length (pl_slots st)"
  shows "\<exists>st'. serve_slots os ready i n st = Some st' \<and> sys_reach os (st', H)"
  using assms(2,3)
proof (induction n arbitrary: i st)
  case 0
  then show ?case by simp
next
  case (Suc n)
  show ?case
  proof (cases "0 \<le> pl_slots st ! i \<and> ready i")
    case True
    from sys_reach_inv [OF Suc.prems(1) assms(1)] obtain v where "repr (pl_queue st) v"
      by (auto simp: sys_inv_def daemon_inv_def)
    from serve_client_returns [OF this] obtain st1 where s: "serve_client os i (pl_slots st ! i) st = Some st1" by blast
    then have "sys_reach os (st1, H)"
      using sys_reach.sys_next [OF Suc.prems(1)] sys_step.sys_serve [of i st os st1 H] True Suc.prems(2) by simp
    from Suc.IH [OF this, of "Suc i"] s True Suc.prems(2) serve_client_length [OF s] show ?thesis by simp
  next
    case False
    with Suc show ?thesis by auto
  qed
qed

lemma process_turn_returns:
  assumes "malloc_fresh os" "sys_reach os (st, H)"
  shows "\<exists>stop st'. process_turn os st = Some (stop, st') \<and> sys_reach os (st', H)"
proof -
  obtain p s where p: "do_poll os (pl_os st) (pl_slots st) = (p, s)" by fastforce
  let ?st1 = "st\<lparr>pl_os := s\<rparr>"
  let ?st2 = "if po_listen p then accept_client os ?st1 else ?st1"
  have r1: "sys_reach os (?st1, H)" by (rule sys_reach_os [OF assms(2)])
  then have "sys_reach os (?st2, H)" using sys_reach_accept by auto
  from serve_slots_returns [OF assms(1) this, of 0] obtain st3 where
    "serve_slots os (po_ready p) 0 (length (pl_slots ?st2)) ?st2 = Some st3" "sys_reach os (st3, H)" by auto
  with p r1 show ?thesis by (auto simp: process_turn_def Let_def)
qed

section \<open>Properties of the daemon\<close>

text \<open>
  C1. In every state that the event loop and any number of render threads can reach, in any order of
  their steps: the six lists are well-formed circular doubly linked lists that share no item, every
  duplicate chain hangs off exactly one item of the same tile, the counters are the lengths of the
  lists and within their limits, the hash index holds exactly the queued items with one item per
  tile, the render list holds exactly the items held by render threads, the allocated objects are
  exactly those reachable from the queue (no leak, no dangling item), the slots stay within their
  array and are counted right, and every descriptor in the queue belongs to an open connection.
\<close>

theorem daemon_invariant:
  assumes "malloc_fresh os" "sys_reach os d"
  shows "\<exists>v. sys_inv d v"
  using sys_reach_inv assms by blast

definition idle_os :: "unit daemon_os" where
  "idle_os =
     \<lparr>do_sock = \<lparr>so_getsockopt = (\<lambda>s fd. 0), so_send = (\<lambda>s fd bs. (int (length bs), s)),
                 so_recv = (\<lambda>s fd n b. ((0, []), s))\<rparr>,
      do_poll = (\<lambda>s fds. (\<lparr>po_num = 1, po_exit = False, po_listen = True, po_ready = (\<lambda>_. True)\<rparr>, s)),
      do_accept = (\<lambda>s. (7, s)), do_close = (\<lambda>s fd. s), do_malloc = (\<lambda>s al. (None, s))\<rparr>"

theorem daemon_invariant_witness:
  "\<exists>v. sys_inv (accept_client idle_os
      \<lparr>pl_slots = [], pl_conns = 0, pl_queue = empty_queue, pl_os = (), pl_sent = []\<rparr>, {}) v"
proof (rule daemon_invariant [of idle_os])
  show "malloc_fresh idle_os" by (simp add: malloc_fresh_def idle_os_def)
  have "sys_reach idle_os (\<lparr>pl_slots = [], pl_conns = 0, pl_queue = empty_queue, pl_os = (), pl_sent = []\<rparr>, {})"
    by (rule sys_reach.sys_start) (simp add: request_queue_init_def)
  then show "sys_reach idle_os (accept_client idle_os
      \<lparr>pl_slots = [], pl_conns = 0, pl_queue = empty_queue, pl_os = (), pl_sent = []\<rparr>, {})"
    by (rule sys_reach.sys_next) (rule sys_step.sys_accept)
qed

text \<open>
  C11. Every turn of the event loop returns from any reachable state, whatever \<open>poll\<close>, \<open>accept\<close> and the
  clients do (no pointer loop of the queue runs forever), and leaves a reachable state.
\<close>

theorem event_loop_turn_returns:
  assumes "malloc_fresh os" "sys_reach os (st, H)"
  shows "\<exists>stop st'. process_turn os st = Some (stop, st') \<and> sys_reach os (st', H)"
  using process_turn_returns assms by blast

theorem event_loop_turn_returns_witness:
  "\<exists>stop st'. process_turn idle_os \<lparr>pl_slots = [], pl_conns = 0, pl_queue = empty_queue, pl_os = (), pl_sent = []\<rparr>
     = Some (stop, st') \<and> sys_reach idle_os (st', {})"
  by (rule event_loop_turn_returns)
    (simp_all add: malloc_fresh_def idle_os_def sys_reach.sys_start request_queue_init_def)

text \<open>
  C4. Adding a request to the pointer structure implements the addition to the plain lists, where the
  tile is looked up by searching all lists: a request for a tile that is queued or rendered becomes a
  duplicate, one for a tile on the dirty or bulk list is refused, a new tile goes to the end of the
  list of its priority, else to the dirty list, else it is dropped; the status is that of the view.
\<close>

theorem add_request_implements_view:
  assumes "repr q v" "a \<notin> owned v" "q_alloc q a" "it_duplicates (q_mem q (Obj a)) = None"
    and "v_add (queue_key q) (pr_cmd (it_req (q_mem q (Obj a)))) a v = (r, v')"
  shows "\<exists>q'. request_queue_add_request (Some q) a = Inr (r, q') \<and> repr q' v'
           \<and> (q_alloc q' a \<longleftrightarrow> a \<in> owned v')"
  using add_request_refines [OF assms] add_request_alloc [OF assms(1-3,5), of a]
  by (cases "add_request q a") (simp add: request_queue_add_request_def)

definition sample_request :: protocol where
  "sample_request = \<lparr>pr_ver = 3, pr_cmd = cmdRender, pr_x = 12, pr_y = 9, pr_z = 5, pr_xmlname = ''osm'',
                     pr_mimetype = ''image/png'', pr_options = []\<rparr>"

definition sample_queue :: request_queue where
  "sample_queue = store_item 0 (make_item (empty_item (Obj 0)) sample_request 7) empty_queue"

lemma sample_queue_repr: "repr sample_queue empty_view"
  unfolding sample_queue_def
  by (rule repr_store_item [OF repr_empty]) (simp add: owned_def queued_def empty_view_def)

lemma sample_item:
  "q_mem sample_queue (Obj 0) = make_item (empty_item (Obj 0)) sample_request 7" "q_alloc sample_queue 0"
  by (simp_all add: sample_queue_def store_item_def)

lemma sample_add: "v_add (queue_key sample_queue) cmdRender 0 empty_view = (cmdIgnore, v_push reqHead 0 empty_view)"
  by (simp add: v_add_def empty_view_def attach_heads_def refuse_heads_def v_place_def room_def REQ_LIMIT_def)

theorem add_request_implements_view_witness:
  "\<exists>q'. request_queue_add_request (Some sample_queue) 0 = Inr (cmdIgnore, q') \<and> repr q' (v_push reqHead 0 empty_view)
     \<and> (q_alloc q' 0 \<longleftrightarrow> 0 \<in> owned (v_push reqHead 0 empty_view))"
  by (rule add_request_implements_view [OF sample_queue_repr])
    (simp_all add: sample_item sample_add make_item_def sample_request_def)

text \<open>A queue with one waiting request.\<close>

definition sample_queue1 :: request_queue where
  "sample_queue1 = snd (add_request sample_queue 0)"

definition sample_view1 :: qview where
  "sample_view1 = v_push reqHead 0 empty_view"

lemma sample_queue1_repr: "repr sample_queue1 sample_view1"
  using add_request_refines [OF sample_queue_repr, of 0] sample_add
  by (simp add: sample_queue1_def sample_view1_def sample_item make_item_def sample_request_def)

lemma sample_queue1_key: "item_key (q_mem sample_queue1 c) = item_key (q_mem sample_queue c)"
  using sample_queue_repr by (cases rule: add_request_cases [where a = 0])
    (auto simp: sample_queue1_def free_item_def placed_def)

text \<open>
  C5. Fetching takes the oldest request of the first nonempty list in the order priority, normal, low,
  dirty, bulk, moves it to the front of the render list, and blocks exactly when all five are empty.
\<close>

theorem fetch_implements_view:
  assumes "repr q v"
  shows "case v_fetch v of
      None \<Rightarrow> request_queue_fetch_request q = None
    | Some (a, v') \<Rightarrow> \<exists>q'. request_queue_fetch_request q = Some (Obj a, q') \<and> repr q' v'"
  using fetch_refines [OF assms] by (auto split: option.splits)

theorem fetch_implements_view_witness:
  "\<exists>q'. request_queue_fetch_request sample_queue1 = Some (Obj 0, q') \<and> repr q' (v_start reqHead sample_view1)"
proof -
  have "v_fetch sample_view1 = Some (0, v_start reqHead sample_view1)"
    by (simp add: v_fetch_def fetch_order_def sample_view1_def v_push_def empty_view_def)
  with fetch_implements_view [OF sample_queue1_repr] show ?thesis by simp
qed

text \<open>
  With no other operation in between, repeated fetching hands out every waiting request exactly
  once, the lists in the order of their priorities and each list first in, first out; after that the
  queue has nothing to fetch.
\<close>

theorem fetching_drains_in_order:
  assumes "repr q v"
  shows "fst (fetch_n (length (waiting v)) q) = map Obj (waiting v)
    \<and> request_queue_fetch_request (snd (fetch_n (length (waiting v)) q)) = None"
  using fetch_n_drains [OF assms refl] .

theorem fetching_drains_in_order_witness:
  "fst (fetch_n 1 sample_queue1) = [Obj 0] \<and> request_queue_fetch_request (snd (fetch_n 1 sample_queue1)) = None"
proof -
  have "waiting sample_view1 = [0]"
    by (simp add: waiting_def fetch_order_def sample_view1_def v_push_def empty_view_def)
  with fetching_drains_in_order [OF sample_queue1_repr] show ?thesis by simp
qed

text \<open>
  C6. Answering an item that a render thread holds: the call returns; every client that waits for the
  tile, the first one and every duplicate, is sent exactly one command, its own request with the
  status \<open>rsp\<close>, in the order of the chain; requests without a client get none; the item and all its
  duplicates leave the queue and exactly these objects are released.
\<close>

theorem send_response_answers_all:
  assumes "repr q v" "a \<in> set (v_list v renderHead)" "zoom_checked q a t"
  shows "\<exists>q' s'. send_response os q s a rsp t = Some (q', s', answers (q_mem q) rsp (a # v_dups v a))
           \<and> repr q' (v_drop a v) \<and> (\<forall>b. q_alloc q' b \<longleftrightarrow> q_alloc q b \<and> b \<notin> insert a (set (v_dups v a)))"
  using send_response_spec [OF assms, of os s rsp] by (elim exE conjE) (intro exI conjI)

text \<open>A queue with one request being rendered.\<close>

definition sample_queue2 :: request_queue where
  "sample_queue2 = snd (the (request_queue_fetch_request sample_queue1))"

definition sample_view2 :: qview where
  "sample_view2 = v_start reqHead sample_view1"

lemma sample_queue2_repr: "repr sample_queue2 sample_view2" "q_mem sample_queue2 = fetch_mem (q_mem sample_queue1) 0"
proof -
  have "v_fetch sample_view1 = Some (0, sample_view2)"
    by (simp add: v_fetch_def fetch_order_def sample_view1_def sample_view2_def v_push_def empty_view_def)
  with fetch_refines [OF sample_queue1_repr] show "repr sample_queue2 sample_view2"
    "q_mem sample_queue2 = fetch_mem (q_mem sample_queue1) 0"
    by (auto simp: sample_queue2_def)
qed

lemma sample_view2_lists: "v_list sample_view2 renderHead = [0]" "v_dups sample_view2 b = []" "owned sample_view2 = {0}"
  by (auto simp: sample_view2_def sample_view1_def v_start_def v_push_def empty_view_def owned_def queued_def
      split: if_splits)

theorem send_response_answers_all_witness:
  "\<exists>q' s'. send_response (do_sock idle_os) sample_queue2 () 0 cmdDone 0
       = Some (q', s', answers (q_mem sample_queue2) cmdDone (0 # v_dups sample_view2 0))
     \<and> repr q' (v_drop 0 sample_view2)
     \<and> (\<forall>b. q_alloc q' b \<longleftrightarrow> q_alloc sample_queue2 b \<and> b \<notin> insert 0 (set (v_dups sample_view2 0)))"
  by (rule send_response_answers_all [OF sample_queue2_repr(1)]) (simp_all add: sample_view2_lists zoom_checked_def)

text \<open>
  C21. Forgetting a descriptor: both nested pointer loops end, the lists are unchanged, and every
  request of the queue, duplicates included, keeps its descriptor unless it was the forgotten one,
  which is replaced by the invalid descriptor, so that no answer is sent to it any more.
\<close>

theorem clear_requests_by_fd_forgets:
  assumes "repr q v" "fd \<noteq> FD_INVALID"
  shows "\<exists>q'. request_queue_clear_requests_by_fd q fd = Some q' \<and> repr q' v
           \<and> (\<forall>a \<in> owned v. it_fd (q_mem q' (Obj a)) =
                (if it_fd (q_mem q (Obj a)) = fd then FD_INVALID else it_fd (q_mem q (Obj a))))"
  using clear_fd_refines [OF assms(1), of fd] clear_fd_forgets [OF assms] by blast

theorem clear_requests_by_fd_forgets_witness:
  "\<exists>q'. request_queue_clear_requests_by_fd sample_queue2 7 = Some q' \<and> repr q' sample_view2
     \<and> (\<forall>a \<in> owned sample_view2. it_fd (q_mem q' (Obj a)) =
          (if it_fd (q_mem sample_queue2 (Obj a)) = 7 then FD_INVALID else it_fd (q_mem sample_queue2 (Obj a))))"
  by (rule clear_requests_by_fd_forgets [OF sample_queue2_repr(1)]) (simp add: FD_INVALID_def)

text \<open>
  C23. The hash index is equivalent to a search through all six lists by tile and map name: it finds an
  item exactly when one of the lists holds one.
\<close>

theorem index_is_linear_search:
  assumes "repr q v"
  shows "lookup_item_idx q i =
    find (\<lambda>a. queue_key q a = item_key i) (concat (map (v_list v) (attach_heads @ refuse_heads)))"
proof -
  let ?l = "concat (map (v_list v) (attach_heads @ refuse_heads))"
  have "view_ok v" using assms by (simp add: repr_def)
  note q = queued_heads [OF this]
  show ?thesis
  proof (cases "find (\<lambda>a. queue_key q a = item_key i) ?l")
    case None
    then have "queue_key q a \<noteq> item_key i" if "a \<in> queued v" for a
      using that unfolding find_None_iff q by blast
    then have "item_key i \<notin> queue_key q ` queued v" by force
    with None show ?thesis using lookup_queued(2) [OF assms] by simp
  next
    case (Some a)
    then show ?thesis using lookup_queued(1) [OF assms] find_Some_member [OF Some] q by simp
  qed
qed

theorem index_is_linear_search_witness:
  "lookup_item_idx sample_queue1 (q_mem sample_queue1 (Obj 0)) =
    find (\<lambda>a. queue_key sample_queue1 a = item_key (q_mem sample_queue1 (Obj 0)))
      (concat (map (v_list sample_view1) (attach_heads @ refuse_heads)))"
  by (rule index_is_linear_search [OF sample_queue1_repr])

text \<open>
  C22. A request for a tile that is being rendered is attached to it, and when the render thread
  answers, the client that sent the request is answered too.
\<close>

theorem late_request_is_answered:
  assumes "repr q v" "i \<in> set (v_list v renderHead)" "a \<notin> owned v" "accepted req" "pr_cmd req \<noteq> cmdDirty"
    "request_key req = queue_key q i" "fd \<noteq> FD_INVALID" "zoom_checked q i t"
  shows "\<exists>q1 q2 s' out. rx_request (Some a) q req fd = (cmdIgnore, upgrade req, q1)
           \<and> send_response os q1 s i rsp t = Some (q2, s', out) \<and> (fd, (upgrade req)\<lparr>pr_cmd := rsp\<rparr>) \<in> set out"
proof -
  let ?q = "store_item a (make_item (q_mem q (Obj a)) (upgrade req) fd) q"
  have r: "repr ?q v" by (rule repr_store_item [OF assms(1,3)])
  have na: "i \<noteq> a" using assms(2,3) notin_owned(2) by blast
  have iq: "i \<in> queued v" using queuedI [OF assms(2)] .
  have key: "queue_key ?q i = queue_key ?q a"
    using na assms(6) make_item_key [of "q_mem q (Obj a)" req fd] by (simp add: queue_key_def store_item_def)
  let ?q1 = "?q\<lparr>q_mem := attach_mem (q_mem ?q) i a\<rparr>"
  have al: "q_alloc ?q a" "i \<in> set (concat (map (v_list v) attach_heads))"
    using assms(2) by (simp_all add: store_item_def attach_heads_def)
  have r1: "repr ?q1 (v_attach i a v)" by (rule repr_attach [OF r assms(3) al]) (simp add: key)
  have "lookup_item_idx ?q (q_mem ?q (Obj a)) = Some i"
    using lookup_queued(1) [OF r] iq key by (simp add: queue_key_def)
  moreover have "it_inQueue (q_mem ?q (Obj i)) = queueRender"
    using r assms(2) by (auto simp: repr_def dest: mem_okD(3))
  ultimately have "add_request ?q a = (cmdIgnore, ?q1)"
    by (simp add: add_request_def pending_def attach_mem_def Let_def)
  then have rx: "rx_request (Some a) q req fd = (cmdIgnore, upgrade req, ?q1)"
    using rx_request_cases [of "Some a" q req fd] assms(4) by simp
  have "i \<in> set (v_list (v_attach i a v) renderHead)" "zoom_checked ?q1 i t"
    using assms(2,8) na by (simp_all add: v_attach_def zoom_checked_def attach_mem_def store_item_def)
  from send_response_spec [OF r1 this, of os s rsp] obtain q2 s' where
    sr: "send_response os ?q1 s i rsp t = Some (q2, s', answers (q_mem ?q1) rsp (i # v_dups (v_attach i a v) i))" by blast
  have it: "it_req (q_mem ?q1 (Obj a)) = upgrade req" "it_fd (q_mem ?q1 (Obj a)) = fd"
    using assms(5) by (simp_all add: attach_mem_def store_item_def make_item_def)
  then have "wants_answer (q_mem ?q1 (Obj a))"
    using assms(4,5,7) by (auto simp: wants_answer_def accepted_def)
  then have "(fd, (upgrade req)\<lparr>pr_cmd := rsp\<rparr>) \<in> set (answers (q_mem ?q1) rsp (i # v_dups (v_attach i a v) i))"
    using it by (auto simp: answers_def v_attach_def intro!: image_eqI [where x = a])
  with rx sr show ?thesis by blast
qed

theorem late_request_is_answered_witness:
  "\<exists>q1 q2 s' out. rx_request (Some 1) sample_queue2 (sample_request\<lparr>pr_x := 15\<rparr>) 9
       = (cmdIgnore, upgrade (sample_request\<lparr>pr_x := 15\<rparr>), q1)
     \<and> send_response (do_sock idle_os) q1 () 0 cmdDone 0 = Some (q2, s', out)
     \<and> (9, (upgrade (sample_request\<lparr>pr_x := 15\<rparr>))\<lparr>pr_cmd := cmdDone\<rparr>) \<in> set out"
proof (rule late_request_is_answered [OF sample_queue2_repr(1)])
  have "queue_key sample_queue2 0 = item_key (make_item (empty_item (Obj 0)) sample_request 7)"
    by (simp add: queue_key_def sample_queue2_repr(2) sample_queue1_key sample_item)
  then show "request_key (sample_request\<lparr>pr_x := 15\<rparr>) = queue_key sample_queue2 0"
    by (simp add: request_key_def item_key_def make_item_def sample_request_def METATILE_def upgrade_def)
qed (simp_all add: sample_view2_lists sample_request_def accepted_def zoom_checked_def FD_INVALID_def)

end
