(* ===== verification/Renderd_Slave.thy ===== *)
theory Renderd_Slave
  imports Renderd
begin

text \<open>
  The rest of the daemon's threads (\<^verbatim>\<open>src/renderd.c\<close>): opening client and server sockets, the thread that
  forwards requests to a slave daemon, and the thread that writes the statistics file. The
  results of the operating system's calls are parameters. The descriptors a function has opened and
  not closed are part of its result.
\<close>

section \<open>Sockets\<close>

text \<open>The configuration of a daemon; all zero and without a name before it is read.\<close>

record renderd_config =
  rc_iphostname :: string
  rc_mapnik_font_dir :: string
  rc_mapnik_plugins_dir :: string
  rc_name :: "string option"
  rc_pid_filename :: string
  rc_socketname :: string
  rc_stats_filename :: string
  rc_tile_dir :: string
  rc_ipport :: int
  rc_mapnik_font_dir_recurse :: bool
  rc_num_threads :: int

definition zero_config :: renderd_config where
  "zero_config =
     \<lparr>rc_iphostname = [], rc_mapnik_font_dir = [], rc_mapnik_plugins_dir = [], rc_name = None, rc_pid_filename = [], rc_socketname = [],
      rc_stats_filename = [], rc_tile_dir = [], rc_ipport = 0, rc_mapnik_font_dir_recurse = False, rc_num_threads = 0\<rparr>"

text \<open>
  The calls a client makes: \<open>getaddrinfo\<close> yields its status and a list of addresses (opaque numbers);
  a socket is opened for one of them or, for \<open>None\<close>, for the local socket.
\<close>

record 's net_os =
  no_getaddrinfo :: "'s \<Rightarrow> string \<Rightarrow> int \<Rightarrow> (int \<times> nat list) \<times> 's"
  no_socket :: "'s \<Rightarrow> nat option \<Rightarrow> int \<times> 's"
  no_connect :: "'s \<Rightarrow> int \<Rightarrow> nat option \<Rightarrow> int \<times> 's"

text \<open>
  The loop over the addresses: the descriptor after the loop, the open descriptors and the state.
  A negative descriptor from \<open>socket\<close> is kept when the loop ends with it.
\<close>

fun try_addresses :: "'s net_os \<Rightarrow> int \<Rightarrow> int list \<Rightarrow> 's \<Rightarrow> nat list \<Rightarrow> int \<times> int list \<times> 's" where
  "try_addresses os fd opened s [] = (fd, opened, s)"
| "try_addresses os fd opened s (ad # ads) =
     (let (fd1, s1) = no_socket os s (Some ad)
      in if fd1 < 0 then try_addresses os fd1 opened s1 ads
         else let (r, s2) = no_connect os s1 fd1 (Some ad)
              in if r \<noteq> 0 then try_addresses os FD_INVALID opened s2 ads
                 else (fd1, fd1 # opened, s2))"

definition client_socket_init :: "'s net_os \<Rightarrow> renderd_config \<Rightarrow> int list \<Rightarrow> 's \<Rightarrow> int \<times> int list \<times> 's" where
  "client_socket_init os cfg opened s =
     (if rc_ipport cfg > 0
      then let ((st, ads), s1) = no_getaddrinfo os s (rc_iphostname cfg) (rc_ipport cfg)
           in if st \<noteq> 0 then (FD_INVALID, opened, s1)
              else let (fd, op, s2) = try_addresses os FD_INVALID opened s1 ads
                   in if fd < 0 then (FD_INVALID, op, s2) else (fd, op, s2)
      else let (fd, s1) = no_socket os s None
           in if fd < 0 then (FD_INVALID, opened, s1)
              else let (r, s2) = no_connect os s1 fd None
                   in if r < 0 then (FD_INVALID, opened, s2) else (fd, fd # opened, s2))"

text \<open>
  The results of the calls a server makes; each call is made at most once. \<open>sv_bind6_retry\<close>: the
  error of the failed IPv6 bind is \<open>EADDRNOTAVAIL\<close> or \<open>EAFNOSUPPORT\<close>.
\<close>

record server_os =
  sv_socket6 :: int
  sv_reuse6 :: bool
  sv_bind6 :: int
  sv_bind6_retry :: bool
  sv_socket4 :: int
  sv_reuse4 :: bool
  sv_bind4 :: int
  sv_socketU :: int
  sv_bindU :: int
  sv_listen :: int

text \<open>
  \<open>Inl\<close> is the exit code of the process; beside the result, the descriptors left open. A failing
  \<open>IPV6_V6ONLY\<close> option only logs.
\<close>

definition server_socket_tcp4 :: "server_os \<Rightarrow> (int + int) \<times> int list" where
  "server_socket_tcp4 sv =
     (if sv_socket4 sv < 0 then (Inl 2, [])
      else if \<not> sv_reuse4 sv then (Inl 3, [])
      else if sv_bind4 sv < 0 then (Inl 3, [])
      else (Inr (sv_socket4 sv), [sv_socket4 sv]))"

definition server_socket_init_tcp :: "server_os \<Rightarrow> (int + int) \<times> int list" where
  "server_socket_init_tcp sv =
     (if sv_socket6 sv \<ge> 0
      then if \<not> sv_reuse6 sv then (Inl 3, [])
           else if sv_bind6 sv = 0 then (Inr (sv_socket6 sv), [sv_socket6 sv])
           else if \<not> sv_bind6_retry sv then (Inl 3, [])
           else server_socket_tcp4 sv
      else server_socket_tcp4 sv)"

definition server_socket_init :: "server_os \<Rightarrow> renderd_config \<Rightarrow> (int + int) \<times> int list" where
  "server_socket_init sv cfg =
     (let r = (if rc_ipport cfg > 0 then server_socket_init_tcp sv
               else if sv_socketU sv < 0 then (Inl 2, [])
               else if sv_bindU sv < 0 then (Inl 3, [])
               else (Inr (sv_socketU sv), [sv_socketU sv]))
      in case r of
           (Inl e, op) \<Rightarrow> (Inl e, op)
         | (Inr fd, op) \<Rightarrow> if sv_listen sv < 0 then (Inl 4, removeAll fd op) else (Inr fd, op))"

section \<open>The slave thread\<close>

datatype errno = EPIPE | EINTR | EOTHER

record 's slave_os =
  sl_sock :: "'s sock_os"
  sl_net :: "'s net_os"
  sl_errno :: "'s \<Rightarrow> errno"
  sl_recv :: "'s \<Rightarrow> int \<Rightarrow> nat \<Rightarrow> (int \<times> byte list) \<times> 's"

definition slave_request :: "protocol \<Rightarrow> protocol" where
  "slave_request req =
     \<lparr>pr_ver = PROTO_VER, pr_cmd = cmdRender, pr_x = pr_x req, pr_y = pr_y req, pr_z = pr_z req,
      pr_xmlname = snprintf XMLCONFIG_MAX (pr_xmlname req), pr_mimetype = snprintf XMLCONFIG_MAX (pr_mimetype req),
      pr_options = snprintf XMLCONFIG_MAX (pr_options req)\<rparr>"

text \<open>
  The outcomes of the sending loop: sent on a descriptor; the thread ends because of an error other
  than a closed pipe; the connection could not be opened again and the request was answered with
  \<open>cmdNotDone\<close>; the retries are used up.
\<close>

datatype send_outcome = SlaveSent int | SlaveShutdown | SlaveDropped | SlaveGaveUp int

text \<open>\<open>n\<close> counts the value of \<open>retry\<close>: the body runs once more after the value zero was tested.\<close>

fun slave_send :: "'s slave_os \<Rightarrow> renderd_config \<Rightarrow> protocol \<Rightarrow> nat \<Rightarrow> int \<Rightarrow> int list \<Rightarrow> 's \<Rightarrow> send_outcome \<times> int list \<times> 's" where
  "slave_send os cfg req n pfd op s =
     (let (ret, s1) = send_cmd (sl_sock os) s req pfd
      in if ret = int sizeof_protocol then (SlaveSent pfd, op, s1)
         else if sl_errno os s1 \<noteq> EPIPE then (SlaveShutdown, remove1 pfd op, s1)
         else let (pfd', op', s2) = client_socket_init (sl_net os) cfg (remove1 pfd op) s1
              in if pfd' = FD_INVALID then (SlaveDropped, op', s2)
                 else case n of 0 \<Rightarrow> (SlaveGaveUp pfd', op', s2) | Suc k \<Rightarrow> slave_send os cfg req k pfd' op' s2)"

text \<open>
  The receiving loop: the bytes received so far, whether the pipe was found closed, and the state.
  \<open>None\<close>: interrupted forever.
\<close>

partial_function (option) slave_recv ::
    "'s slave_os \<Rightarrow> int \<Rightarrow> nat \<Rightarrow> byte list \<Rightarrow> 's \<Rightarrow> (byte list \<times> bool \<times> 's) option" where
  "slave_recv os pfd retry got s =
     (if length got < sizeof_protocol \<and> retry > 0
      then let ((n, bs), s1) = sl_recv os s pfd (sizeof_protocol - length got)
           in if n < 0
              then if sl_errno os s1 = EINTR then slave_recv os pfd retry got s1
                   else if sl_errno os s1 = EPIPE then Some ([], True, s1)
                   else slave_recv os pfd (retry - 1) got s1
              else if n = 0 then Some ([], True, s1)
              else slave_recv os pfd retry (got @ bs) s1
      else Some (got, False, s))"

text \<open>What one fetched item leads to: whether the thread goes on and with which connection.\<close>

datatype slave_next = SlaveContinue int | SlaveEnd

definition slave_item ::
    "'s slave_os \<Rightarrow> renderd_config \<Rightarrow> int \<Rightarrow> int list \<Rightarrow> request_queue \<Rightarrow> 's \<Rightarrow> nat
     \<Rightarrow> (slave_next \<times> request_queue \<times> 's \<times> (int \<times> protocol) list) option" where
  "slave_item os cfg pfd op q s a =
     (case slave_send os cfg (slave_request (it_req (q_mem q (Obj a)))) 2 pfd op s of
        (SlaveShutdown, _, s1) \<Rightarrow> Some (SlaveEnd, q, s1, [])
      | (SlaveGaveUp pfd', _, s1) \<Rightarrow> Some (SlaveContinue pfd', q, s1, [])
      | (SlaveDropped, _, s1) \<Rightarrow>
          (case send_response (sl_sock os) q s1 a cmdNotDone (-1) of
             None \<Rightarrow> None
           | Some (q', s2, out) \<Rightarrow> Some (SlaveContinue FD_INVALID, q', s2, out))
      | (SlaveSent pfd', _, s1) \<Rightarrow>
          (case slave_recv os pfd' 10 [] s1 of
             None \<Rightarrow> None
           | Some (got, closed, s2) \<Rightarrow>
               (let ret = (if length got < sizeof_protocol then cmdNotDone else pr_cmd (bytes_protocol got))
               in case send_response (sl_sock os) q s2 a ret (-1) of
                    None \<Rightarrow> None
                  | Some (q', s3, out) \<Rightarrow> Some (SlaveContinue (if closed then FD_INVALID else pfd'), q', s3, out))))"

section \<open>The statistics file\<close>

definition stat_line :: "string \<Rightarrow> int \<Rightarrow> string" where
  "stat_line name n = name @ '': '' @ show_int n @ [CHR 0x0A]"

definition two_digits :: "nat \<Rightarrow> string" where
  "two_digits n = (if n < 10 then ''0'' @ show_nat n else show_nat n)"

text \<open>The text written from a copy of the statistics and the five queue lengths.\<close>

definition stats_text :: "request_queue \<Rightarrow> string" where
  "stats_text q =
     (let st = request_queue_copy_stats q
      in stat_line ''ReqQueueLength'' (request_queue_no_requests_queued q cmdRender)
       @ stat_line ''ReqPrioQueueLength'' (request_queue_no_requests_queued q cmdRenderPrio)
       @ stat_line ''ReqLowQueueLength'' (request_queue_no_requests_queued q cmdRenderLow)
       @ stat_line ''ReqBulkQueueLength'' (request_queue_no_requests_queued q cmdRenderBulk)
       @ stat_line ''DirtQueueLength'' (request_queue_no_requests_queued q cmdDirty)
       @ stat_line ''DropedRequest'' (noReqDroped st)
       @ stat_line ''ReqRendered'' (noReqRender st)
       @ stat_line ''TimeRendered'' (timeReqRender st)
       @ stat_line ''ReqPrioRendered'' (noReqPrioRender st)
       @ stat_line ''TimePrioRendered'' (timeReqPrioRender st)
       @ stat_line ''ReqLowRendered'' (noReqLowRender st)
       @ stat_line ''TimeLowRendered'' (timeReqLowRender st)
       @ stat_line ''ReqBulkRendered'' (noReqBulkRender st)
       @ stat_line ''TimeBulkRendered'' (timeReqBulkRender st)
       @ stat_line ''DirtyRendered'' (noDirtyRender st)
       @ stat_line ''TimeDirtyRendered'' (timeReqDirty st)
       @ concat (map (\<lambda>i. stat_line (''ZoomRendered'' @ two_digits i) (noZoomRender st ! i)) [0..<nat (MAX_ZOOM + 1)])
       @ concat (map (\<lambda>i. stat_line (''TimeRenderedZoom'' @ two_digits i) (timeZoomRender st ! i)) [0..<nat (MAX_ZOOM + 1)]))"

text \<open>
  One round of the thread, from the number of failures so far: \<open>None\<close> gives up; otherwise the new
  number and the text that replaced the statistics file, if any.
\<close>

definition stats_round :: "bool \<Rightarrow> bool \<Rightarrow> request_queue \<Rightarrow> nat \<Rightarrow> (nat \<times> string option) option" where
  "stats_round opens renames q failed =
     (if \<not> opens then if failed + 1 > 3 then None else Some (failed + 1, None)
      else if \<not> renames then if failed + 1 > 6 then None else Some (failed + 1, None)
      else Some (failed, Some (stats_text q)))"

section \<open>Opened descriptors\<close>

lemma try_addresses_opened:
  assumes "fd < 0" "try_addresses os fd opened s ads = (fd', op, s')"
  shows "op = (if fd' < 0 then opened else fd' # opened)"
  using assms
proof (induction ads arbitrary: fd s)
  case (Cons ad ads)
  then show ?case
    using Cons.IH [of FD_INVALID]
    by (auto simp: FD_INVALID_def Let_def split: prod.splits if_splits)
qed auto

lemma client_socket_opened:
  assumes "client_socket_init os cfg opened s = (fd, op, s')"
  shows "op = (if fd = FD_INVALID then opened else fd # opened) \<and> (fd = FD_INVALID \<or> 0 \<le> fd)"
proof (cases "rc_ipport cfg > 0")
  case True
  obtain st ads s1 where g: "no_getaddrinfo os s (rc_iphostname cfg) (rc_ipport cfg) = ((st, ads), s1)"
    by (metis surj_pair)
  obtain f o1 s2 where t: "try_addresses os FD_INVALID opened s1 ads = (f, o1, s2)" by (metis prod_cases3)
  have "FD_INVALID < 0" by (simp add: FD_INVALID_def)
  from try_addresses_opened [OF this t] assms True g t show ?thesis
    by (auto simp: client_socket_init_def FD_INVALID_def split: if_splits)
next
  case False
  with assms show ?thesis
    by (auto simp: client_socket_init_def FD_INVALID_def split: if_splits prod.splits)
qed

interpretation daemon_link: connector "client_socket_init os"
proof (unfold_locales, goal_cases)
  case (1 cfg op s fd op' s')
  from client_socket_opened [OF this] show ?case by (auto simp: FD_INVALID_def)
qed

section \<open>The slave thread\<close>

text \<open>What \<open>recv\<close> promises: at most what was asked for, and as many bytes as it says; no signals.\<close>

definition recv_sound :: "'s slave_os \<Rightarrow> bool" where
  "recv_sound os \<longleftrightarrow>
     (\<forall>s fd k n bs s'. sl_recv os s fd k = ((n, bs), s') \<longrightarrow> 0 < n \<longrightarrow> int (length bs) = n)
     \<and> (\<forall>s. sl_errno os s \<noteq> EINTR)"

lemma slave_recv_returns:
  assumes "recv_sound os"
  shows "\<exists>r. slave_recv os pfd retry got s = Some r"
proof (induction "sizeof_protocol - length got + retry" arbitrary: retry got s rule: less_induct)
  case less
  show ?case
  proof (cases "length got < sizeof_protocol \<and> retry > 0")
    case False
    then show ?thesis by (subst slave_recv.simps) auto
  next
    case True
    obtain n bs s1 where r: "sl_recv os s pfd (sizeof_protocol - length got) = ((n, bs), s1)" by (metis surj_pair)
    have "sizeof_protocol - length got + (retry - 1) < sizeof_protocol - length got + retry" using True by linarith
    then have "\<exists>r. slave_recv os pfd (retry - 1) got s1 = Some r" by (rule less)
    moreover have "\<exists>r. slave_recv os pfd retry (got @ bs) s1 = Some r" if "0 < n"
    proof -
      have "int (length bs) = n" using r assms that unfolding recv_sound_def by blast
      then have "0 < length bs" using that by linarith
      with True have "sizeof_protocol - length (got @ bs) + retry < sizeof_protocol - length got + retry"
        by (simp only: length_append) linarith
      with less show ?thesis by blast
    qed
    ultimately show ?thesis
      using True r assms by (subst slave_recv.simps) (auto simp: recv_sound_def Let_def)
  qed
qed

section \<open>Properties of the daemon's other threads\<close>

text \<open>
  Connecting to a daemon returns either the invalid descriptor, with every socket it opened closed
  again, or one descriptor that is open and connected, with every other one closed; closing it restores
  what was open before.
\<close>

theorem client_socket_no_leak:
  assumes "client_socket_init os cfg opened s = (fd, op, s')"
  shows "op = (if fd = FD_INVALID then opened else fd # opened) \<and> (fd = FD_INVALID \<or> 0 \<le> fd)
    \<and> (if fd < 0 then op else remove1 fd op) = opened"
  using client_socket_opened [OF assms] daemon_link.close_restores [OF assms] by simp

definition sample_net :: "nat net_os" where
  "sample_net = \<lparr>no_getaddrinfo = (\<lambda>s h p. ((0, [1, 2]), s)), no_socket = (\<lambda>s a. (int s, s + 1)),
                 no_connect = (\<lambda>s fd a. (if a = Some 2 then 0 else -1, s))\<rparr>"

definition sample_config :: renderd_config where
  "sample_config = zero_config\<lparr>rc_iphostname := ''localhost'', rc_ipport := 7654\<rparr>"

theorem client_socket_no_leak_witness:
  "client_socket_init sample_net sample_config [] 5 = (6, [6], 7)
   \<and> [6] = (if 6 = FD_INVALID then [] else [6 :: int]) \<and> (6 = FD_INVALID \<or> 0 \<le> (6 :: int)) \<and> remove1 (6 :: int) [6] = []"
proof -
  have "client_socket_init sample_net sample_config [] 5 = (6, [6], 7)"
    by (simp add: client_socket_init_def sample_net_def sample_config_def)
  with client_socket_no_leak [OF this] show ?thesis by simp
qed

text \<open>
  A request that reached the slave: whatever the slave does (a complete reply, a partial one, a
  closed or failing connection), the receiving loop ends, every client waiting for the tile is
  answered once, with the slave's status if the reply is complete and else with \<open>cmdNotDone\<close>, and the
  item leaves the queue.
\<close>

theorem slave_item_answers:
  assumes "repr q v" "a \<in> set (v_list v renderHead)" "recv_sound os"
    and "slave_send os cfg (slave_request (it_req (q_mem q (Obj a)))) 2 pfd op s = (SlaveSent pfd', op', s1)"
  shows "\<exists>got closed s2 nxt q' s3. slave_recv os pfd' 10 [] s1 = Some (got, closed, s2)
    \<and> slave_item os cfg pfd op q s a = Some (SlaveContinue nxt, q', s3,
         answers (q_mem q) (if length got < sizeof_protocol then cmdNotDone else pr_cmd (bytes_protocol got))
           (a # v_dups v a))
    \<and> repr q' (v_drop a v)"
proof -
  obtain got closed s2 where r: "slave_recv os pfd' 10 [] s1 = Some (got, closed, s2)"
    using slave_recv_returns [OF assms(3)] by (metis prod_cases3)
  let ?c = "if length got < sizeof_protocol then cmdNotDone else pr_cmd (bytes_protocol got)"
  have "zoom_checked q a (-1)" by (simp add: zoom_checked_def)
  from send_response_spec [OF assms(1,2) this, of "sl_sock os" s2 ?c] obtain q' s3 where
    "send_response (sl_sock os) q s2 a ?c (-1) = Some (q', s3, answers (q_mem q) ?c (a # v_dups v a))"
    "repr q' (v_drop a v)" by blast
  with r assms(4) show ?thesis by (simp add: slave_item_def Let_def)
qed

definition sample_slave :: "nat slave_os" where
  "sample_slave =
     \<lparr>sl_sock = \<lparr>so_getsockopt = (\<lambda>s fd. 0), so_send = (\<lambda>s fd bs. (int (length bs), s)),
                 so_recv = (\<lambda>s fd n b. ((0, []), s))\<rparr>,
      sl_net = sample_net, sl_errno = (\<lambda>s. EOTHER), sl_recv = (\<lambda>s fd k. ((0, []), s))\<rparr>"

theorem slave_item_answers_witness:
  "\<exists>got closed s2 nxt q' s3. slave_recv sample_slave 4 10 [] 0 = Some (got, closed, s2)
    \<and> slave_item sample_slave sample_config 4 [4] sample_queue2 0 0 = Some (SlaveContinue nxt, q', s3,
         answers (q_mem sample_queue2)
           (if length got < sizeof_protocol then cmdNotDone else pr_cmd (bytes_protocol got))
           (0 # v_dups sample_view2 0))
    \<and> repr q' (v_drop 0 sample_view2)"
  by (rule slave_item_answers [OF sample_queue2_repr(1)])
    (simp_all add: sample_view2_lists recv_sound_def sample_slave_def send_cmd_def slave_request_def PROTO_VER_def
      expected_len_def sizeof_protocol_def)

text \<open>
  The code does not answer a request whose sending failed for another reason than a closed pipe,
  or whose three attempts all failed: the queue is left as it was, with the item on the render list
  and no thread holding it, and nothing is sent to the clients.
\<close>

theorem slave_item_unanswered:
  assumes "slave_send os cfg (slave_request (it_req (q_mem q (Obj a)))) 2 pfd op s = (oc, op', s1)"
    and "oc = SlaveShutdown \<or> oc = SlaveGaveUp pfd'"
  shows "\<exists>nxt. slave_item os cfg pfd op q s a = Some (nxt, q, s1, [])"
  using assms by (auto simp: slave_item_def)

theorem slave_item_unanswered_witness:
  "\<exists>nxt. slave_item (sample_slave\<lparr>sl_sock := (sl_sock sample_slave)\<lparr>so_send := (\<lambda>s fd bs. (-1, s))\<rparr>\<rparr>)
      sample_config 4 [4] sample_queue2 0 0 = Some (nxt, sample_queue2, 0, [])"
  by (rule slave_item_unanswered [where oc = SlaveShutdown and op' = "[]"])
    (simp_all add: sample_slave_def send_cmd_def slave_request_def PROTO_VER_def sizeof_protocol_def)

end
