(* ===== verification/Throttle.thy ===== *)
theory Throttle
  imports Tile_Prelude
begin

text \<open>
  The throttling of clients in the Apache module (\<^verbatim>\<open>src/mod_tile.c\<close>: \<open>get_global_lock\<close> and
  \<open>delay_allowed\<close>, with the data of \<^verbatim>\<open>includes/mod_tile.h\<close>): a table of token buckets in shared memory, one
  bucket per slot of a hash of the client's address, topped up lazily. The functions of Apache and of
  the operating system (locks, clock, address parsing) are parameters. Tokens are C \<open>int\<close>s; the
  conversion of the number of tokens to add from 64 to 32 bits is written out.
\<close>

section \<open>Data\<close>

definition DELAY_HASHTABLE_SIZE :: nat where
  "DELAY_HASHTABLE_SIZE = 100057"

definition DELAY_HASHTABLE_WHITELIST_SIZE :: nat where
  "DELAY_HASHTABLE_WHITELIST_SIZE = 13"

definition MAXCAMP :: nat where
  "MAXCAMP = 10"

datatype tileState = tileUnknown | tileMissing | tileOld | tileVeryOld | tileCurrent

text \<open>An IPv6 address as the four 32-bit words of its memory image.\<close>

type_synonym in6_addr = "32 word \<times> 32 word \<times> 32 word \<times> 32 word"

record delaypool_entry =
  dp_ip_addr :: in6_addr
  dp_available_tiles :: int
  dp_available_render_req :: int

record delaypool =
  dl_users :: "nat \<Rightarrow> delaypool_entry"
  dl_whitelist :: "nat \<Rightarrow> 32 word"
  dl_last_tile_fillup :: int
  dl_last_render_fillup :: int
  dl_locked :: bool

text \<open>The part of the server's configuration the throttling reads.\<close>

record throttle_conf =
  tc_xforward :: int
  tc_tile_size :: int
  tc_render_size :: int
  tc_tile_rate :: int
  tc_render_rate :: int

text \<open>The status of an attempt to take a lock.\<close>

datatype lock_status = lockBusy | lockSuccess | lockNotImpl | lockOther

text \<open>
  The surroundings of one request: how the attempts to take the lock end (first index: which of the
  calls of \<open>get_global_lock\<close>, second: which attempt), whether the blocking lock succeeds, the clock,
  what other processes do to the table while the lock is released during a penalty, and how
  addresses are parsed.
\<close>

record throttle_env =
  te_trylock :: "nat \<Rightarrow> nat \<Rightarrow> lock_status"
  te_lock :: "nat \<Rightarrow> bool"
  te_now :: "nat \<Rightarrow> int"
  te_others :: "nat \<Rightarrow> delaypool \<Rightarrow> delaypool"
  te_pton4 :: "string \<Rightarrow> 32 word option"
  te_pton6 :: "string \<Rightarrow> in6_addr option"

section \<open>Operations\<close>

fun lock_attempts :: "(nat \<Rightarrow> lock_status) \<Rightarrow> bool \<Rightarrow> nat \<Rightarrow> nat \<Rightarrow> bool" where
  "lock_attempts try hard camped 0 = False"
| "lock_attempts try hard camped (Suc n) =
     (case try camped of
        lockBusy \<Rightarrow> lock_attempts try hard (Suc camped) n
      | lockSuccess \<Rightarrow> True
      | lockNotImpl \<Rightarrow> hard
      | lockOther \<Rightarrow> False)"

definition get_global_lock :: "(nat \<Rightarrow> lock_status) \<Rightarrow> bool \<Rightarrow> bool" where
  "get_global_lock try hard = lock_attempts try hard 0 MAXCAMP"

text \<open>\<open>apr_strtok\<close> with separators \<open>seps\<close>: the nonempty tokens of a string.\<close>

fun strtok_go :: "char list \<Rightarrow> string \<Rightarrow> string \<Rightarrow> string list" where
  "strtok_go seps acc [] = (if acc = [] then [] else [rev acc])"
| "strtok_go seps acc (c # s) =
     (if c \<in> set seps then (if acc = [] then [] else [rev acc]) @ strtok_go seps [] s
      else strtok_go seps (c # acc) s)"

definition apr_tokens :: "char list \<Rightarrow> string \<Rightarrow> string list" where
  "apr_tokens seps s = strtok_go seps [] s"

text \<open>
  The address the client is accounted under: the connection's, or the first or last entry of the
  \<open>X-Forwarded-For\<close> header. \<open>None\<close> is a null pointer: the header has no entry at all.
\<close>

definition client_address :: "throttle_conf \<Rightarrow> string \<Rightarrow> string option \<Rightarrow> string option" where
  "client_address tc useragent_ip xff =
     (if tc_xforward tc \<noteq> 0
      then (case xff of
              None \<Rightarrow> Some useragent_ip
            | Some h \<Rightarrow>
                (case apr_tokens '', '' h of
                   [] \<Rightarrow> None
                 | t # ts \<Rightarrow> Some (if tc_xforward tc = 2 then last (t # ts) else t)))
      else Some useragent_ip)"

definition in6_hash :: "in6_addr \<Rightarrow> nat" where
  "in6_hash ip = (case ip of (a, b, c, d) \<Rightarrow> unat (a XOR b XOR c XOR d) mod DELAY_HASHTABLE_SIZE)"

text \<open>One bucket after a top up: the tokens are added and cut to the size of the bucket.\<close>

definition topup_entry :: "throttle_conf \<Rightarrow> int \<Rightarrow> int \<Rightarrow> delaypool_entry \<Rightarrow> delaypool_entry" where
  "topup_entry tc tiles renders u =
     (let t = dp_available_tiles u + tiles; r = dp_available_render_req u + renders
      in u\<lparr>dp_available_tiles := (if t > tc_tile_size tc then tc_tile_size tc else t),
           dp_available_render_req := (if r > tc_render_size tc then tc_render_size tc else r)\<rparr>)"

definition fillup :: "throttle_conf \<Rightarrow> int \<Rightarrow> delaypool \<Rightarrow> delaypool" where
  "fillup tc now dl =
     (let tiles_topup = wrap32 (cdiv (now - dl_last_tile_fillup dl) (tc_tile_rate tc));
          render_topup = wrap32 (cdiv (now - dl_last_render_fillup dl) (tc_render_rate tc));
          dl1 = (if tiles_topup > 0 \<or> render_topup > 0
                 then dl\<lparr>dl_users := (\<lambda>i. if i < DELAY_HASHTABLE_SIZE
                                           then topup_entry tc tiles_topup render_topup (dl_users dl i)
                                           else dl_users dl i)\<rparr>
                 else dl)
      in dl1\<lparr>dl_last_tile_fillup := dl_last_tile_fillup dl + tc_tile_rate tc * tiles_topup,
             dl_last_render_fillup := dl_last_render_fillup dl + tc_render_rate tc * render_topup\<rparr>)"

text \<open>Taking the tokens of one request: the bucket and the reason for a delay (zero: none).\<close>

definition take_tokens :: "tileState \<Rightarrow> delaypool_entry \<Rightarrow> int \<times> delaypool_entry" where
  "take_tokens state u =
     (let (d1, u1) = (if dp_available_tiles u > 0
                      then (0, u\<lparr>dp_available_tiles := dp_available_tiles u - 1\<rparr>) else (1, u))
      in if state = tileMissing
         then if dp_available_render_req u1 > 0
              then (d1, u1\<lparr>dp_available_render_req := dp_available_render_req u1 - 1\<rparr>)
              else (2, u1)
         else (d1, u1))"

text \<open>
  The rounds \<open>j\<close> to \<open>2\<close>: \<open>Inl\<close> is the return because the lock was lost; else the last delay. Round \<open>j\<close>
  takes its lock with call number \<open>j\<close> and reads the clock with number \<open>j\<close>.
\<close>

fun delay_rounds :: "throttle_conf \<Rightarrow> throttle_env \<Rightarrow> nat \<Rightarrow> tileState \<Rightarrow> nat \<Rightarrow> nat \<Rightarrow> int \<Rightarrow> delaypool \<Rightarrow> (delaypool + int \<times> delaypool)" where
  "delay_rounds tc te h state j 0 delay dl = Inr (delay, dl)"
| "delay_rounds tc te h state j (Suc n) delay dl =
     (let (d, u) = take_tokens state (dl_users dl h); dl1 = dl\<lparr>dl_users := (dl_users dl)(h := u)\<rparr>
      in if d > 0
         then let dl2 = (if j > 0 then te_others te j dl1 else dl1)
              in if j > 0 \<and> \<not> get_global_lock (te_trylock te j) (te_lock te j) then Inl dl2
                 else delay_rounds tc te h state (Suc j) n d (fillup tc (te_now te j) dl2)
         else Inr (d, dl1))"

text \<open>
  Whether the request may be served, and the table. \<open>None\<close>: the address is a null pointer, which the
  code passes on to \<open>inet_pton\<close>.
\<close>

definition delay_allowed ::
    "throttle_conf \<Rightarrow> throttle_env \<Rightarrow> string \<Rightarrow> string option \<Rightarrow> tileState \<Rightarrow> delaypool \<Rightarrow> (bool \<times> delaypool) option" where
  "delay_allowed tc te useragent_ip xff state dl =
     (case client_address tc useragent_ip xff of
        None \<Rightarrow> None
      | Some ip_addr \<Rightarrow>
          (let account = (\<lambda>ip.
                 let h = in6_hash ip
                 in if dl_locked dl then (True, dl)
                    else if \<not> get_global_lock (te_trylock te 0) (te_lock te 0) then (True, dl)
                    else if dp_ip_addr (dl_users dl h) = ip
                    then (case delay_rounds tc te h state 0 3 0 dl of
                            Inl dl' \<Rightarrow> (False, dl')
                          | Inr (d, dl') \<Rightarrow> (\<not> d > 0, dl'))
                    else (True, dl\<lparr>dl_users := (dl_users dl)(h := \<lparr>dp_ip_addr = ip,
                                     dp_available_tiles = tc_tile_size tc,
                                     dp_available_render_req = tc_render_size tc\<rparr>)\<rparr>))
           in case te_pton4 te ip_addr of
                Some a \<Rightarrow>
                  if dl_whitelist dl (unat a mod DELAY_HASHTABLE_WHITELIST_SIZE) = a then Some (True, dl)
                  else Some (account (0, 0, 0, a))
              | None \<Rightarrow>
                  (case te_pton6 te ip_addr of
                     None \<Rightarrow> Some (False, dl)
                   | Some ip \<Rightarrow> Some (account ip))))"

section \<open>Token buckets\<close>

text \<open>
  The potential of a slot: its tokens in units of time, less the time up to which tokens have been
  handed out. Handing out tokens for passed time does not change it, a full bucket only lowers it.
\<close>

definition phi :: "throttle_conf \<Rightarrow> nat \<Rightarrow> delaypool \<Rightarrow> int" where
  "phi tc h dl = tc_tile_rate tc * dp_available_tiles (dl_users dl h) - dl_last_tile_fillup dl"

text \<open>
  What a step may do to a slot: not raise the potential, not turn back the time of the last top up,
  not replace the client, not overdraw the bucket. Other processes run the same code and are relied upon to keep to this.
\<close>

definition bucket_keeps :: "throttle_conf \<Rightarrow> nat \<Rightarrow> delaypool \<Rightarrow> delaypool \<Rightarrow> bool" where
  "bucket_keeps tc h dl dl' \<longleftrightarrow>
     phi tc h dl' \<le> phi tc h dl \<and> dl_last_tile_fillup dl \<le> dl_last_tile_fillup dl'
     \<and> dp_ip_addr (dl_users dl' h) = dp_ip_addr (dl_users dl h)
     \<and> dl_locked dl' = dl_locked dl \<and> dl_whitelist dl' = dl_whitelist dl
     \<and> (0 \<le> dp_available_tiles (dl_users dl h) \<longrightarrow> 0 \<le> dp_available_tiles (dl_users dl' h))"

text \<open>
  The clock of a request does not run backwards, is not behind the last top up, and not so far ahead
  that the number of tokens leaves the range of an \<open>int\<close>; other processes keep the bucket rules and use
  the same clock.
\<close>

definition clock_ok :: "throttle_conf \<Rightarrow> throttle_env \<Rightarrow> nat \<Rightarrow> int \<Rightarrow> bool" where
  "clock_ok tc te h start \<longleftrightarrow>
     0 < tc_tile_rate tc \<and> 0 \<le> tc_tile_size tc
     \<and> (\<forall>j. start \<le> te_now te j \<and> te_now te j - start < tc_tile_rate tc * 2147483648)
     \<and> (\<forall>j. te_now te j \<le> te_now te (Suc j))
     \<and> (\<forall>j dl. bucket_keeps tc h dl (te_others te j dl)
          \<and> (dl_last_tile_fillup dl \<le> te_now te j \<longrightarrow> dl_last_tile_fillup (te_others te j dl) \<le> te_now te j))"

lemma bucket_keeps_refl: "bucket_keeps tc h dl dl"
  by (simp add: bucket_keeps_def)

lemma bucket_keeps_trans: "bucket_keeps tc h a b \<Longrightarrow> bucket_keeps tc h b c \<Longrightarrow> bucket_keeps tc h a c"
  by (auto simp: bucket_keeps_def)

lemma topup_count:
  assumes "0 < rate" "0 \<le> d" "d < rate * 2147483648"
  shows "wrap32 (cdiv d rate) = d div rate" "0 \<le> d div rate" "rate * (d div rate) \<le> d"
proof -
  show n: "0 \<le> d div rate" using assms by (simp add: pos_imp_zdiv_nonneg_iff)
  show m: "rate * (d div rate) \<le> d" using assms(1) by (simp add: minus_mod_eq_mult_div [symmetric])
  have "d div rate < 2147483648"
  proof (rule ccontr)
    assume "\<not> ?thesis"
    then have "rate * 2147483648 \<le> rate * (d div rate)" using assms(1) by (intro mult_left_mono) auto
    with m assms(3) show False by linarith
  qed
  with n show "wrap32 (cdiv d rate) = d div rate"
    using assms(1,2) by (simp add: cdiv_nonneg in_int32_def)
qed

lemma fillup_keeps:
  assumes "0 < tc_tile_rate tc" "h < DELAY_HASHTABLE_SIZE" "0 \<le> tc_tile_size tc" "dl_last_tile_fillup dl \<le> now"
    "now - dl_last_tile_fillup dl < tc_tile_rate tc * 2147483648"
  shows "bucket_keeps tc h dl (fillup tc now dl)" "dl_last_tile_fillup (fillup tc now dl) \<le> now"
proof -
  let ?r = "tc_tile_rate tc" and ?d = "now - dl_last_tile_fillup dl"
  note c = topup_count [of ?r ?d]
  have t: "wrap32 (cdiv ?d ?r) = ?d div ?r" "0 \<le> ?d div ?r" "?r * (?d div ?r) \<le> ?d" using c assms by auto
  have z: "?d div ?r \<noteq> 0 \<Longrightarrow> 0 < ?d div ?r" using t(2) by linarith
  have "?r * (dp_available_tiles (dl_users (fillup tc now dl) h) - dp_available_tiles (dl_users dl h)) \<le> ?r * (?d div ?r)"
    using assms(1,2) t z by (intro mult_left_mono) (auto simp: fillup_def Let_def topup_entry_def)
  moreover have l: "dl_last_tile_fillup (fillup tc now dl) = dl_last_tile_fillup dl + ?r * (?d div ?r)"
    using t(1) by (simp add: fillup_def Let_def)
  moreover have "dp_ip_addr (dl_users (fillup tc now dl) h) = dp_ip_addr (dl_users dl h)"
    by (simp add: fillup_def Let_def topup_entry_def)
  moreover have "dl_locked (fillup tc now dl) = dl_locked dl" "dl_whitelist (fillup tc now dl) = dl_whitelist dl"
    by (simp_all add: fillup_def Let_def)
  moreover have "0 \<le> dp_available_tiles (dl_users dl h) \<Longrightarrow> 0 \<le> dp_available_tiles (dl_users (fillup tc now dl) h)"
    using t assms(3) by (simp add: fillup_def Let_def topup_entry_def)
  ultimately show "bucket_keeps tc h dl (fillup tc now dl)"
    using assms(1) t(2) by (simp add: bucket_keeps_def phi_def right_diff_distrib)
  show "dl_last_tile_fillup (fillup tc now dl) \<le> now" using l t(3) by linarith
qed

lemma take_tokens_spec:
  assumes "take_tokens state u = (d, u')"
  shows "dp_ip_addr u' = dp_ip_addr u" "dp_available_tiles u' \<le> dp_available_tiles u" "0 \<le> d"
    "0 \<le> dp_available_tiles u \<Longrightarrow> 0 \<le> dp_available_tiles u'"
    "d \<le> 0 \<Longrightarrow> dp_available_tiles u' = dp_available_tiles u - 1 \<and> 0 < dp_available_tiles u"
  using assms by (auto simp: take_tokens_def Let_def split: if_splits prod.splits)

lemma take_keeps:
  assumes "0 < tc_tile_rate tc" "take_tokens state (dl_users dl h) = (d, u)"
  shows "bucket_keeps tc h dl (dl\<lparr>dl_users := (dl_users dl)(h := u)\<rparr>)"
    and "d \<le> 0 \<Longrightarrow> phi tc h (dl\<lparr>dl_users := (dl_users dl)(h := u)\<rparr>) = phi tc h dl - tc_tile_rate tc"
  using take_tokens_spec [OF assms(2)] assms(1)
  by (auto simp: bucket_keeps_def phi_def right_diff_distrib intro: mult_left_mono)

text \<open>The rounds of one request.\<close>

lemma delay_rounds_keeps:
  assumes "clock_ok tc te h start" "h < DELAY_HASHTABLE_SIZE" "start \<le> dl_last_tile_fillup dl" "dl_last_tile_fillup dl \<le> te_now te j"
    and e: "\<And>i. te_now te i \<le> e"
  shows "case delay_rounds tc te h state j n d0 dl of
      Inl dl' \<Rightarrow> bucket_keeps tc h dl dl' \<and> dl_last_tile_fillup dl' \<le> e
    | Inr (d, dl') \<Rightarrow> bucket_keeps tc h dl dl' \<and> dl_last_tile_fillup dl' \<le> e \<and> (d \<le> 0 \<longrightarrow> 0 < n \<longrightarrow> phi tc h dl' + tc_tile_rate tc \<le> phi tc h dl)"
  using assms(3,4)
proof (induction n arbitrary: j d0 dl)
  case 0
  then show ?case using e [of j] by (simp add: bucket_keeps_refl)
next
  case (Suc n)
  have rate: "0 < tc_tile_rate tc" and size: "0 \<le> tc_tile_size tc" using assms(1) by (simp_all add: clock_ok_def)
  obtain d u where t: "take_tokens state (dl_users dl h) = (d, u)" by fastforce
  let ?dl1 = "dl\<lparr>dl_users := (dl_users dl)(h := u)\<rparr>"
  let ?dl2 = "if j > 0 then te_others te j ?dl1 else ?dl1"
  note k1 = take_keeps [OF rate t]
  show ?case
  proof (cases "d > 0")
    case False
    with k1 t Suc.prems(2) e [of j] show ?thesis by simp
  next
    case True
    have o: "bucket_keeps tc h ?dl1 ?dl2" "dl_last_tile_fillup ?dl2 \<le> te_now te j"
      using assms(1) Suc.prems(2) by (auto simp: clock_ok_def bucket_keeps_refl)
    then have k2: "bucket_keeps tc h dl ?dl2" using bucket_keeps_trans [OF k1(1)] by blast
    then have s2: "start \<le> dl_last_tile_fillup ?dl2" using Suc.prems(1) by (auto simp: bucket_keeps_def)
    have c: "te_now te j - start < tc_tile_rate tc * 2147483648" using assms(1) by (simp add: clock_ok_def)
    have "te_now te j - dl_last_tile_fillup ?dl2 < tc_tile_rate tc * 2147483648"
      using c s2 by linarith
    note f = fillup_keeps [OF rate assms(2) size o(2) this]
    let ?dl3 = "fillup tc (te_now te j) ?dl2"
    have k3: "bucket_keeps tc h dl ?dl3" by (rule bucket_keeps_trans [OF k2 f(1)])
    have "te_now te j \<le> te_now te (Suc j)" using assms(1) by (simp add: clock_ok_def)
    then have "start \<le> dl_last_tile_fillup ?dl3" "dl_last_tile_fillup ?dl3 \<le> te_now te (Suc j)"
      using s2 f by (auto simp: bucket_keeps_def)
    note ih = Suc.IH [OF this, of d]
    have "delay_rounds tc te h state j (Suc n) d0 dl =
        (if j > 0 \<and> \<not> get_global_lock (te_trylock te j) (te_lock te j) then Inl ?dl2
         else delay_rounds tc te h state (Suc j) n d ?dl3)"
      using t True by (simp add: Let_def)
    moreover have "dl_last_tile_fillup ?dl2 \<le> e" using o(2) e [of j] by linarith
    moreover have "phi tc h ?dl3 \<le> phi tc h dl" using k3 by (simp add: bucket_keeps_def)
    moreover have "n = 0 \<Longrightarrow> delay_rounds tc te h state (Suc j) n d ?dl3 = Inr (d, ?dl3)" by simp
    ultimately show ?thesis
      using ih k2 True bucket_keeps_trans [OF k3]
      by (cases "n = 0"; cases "delay_rounds tc te h state (Suc j) n d ?dl3") (auto split del: if_split split: if_split_asm)
  qed
qed

section \<open>Requests of one client\<close>

text \<open>A request as the throttling sees it: its surroundings, the two addresses and the state of the tile.\<close>

type_synonym throttle_req = "throttle_env \<times> string \<times> string option \<times> tileState"

text \<open>
  The request is accounted to the address \<open>ip\<close>: the address text resolves to it, it is not on the
  whitelist, and the first attempt to lock the table succeeds in the end.
\<close>

definition accounted_to :: "throttle_conf \<Rightarrow> (nat \<Rightarrow> 32 word) \<Rightarrow> in6_addr \<Rightarrow> throttle_req \<Rightarrow> bool" where
  "accounted_to tc wl ip r =
     (case r of (te, ua, xff, state) \<Rightarrow>
       get_global_lock (te_trylock te 0) (te_lock te 0)
       \<and> (case client_address tc ua xff of
            None \<Rightarrow> False
          | Some s \<Rightarrow>
              (case te_pton4 te s of
                 Some a \<Rightarrow> ip = (0, 0, 0, a) \<and> wl (unat a mod DELAY_HASHTABLE_WHITELIST_SIZE) \<noteq> a
               | None \<Rightarrow> te_pton6 te s = Some ip)))"

text \<open>A sequence of requests: how many of them are allowed, and the table in the end.\<close>

fun serve_run :: "throttle_conf \<Rightarrow> throttle_req list \<Rightarrow> delaypool \<Rightarrow> (nat \<times> delaypool) option" where
  "serve_run tc [] dl = Some (0, dl)"
| "serve_run tc ((te, ua, xff, state) # rs) dl =
     (case delay_allowed tc te ua xff state dl of
        None \<Rightarrow> None
      | Some (ok, dl') \<Rightarrow>
          (case serve_run tc rs dl' of
             None \<Rightarrow> None
           | Some (n, dl'') \<Rightarrow> Some (if ok then Suc n else n, dl'')))"

text \<open>The clocks of the requests follow each other and end before \<open>e\<close>.\<close>

definition clocks_in_order :: "throttle_conf \<Rightarrow> nat \<Rightarrow> int \<Rightarrow> int \<Rightarrow> throttle_req list \<Rightarrow> bool" where
  "clocks_in_order tc h start e rs \<longleftrightarrow>
     (\<forall>r\<in>set rs. clock_ok tc (fst r) h start \<and> (\<forall>j. te_now (fst r) j \<le> e))
     \<and> sorted_wrt (\<lambda>r s. \<forall>j. te_now (fst r) j \<le> te_now (fst s) 0) rs"

lemma in6_hash_bound: "in6_hash ip < DELAY_HASHTABLE_SIZE"
  by (cases ip) (simp add: in6_hash_def DELAY_HASHTABLE_SIZE_def)

text \<open>A request accounted to the client that holds its slot goes through the rounds.\<close>

lemma delay_allowed_known:
  assumes "accounted_to tc (dl_whitelist dl) ip (te, ua, xff, state)" "\<not> dl_locked dl"
    "dp_ip_addr (dl_users dl (in6_hash ip)) = ip"
  shows "delay_allowed tc te ua xff state dl =
    Some (case delay_rounds tc te (in6_hash ip) state 0 3 0 dl of
            Inl dl' \<Rightarrow> (False, dl') | Inr (d, dl') \<Rightarrow> (\<not> d > 0, dl'))"
  using assms by (auto simp: delay_allowed_def accounted_to_def Let_def split: option.splits)

lemma delay_allowed_step:
  assumes "accounted_to tc (dl_whitelist dl) ip (te, ua, xff, state)" "\<not> dl_locked dl"
    "dp_ip_addr (dl_users dl (in6_hash ip)) = ip"
    "clock_ok tc te (in6_hash ip) start" "start \<le> dl_last_tile_fillup dl" "dl_last_tile_fillup dl \<le> te_now te 0"
    "\<And>i. te_now te i \<le> e"
  obtains ok dl' where "delay_allowed tc te ua xff state dl = Some (ok, dl')"
    "bucket_keeps tc (in6_hash ip) dl dl'" "dl_last_tile_fillup dl' \<le> e"
    "phi tc (in6_hash ip) dl' + (if ok then tc_tile_rate tc else 0) \<le> phi tc (in6_hash ip) dl"
  using delay_allowed_known [OF assms(1-3)]
    delay_rounds_keeps [OF assms(4) in6_hash_bound assms(5-7), where n = 3 and ?d0.0 = 0 and state = state]
  by (cases "delay_rounds tc te (in6_hash ip) state 0 3 0 dl") (auto simp: bucket_keeps_def)

lemma serve_run_bound:
  assumes "\<forall>r\<in>set rs. accounted_to tc (dl_whitelist dl) ip r" "\<not> dl_locked dl"
    "dp_ip_addr (dl_users dl (in6_hash ip)) = ip" "0 \<le> dp_available_tiles (dl_users dl (in6_hash ip))"
    "clocks_in_order tc (in6_hash ip) start e rs" "start \<le> dl_last_tile_fillup dl" "dl_last_tile_fillup dl \<le> e"
    "\<forall>r\<in>set rs. dl_last_tile_fillup dl \<le> te_now (fst r) 0"
  shows "\<exists>n dl'. serve_run tc rs dl = Some (n, dl') \<and> 0 \<le> dp_available_tiles (dl_users dl' (in6_hash ip))
    \<and> dl_last_tile_fillup dl' \<le> e \<and> phi tc (in6_hash ip) dl' + tc_tile_rate tc * int n \<le> phi tc (in6_hash ip) dl"
  using assms
proof (induction rs arbitrary: dl)
  case Nil
  then show ?case by simp
next
  case (Cons r rs)
  obtain te ua xff state where r: "r = (te, ua, xff, state)" by (metis prod_cases4)
  have ck: "clock_ok tc te (in6_hash ip) start" and te: "\<And>i. te_now te i \<le> e"
    and nx: "\<And>s j. s \<in> set rs \<Longrightarrow> te_now te j \<le> te_now (fst s) 0"
    using Cons.prems(5) r by (auto simp: clocks_in_order_def)
  have acc: "accounted_to tc (dl_whitelist dl) ip (te, ua, xff, state)" "dl_last_tile_fillup dl \<le> te_now te 0"
    using Cons.prems(1,8) r by auto
  note step = delay_allowed_step [OF acc(1) Cons.prems(2,3) ck Cons.prems(6) acc(2)]
  obtain ok dl' where d: "delay_allowed tc te ua xff state dl = Some (ok, dl')"
    "bucket_keeps tc (in6_hash ip) dl dl'" "dl_last_tile_fillup dl' \<le> e"
    "phi tc (in6_hash ip) dl' + (if ok then tc_tile_rate tc else 0) \<le> phi tc (in6_hash ip) dl"
    by (rule step [OF te])
  have nx': "\<forall>s\<in>set rs. dl_last_tile_fillup dl' \<le> te_now (fst s) 0"
  proof
    fix s assume s: "s \<in> set rs"
    from step [OF nx [OF s]] d(1)
    show "dl_last_tile_fillup dl' \<le> te_now (fst s) 0" by (metis option.inject prod.inject)
  qed
  have "\<exists>n dl''. serve_run tc rs dl' = Some (n, dl'') \<and> 0 \<le> dp_available_tiles (dl_users dl'' (in6_hash ip))
    \<and> dl_last_tile_fillup dl'' \<le> e \<and> phi tc (in6_hash ip) dl'' + tc_tile_rate tc * int n \<le> phi tc (in6_hash ip) dl'"
    using Cons.prems d(2,3) nx' by (intro Cons.IH) (auto simp: bucket_keeps_def clocks_in_order_def)
  then obtain n dl'' where run: "serve_run tc rs dl' = Some (n, dl'')" "0 \<le> dp_available_tiles (dl_users dl'' (in6_hash ip))"
    "dl_last_tile_fillup dl'' \<le> e" "phi tc (in6_hash ip) dl'' + tc_tile_rate tc * int n \<le> phi tc (in6_hash ip) dl'"
    by blast
  then have "phi tc (in6_hash ip) dl'' + tc_tile_rate tc * int (if ok then Suc n else n) \<le> phi tc (in6_hash ip) dl"
    using d(4) by (simp add: distrib_left split: if_splits)
  with run r d(1) show ?case by (cases ok) auto
qed


definition sample_tc :: throttle_conf where
  "sample_tc = \<lparr>tc_xforward = 0, tc_tile_size = 10000, tc_render_size = 128, tc_tile_rate = 1000, tc_render_rate = 1000000\<rparr>"

definition sample_te :: "int \<Rightarrow> throttle_env" where
  "sample_te now = \<lparr>te_trylock = (\<lambda>i k. if k < 2 then lockBusy else lockSuccess), te_lock = (\<lambda>i. True), te_now = (\<lambda>j. now),
     te_others = (\<lambda>j dl. dl), te_pton4 = (\<lambda>s. if s = ''1.2.3.4'' then Some 0x04030201 else None), te_pton6 = (\<lambda>s. None)\<rparr>"

definition sample_pool :: delaypool where
  "sample_pool = \<lparr>dl_users = (\<lambda>i. \<lparr>dp_ip_addr = (0, 0, 0, 0x04030201), dp_available_tiles = 1, dp_available_render_req = 0\<rparr>),
     dl_whitelist = (\<lambda>i. 0), dl_last_tile_fillup = 5000, dl_last_render_fillup = 5000, dl_locked = False\<rparr>"

lemma sample_lock: "get_global_lock (\<lambda>k. if k < 2 then lockBusy else lockSuccess) hard"
  by (cases hard) (simp_all add: get_global_lock_def MAXCAMP_def numeral_eq_Suc)

lemma sample_accounted: "accounted_to sample_tc (dl_whitelist sample_pool) (0, 0, 0, 0x04030201) (sample_te now, ''1.2.3.4'', None, state)"
  by (simp add: accounted_to_def sample_te_def sample_tc_def sample_pool_def sample_lock client_address_def)


text \<open>
  Exemptions: a client on the whitelist, any client while the table is marked as locked, and any
  client whose request cannot get the table's lock is served, and the table stays as it is.
\<close>

theorem throttle_exemptions:
  assumes "client_address tc ua xff = Some s" "te_pton4 te s = Some a"
    and "dl_whitelist dl (unat a mod DELAY_HASHTABLE_WHITELIST_SIZE) = a \<or> dl_locked dl
         \<or> (\<forall>k < MAXCAMP. te_trylock te 0 k = lockBusy)"
  shows "delay_allowed tc te ua xff state dl = Some (True, dl)"
proof -
  have "(\<forall>k. c \<le> k \<and> k < c + n \<longrightarrow> f k = lockBusy) \<Longrightarrow> \<not> lock_attempts f hard c n" for f hard c n
    by (induction n arbitrary: c) auto
  then have "(\<forall>k < MAXCAMP. te_trylock te 0 k = lockBusy) \<Longrightarrow> \<not> get_global_lock (te_trylock te 0) (te_lock te 0)"
    by (simp add: get_global_lock_def)
  with assms show ?thesis by (auto simp: delay_allowed_def Let_def)
qed

theorem throttle_exemptions_witness:
  "delay_allowed sample_tc ((sample_te 1)\<lparr>te_trylock := \<lambda>i k. lockBusy\<rparr>) ''1.2.3.4'' None tileMissing sample_pool = Some (True, sample_pool)"
  by (rule throttle_exemptions [where s = "''1.2.3.4''" and a = "0x04030201"])
    (simp_all add: client_address_def sample_tc_def sample_te_def)

lemma fillup_idle:
  assumes "0 \<le> now - dl_last_tile_fillup dl" "now - dl_last_tile_fillup dl < tc_tile_rate tc"
    "0 \<le> now - dl_last_render_fillup dl" "now - dl_last_render_fillup dl < tc_render_rate tc"
  shows "fillup tc now dl = dl"
  using assms by (simp add: fillup_def Let_def cdiv_nonneg in_int32_def)

text \<open>
  A request for a missing tile is refused when the client has no render token left and none is
  due, but each of the three rounds takes a tile token first: the refused request costs up to three.
\<close>

theorem refused_render_costs_tiles:
  assumes "accounted_to tc (dl_whitelist dl) ip (te, ua, xff, tileMissing)" "\<not> dl_locked dl"
    and "dp_ip_addr (dl_users dl (in6_hash ip)) = ip" "dp_available_render_req (dl_users dl (in6_hash ip)) \<le> 0"
    and "3 \<le> dp_available_tiles (dl_users dl (in6_hash ip))"
    and "\<forall>j. get_global_lock (te_trylock te j) (te_lock te j) \<and> te_others te j = id \<and> te_now te j = now"
    and "0 \<le> now - dl_last_tile_fillup dl" "now - dl_last_tile_fillup dl < tc_tile_rate tc"
    and "0 \<le> now - dl_last_render_fillup dl" "now - dl_last_render_fillup dl < tc_render_rate tc"
  shows "\<exists>dl'. delay_allowed tc te ua xff tileMissing dl = Some (False, dl')
    \<and> dp_available_tiles (dl_users dl' (in6_hash ip)) = dp_available_tiles (dl_users dl (in6_hash ip)) - 3"
  using delay_allowed_known [OF assms(1-3)] assms(4-10)
  by (simp add: numeral_eq_Suc take_tokens_def Let_def fillup_idle)

theorem refused_render_costs_tiles_witness:
  "\<exists>dl'. delay_allowed sample_tc ((sample_te 5001)\<lparr>te_others := \<lambda>j. id\<rparr>) ''1.2.3.4'' None tileMissing
       (sample_pool\<lparr>dl_users := \<lambda>i. \<lparr>dp_ip_addr = (0, 0, 0, 0x04030201), dp_available_tiles = 7, dp_available_render_req = 0\<rparr>\<rparr>) = Some (False, dl')
    \<and> dp_available_tiles (dl_users dl' (in6_hash (0, 0, 0, 0x04030201))) = 7 - 3"
  using refused_render_costs_tiles [where tc = sample_tc and te = "(sample_te 5001)\<lparr>te_others := \<lambda>j. id\<rparr>"
      and ua = "''1.2.3.4''" and xff = None and ip = "(0, 0, 0, 0x04030201)" and now = 5001
      and dl = "sample_pool\<lparr>dl_users := \<lambda>i. \<lparr>dp_ip_addr = (0, 0, 0, 0x04030201), dp_available_tiles = 7, dp_available_render_req = 0\<rparr>\<rparr>"]
    sample_accounted [of 5001 tileMissing]
  by (simp add: accounted_to_def client_address_def sample_pool_def sample_te_def sample_tc_def sample_lock)

end
