(* ===== verification/C_Double.thy ===== *)
theory C_Double
  imports Complex_Main
begin

text \<open>
  The C type \<open>double\<close> as the sources use it: finite values as rationals, rounded to 53 significant bits
  (ties to even) after every operation, and the conversion to an integer, which truncates. Infinities,
  not-a-numbers and the limits of the exponent are left out: no value the sources compute from the
  configuration and the clock comes near them.
\<close>

section \<open>Definitions\<close>

text \<open>The exponent of a number: \<open>2 ^ e \<le> q < 2 ^ (e + 1)\<close>, searched upwards or downwards.\<close>

function log2_up :: "nat \<Rightarrow> rat \<Rightarrow> nat" where
  "log2_up k q = (if 2 ^ Suc k \<le> q then log2_up (Suc k) q else k)"
  by pat_completeness auto
termination
proof (relation "measure (\<lambda>(k, q). nat \<lceil>q\<rceil> - k)", goal_cases)
  case (2 k q)
  have p: "(of_nat (Suc k) :: rat) < 2 ^ Suc k" by (rule of_nat_less_two_power)
  then have "(of_int (int (Suc k)) :: rat) < q" using 2 by simp
  then have "int (Suc k) < \<lceil>q\<rceil>" by (subst less_ceiling_iff)
  then show ?case by simp
qed simp

function log2_down :: "nat \<Rightarrow> rat \<Rightarrow> nat" where
  "log2_down k q = (if 0 < q \<and> q * 2 ^ k < 1 then log2_down (Suc k) q else k)"
  by pat_completeness auto
termination
proof (relation "measure (\<lambda>(k, q). nat \<lceil>1 / q\<rceil> - k)", goal_cases)
  case (2 k q)
  have "(of_nat k :: rat) < 2 ^ k" by (rule of_nat_less_two_power)
  moreover have "2 ^ k < 1 / q" using 2 by (simp add: field_simps)
  ultimately have "(of_nat k :: rat) < 1 / q" by (rule less_trans)
  then have "(of_int (int k) :: rat) < 1 / q" by simp
  then have "int k < \<lceil>1 / q\<rceil>" by (subst less_ceiling_iff)
  then show ?case by simp
qed simp

definition expo :: "rat \<Rightarrow> int" where
  "expo q = (if 1 \<le> q then int (log2_up 0 q) else - int (log2_down 0 q))"

text \<open>Rounding to an integer, ties to the even neighbour.\<close>

definition round_even :: "rat \<Rightarrow> int" where
  "round_even q =
     (let f = \<lfloor>q\<rfloor>; d = q - of_int f
      in if d < 1 / 2 then f else if d > 1 / 2 then f + 1 else if even f then f else f + 1)"

definition ulp :: "rat \<Rightarrow> rat" where
  "ulp q = 2 powi (expo q - 52)"

definition dbl_pos :: "rat \<Rightarrow> rat" where
  "dbl_pos q = of_int (round_even (q / ulp q)) * ulp q"

definition dbl :: "rat \<Rightarrow> rat" where
  "dbl q = (if q = 0 then 0 else if q < 0 then - dbl_pos (- q) else dbl_pos q)"

text \<open>Addition, subtraction, multiplication, division and the conversion to an integer type.\<close>

definition dadd :: "rat \<Rightarrow> rat \<Rightarrow> rat" where
  "dadd a b = dbl (a + b)"

definition dsub :: "rat \<Rightarrow> rat \<Rightarrow> rat" where
  "dsub a b = dbl (a - b)"

definition dmul :: "rat \<Rightarrow> rat \<Rightarrow> rat" where
  "dmul a b = dbl (a * b)"

definition ddiv :: "rat \<Rightarrow> rat \<Rightarrow> rat" where
  "ddiv a b = dbl (a / b)"

definition dtrunc :: "rat \<Rightarrow> int" where
  "dtrunc q = (if q < 0 then - \<lfloor>- q\<rfloor> else \<lfloor>q\<rfloor>)"

section \<open>The exponent\<close>

declare log2_up.simps [simp del] log2_down.simps [simp del]

lemma log2_up_bounds: "2 ^ k \<le> q \<Longrightarrow> 2 ^ log2_up k q \<le> q \<and> q < 2 ^ Suc (log2_up k q)"
proof (induction k q rule: log2_up.induct)
  case (1 k q)
  then show ?case by (subst (1 2) log2_up.simps) auto
qed

lemma log2_down_bounds:
  "0 < q \<Longrightarrow> q * 2 ^ k < 2 \<Longrightarrow> 1 \<le> q * 2 ^ log2_down k q \<and> q * 2 ^ log2_down k q < 2"
proof (induction k q rule: log2_down.induct)
  case (1 k q)
  show ?case
  proof (cases "q * 2 ^ k < 1")
    case True
    then have "log2_down k q = log2_down (Suc k) q" using 1 by (subst log2_down.simps) simp
    moreover have "q * 2 ^ Suc k < 2" using True by simp
    ultimately show ?thesis using 1 True by metis
  next
    case False
    then have "log2_down k q = k" by (subst log2_down.simps) simp
    with False 1(3) show ?thesis by simp
  qed
qed

lemma expo_bounds:
  assumes "0 < q"
  shows "2 powi expo q \<le> q" "q < 2 powi (expo q + 1)"
proof -
  have "2 powi expo q \<le> q \<and> q < 2 powi (expo q + 1)"
  proof (cases "1 \<le> q")
    case True
    then show ?thesis using log2_up_bounds [of 0 q] by (simp add: expo_def power_int_add)
  next
    case False
    let ?k = "log2_down 0 q"
    have "1 \<le> q * 2 ^ ?k \<and> q * 2 ^ ?k < 2" using False assms by (intro log2_down_bounds) auto
    then have "1 / 2 ^ ?k \<le> q \<and> q < 2 / 2 ^ ?k" by (simp add: field_simps)
    moreover have "(2 :: rat) powi (expo q + 1) = 2 / 2 ^ ?k" "(2 :: rat) powi expo q = 1 / 2 ^ ?k"
      using False by (simp_all add: expo_def power_int_diff power_int_minus divide_inverse)
    ultimately show ?thesis by simp
  qed
  then show "2 powi expo q \<le> q" "q < 2 powi (expo q + 1)" by auto
qed

lemma powi_mono2: "a \<le> b \<Longrightarrow> (2 :: rat) powi a \<le> 2 powi b"
  by (rule power_int_increasing) auto

lemma powi_less_imp: "(2 :: rat) powi a < 2 powi b \<Longrightarrow> a < b"
  using powi_mono2 [of b a] by linarith

lemma expo_mono: "0 < p \<Longrightarrow> p \<le> q \<Longrightarrow> expo p \<le> expo q"
  using expo_bounds [of p] expo_bounds [of q] powi_less_imp [of "expo p" "expo q + 1"] by linarith

section \<open>Rounding\<close>

lemma round_even_bounds: "\<lfloor>q\<rfloor> \<le> round_even q" "round_even q \<le> \<lfloor>q\<rfloor> + 1"
  by (auto simp: round_even_def Let_def)

lemma round_even_int [simp]: "round_even (of_int n) = n"
  by (simp add: round_even_def)

lemma round_even_mono:
  assumes "p \<le> q"
  shows "round_even p \<le> round_even q"
proof (cases "\<lfloor>p\<rfloor> = \<lfloor>q\<rfloor>")
  case True
  with assms show ?thesis by (auto simp: round_even_def Let_def)
next
  case False
  then have "\<lfloor>p\<rfloor> + 1 \<le> \<lfloor>q\<rfloor>" using floor_mono [OF assms] by linarith
  then show ?thesis using round_even_bounds(2) [of p] round_even_bounds(1) [of q] by linarith
qed

lemma ulp_pos [simp]: "0 < ulp q"
  by (simp add: ulp_def)

text \<open>A rounded number stays within its power of two.\<close>

lemma dbl_pos_binade:
  assumes "0 < q"
  shows "2 powi expo q \<le> dbl_pos q" "dbl_pos q \<le> 2 powi (expo q + 1)"
proof -
  have u: "(2 :: rat) powi expo q = of_int (2 ^ 52) * ulp q" "(2 :: rat) powi (expo q + 1) = of_int (2 ^ 53) * ulp q"
    by (simp_all add: ulp_def power_int_diff power_int_add)
  have "of_int (2 ^ 52) \<le> q / ulp q" "q / ulp q \<le> of_int (2 ^ 53)"
    using expo_bounds [OF assms] unfolding u by (simp_all add: field_simps)
  then have "(2 :: int) ^ 52 \<le> round_even (q / ulp q)" "round_even (q / ulp q) \<le> 2 ^ 53"
    using round_even_mono round_even_int by metis+
  then have "of_int (2 ^ 52) \<le> (of_int (round_even (q / ulp q)) :: rat)" "(of_int (round_even (q / ulp q)) :: rat) \<le> of_int (2 ^ 53)"
    unfolding of_int_le_iff by auto
  then show "2 powi expo q \<le> dbl_pos q" "dbl_pos q \<le> 2 powi (expo q + 1)"
    unfolding u dbl_pos_def using mult_right_mono [OF _ less_imp_le [OF ulp_pos [of q]]] by blast+
qed

lemma dbl_pos_positive: "0 < q \<Longrightarrow> 0 < dbl_pos q"
  using dbl_pos_binade(1) [of q] zero_less_power_int [of "2 :: rat" "expo q"] by linarith

lemma dbl_pos_mono:
  assumes "0 < p" "p \<le> q"
  shows "dbl_pos p \<le> dbl_pos q"
proof (cases "expo p = expo q")
  case True
  then have u: "ulp p = ulp q" by (simp add: ulp_def)
  have "p / ulp q \<le> q / ulp q" using assms(2) by (rule divide_right_mono) (simp add: less_imp_le)
  then have "(of_int (round_even (p / ulp q)) :: rat) \<le> of_int (round_even (q / ulp q))"
    unfolding of_int_le_iff by (rule round_even_mono)
  then show ?thesis unfolding dbl_pos_def u by (intro mult_right_mono) (auto simp: less_imp_le)
next
  case False
  then have "expo p + 1 \<le> expo q" using expo_mono [OF assms] by linarith
  then have "(2 :: rat) powi (expo p + 1) \<le> 2 powi expo q" by (rule powi_mono2)
  then show ?thesis using dbl_pos_binade(2) [of p] dbl_pos_binade(1) [of q] assms by linarith
qed

theorem dbl_mono: "p \<le> q \<Longrightarrow> dbl p \<le> dbl q"
  using dbl_pos_mono [of p q] dbl_pos_mono [of "- q" "- p"] dbl_pos_positive [of q] dbl_pos_positive [of "- p"]
  by (auto simp: dbl_def)

text \<open>Numbers of at most 53 bits, scaled by a power of two, are not changed.\<close>

lemma dbl_pos_exact:
  assumes "0 < n" "n < 2 ^ 53"
  shows "dbl_pos (of_int n * 2 powi j) = of_int n * 2 powi j"
proof -
  let ?q = "of_int n * 2 powi j :: rat"
  have "(of_int n :: rat) < 2 ^ 53" using assms(2) of_int_less_iff [where 'a = rat, of n "2 ^ 53"] by simp
  then have "?q < 2 powi (j + 53)" by (simp add: power_int_add)
  moreover have "0 < ?q" using assms(1) by simp
  ultimately have "(2 :: rat) powi expo ?q < 2 powi (j + 53)" using expo_bounds(1) by (metis le_less_trans)
  then have e: "expo ?q - 52 \<le> j" using powi_less_imp by fastforce
  define m where "m = nat (j - (expo ?q - 52))"
  have "(2 :: rat) powi j = 2 ^ m * ulp ?q"
    using e by (simp add: ulp_def m_def flip: power_int_of_nat power_int_add)
  then have q: "?q = of_int (n * 2 ^ m) * ulp ?q" by simp
  then have "?q / ulp ?q = of_int (n * 2 ^ m)" using ulp_pos [of ?q] by (metis less_irrefl nonzero_mult_div_cancel_right)
  then show ?thesis unfolding dbl_pos_def using q by (metis round_even_int)
qed

lemma dbl_exact:
  assumes "\<bar>n\<bar> < 2 ^ 53"
  shows "dbl (of_int n * 2 powi j) = of_int n * 2 powi j"
proof -
  have "\<not> (2 :: rat) powi j < 0" by (simp add: not_less)
  then have "of_int n * (2 :: rat) powi j < 0 \<longleftrightarrow> n < 0" "of_int n * (2 :: rat) powi j = 0 \<longleftrightarrow> n = 0"
    by (auto simp: mult_less_0_iff)
  then show ?thesis
    using dbl_pos_exact [of n j] dbl_pos_exact [of "- n" j] assms
    by (cases "n < 0"; cases "n = 0") (auto simp: dbl_def)
qed

lemma dbl_of_int [simp]: "\<bar>n\<bar> < 2 ^ 53 \<Longrightarrow> dbl (of_int n) = of_int n"
  using dbl_exact [of n 0] by simp

lemma dbl_0 [simp]: "dbl 0 = 0"
  by (simp add: dbl_def)

lemma dtrunc_of_int [simp]: "dtrunc (of_int n) = n"
  by (simp add: dtrunc_def)

lemma dtrunc_mono: "p \<le> q \<Longrightarrow> dtrunc p \<le> dtrunc q"
  unfolding dtrunc_def by (auto simp: floor_mono) (meson le_floor_iff neg_le_0_iff_le order_trans of_int_0 zero_le_floor not_less less_imp_le neg_0_le_iff_le)+

text \<open>A rounded number has at most 53 bits, so that rounding it again, doubled or not, does not change it.\<close>

lemma dbl_pos_form:
  assumes "0 < q"
  shows "\<exists>n j. 0 < n \<and> n < 2 ^ 53 \<and> dbl_pos q = of_int n * 2 powi j"
proof -
  define n where "n = round_even (q / ulp q)"
  have d: "dbl_pos q = of_int n * 2 powi (expo q - 52)" by (simp add: dbl_pos_def n_def ulp_def)
  have "of_int n * ulp q \<le> of_int (2 ^ 53) * ulp q"
    using dbl_pos_binade(2) [OF assms] by (simp add: dbl_pos_def n_def ulp_def power_int_diff power_int_add)
  then have "n \<le> 2 ^ 53" using ulp_pos [of q] by (metis mult_le_cancel_right_pos of_int_le_iff)
  moreover have "0 < n" using dbl_pos_positive [OF assms] ulp_pos [of q] by (simp add: dbl_pos_def n_def zero_less_mult_iff not_less [symmetric])
  moreover have "(of_int (2 ^ 53) :: rat) * 2 powi (expo q - 52) = of_int (2 ^ 52) * 2 powi (expo q - 51)"
    by (simp add: power_int_diff)
  ultimately consider "n = 2 ^ 53" "dbl_pos q = of_int (2 ^ 52) * 2 powi (expo q - 51)" | "0 < n" "n < 2 ^ 53"
    using d by fastforce
  then show ?thesis
  proof cases
    case 1
    have "(0 :: int) < 2 ^ 52" "(2 :: int) ^ 52 < 2 ^ 53" by simp_all
    with 1(2) show ?thesis by blast
  next
    case 2
    then show ?thesis using d by blast
  qed
qed

lemma dbl_minus [simp]: "dbl (- q) = - dbl q"
  by (simp add: dbl_def)

lemma dbl_form: "\<exists>n j. \<bar>n\<bar> < 2 ^ 53 \<and> dbl q = of_int n * 2 powi j"
proof (cases "q = 0")
  case True
  then show ?thesis by (intro exI [of _ 0]) simp
next
  case False
  obtain n j where n: "0 < n" "n < 2 ^ 53" "dbl_pos \<bar>q\<bar> = of_int n * 2 powi j" using dbl_pos_form [of "\<bar>q\<bar>"] False by auto
  then have "dbl q = of_int (if q < 0 then - n else n) * 2 powi j" using False by (auto simp: dbl_def abs_if split: if_splits)
  moreover have "\<bar>if q < 0 then - n else n\<bar> < 2 ^ 53" using n by auto
  ultimately show ?thesis by blast
qed

lemma dbl_idem [simp]: "dbl (dbl q) = dbl q"
  using dbl_form [of q] dbl_exact by metis

lemma dbl_double [simp]: "dbl (2 * dbl q) = 2 * dbl q"
proof -
  obtain n j where n: "\<bar>n\<bar> < 2 ^ 53" "dbl q = of_int n * 2 powi j" using dbl_form by blast
  have "2 * dbl q = of_int n * 2 powi (j + 1)" by (simp add: n(2) power_int_add)
  then show ?thesis using dbl_exact [OF n(1), of "j + 1"] by simp
qed

end
