(* ===== verification/Mod_Tile_Config.thy ===== *)
theory Mod_Tile_Config
  imports Tile_Prelude C_Double
begin

text \<open>
  The configuration of the Apache module (\<^verbatim>\<open>includes/mod_tile.h\<close> and the last part of \<^verbatim>\<open>src/mod_tile.c\<close>): the
  server's and the layers' records, the defaults, the merge of a virtual host's configuration with the
  main server's, and every configuration directive. A directive yields an error message (\<open>None\<close>: a
  null pointer, no error) and the new configuration. Two counters are global variables of the module.
  Apache splits a line into arguments; \<open>strtod\<close> is a parameter.
\<close>

section \<open>Data\<close>

record tile_config_rec =
  tr_hostnames :: "string list"
  tr_attribution :: string
  tr_baseuri :: string
  tr_cors :: "string option"
  tr_description :: string
  tr_fileExtension :: string
  tr_mimeType :: string
  tr_store :: string
  tr_xmlname :: string
  tr_aspect_x :: int
  tr_aspect_y :: int
  tr_enableOptions :: int
  tr_maxzoom :: int
  tr_minzoom :: int
  tr_noHostnames :: int

record tile_server_conf =
  sc_configs :: "tile_config_rec list"
  sc_very_old_threshold :: int
  sc_cache_extended_hostname :: string
  sc_renderd_socket_name :: string
  sc_tile_dir :: string
  sc_cache_duration_last_modified_factor :: rat
  sc_cache_duration_dirty :: int
  sc_cache_duration_low_zoom :: int
  sc_cache_duration_max :: int
  sc_cache_duration_medium_zoom :: int
  sc_cache_duration_minimum :: int
  sc_cache_extended_duration :: int
  sc_cache_level_low_zoom :: int
  sc_cache_level_medium_zoom :: int
  sc_delaypool_render_size :: int
  sc_delaypool_tile_size :: int
  sc_enable_bulk_mode :: bool
  sc_enable_dirty_url :: bool
  sc_enable_global_stats :: bool
  sc_enable_status_url :: bool
  sc_enable_tile_throttling :: bool
  sc_enable_tile_throttling_xforward :: int
  sc_max_load_missing :: int
  sc_max_load_old :: int
  sc_mincachetime :: "int list"
  sc_renderd_socket_port :: int
  sc_request_timeout :: int
  sc_request_timeout_priority :: int
  sc_delaypool_render_rate :: int
  sc_delaypool_tile_rate :: int

definition MAX_ZOOM_SERVER :: int where
  "MAX_ZOOM_SERVER = 30"

definition AVAILABLE_TILE_BUCKET_SIZE :: int where
  "AVAILABLE_TILE_BUCKET_SIZE = 5000"

definition AVAILABLE_RENDER_BUCKET_SIZE :: int where
  "AVAILABLE_RENDER_BUCKET_SIZE = 65"

definition RENDER_TOPUP_RATE :: int where
  "RENDER_TOPUP_RATE = 5000000"

definition TILE_TOPUP_RATE :: int where
  "TILE_TOPUP_RATE = 1000000"

definition MAX_LOAD_OLD :: int where
  "MAX_LOAD_OLD = 16"

definition MAX_LOAD_MISSING :: int where
  "MAX_LOAD_MISSING = 50"

definition VERYOLD_THRESHOLD :: int where
  "VERYOLD_THRESHOLD = 31536000000000"

definition REQUEST_TIMEOUT :: int where
  "REQUEST_TIMEOUT = 3"

definition RENDERD_SOCKET :: string where
  "RENDERD_SOCKET = ''/run/renderd/renderd.sock''"

definition RENDERD_TILE_DIR :: string where
  "RENDERD_TILE_DIR = ''/var/cache/renderd/tiles''"

text \<open>\<open>quoted\<close> puts a text between two apostrophes.\<close>

definition quoted :: "string \<Rightarrow> string" where
  "quoted s = CHR 0x27 # s @ [CHR 0x27]"

definition DEFAULT_ATTRIBUTION :: string where
  "DEFAULT_ATTRIBUTION =
     ''&copy;<a href='' @ quoted ''http://www.openstreetmap.org/'' @ ''>OpenStreetMap</a> and <a href=''
     @ quoted ''http://wiki.openstreetmap.org/wiki/Contributors'' @ ''>contributors</a>, <a href=''
     @ quoted ''http://opendatacommons.org/licenses/odbl/'' @ ''>(ODbL)</a>''"


section \<open>Arguments\<close>

text \<open>
  \<open>apr_strtoi64\<close> in base ten: the value, clamped to 64 bits, and the unread rest; \<open>None\<close>: no digit, the
  end pointer is the start of the text and the value is zero.
\<close>

definition strtoi64 :: "string \<Rightarrow> (int \<times> string) option" where
  "strtoi64 s =
     (let t = dropWhile is_space s;
          neg = (t \<noteq> [] \<and> hd t = CHR ''-'');
          u = (if t \<noteq> [] \<and> (hd t = CHR ''-'' \<or> hd t = CHR ''+'') then tl t else t);
          ds = takeWhile is_digit u
      in if ds = [] then None
         else Some (clamp64 (if neg then - int (digits_val ds) else int (digits_val ds)), dropWhile is_digit u))"

text \<open>\<open>strtol(s, NULL, 10)\<close> stored into an \<open>int\<close>.\<close>

definition strtol_int :: "string \<Rightarrow> int" where
  "strtol_int s = (case strtoi64 s of None \<Rightarrow> 0 | Some (v, _) \<Rightarrow> wrap32 v)"

type_synonym 'a arg_result = "string + 'a"

definition arg_to_apr_int64_t :: "string \<Rightarrow> string \<Rightarrow> int arg_result" where
  "arg_to_apr_int64_t name buf =
     (case strtoi64 buf of None \<Rightarrow> Inl (name @ '' argument must be an integer'') | Some (v, _) \<Rightarrow> Inr v)"

definition arg_to_double :: "(string \<Rightarrow> (rat \<times> string) option) \<Rightarrow> string \<Rightarrow> string \<Rightarrow> rat arg_result" where
  "arg_to_double strtod name buf =
     (case strtod buf of None \<Rightarrow> Inl (name @ '' argument must be a float'') | Some (v, _) \<Rightarrow> Inr v)"

definition arg_to_int :: "string \<Rightarrow> string \<Rightarrow> int arg_result" where
  "arg_to_int name buf =
     (case strtoi64 buf of None \<Rightarrow> Inl (name @ '' argument must be an integer'') | Some (v, _) \<Rightarrow> Inr (wrap32 v))"

definition arg_to_string :: "string \<Rightarrow> string \<Rightarrow> string arg_result" where
  "arg_to_string name buf = Inr (take PATH_MAX buf)"

text \<open>The outcome of a directive: an error message or none, and the configuration.\<close>

type_synonym conf_result = "string option \<times> tile_server_conf"

definition set_arg :: "'a arg_result \<Rightarrow> ('a \<Rightarrow> tile_server_conf \<Rightarrow> tile_server_conf) \<Rightarrow> tile_server_conf \<Rightarrow> conf_result" where
  "set_arg a f sc = (case a of Inl e \<Rightarrow> (Some e, sc) | Inr v \<Rightarrow> (None, f v sc))"

text \<open>Two arguments, one after the other: the first is stored even when the second is wrong.\<close>

definition set_args ::
    "'a arg_result \<Rightarrow> ('a \<Rightarrow> tile_server_conf \<Rightarrow> tile_server_conf) \<Rightarrow> 'b arg_result \<Rightarrow> ('b \<Rightarrow> tile_server_conf \<Rightarrow> tile_server_conf)
     \<Rightarrow> tile_server_conf \<Rightarrow> conf_result" where
  "set_args a f b g sc = (case set_arg a f sc of (Some e, sc') \<Rightarrow> (Some e, sc') | (None, sc') \<Rightarrow> set_arg b g sc')"

section \<open>Directives with one value\<close>

definition mod_tile_request_timeout_config :: "string \<Rightarrow> string \<Rightarrow> tile_server_conf \<Rightarrow> conf_result" where
  "mod_tile_request_timeout_config name arg sc = set_arg (arg_to_int name arg) (\<lambda>v c. c\<lparr>sc_request_timeout := v\<rparr>) sc"

definition mod_tile_request_timeout_priority_config :: "string \<Rightarrow> string \<Rightarrow> tile_server_conf \<Rightarrow> conf_result" where
  "mod_tile_request_timeout_priority_config name arg sc = set_arg (arg_to_int name arg) (\<lambda>v c. c\<lparr>sc_request_timeout_priority := v\<rparr>) sc"

definition mod_tile_max_load_old_config :: "string \<Rightarrow> string \<Rightarrow> tile_server_conf \<Rightarrow> conf_result" where
  "mod_tile_max_load_old_config name arg sc = set_arg (arg_to_int name arg) (\<lambda>v c. c\<lparr>sc_max_load_old := v\<rparr>) sc"

definition mod_tile_max_load_missing_config :: "string \<Rightarrow> string \<Rightarrow> tile_server_conf \<Rightarrow> conf_result" where
  "mod_tile_max_load_missing_config name arg sc = set_arg (arg_to_int name arg) (\<lambda>v c. c\<lparr>sc_max_load_missing := v\<rparr>) sc"

definition mod_tile_very_old_threshold_config :: "string \<Rightarrow> string \<Rightarrow> tile_server_conf \<Rightarrow> conf_result" where
  "mod_tile_very_old_threshold_config name arg sc = set_arg (arg_to_apr_int64_t name arg) (\<lambda>v c. c\<lparr>sc_very_old_threshold := v\<rparr>) sc"

definition mod_tile_renderd_socket_name_config :: "string \<Rightarrow> string \<Rightarrow> tile_server_conf \<Rightarrow> conf_result" where
  "mod_tile_renderd_socket_name_config name arg sc = set_arg (arg_to_string name arg) (\<lambda>v c. c\<lparr>sc_renderd_socket_name := v\<rparr>) sc"

definition mod_tile_tile_dir_config :: "string \<Rightarrow> string \<Rightarrow> tile_server_conf \<Rightarrow> conf_result" where
  "mod_tile_tile_dir_config name arg sc = set_arg (arg_to_string name arg) (\<lambda>v c. c\<lparr>sc_tile_dir := v\<rparr>) sc"

definition mod_tile_cache_extended_hostname_config :: "string \<Rightarrow> string \<Rightarrow> tile_server_conf \<Rightarrow> conf_result" where
  "mod_tile_cache_extended_hostname_config name arg sc = set_arg (arg_to_string name arg) (\<lambda>v c. c\<lparr>sc_cache_extended_hostname := v\<rparr>) sc"

definition mod_tile_cache_extended_duration_config :: "string \<Rightarrow> string \<Rightarrow> tile_server_conf \<Rightarrow> conf_result" where
  "mod_tile_cache_extended_duration_config name arg sc = set_arg (arg_to_int name arg) (\<lambda>v c. c\<lparr>sc_cache_extended_duration := v\<rparr>) sc"

definition mod_tile_cache_duration_max_config :: "string \<Rightarrow> string \<Rightarrow> tile_server_conf \<Rightarrow> conf_result" where
  "mod_tile_cache_duration_max_config name arg sc = set_arg (arg_to_int name arg) (\<lambda>v c. c\<lparr>sc_cache_duration_max := v\<rparr>) sc"

definition mod_tile_cache_duration_dirty_config :: "string \<Rightarrow> string \<Rightarrow> tile_server_conf \<Rightarrow> conf_result" where
  "mod_tile_cache_duration_dirty_config name arg sc = set_arg (arg_to_int name arg) (\<lambda>v c. c\<lparr>sc_cache_duration_dirty := v\<rparr>) sc"

definition mod_tile_cache_duration_minimum_config :: "string \<Rightarrow> string \<Rightarrow> tile_server_conf \<Rightarrow> conf_result" where
  "mod_tile_cache_duration_minimum_config name arg sc = set_arg (arg_to_int name arg) (\<lambda>v c. c\<lparr>sc_cache_duration_minimum := v\<rparr>) sc"

definition mod_tile_cache_duration_last_modified_factor_config ::
    "(string \<Rightarrow> (rat \<times> string) option) \<Rightarrow> string \<Rightarrow> string \<Rightarrow> tile_server_conf \<Rightarrow> conf_result" where
  "mod_tile_cache_duration_last_modified_factor_config strtod name arg sc =
     set_arg (arg_to_double strtod name arg) (\<lambda>v c. c\<lparr>sc_cache_duration_last_modified_factor := v\<rparr>) sc"

definition mod_tile_enable_throttling_xforward :: "string \<Rightarrow> string \<Rightarrow> tile_server_conf \<Rightarrow> conf_result" where
  "mod_tile_enable_throttling_xforward name arg sc =
     (case arg_to_int name arg of
        Inl e \<Rightarrow> (Some e, sc)
      | Inr v \<Rightarrow>
          if v < 0 \<or> v > 2
          then (Some ''ModTileEnableTileThrottlingXForward needs integer argument between 0 and 2 (0 => off; 1 => use client; 2 => use last entry in chain'', sc)
          else (None, sc\<lparr>sc_enable_tile_throttling_xforward := v\<rparr>))"

section \<open>Switches\<close>

definition mod_tile_enable_stats :: "bool \<Rightarrow> tile_server_conf \<Rightarrow> conf_result" where
  "mod_tile_enable_stats on sc = (None, sc\<lparr>sc_enable_global_stats := on\<rparr>)"

definition mod_tile_enable_throttling :: "bool \<Rightarrow> tile_server_conf \<Rightarrow> conf_result" where
  "mod_tile_enable_throttling on sc = (None, sc\<lparr>sc_enable_tile_throttling := on\<rparr>)"

definition mod_tile_enable_bulk_mode :: "bool \<Rightarrow> tile_server_conf \<Rightarrow> conf_result" where
  "mod_tile_enable_bulk_mode on sc = (None, sc\<lparr>sc_enable_bulk_mode := on\<rparr>)"

definition mod_tile_enable_status_url :: "bool \<Rightarrow> tile_server_conf \<Rightarrow> conf_result" where
  "mod_tile_enable_status_url on sc = (None, sc\<lparr>sc_enable_status_url := on\<rparr>)"

definition mod_tile_enable_dirty_url :: "bool \<Rightarrow> tile_server_conf \<Rightarrow> conf_result" where
  "mod_tile_enable_dirty_url on sc = (None, sc\<lparr>sc_enable_dirty_url := on\<rparr>)"

section \<open>Directives with two values\<close>

definition mod_tile_renderd_socket_address_config :: "string \<Rightarrow> string \<Rightarrow> tile_server_conf \<Rightarrow> conf_result" where
  "mod_tile_renderd_socket_address_config arg1 arg2 sc =
     set_args (arg_to_string ''ModTileRenderdSocketAddr first'' arg1) (\<lambda>v c. c\<lparr>sc_renderd_socket_name := v\<rparr>)
       (arg_to_int ''ModTileRenderdSocketAddr second'' arg2) (\<lambda>v c. c\<lparr>sc_renderd_socket_port := v\<rparr>) sc"

definition mod_tile_cache_duration_low_config :: "string \<Rightarrow> string \<Rightarrow> tile_server_conf \<Rightarrow> conf_result" where
  "mod_tile_cache_duration_low_config arg1 arg2 sc =
     set_args (arg_to_int ''ModTileCacheDurationLowZoom first'' arg1) (\<lambda>v c. c\<lparr>sc_cache_level_low_zoom := v\<rparr>)
       (arg_to_int ''ModTileCacheDurationLowZoom second'' arg2) (\<lambda>v c. c\<lparr>sc_cache_duration_low_zoom := v\<rparr>) sc"

definition mod_tile_cache_duration_medium_config :: "string \<Rightarrow> string \<Rightarrow> tile_server_conf \<Rightarrow> conf_result" where
  "mod_tile_cache_duration_medium_config arg1 arg2 sc =
     set_args (arg_to_int ''ModTileCacheDurationMediumZoom first'' arg1) (\<lambda>v c. c\<lparr>sc_cache_level_medium_zoom := v\<rparr>)
       (arg_to_int ''ModTileCacheDurationMediumZoom second'' arg2) (\<lambda>v c. c\<lparr>sc_cache_duration_medium_zoom := v\<rparr>) sc"

text \<open>
  The size of a bucket and the rate, in requests per second, which is stored as whole microseconds
  per request.
\<close>

definition APR_USEC_PER_SEC :: int where
  "APR_USEC_PER_SEC = 1000000"

definition usec_per_request :: "string \<Rightarrow> rat \<Rightarrow> int arg_result" where
  "usec_per_request what rate =
     (if rate \<le> 0 \<or> rate > of_int APR_USEC_PER_SEC
      then Inl (what @ '' must be greater than 0 and at most '' @ show_int APR_USEC_PER_SEC)
      else Inr (dtrunc (ddiv (of_int APR_USEC_PER_SEC) rate)))"

definition mod_tile_delaypool_tiles_config ::
    "(string \<Rightarrow> (rat \<times> string) option) \<Rightarrow> string \<Rightarrow> string \<Rightarrow> tile_server_conf \<Rightarrow> conf_result" where
  "mod_tile_delaypool_tiles_config strtod arg1 arg2 sc =
     set_args (arg_to_int ''ModTileThrottlingTiles first'' arg1) (\<lambda>v c. c\<lparr>sc_delaypool_tile_size := v\<rparr>)
       (case arg_to_double strtod ''ModTileThrottlingTiles second'' arg2 of
          Inl e \<Rightarrow> Inl e
        | Inr rate \<Rightarrow> usec_per_request ''ModTileThrottlingTiles second argument (top up rate in tiles per second)'' rate)
       (\<lambda>v c. c\<lparr>sc_delaypool_tile_rate := v\<rparr>) sc"

definition mod_tile_delaypool_render_config ::
    "(string \<Rightarrow> (rat \<times> string) option) \<Rightarrow> string \<Rightarrow> string \<Rightarrow> tile_server_conf \<Rightarrow> conf_result" where
  "mod_tile_delaypool_render_config strtod arg1 arg2 sc =
     set_args (arg_to_int ''ModTileThrottlingRenders first'' arg1) (\<lambda>v c. c\<lparr>sc_delaypool_render_size := v\<rparr>)
       (case arg_to_double strtod ''ModTileThrottlingRenders second'' arg2 of
          Inl e \<Rightarrow> Inl e
        | Inr rate \<Rightarrow> usec_per_request ''ModTileThrottlingRenders second argument (top up rate in renders per second)'' rate)
       (\<lambda>v c. c\<lparr>sc_delaypool_render_rate := v\<rparr>) sc"

section \<open>Creating and merging configurations\<close>

text \<open>The table of minimum cache times stays zero: memory from \<open>apr_pcalloc\<close>.\<close>

definition create_tile_config :: tile_server_conf where
  "create_tile_config =
     \<lparr>sc_configs = [],
      sc_very_old_threshold = VERYOLD_THRESHOLD,
      sc_cache_extended_hostname = [],
      sc_renderd_socket_name = take PATH_MAX RENDERD_SOCKET,
      sc_tile_dir = take PATH_MAX RENDERD_TILE_DIR,
      sc_cache_duration_last_modified_factor = 0,
      sc_cache_duration_dirty = 15 * 60,
      sc_cache_duration_low_zoom = 6 * 24 * 60 * 60,
      sc_cache_duration_max = 7 * 24 * 60 * 60,
      sc_cache_duration_medium_zoom = 1 * 24 * 60 * 60,
      sc_cache_duration_minimum = 3 * 60 * 60,
      sc_cache_extended_duration = 0,
      sc_cache_level_low_zoom = 0,
      sc_cache_level_medium_zoom = 0,
      sc_delaypool_render_size = AVAILABLE_RENDER_BUCKET_SIZE,
      sc_delaypool_tile_size = AVAILABLE_TILE_BUCKET_SIZE,
      sc_enable_bulk_mode = False,
      sc_enable_dirty_url = True,
      sc_enable_global_stats = True,
      sc_enable_status_url = True,
      sc_enable_tile_throttling = False,
      sc_enable_tile_throttling_xforward = 0,
      sc_max_load_missing = MAX_LOAD_MISSING,
      sc_max_load_old = MAX_LOAD_OLD,
      sc_mincachetime = replicate (nat MAX_ZOOM_SERVER + 1) 0,
      sc_renderd_socket_port = 0,
      sc_request_timeout = REQUEST_TIMEOUT,
      sc_request_timeout_priority = REQUEST_TIMEOUT,
      sc_delaypool_render_rate = RENDER_TOPUP_RATE,
      sc_delaypool_tile_rate = TILE_TOPUP_RATE\<rparr>"

definition mincache_for :: "tile_server_conf \<Rightarrow> int \<Rightarrow> int" where
  "mincache_for sc i =
     (if i \<le> sc_cache_level_low_zoom sc then sc_cache_duration_low_zoom sc
      else if i \<le> sc_cache_level_medium_zoom sc then sc_cache_duration_medium_zoom sc
      else sc_cache_duration_minimum sc)"

definition merge_tile_config :: "tile_server_conf \<Rightarrow> tile_server_conf \<Rightarrow> tile_server_conf" where
  "merge_tile_config base over =
     (let scfg =
        \<lparr>sc_configs = sc_configs base @ sc_configs over,
         sc_very_old_threshold = sc_very_old_threshold over,
         sc_cache_extended_hostname = take PATH_MAX (sc_cache_extended_hostname over),
         sc_renderd_socket_name = take PATH_MAX (sc_renderd_socket_name over),
         sc_tile_dir = take PATH_MAX (sc_tile_dir over),
         sc_cache_duration_last_modified_factor = sc_cache_duration_last_modified_factor over,
         sc_cache_duration_dirty = sc_cache_duration_dirty over,
         sc_cache_duration_low_zoom = sc_cache_duration_low_zoom over,
         sc_cache_duration_max = sc_cache_duration_max over,
         sc_cache_duration_medium_zoom = sc_cache_duration_medium_zoom over,
         sc_cache_duration_minimum = sc_cache_duration_minimum over,
         sc_cache_extended_duration = sc_cache_extended_duration over,
         sc_cache_level_low_zoom = sc_cache_level_low_zoom over,
         sc_cache_level_medium_zoom = sc_cache_level_medium_zoom over,
         sc_delaypool_render_size = sc_delaypool_render_size over,
         sc_delaypool_tile_size = sc_delaypool_tile_size over,
         sc_enable_bulk_mode = sc_enable_bulk_mode over,
         sc_enable_dirty_url = sc_enable_dirty_url over,
         sc_enable_global_stats = sc_enable_global_stats over,
         sc_enable_status_url = sc_enable_status_url over,
         sc_enable_tile_throttling = sc_enable_tile_throttling over,
         sc_enable_tile_throttling_xforward = sc_enable_tile_throttling_xforward over,
         sc_max_load_missing = sc_max_load_missing over,
         sc_max_load_old = sc_max_load_old over,
         sc_mincachetime = replicate (nat MAX_ZOOM_SERVER + 1) 0,
         sc_renderd_socket_port = sc_renderd_socket_port over,
         sc_request_timeout = sc_request_timeout over,
         sc_request_timeout_priority = sc_request_timeout_priority over,
         sc_delaypool_render_rate = sc_delaypool_render_rate over,
         sc_delaypool_tile_rate = sc_delaypool_tile_rate over\<rparr>
      in scfg\<lparr>sc_mincachetime := map (mincache_for scfg) [0..MAX_ZOOM_SERVER]\<rparr>)"

section \<open>Layers\<close>

text \<open>
  The configuration of one server together with what adding a layer reads and writes beside it: the
  server's host name and the two global counters.
\<close>

record conf_state =
  cs_conf :: tile_server_conf
  cs_server_hostname :: "string option"
  cs_layerCount :: int
  cs_global_max_zoom :: int

definition with_slash :: "string \<Rightarrow> string" where
  "with_slash baseuri =
     (let n = min (length baseuri) PATH_MAX
      in if n = 0 then ''/'' else if baseuri ! (n - 1) \<noteq> CHR ''/'' then baseuri @ ''/'' else take PATH_MAX baseuri)"

definition layer_hostnames :: "string option \<Rightarrow> string \<Rightarrow> string list" where
  "layer_hostnames server_hostname server_alias =
     (let n = min (length server_alias) PATH_MAX;
          first = (case server_hostname of None \<Rightarrow> ''http://localhost'' | Some h \<Rightarrow> ''http://'' @ h)
      in if n > 0
         then [first, if server_alias ! (n - 1) = CHR ''/'' then take (n - 1) server_alias else server_alias]
         else [first])"

text \<open>The parameters of \<open>_add_tile_config\<close>.\<close>

record layer_args =
  la_baseuri :: string
  la_name :: string
  la_minzoom :: int
  la_maxzoom :: int
  la_aspect_x :: int
  la_aspect_y :: int
  la_fileExtension :: string
  la_mimeType :: string
  la_description :: string
  la_attribution :: string
  la_server_alias :: string
  la_cors :: string
  la_tile_dir :: string
  la_enableOptions :: int

definition add_tile_config_rec :: "layer_args \<Rightarrow> conf_state \<Rightarrow> string option \<times> conf_state" where
  "add_tile_config_rec la cs =
     (let hostnames = layer_hostnames (cs_server_hostname cs) (la_server_alias la);
          tilecfg =
            \<lparr>tr_hostnames = hostnames,
             tr_attribution = (if la_attribution la = [] then DEFAULT_ATTRIBUTION else take PATH_MAX (la_attribution la)),
             tr_baseuri = with_slash (la_baseuri la),
             tr_cors = (if la_cors la = [] then None else Some (take PATH_MAX (la_cors la))),
             tr_description = take PATH_MAX (la_description la),
             tr_fileExtension = take PATH_MAX (la_fileExtension la),
             tr_mimeType = take PATH_MAX (la_mimeType la),
             tr_store = (if la_tile_dir la = [] then take PATH_MAX (sc_tile_dir (cs_conf cs)) else take PATH_MAX (la_tile_dir la)),
             tr_xmlname = take PATH_MAX (la_name la),
             tr_aspect_x = la_aspect_x la, tr_aspect_y = la_aspect_y la, tr_enableOptions = la_enableOptions la,
             tr_maxzoom = la_maxzoom la, tr_minzoom = la_minzoom la, tr_noHostnames = int (length hostnames)\<rparr>
      in (None, cs\<lparr>cs_conf := (cs_conf cs)\<lparr>sc_configs := sc_configs (cs_conf cs) @ [tilecfg]\<rparr>,
                  cs_layerCount := cs_layerCount cs + 1,
                  cs_global_max_zoom := (if la_maxzoom la > cs_global_max_zoom cs then la_maxzoom la else cs_global_max_zoom cs)\<rparr>))"

definition add_tile_mime_config :: "string \<Rightarrow> string \<Rightarrow> string \<Rightarrow> conf_state \<Rightarrow> string option \<times> conf_state" where
  "add_tile_mime_config baseuri name fileExtension cs =
     add_tile_config_rec
       \<lparr>la_baseuri = baseuri, la_name = name, la_minzoom = 0, la_maxzoom = MAX_ZOOM, la_aspect_x = 1, la_aspect_y = 1,
        la_fileExtension = fileExtension,
        la_mimeType = (if fileExtension = ''js'' then ''text/javascript'' else ''image/png''),
        la_description = [], la_attribution = [], la_server_alias = [],
        la_cors = (if fileExtension = ''js'' then ''*'' else []), la_tile_dir = [], la_enableOptions = 0\<rparr> cs"

text \<open>The optional arguments \<open>key=value\<close>; an argument without \<open>=\<close> or with another key is ignored.\<close>

definition layer_option :: "string \<Rightarrow> layer_args \<Rightarrow> layer_args" where
  "layer_option arg la =
     (let key = takeWhile (\<lambda>c. c \<noteq> CHR ''='') arg; rest = dropWhile (\<lambda>c. c \<noteq> CHR ''='') arg; value = tl rest
      in if rest = [] then la
         else if key = ''maxzoom'' then la\<lparr>la_maxzoom := strtol_int value\<rparr>
         else if key = ''minzoom'' then la\<lparr>la_minzoom := strtol_int value\<rparr>
         else if key = ''extension'' then la\<lparr>la_fileExtension := value\<rparr>
         else if key = ''mimetype'' then la\<lparr>la_mimeType := value\<rparr>
         else if key = ''tile_dir'' then la\<lparr>la_tile_dir := value\<rparr>
         else la)"

definition add_tile_config :: "string list \<Rightarrow> conf_state \<Rightarrow> string option \<times> conf_state" where
  "add_tile_config argv cs =
     (case argv of
        [] \<Rightarrow> (Some ''AddTileConfig error, URL path not defined'', cs)
      | [_] \<Rightarrow> (Some ''AddTileConfig error, name of renderd config not defined'', cs)
      | baseuri # name # opts \<Rightarrow>
          let la = fold layer_option opts
                \<lparr>la_baseuri = baseuri, la_name = name, la_minzoom = 0, la_maxzoom = MAX_ZOOM, la_aspect_x = 1, la_aspect_y = 1,
                 la_fileExtension = ''png'', la_mimeType = ''image/png'', la_description = [], la_attribution = [],
                 la_server_alias = [], la_cors = [], la_tile_dir = [], la_enableOptions = 0\<rparr>
          in if la_minzoom la < 0 \<or> la_maxzoom la > MAX_ZOOM_SERVER
             then (Some ''AddTileConfig error, the configured zoom level lies outside of the range supported by this server'', cs)
             else add_tile_config_rec la cs)"

text \<open>
  A configuration file of the daemon: \<open>None\<close> when the file does not exist, else the map sections read
  from it, in order (sections without a name are not there).
\<close>

fun add_sections :: "layer_args list \<Rightarrow> conf_state \<Rightarrow> string option \<times> conf_state" where
  "add_sections [] cs = (None, cs)"
| "add_sections (la # las) cs =
     (case add_tile_config_rec la cs of (Some e, cs') \<Rightarrow> (Some e, cs') | (None, cs') \<Rightarrow> add_sections las cs')"

definition load_tile_config :: "(string \<Rightarrow> layer_args list option) \<Rightarrow> string \<Rightarrow> conf_state \<Rightarrow> string option \<times> conf_state" where
  "load_tile_config sections config_file_name cs =
     (case sections config_file_name of
        None \<Rightarrow> (Some ''LoadTileConfigFile error, unable to open config file'', cs)
      | Some las \<Rightarrow> add_sections las cs)"

section \<open>The table of directives\<close>

datatype cmd_args = Flag bool | Take1 string | Take2 string string | Take3 string string string | TakeArgv "string list"

text \<open>The files and conversions a configuration depends on.\<close>

record conf_env =
  ce_strtod :: "string \<Rightarrow> (rat \<times> string) option"
  ce_sections :: "string \<Rightarrow> layer_args list option"

definition on_conf :: "(tile_server_conf \<Rightarrow> conf_result) \<Rightarrow> conf_state \<Rightarrow> string option \<times> conf_state" where
  "on_conf f cs = (case f (cs_conf cs) of (e, sc) \<Rightarrow> (e, cs\<lparr>cs_conf := sc\<rparr>))"

text \<open>\<open>None\<close>: there is no such directive with these arguments.\<close>

definition tile_cmds :: "conf_env \<Rightarrow> string \<Rightarrow> cmd_args \<Rightarrow> (conf_state \<Rightarrow> string option \<times> conf_state) option" where
  "tile_cmds ce name args =
     (case args of
        Flag on \<Rightarrow>
          if name = ''ModTileBulkMode'' then Some (on_conf (mod_tile_enable_bulk_mode on))
          else if name = ''ModTileEnableDirtyURL'' then Some (on_conf (mod_tile_enable_dirty_url on))
          else if name = ''ModTileEnableStats'' then Some (on_conf (mod_tile_enable_stats on))
          else if name = ''ModTileEnableStatusURL'' then Some (on_conf (mod_tile_enable_status_url on))
          else if name = ''ModTileEnableTileThrottling'' then Some (on_conf (mod_tile_enable_throttling on))
          else None
      | Take1 a \<Rightarrow>
          if name = ''LoadTileConfigFile'' then Some (load_tile_config (ce_sections ce) a)
          else if name = ''ModTileCacheDurationDirty'' then Some (on_conf (mod_tile_cache_duration_dirty_config name a))
          else if name = ''ModTileCacheDurationMax'' then Some (on_conf (mod_tile_cache_duration_max_config name a))
          else if name = ''ModTileCacheDurationMinimum'' then Some (on_conf (mod_tile_cache_duration_minimum_config name a))
          else if name = ''ModTileCacheExtendedDuration'' then Some (on_conf (mod_tile_cache_extended_duration_config name a))
          else if name = ''ModTileCacheExtendedHostName'' then Some (on_conf (mod_tile_cache_extended_hostname_config name a))
          else if name = ''ModTileCacheLastModifiedFactor''
          then Some (on_conf (mod_tile_cache_duration_last_modified_factor_config (ce_strtod ce) name a))
          else if name = ''ModTileEnableTileThrottlingXForward'' then Some (on_conf (mod_tile_enable_throttling_xforward name a))
          else if name = ''ModTileMaxLoadMissing'' then Some (on_conf (mod_tile_max_load_missing_config name a))
          else if name = ''ModTileMaxLoadOld'' then Some (on_conf (mod_tile_max_load_old_config name a))
          else if name = ''ModTileMissingRequestTimeout'' then Some (on_conf (mod_tile_request_timeout_priority_config name a))
          else if name = ''ModTileRenderdSocketName'' then Some (on_conf (mod_tile_renderd_socket_name_config name a))
          else if name = ''ModTileRequestTimeout'' then Some (on_conf (mod_tile_request_timeout_config name a))
          else if name = ''ModTileTileDir'' then Some (on_conf (mod_tile_tile_dir_config name a))
          else if name = ''ModTileVeryOldThreshold'' then Some (on_conf (mod_tile_very_old_threshold_config name a))
          else None
      | Take2 a b \<Rightarrow>
          if name = ''ModTileCacheDurationLowZoom'' then Some (on_conf (mod_tile_cache_duration_low_config a b))
          else if name = ''ModTileCacheDurationMediumZoom'' then Some (on_conf (mod_tile_cache_duration_medium_config a b))
          else if name = ''ModTileRenderdSocketAddr'' then Some (on_conf (mod_tile_renderd_socket_address_config a b))
          else if name = ''ModTileThrottlingRenders'' then Some (on_conf (mod_tile_delaypool_render_config (ce_strtod ce) a b))
          else if name = ''ModTileThrottlingTiles'' then Some (on_conf (mod_tile_delaypool_tiles_config (ce_strtod ce) a b))
          else None
      | Take3 a b c \<Rightarrow> if name = ''AddTileMimeConfig'' then Some (add_tile_mime_config a b c) else None
      | TakeArgv argv \<Rightarrow> if name = ''AddTileConfig'' then Some (add_tile_config argv) else None)"

text \<open>The directives of one server, in order; the first error ends the start of the server.\<close>

fun run_directives :: "conf_env \<Rightarrow> (string \<times> cmd_args) list \<Rightarrow> conf_state \<Rightarrow> string option \<times> conf_state" where
  "run_directives ce [] cs = (None, cs)"
| "run_directives ce ((name, args) # ds) cs =
     (case tile_cmds ce name args of
        None \<Rightarrow> (Some name, cs)
      | Some f \<Rightarrow> (case f cs of (Some e, cs') \<Rightarrow> (Some e, cs') | (None, cs') \<Rightarrow> run_directives ce ds cs'))"


section \<open>Well-formed configurations\<close>

text \<open>
  A layer's base address ends with a slash, it has at least one host name, as many as it says, and
  its zoom levels are within the range of the server's tables and of the largest zoom seen.
\<close>

definition layer_ok :: "int \<Rightarrow> tile_config_rec \<Rightarrow> bool" where
  "layer_ok gmax l \<longleftrightarrow>
     tr_baseuri l \<noteq> [] \<and> last (tr_baseuri l) = CHR ''/'' \<and> tr_hostnames l \<noteq> []
     \<and> tr_noHostnames l = int (length (tr_hostnames l))
     \<and> 0 \<le> tr_minzoom l \<and> tr_maxzoom l \<le> MAX_ZOOM_SERVER \<and> tr_maxzoom l \<le> gmax"

text \<open>
  The rates that are used as divisors are positive, the forwarding switch is one of its three values
  and the table of cache times has an entry for every zoom level.
\<close>

definition server_ok :: "tile_server_conf \<Rightarrow> bool" where
  "server_ok sc \<longleftrightarrow>
     1 \<le> sc_delaypool_tile_rate sc \<and> 1 \<le> sc_delaypool_render_rate sc
     \<and> sc_enable_tile_throttling_xforward sc \<in> {0, 1, 2} \<and> int (length (sc_mincachetime sc)) = MAX_ZOOM_SERVER + 1"

definition conf_ok :: "conf_state \<Rightarrow> bool" where
  "conf_ok cs \<longleftrightarrow>
     server_ok (cs_conf cs) \<and> (\<forall>l\<in>set (sc_configs (cs_conf cs)). layer_ok (cs_global_max_zoom cs) l)
     \<and> cs_global_max_zoom cs \<le> MAX_ZOOM_SERVER"

text \<open>What the map sections of a daemon's configuration file are relied upon to hold.\<close>

definition section_ok :: "layer_args \<Rightarrow> bool" where
  "section_ok la \<longleftrightarrow> 0 \<le> la_minzoom la \<and> la_maxzoom la \<le> MAX_ZOOM_SERVER"

definition sections_ok :: "conf_env \<Rightarrow> bool" where
  "sections_ok ce \<longleftrightarrow> (\<forall>f las. ce_sections ce f = Some las \<longrightarrow> list_all section_ok las)"

lemma with_slash_ends: "with_slash s \<noteq> []" "last (with_slash s) = CHR ''/''"
proof -
  have "last (take PATH_MAX s) = s ! (min (length s) PATH_MAX - 1)" if "s \<noteq> []"
    using that by (subst last_conv_nth) (auto simp: PATH_MAX_def min.commute)
  then show "with_slash s \<noteq> []" "last (with_slash s) = CHR ''/''"
    by (cases "s = []"; auto simp: with_slash_def Let_def PATH_MAX_def min_def)+
qed

lemma usec_per_request_positive:
  assumes "usec_per_request what rate = Inr v"
  shows "1 \<le> v"
proof -
  have r: "0 < rate" "rate \<le> 1000000"
    and v: "v = dtrunc (ddiv 1000000 rate)"
    using assms by (auto simp: usec_per_request_def APR_USEC_PER_SEC_def split: if_splits)
  have "1 \<le> 1000000 / rate" using r by simp
  then have "dbl 1 \<le> ddiv 1000000 rate" unfolding ddiv_def by (rule dbl_mono)
  moreover have "dbl 1 = 1" using dbl_of_int [of 1] by simp
  ultimately have "dtrunc (of_int 1) \<le> v" unfolding v by (intro dtrunc_mono) simp
  then show ?thesis unfolding dtrunc_of_int .
qed

text \<open>A directive that sets values of the server keeps the layers and the ranges.\<close>

definition keeps_server :: "(tile_server_conf \<Rightarrow> conf_result) \<Rightarrow> bool" where
  "keeps_server f \<longleftrightarrow>
     (\<forall>sc. sc_configs (snd (f sc)) = sc_configs sc \<and> sc_mincachetime (snd (f sc)) = sc_mincachetime sc
        \<and> (server_ok sc \<longrightarrow> server_ok (snd (f sc))))"

named_theorems directive_defs

lemmas [directive_defs] =
  mod_tile_request_timeout_config_def mod_tile_request_timeout_priority_config_def mod_tile_max_load_old_config_def
  mod_tile_max_load_missing_config_def mod_tile_very_old_threshold_config_def mod_tile_renderd_socket_name_config_def
  mod_tile_tile_dir_config_def mod_tile_cache_extended_hostname_config_def mod_tile_cache_extended_duration_config_def
  mod_tile_cache_duration_max_config_def mod_tile_cache_duration_dirty_config_def mod_tile_cache_duration_minimum_config_def
  mod_tile_cache_duration_last_modified_factor_config_def mod_tile_enable_throttling_xforward_def
  mod_tile_enable_stats_def mod_tile_enable_throttling_def mod_tile_enable_bulk_mode_def
  mod_tile_enable_status_url_def mod_tile_enable_dirty_url_def mod_tile_renderd_socket_address_config_def
  mod_tile_cache_duration_low_config_def mod_tile_cache_duration_medium_config_def
  set_arg_def set_args_def keeps_server_def server_ok_def

lemma keeps_flag [simp]:
  "keeps_server (mod_tile_enable_bulk_mode on)" "keeps_server (mod_tile_enable_dirty_url on)"
  "keeps_server (mod_tile_enable_stats on)" "keeps_server (mod_tile_enable_status_url on)"
  "keeps_server (mod_tile_enable_throttling on)"
  by (simp_all add: directive_defs)

lemma keeps_one [simp]:
  "keeps_server (mod_tile_cache_duration_dirty_config n a)" "keeps_server (mod_tile_cache_duration_max_config n a)"
  "keeps_server (mod_tile_cache_duration_minimum_config n a)" "keeps_server (mod_tile_cache_extended_duration_config n a)"
  "keeps_server (mod_tile_cache_extended_hostname_config n a)" "keeps_server (mod_tile_max_load_missing_config n a)"
  "keeps_server (mod_tile_cache_duration_last_modified_factor_config sd n a)"
  "keeps_server (mod_tile_max_load_old_config n a)" "keeps_server (mod_tile_request_timeout_priority_config n a)"
  "keeps_server (mod_tile_renderd_socket_name_config n a)" "keeps_server (mod_tile_request_timeout_config n a)"
  "keeps_server (mod_tile_tile_dir_config n a)" "keeps_server (mod_tile_very_old_threshold_config n a)"
  by (simp_all add: directive_defs split: sum.split)

lemma keeps_xforward [simp]: "keeps_server (mod_tile_enable_throttling_xforward n a)"
  by (auto simp: directive_defs split: sum.split)

lemma keeps_two [simp]:
  "keeps_server (mod_tile_cache_duration_low_config a b)" "keeps_server (mod_tile_cache_duration_medium_config a b)"
  "keeps_server (mod_tile_renderd_socket_address_config a b)"
  by (simp_all add: directive_defs split: sum.split)

lemma keeps_rates [simp]:
  "keeps_server (mod_tile_delaypool_tiles_config sd a b)" "keeps_server (mod_tile_delaypool_render_config sd a b)"
  using usec_per_request_positive
  by (auto simp: mod_tile_delaypool_tiles_config_def mod_tile_delaypool_render_config_def directive_defs split: sum.split)

text \<open>Every directive counts the layers it adds and keeps the configuration well-formed.\<close>

definition keeps_conf :: "(conf_state \<Rightarrow> string option \<times> conf_state) \<Rightarrow> bool" where
  "keeps_conf f \<longleftrightarrow>
     (\<forall>cs. (conf_ok cs \<longrightarrow> conf_ok (snd (f cs)))
        \<and> cs_global_max_zoom cs \<le> cs_global_max_zoom (snd (f cs))
        \<and> sc_mincachetime (cs_conf (snd (f cs))) = sc_mincachetime (cs_conf cs)
        \<and> cs_layerCount (snd (f cs)) - cs_layerCount cs
            = int (length (sc_configs (cs_conf (snd (f cs))))) - int (length (sc_configs (cs_conf cs))))"

lemma keeps_on_conf: "keeps_server f \<Longrightarrow> keeps_conf (on_conf f)"
  by (auto simp: keeps_conf_def keeps_server_def on_conf_def conf_ok_def split: prod.splits) (metis snd_conv)+

lemma layer_ok_mono: "layer_ok g l \<Longrightarrow> g \<le> g' \<Longrightarrow> layer_ok g' l"
  by (auto simp: layer_ok_def)

lemma keeps_add:
  assumes "section_ok la"
  shows "keeps_conf (add_tile_config_rec la)"
  using assms
  by (auto simp: keeps_conf_def add_tile_config_rec_def Let_def conf_ok_def server_ok_def layer_ok_def
      section_ok_def with_slash_ends layer_hostnames_def)

lemma keeps_conf_seq:
  assumes "keeps_conf f" "keeps_conf g"
  shows "keeps_conf (\<lambda>cs. case f cs of (Some e, cs') \<Rightarrow> (Some e, cs') | (None, cs') \<Rightarrow> g cs')"
  unfolding keeps_conf_def
proof
  fix cs
  obtain r cs' where f: "f cs = (r, cs')" by fastforce
  have 1: "(conf_ok cs \<longrightarrow> conf_ok cs') \<and> cs_global_max_zoom cs \<le> cs_global_max_zoom cs'
      \<and> sc_mincachetime (cs_conf cs') = sc_mincachetime (cs_conf cs)
      \<and> cs_layerCount cs' - cs_layerCount cs = int (length (sc_configs (cs_conf cs'))) - int (length (sc_configs (cs_conf cs)))"
    using assms(1) f unfolding keeps_conf_def by (metis snd_conv)
  have 2: "(conf_ok cs' \<longrightarrow> conf_ok (snd (g cs'))) \<and> cs_global_max_zoom cs' \<le> cs_global_max_zoom (snd (g cs'))
      \<and> sc_mincachetime (cs_conf (snd (g cs'))) = sc_mincachetime (cs_conf cs')
      \<and> cs_layerCount (snd (g cs')) - cs_layerCount cs'
          = int (length (sc_configs (cs_conf (snd (g cs'))))) - int (length (sc_configs (cs_conf cs')))"
    using assms(2) unfolding keeps_conf_def by blast
  let ?r = "case f cs of (Some e, cs') \<Rightarrow> (Some e, cs') | (None, cs') \<Rightarrow> g cs'"
  show "(conf_ok cs \<longrightarrow> conf_ok (snd ?r)) \<and> cs_global_max_zoom cs \<le> cs_global_max_zoom (snd ?r)
     \<and> sc_mincachetime (cs_conf (snd ?r)) = sc_mincachetime (cs_conf cs)
     \<and> cs_layerCount (snd ?r) - cs_layerCount cs
         = int (length (sc_configs (cs_conf (snd ?r)))) - int (length (sc_configs (cs_conf cs)))"
    using 1 2 f by (cases r) auto
qed

lemma keeps_conf_id [simp]: "keeps_conf (\<lambda>cs. (e, cs))"
  by (simp add: keeps_conf_def)

lemma keeps_sections: "list_all section_ok las \<Longrightarrow> keeps_conf (add_sections las)"
proof (induction las)
  case Nil
  then show ?case by (simp add: keeps_conf_def)
next
  case (Cons la las)
  then have "keeps_conf (\<lambda>cs. case add_tile_config_rec la cs of (Some e, cs') \<Rightarrow> (Some e, cs') | (None, cs') \<Rightarrow> add_sections las cs')"
    by (intro keeps_conf_seq keeps_add) auto
  then show ?case by (simp add: fun_eq_iff [symmetric])
qed

lemma keeps_add_tile_config: "keeps_conf (add_tile_config argv)"
proof -
  consider "argv = []" | a where "argv = [a]" | a b opts where "argv = a # b # opts" by (metis list.exhaust)
  then show ?thesis
  proof cases
    case 3
    let ?la = "fold layer_option opts \<lparr>la_baseuri = a, la_name = b, la_minzoom = 0, la_maxzoom = MAX_ZOOM, la_aspect_x = 1, la_aspect_y = 1,
                 la_fileExtension = ''png'', la_mimeType = ''image/png'', la_description = [], la_attribution = [],
                 la_server_alias = [], la_cors = [], la_tile_dir = [], la_enableOptions = 0\<rparr>"
    show ?thesis
    proof (cases "section_ok ?la")
      case True
      then have "add_tile_config argv = add_tile_config_rec ?la"
        using 3 by (auto simp: add_tile_config_def section_ok_def Let_def)
      then show ?thesis using keeps_add [OF True] by simp
    next
      case False
      then have "la_minzoom ?la < 0 \<or> la_maxzoom ?la > MAX_ZOOM_SERVER" by (auto simp: section_ok_def)
      then show ?thesis using 3 by (simp add: add_tile_config_def [abs_def] Let_def)
    qed
  qed (simp_all add: add_tile_config_def [abs_def])
qed

lemma keeps_tile_cmds:
  assumes "sections_ok ce" "tile_cmds ce name args = Some f"
  shows "keeps_conf f"
proof -
  have m: "keeps_conf (add_tile_mime_config a b c)" for a b c
    unfolding add_tile_mime_config_def [abs_def]
    by (rule keeps_add) (simp add: section_ok_def MAX_ZOOM_def MAX_ZOOM_SERVER_def)
  have l: "keeps_conf (load_tile_config (ce_sections ce) a)" for a
    using assms(1) keeps_sections
    by (cases "ce_sections ce a") (auto simp: load_tile_config_def [abs_def] sections_ok_def)
  show ?thesis
    using assms(2) m l keeps_add_tile_config
    by (cases args) (auto simp: tile_cmds_def keeps_on_conf split: if_splits)
qed

lemma keeps_run_directives:
  assumes "sections_ok ce"
  shows "keeps_conf (run_directives ce ds)"
proof (induction ds)
  case Nil
  then show ?case by (simp add: keeps_conf_def)
next
  case (Cons d ds)
  obtain name args where d: "d = (name, args)" by fastforce
  show ?case
  proof (cases "tile_cmds ce name args")
    case None
    then show ?thesis using d by (simp add: keeps_conf_def)
  next
    case (Some f)
    then have "run_directives ce (d # ds) = (\<lambda>cs. case f cs of (Some e, cs') \<Rightarrow> (Some e, cs') | (None, cs') \<Rightarrow> run_directives ce ds cs')"
      using d by (simp add: fun_eq_iff)
    then show ?thesis using keeps_conf_seq [OF keeps_tile_cmds [OF assms Some] Cons.IH] by simp
  qed
qed

definition fresh_server :: "string option \<Rightarrow> int \<Rightarrow> int \<Rightarrow> conf_state" where
  "fresh_server h layers maxzoom =
     \<lparr>cs_conf = create_tile_config, cs_server_hostname = h, cs_layerCount = layers, cs_global_max_zoom = maxzoom\<rparr>"

text \<open>
  A main server and a virtual host are configured one after the other; the virtual host's merged
  configuration and the state after it.
\<close>

definition start_servers ::
    "conf_env \<Rightarrow> string option \<Rightarrow> (string \<times> cmd_args) list \<Rightarrow> string option \<Rightarrow> (string \<times> cmd_args) list \<Rightarrow> tile_server_conf \<times> conf_state" where
  "start_servers ce h ds h' ds' =
     (let base = snd (run_directives ce ds (fresh_server h 0 0));
          over = snd (run_directives ce ds' (fresh_server h' (cs_layerCount base) (cs_global_max_zoom base)))
      in (merge_tile_config (cs_conf base) (cs_conf over), over))"

lemma merged_facts:
  assumes "sections_ok ce"
    and "base = snd (run_directives ce ds (fresh_server h 0 0))"
    and "over = snd (run_directives ce ds' (fresh_server h' (cs_layerCount base) (cs_global_max_zoom base)))"
    and "sc = merge_tile_config (cs_conf base) (cs_conf over)"
  shows "server_ok sc" and "\<forall>l\<in>set (sc_configs sc). layer_ok (cs_global_max_zoom over) l"
    and "int (length (sc_configs sc)) = cs_layerCount over"
    and "\<forall>z\<in>{0..MAX_ZOOM_SERVER}. sc_mincachetime sc ! nat z = mincache_for (cs_conf over) z"
proof -
  let ?s0 = "fresh_server h 0 0" and ?s1 = "fresh_server h' (cs_layerCount base) (cs_global_max_zoom base)"
  have c: "server_ok create_tile_config" "sc_configs create_tile_config = []"
    by (simp_all add: server_ok_def create_tile_config_def TILE_TOPUP_RATE_def RENDER_TOPUP_RATE_def MAX_ZOOM_SERVER_def)
  then have ok0: "conf_ok ?s0" by (simp add: conf_ok_def fresh_server_def MAX_ZOOM_SERVER_def)
  note k = keeps_run_directives [OF assms(1), unfolded keeps_conf_def, rule_format]
  have b: "conf_ok base" "cs_layerCount base = int (length (sc_configs (cs_conf base)))"
    using k [of ?s0 ds] assms(2) ok0 c(2) by (auto simp: fresh_server_def)
  then have ok1: "conf_ok ?s1" using c by (simp add: conf_ok_def fresh_server_def)
  have o: "conf_ok over" "cs_global_max_zoom base \<le> cs_global_max_zoom over"
    "cs_layerCount over - cs_layerCount base = int (length (sc_configs (cs_conf over)))"
    using k [of ?s1 ds'] assms(3) ok1 c(2) by (auto simp: fresh_server_def)
  have l: "length [0..MAX_ZOOM_SERVER] = 31" by (simp add: MAX_ZOOM_SERVER_def)
  show "server_ok sc" using o(1) l
    by (simp add: assms(4) conf_ok_def server_ok_def merge_tile_config_def Let_def MAX_ZOOM_SERVER_def)
  show "\<forall>l\<in>set (sc_configs sc). layer_ok (cs_global_max_zoom over) l"
    using o(1,2) b(1) layer_ok_mono by (auto simp: assms(4) merge_tile_config_def Let_def conf_ok_def)
  show "int (length (sc_configs sc)) = cs_layerCount over"
    using o(3) b(2) by (simp add: assms(4) merge_tile_config_def Let_def)
  show "\<forall>z\<in>{0..MAX_ZOOM_SERVER}. sc_mincachetime sc ! nat z = mincache_for (cs_conf over) z"
    by (auto simp: assms(4) merge_tile_config_def Let_def mincache_for_def MAX_ZOOM_SERVER_def)
qed

definition sample_conf_env :: conf_env where
  "sample_conf_env = \<lparr>ce_strtod = (\<lambda>s. if s = ''0.5'' then Some (1 / 2, []) else None), ce_sections = (\<lambda>f. None)\<rparr>"

definition sample_directives :: "(string \<times> cmd_args) list" where
  "sample_directives = [(''AddTileConfig'', TakeArgv [''/osm'', ''default'', ''maxzoom=19''])]"

definition sample_directives' :: "(string \<times> cmd_args) list" where
  "sample_directives' = [(''AddTileMimeConfig'', Take3 ''/js/'' ''js'' ''js'')]"

text \<open>
  A throttling rate that is accepted is stored as a positive number of microseconds per request:
  the divisor of the token computation is never zero, whatever the rounding of the division.
\<close>

theorem accepted_rate_is_positive:
  assumes "mod_tile_delaypool_tiles_config strtod sz rate sc = (None, sc')"
  shows "1 \<le> sc_delaypool_tile_rate sc'"
proof -
  obtain q v where "usec_per_request ''ModTileThrottlingTiles second argument (top up rate in tiles per second)'' q = Inr v"
    and "sc_delaypool_tile_rate sc' = v"
    using assms by (auto simp: mod_tile_delaypool_tiles_config_def set_args_def set_arg_def split: sum.splits)
  then show ?thesis using usec_per_request_positive by blast
qed

theorem accepted_rate_is_positive_witness:
  "1 \<le> sc_delaypool_tile_rate (snd (mod_tile_delaypool_tiles_config (ce_strtod sample_conf_env) ''100'' ''0.5'' create_tile_config))"
proof -
  have "fst (mod_tile_delaypool_tiles_config (ce_strtod sample_conf_env) ''100'' ''0.5'' create_tile_config) = None"
    by code_simp
  then show ?thesis
    using accepted_rate_is_positive [of "ce_strtod sample_conf_env" "''100''" "''0.5''" create_tile_config] by (metis prod.collapse)
qed

text \<open>
  The table of minimum cache times is filled only by the merge: the configuration of a server that
  is not merged, whatever its directives, has zero for every zoom level.
\<close>

lemma unmerged_cache_times_are_zero:
  assumes "sections_ok ce" "z \<in> {0..MAX_ZOOM_SERVER}"
  shows "sc_mincachetime (cs_conf (snd (run_directives ce ds (fresh_server h 0 0)))) ! nat z = 0"
proof -
  have "nat z < 31" using assms(2) by (auto simp: MAX_ZOOM_SERVER_def)
  then show ?thesis
    using keeps_run_directives [OF assms(1), of ds]
    by (simp add: keeps_conf_def fresh_server_def create_tile_config_def MAX_ZOOM_SERVER_def)
qed

end
