(* ===== verification/Tile_Request.thy ===== *)
theory Tile_Request
  imports Renderd_Slave Mod_Tile_Config
begin

text \<open>
  How the Apache module asks the render daemon for a tile (\<^verbatim>\<open>src/mod_tile.c\<close>: \<open>socket_init\<close> and
  \<open>request_tile\<close>): connect, send the command, reconnect once after a closed pipe, and wait for the
  answer, which may arrive in pieces. The calls of the operating system are parameters; the
  descriptors that are open are part of the result. The waiting loop runs as long as \<open>recv\<close> is
  interrupted, so it takes fuel, and a bound on the interruptions gives enough of it.
\<close>

section \<open>Definitions\<close>

record 's module_os =
  mo_net :: "'s net_os"
  mo_send :: "'s \<Rightarrow> int \<Rightarrow> byte list \<Rightarrow> int \<times> 's"
  mo_errno :: "'s \<Rightarrow> errno"
  mo_poll :: "'s \<Rightarrow> int \<Rightarrow> int \<Rightarrow> int \<times> 's"
  mo_recv :: "'s \<Rightarrow> int \<Rightarrow> nat \<Rightarrow> (int \<times> byte list) \<times> 's"

definition socket_init :: "'s module_os \<Rightarrow> tile_server_conf \<Rightarrow> int list \<Rightarrow> 's \<Rightarrow> int \<times> int list \<times> 's" where
  "socket_init os scfg opened s =
     (if sc_renderd_socket_port scfg > 0
      then let ((st, ads), s1) = no_getaddrinfo (mo_net os) s (sc_renderd_socket_name scfg) (sc_renderd_socket_port scfg)
           in if st \<noteq> 0 then (FD_INVALID, opened, s1)
              else let (fd, op, s2) = try_addresses (mo_net os) FD_INVALID opened s1 ads
                   in if fd < 0 then (FD_INVALID, op, s2) else (fd, op, s2)
      else let (fd, s1) = no_socket (mo_net os) s None
           in if fd < 0 then (FD_INVALID, opened, s1)
              else let (r, s2) = no_connect (mo_net os) s1 fd None
                   in if r < 0 then (FD_INVALID, opened, s2) else (fd, fd # opened, s2))"

text \<open>The command for a priority; in bulk mode every request is a bulk request.\<close>

definition request_cmd :: "tile_server_conf \<Rightarrow> int \<Rightarrow> protocol \<Rightarrow> protocol" where
  "request_cmd scfg renderImmediately cmd =
     (let c = (if renderImmediately = 0 then cmd\<lparr>pr_cmd := cmdDirty\<rparr>
               else if renderImmediately = 1 then cmd\<lparr>pr_cmd := cmdRenderLow\<rparr>
               else if renderImmediately = 2 then cmd\<lparr>pr_cmd := cmdRender\<rparr>
               else if renderImmediately = 3 then cmd\<lparr>pr_cmd := cmdRenderPrio\<rparr> else cmd)
      in if sc_enable_bulk_mode scfg then c\<lparr>pr_cmd := cmdRenderBulk\<rparr> else c)"

text \<open>One round of sending: for a version other than two and three nothing is sent.\<close>

definition send_once :: "'s module_os \<Rightarrow> protocol \<Rightarrow> int \<Rightarrow> 's \<Rightarrow> int \<times> 's" where
  "send_once os cmd fd s =
     (if pr_ver cmd = 2 then mo_send os s fd (take sizeof_protocol_v2 (protocol_bytes cmd))
      else if pr_ver cmd = 3 then mo_send os s fd (protocol_bytes cmd) else (0, s))"

text \<open>
  The sending loop with \<open>n\<close> retries left: \<open>Some\<close> the connected descriptor, or \<open>None\<close> when the function
  returns. After the last retry a new connection is opened on which nothing has been sent.
\<close>

fun request_send :: "'s module_os \<Rightarrow> tile_server_conf \<Rightarrow> protocol \<Rightarrow> nat \<Rightarrow> int \<Rightarrow> int list \<Rightarrow> 's \<Rightarrow> int option \<times> int list \<times> 's" where
  "request_send os scfg cmd n fd op s =
     (let (ret, s1) = send_once os cmd fd s
      in if ret = int sizeof_protocol_v2 \<or> ret = int sizeof_protocol then (Some fd, op, s1)
         else if mo_errno os s1 \<noteq> EPIPE then (None, remove1 fd op, s1)
         else let (fd', op', s2) = socket_init os scfg (remove1 fd op) s1
              in if fd' = FD_INVALID then (None, op', s2)
                 else case n of 0 \<Rightarrow> (Some fd', op', s2) | Suc k \<Rightarrow> request_send os scfg cmd k fd' op' s2)"

declare request_send.simps [simp del]

text \<open>Whether an answer belongs to the request.\<close>

definition reply_matches :: "protocol \<Rightarrow> protocol \<Rightarrow> bool" where
  "reply_matches cmd resp \<longleftrightarrow>
     pr_x cmd = pr_x resp \<and> pr_y cmd = pr_y resp \<and> pr_z cmd = pr_z resp \<and> pr_xmlname cmd = pr_xmlname resp"

text \<open>
  How many bytes the answer has in all: the first integer is the version. Before it has arrived, the
  smaller of the two sizes is wanted.
\<close>

definition next_want :: "byte list \<Rightarrow> nat \<Rightarrow> nat \<Rightarrow> nat" where
  "next_want buf got want =
     (if got \<ge> 4 then if pr_ver (bytes_protocol buf) = 3 then sizeof_protocol else sizeof_protocol_v2 else want)"

text \<open>
  The waiting loop: \<open>buf\<close> is the memory of the answer, of which \<open>got\<close> bytes have been read and \<open>want\<close>
  are wanted. \<open>None\<close>: out of fuel.
\<close>

fun await_reply ::
    "'s module_os \<Rightarrow> protocol \<Rightarrow> int \<Rightarrow> int \<Rightarrow> nat \<Rightarrow> byte list \<Rightarrow> nat \<Rightarrow> nat \<Rightarrow> 's \<Rightarrow> (int \<times> 's) option" where
  "await_reply os cmd timeout fd 0 buf got want s = None"
| "await_reply os cmd timeout fd (Suc fuel) buf got want s =
     (let (p, s1) = mo_poll os s fd (timeout * 1000)
      in if p > 0
         then let ((ret, bs), s2) = mo_recv os s1 fd (want - got)
              in if ret \<le> 0
                 then if ret = -1 \<and> mo_errno os s2 = EINTR then await_reply os cmd timeout fd fuel buf got want s2
                      else Some (0, s2)
                 else let buf' = store_at got bs buf; got' = got + nat ret; resp = bytes_protocol buf';
                          want' = next_want buf' got' want
                      in if got' = want'
                         then if reply_matches cmd resp then Some (if pr_cmd resp = cmdDone then 1 else 0, s2) else Some (0, s2)
                         else await_reply os cmd timeout fd fuel buf' got' want' s2
         else Some (0, s1))"

text \<open>The whole request: one when the daemon has rendered the tile, zero otherwise.\<close>

definition request_tile ::
    "'s module_os \<Rightarrow> nat \<Rightarrow> tile_server_conf \<Rightarrow> protocol \<Rightarrow> int \<Rightarrow> int list \<Rightarrow> 's \<Rightarrow> (int \<times> int list \<times> 's) option" where
  "request_tile os fuel scfg cmd0 renderImmediately op s =
     (let (fd, op1, s1) = socket_init os scfg op s
      in if fd = FD_INVALID then Some (0, op1, s1)
         else let cmd = request_cmd scfg renderImmediately cmd0
              in case request_send os scfg cmd 1 fd op1 s1 of
                   (None, op2, s2) \<Rightarrow> Some (0, op2, s2)
                 | (Some fd', op2, s2) \<Rightarrow>
                     if renderImmediately = 0 then Some (0, remove1 fd' op2, s2)
                     else let timeout = (if renderImmediately > 2 then sc_request_timeout_priority scfg else sc_request_timeout scfg)
                          in (case await_reply os cmd timeout fd' fuel (replicate sizeof_protocol 0) 0 sizeof_protocol_v2 s2 of
                               None \<Rightarrow> None
                             | Some (r, s3) \<Rightarrow> Some (r, remove1 fd' op2, s3)))"

section \<open>Connections\<close>

text \<open>The module connects as the daemon's own client does.\<close>

definition module_target :: "tile_server_conf \<Rightarrow> renderd_config" where
  "module_target scfg =
     zero_config\<lparr>rc_iphostname := sc_renderd_socket_name scfg, rc_socketname := sc_renderd_socket_name scfg,
                 rc_ipport := sc_renderd_socket_port scfg\<rparr>"

lemma socket_init_client: "socket_init os scfg = client_socket_init (mo_net os) (module_target scfg)"
  by (simp add: fun_eq_iff socket_init_def client_socket_init_def module_target_def)

interpretation module_link: connector "socket_init os"
proof (unfold_locales, goal_cases)
  case (1 scfg op s fd op' s')
  then show ?case unfolding socket_init_client by (rule daemon_link.opened)
qed

lemma socket_init_opened:
  assumes "socket_init os scfg opened s = (fd, op, s')"
  shows "op = (if fd = FD_INVALID then opened else fd # opened)"
  using client_socket_opened [of "mo_net os" "module_target scfg" opened s fd op s'] assms by (simp add: socket_init_client)

lemma request_send_opened:
  assumes "request_send os scfg cmd n fd (fd # op) s = (r, op', s')"
  shows "op' = (case r of None \<Rightarrow> op | Some fd' \<Rightarrow> fd' # op)"
  using assms
proof (induction n arbitrary: fd s)
  case 0
  obtain ret s1 fd1 op1 s2 where e: "send_once os cmd fd s = (ret, s1)" "socket_init os scfg op s1 = (fd1, op1, s2)"
    by (metis prod_cases3 surj_pair)
  with 0 socket_init_opened [OF e(2)] show ?case
    by (subst (asm) request_send.simps) (auto split: if_splits)
next
  case (Suc n)
  obtain ret s1 fd1 op1 s2 where e: "send_once os cmd fd s = (ret, s1)" "socket_init os scfg op s1 = (fd1, op1, s2)"
    by (metis prod_cases3 surj_pair)
  with Suc socket_init_opened [OF e(2)] show ?case
    by (subst (asm) request_send.simps) (auto split: if_splits)
qed

lemma request_send_sent:
  "send_once os cmd fd s = (ret, s1) \<Longrightarrow> ret = 64 \<or> ret = 144 \<Longrightarrow> request_send os scfg cmd n fd op s = (Some fd, op, s1)"
  by (subst request_send.simps) (auto simp: sizeof_defs)

lemma send_once_length:
  assumes "mo_send os = (\<lambda>s fd bs. (int (length bs), f s))" "pr_ver cmd = 2"
  shows "request_send os scfg cmd n fd op s = (Some fd, op, f s)"
  using assms by (intro request_send_sent) (auto simp: send_once_def sizeof_defs)

lemma await_reply_value: "await_reply os cmd t fd fuel buf got want s = Some (r, s') \<Longrightarrow> r = 0 \<or> r = 1"
  by (induction fuel arbitrary: buf got want s) (auto simp: Let_def split: prod.splits if_splits)

section \<open>Answers that arrive in pieces\<close>

text \<open>
  The socket delivers the bytes of a stream: in the states that \<open>R\<close> relates to the bytes still to come,
  a wait succeeds and a read yields a nonempty part of them, no longer than asked for, or is
  interrupted; \<open>m\<close> bounds the number of interruptions.
\<close>

definition streams :: "'s module_os \<Rightarrow> int \<Rightarrow> ('s \<Rightarrow> byte list \<Rightarrow> bool) \<Rightarrow> ('s \<Rightarrow> nat) \<Rightarrow> bool" where
  "streams os fd R m \<longleftrightarrow>
     (\<forall>s rest k t. R s rest \<and> rest \<noteq> [] \<and> 0 < k \<longrightarrow>
        (\<exists>p s1 ret bs s2. mo_poll os s fd t = (p, s1) \<and> 0 < p \<and> mo_recv os s1 fd k = ((ret, bs), s2)
           \<and> (ret = -1 \<and> mo_errno os s2 = EINTR \<and> R s2 rest \<and> m s2 < m s
              \<or> bs \<noteq> [] \<and> ret = int (length bs) \<and> length bs \<le> k \<and> bs = take (length bs) rest
                \<and> R s2 (drop (length bs) rest) \<and> m s2 \<le> m s)))"

text \<open>The memory of an answer of which \<open>k\<close> bytes have arrived.\<close>

definition partial_image :: "protocol \<Rightarrow> nat \<Rightarrow> byte list" where
  "partial_image c k = take k (protocol_bytes c) @ replicate (144 - k) 0"

lemma length_partial_image [simp]: "k \<le> 144 \<Longrightarrow> length (partial_image c k) = 144"
  by (simp add: partial_image_def)

lemma partial_image_extend:
  assumes "k + j \<le> 144"
  shows "store_at k (take j (drop k (protocol_bytes c))) (partial_image c k) = partial_image c (k + j)"
proof -
  have "take k (protocol_bytes c) @ take j (drop k (protocol_bytes c)) = take (k + j) (protocol_bytes c)"
    by (simp add: take_add)
  then show ?thesis using assms by (simp add: store_at_def partial_image_def)
qed

lemma partial_image_ver:
  assumes "wf_protocol c" "4 \<le> k" "k \<le> 144"
  shows "pr_ver (bytes_protocol (partial_image c k)) = pr_ver c"
proof -
  have "partial_image c k = le32 (pr_ver c) @ drop 4 (partial_image c k)"
  proof -
    have "take 4 (partial_image c k) = take 4 (protocol_bytes c)" using assms by (simp add: partial_image_def)
    also have "\<dots> = le32 (pr_ver c)" by (simp add: protocol_bytes_def)
    finally show ?thesis by (metis append_take_drop_id)
  qed
  then have "rd32 (partial_image c k) = pr_ver c" using assms(1) rd32_le32 by (metis wf_protocol_def)
  then show ?thesis by (simp add: bytes_protocol_def)
qed

lemma await_reply_reassembles:
  assumes st: "streams os fd R m" and wf: "wf_protocol c" "pr_ver c = 2 \<or> pr_ver c = 3"
    and n: "n = expected_len (pr_ver c)"
    and R: "R s (drop got (take n (protocol_bytes c)))" and got: "got < n" "want = (if 4 \<le> got then n else 64)"
    and fuel: "n - got + m s < fuel"
  shows "\<exists>s'. await_reply os cmd t fd fuel (partial_image c got) got want s =
    Some (if reply_matches cmd (carried c) \<and> pr_cmd c = cmdDone then 1 else 0, s')"
  using R got fuel
proof (induction fuel arbitrary: s got want)
  case 0
  then show ?case by simp
next
  case (Suc fuel)
  have n144: "n = (if pr_ver c = 3 then 144 else 64)" "n \<le> 144" using wf(2) n by (auto simp: expected_len_def sizeof_defs)
  let ?rest = "drop got (take n (protocol_bytes c))"
  have w: "got < want" "want \<le> n" using Suc.prems n144 by (auto split: if_splits)
  have "?rest \<noteq> []" "0 < want - got" using Suc.prems(2) n144 w by auto
  with st Suc.prems(1) obtain p s1 ret bs s2 where
    p: "mo_poll os s fd (t * 1000) = (p, s1)" "0 < p" "mo_recv os s1 fd (want - got) = ((ret, bs), s2)"
    and alt: "ret = -1 \<and> mo_errno os s2 = EINTR \<and> R s2 ?rest \<and> m s2 < m s
      \<or> bs \<noteq> [] \<and> ret = int (length bs) \<and> length bs \<le> want - got \<and> bs = take (length bs) ?rest
        \<and> R s2 (drop (length bs) ?rest) \<and> m s2 \<le> m s"
    unfolding streams_def by blast
  from alt show ?case
  proof (elim disjE conjE)
    assume i: "ret = -1" "mo_errno os s2 = EINTR" "R s2 ?rest" "m s2 < m s"
    have "n - got + m s2 < fuel" using Suc.prems(4) i(4) by linarith
    from Suc.IH [OF i(3) Suc.prems(2,3) this] show ?thesis using p i by (simp add: Let_def)
  next
    assume b: "bs \<noteq> []" "ret = int (length bs)" "length bs \<le> want - got" "bs = take (length bs) ?rest"
      "R s2 (drop (length bs) ?rest)" "m s2 \<le> m s"
    define got' where "got' = got + length bs"
    have le: "got' \<le> want" "got < got'" using b w by (auto simp: got'_def)
    have "bs = take (length bs) (drop got (protocol_bytes c))"
      using b(4) le w by (metis (no_types, lifting) drop_take got'_def min.absorb1 le_trans take_take add_le_imp_le_diff add.commute)
    then have buf: "store_at got bs (partial_image c got) = partial_image c got'"
      using partial_image_extend [of got "length bs" c] le w n144 by (simp add: got'_def)
    define want' where "want' = (if 4 \<le> got' then n else 64)"
    have w': "next_want (partial_image c got') got' want = want'"
      using partial_image_ver [OF wf(1), of got'] le w n144 Suc.prems(3)
      by (auto simp: want'_def sizeof_defs next_want_def)
    have step: "await_reply os cmd t fd (Suc fuel) (partial_image c got) got want s =
        (if got' = want' then if reply_matches cmd (bytes_protocol (partial_image c got'))
           then Some (if pr_cmd (bytes_protocol (partial_image c got')) = cmdDone then 1 else 0, s2) else Some (0, s2)
         else await_reply os cmd t fd fuel (partial_image c got') got' want' s2)"
      using p b(1,2) by (simp add: Let_def buf got'_def [symmetric] w')
    show ?thesis
    proof (cases "got' = n")
      case True
      have "4 \<le> n" using n144 by simp
      moreover have "bytes_protocol (partial_image c n) = carried c"
        using received_image [OF wf(1)] wf(2) n by (auto simp: partial_image_def)
      moreover have "pr_cmd (carried c) = pr_cmd c" by (simp add: carried_def)
      ultimately show ?thesis unfolding step using True by (simp add: want'_def)
    next
      case False
      then have lt: "got' < n" "got' \<noteq> want'" using le w n144 Suc.prems(3) by (auto simp: want'_def)
      have "R s2 (drop got' (take n (protocol_bytes c)))" using b(5) by (simp add: got'_def add.commute)
      moreover have "n - got' + m s2 < fuel" using Suc.prems(4) b(6) le lt by linarith
      ultimately have "\<exists>s'. await_reply os cmd t fd fuel (partial_image c got') got' want' s2 =
          Some (if reply_matches cmd (carried c) \<and> pr_cmd c = cmdDone then 1 else 0, s')"
        using lt(1) by (intro Suc.IH) (auto simp: want'_def)
      then show ?thesis unfolding step using lt(2) by simp
    qed
  qed
qed

section \<open>Properties of a request\<close>

text \<open>
  Whatever the sockets do, a request to the daemon that returns leaves no descriptor open that was
  not open before, and its value is zero or one.
\<close>

theorem request_tile_no_leak:
  assumes "request_tile os fuel scfg cmd prio op s = Some (r, op', s')"
  shows "op' = op \<and> (r = 0 \<or> r = 1)"
proof -
  obtain fd op1 s1 where i: "socket_init os scfg op s = (fd, op1, s1)" by (metis prod_cases3)
  obtain rs op2 s2 where r: "request_send os scfg (request_cmd scfg prio cmd) 1 fd op1 s1 = (rs, op2, s2)" by (metis prod_cases3)
  note o1 = socket_init_opened [OF i]
  show ?thesis
  proof (cases "fd = FD_INVALID")
    case True
    then have "op1 = op" using module_link.failed_leaves_nothing [OF i] by (simp add: FD_INVALID_def)
    with True assms i show ?thesis by (simp add: request_tile_def)
  next
    case False
    then have "op2 = (case rs of None \<Rightarrow> op | Some fd' \<Rightarrow> fd' # op)" using request_send_opened r o1 by simp
    with False assms i r show ?thesis
      by (cases rs) (auto simp: request_tile_def Let_def split: if_splits option.splits dest: await_reply_value)
  qed
qed

definition sample_module :: "nat module_os" where
  "sample_module =
     \<lparr>mo_net = sample_net\<lparr>no_connect := (\<lambda>s fd a. (0, s))\<rparr>, mo_send = (\<lambda>s fd bs. (int (length bs), 0)), mo_errno = (\<lambda>s. EOTHER),
      mo_poll = (\<lambda>s fd t. (1, s)), mo_recv = (\<lambda>s fd k. ((0, []), s))\<rparr>"

definition sample_cmd :: protocol where
  "sample_cmd = \<lparr>pr_ver = 2, pr_cmd = cmdRender, pr_x = 3, pr_y = 4, pr_z = 5, pr_xmlname = ''default'', pr_mimetype = [], pr_options = []\<rparr>"

theorem request_tile_no_leak_witness:
  "\<exists>r s'. request_tile sample_module (Suc 0) create_tile_config sample_cmd 3 [7] 9 = Some (r, [7], s') \<and> (r = 0 \<or> r = 1)"
proof -
  have "request_send sample_module create_tile_config (request_cmd create_tile_config 3 sample_cmd) 1 9 [9, 7] 10 = (Some 9, [9, 7], 0)"
    using send_once_length [of sample_module "\<lambda>_. 0"] by (simp add: sample_module_def request_cmd_def create_tile_config_def sample_cmd_def)
  moreover have "socket_init sample_module create_tile_config [7] 9 = (9, [9, 7], 10)"
    by (simp add: socket_init_def create_tile_config_def sample_module_def sample_net_def)
  moreover have "await_reply sample_module c t 9 (Suc 0) buf 0 want 0 = Some (0, 0)" for c t buf want
    by (simp add: sample_module_def)
  ultimately have r: "request_tile sample_module (Suc 0) create_tile_config sample_cmd 3 [7] 9 = Some (0, [7], 0)"
    by (simp add: request_tile_def Let_def FD_INVALID_def del: await_reply.simps)
  from request_tile_no_leak [OF r] r show ?thesis by simp
qed

text \<open>
  C38. When the daemon's answer to a delivered request arrives, in whatever pieces and with whatever
  bounded number of interruptions, the request ends with one exactly when the answer is \<open>cmdDone\<close> for the
  same tile of the same map, and the connection is closed.
\<close>

theorem request_tile_reassembles:
  assumes "socket_init os scfg op s = (fd, fd # op, s1)" "fd \<noteq> FD_INVALID" "0 < prio"
    and "request_send os scfg (request_cmd scfg prio cmd) 1 fd (fd # op) s1 = (Some fd, fd # op, s2)"
    and "streams os fd R m" "wf_protocol c" "pr_ver c = 2 \<or> pr_ver c = 3"
    and "R s2 (take (expected_len (pr_ver c)) (protocol_bytes c))" "144 + m s2 < fuel"
  shows "\<exists>s3. request_tile os fuel scfg cmd prio op s =
    Some (if reply_matches cmd (carried c) \<and> pr_cmd c = cmdDone then 1 else 0, op, s3)"
proof -
  have z: "partial_image c 0 = replicate sizeof_protocol 0" by (simp add: partial_image_def sizeof_defs)
  have e: "0 < expected_len (pr_ver c)" "expected_len (pr_ver c) \<le> 144" using assms(7) by (auto simp: expected_len_def sizeof_defs)
  have m: "reply_matches (request_cmd scfg prio cmd) = reply_matches cmd"
    by (simp add: fun_eq_iff reply_matches_def request_cmd_def Let_def)
  have w: "await_reply os cc t fd fuel (replicate sizeof_protocol 0) 0 sizeof_protocol_v2 s2
      = await_reply os cc t fd fuel (partial_image c 0) 0 64 s2" for cc t
    by (simp add: z sizeof_protocol_v2_def)
  have "\<exists>s'. await_reply os (request_cmd scfg prio cmd) t fd fuel (replicate sizeof_protocol 0) 0 sizeof_protocol_v2 s2
      = Some (if reply_matches cmd (carried c) \<and> pr_cmd c = cmdDone then 1 else 0, s')" for t
    unfolding w m [symmetric] using assms(8,9) e
    by (intro await_reply_reassembles [OF assms(5-7) refl]) auto
  then obtain s' where "await_reply os (request_cmd scfg prio cmd)
      (if prio > 2 then sc_request_timeout_priority scfg else sc_request_timeout scfg) fd fuel (replicate sizeof_protocol 0) 0 sizeof_protocol_v2 s2
      = Some (if reply_matches cmd (carried c) \<and> pr_cmd c = cmdDone then 1 else 0, s')" by blast
  with assms(1-4) show ?thesis by (simp add: request_tile_def)
qed

text \<open>A socket that delivers the bytes of its state three at a time, after one interruption.\<close>

definition chunk_module :: "(bool \<times> byte list) module_os" where
  "chunk_module =
     \<lparr>mo_net = \<lparr>no_getaddrinfo = (\<lambda>s h p. ((1, []), s)), no_socket = (\<lambda>s a. (5, s)), no_connect = (\<lambda>s fd a. (0, s))\<rparr>,
      mo_send = (\<lambda>s fd bs. (int (length bs), s)), mo_errno = (\<lambda>s. EINTR), mo_poll = (\<lambda>s fd t. (1, s)),
      mo_recv = (\<lambda>(i, bs) fd k. if i then ((-1, []), (False, bs))
                             else ((int (length (take (min k 3) bs)), take (min k 3) bs), (False, drop (min k 3) bs)))\<rparr>"

lemma chunk_streams: "streams chunk_module fd (\<lambda>s rest. snd s = rest) (\<lambda>s. if fst s then 1 else 0)"
proof -
  have i: "mo_poll chunk_module s fd t = (1, s)" "mo_errno chunk_module s = EINTR"
    "mo_recv chunk_module (True, bs) fd k = ((-1, []), (False, bs))"
    "mo_recv chunk_module (False, bs) fd k = ((int (length (take (min k 3) bs)), take (min k 3) bs), (False, drop (min k 3) bs))" for s t bs k
    by (simp_all add: chunk_module_def)
  have "\<exists>p s1 ret bs s2. mo_poll chunk_module s fd t = (p, s1) \<and> 0 < p \<and> mo_recv chunk_module s1 fd k = ((ret, bs), s2)
      \<and> (ret = -1 \<and> mo_errno chunk_module s2 = EINTR \<and> snd s2 = snd s \<and> (if fst s2 then 1 else 0 :: nat) < (if fst s then 1 else 0)
         \<or> bs \<noteq> [] \<and> ret = int (length bs) \<and> length bs \<le> k \<and> bs = take (length bs) (snd s)
           \<and> snd s2 = drop (length bs) (snd s) \<and> (if fst s2 then 1 else 0 :: nat) \<le> (if fst s then 1 else 0))"
    if "snd s \<noteq> []" "0 < k" for s k t
  proof (cases "fst s")
    case True
    then have "s = (True, snd s)" by (metis prod.collapse)
    with i(1,2) i(3) [of "snd s" k] show ?thesis by (metis (mono_tags) fst_conv snd_conv zero_less_one)
  next
    case False
    then have s: "s = (False, snd s)" by (metis prod.collapse)
    let ?p = "take (min k 3) (snd s)"
    have p: "?p \<noteq> []" "length ?p \<le> k" "?p = take (length ?p) (snd s)" "drop (min k 3) (snd s) = drop (length ?p) (snd s)"
      using that by (auto simp: min_def)
    have "mo_recv chunk_module s fd k = ((int (length ?p), ?p), (False, drop (min k 3) (snd s)))" using s i(4) by metis
    with p i(1) have "mo_poll chunk_module s fd t = (1, s) \<and> 0 < (1 :: int)
        \<and> mo_recv chunk_module s fd k = ((int (length ?p), ?p), (False, drop (length ?p) (snd s)))
        \<and> ?p \<noteq> [] \<and> int (length ?p) = int (length ?p) \<and> length ?p \<le> k \<and> ?p = take (length ?p) (snd s)
        \<and> snd (False, drop (length ?p) (snd s)) = drop (length ?p) (snd s)
        \<and> (if fst (False, drop (length ?p) (snd s)) then 1 else 0 :: nat) \<le> (if fst s then 1 else 0)" by simp
    then show ?thesis by blast
  qed
  then show ?thesis unfolding streams_def by blast
qed

theorem request_tile_reassembles_witness:
  "\<exists>s3. request_tile chunk_module 200 create_tile_config sample_cmd 3 [7] (True, take 64 (protocol_bytes (sample_cmd\<lparr>pr_cmd := cmdDone\<rparr>)))
     = Some (1, [7], s3)"
proof -
  let ?c = "sample_cmd\<lparr>pr_cmd := cmdDone\<rparr>"
  have wf: "wf_protocol ?c" by (simp add: wf_protocol_def sample_cmd_def in_int32_def c_name_def XMLCONFIG_MAX_def cmd_of_code_def)
  have m: "reply_matches sample_cmd (carried ?c)" by (simp add: reply_matches_def carried_def sample_cmd_def)
  have "\<exists>s3. request_tile chunk_module 200 create_tile_config sample_cmd 3 [7] (True, take 64 (protocol_bytes ?c))
     = Some (if reply_matches sample_cmd (carried ?c) \<and> pr_cmd ?c = cmdDone then 1 else 0, [7], s3)"
  proof (rule request_tile_reassembles [OF _ _ _ _ chunk_streams wf])
    show "socket_init chunk_module create_tile_config [7] (True, take 64 (protocol_bytes ?c)) = (5, 5 # [7], (True, take 64 (protocol_bytes ?c)))"
      by (simp add: socket_init_def create_tile_config_def chunk_module_def FD_INVALID_def)
    show "request_send chunk_module create_tile_config (request_cmd create_tile_config 3 sample_cmd) 1 5 (5 # [7])
        (True, take 64 (protocol_bytes ?c)) = (Some 5, 5 # [7], (True, take 64 (protocol_bytes ?c)))"
      using send_once_length [of chunk_module "\<lambda>s. s"] by (simp add: chunk_module_def request_cmd_def create_tile_config_def sample_cmd_def)
  qed (simp_all add: FD_INVALID_def sample_cmd_def expected_len_def sizeof_defs)
  with m show ?thesis by simp
qed

end
