(* ===== verification/Mod_Tile_Stats.thy ===== *)
theory Mod_Tile_Stats
  imports Throttle Mod_Tile_Config Protocol
begin

text \<open>
  The statistics of the Apache module (\<^verbatim>\<open>src/mod_tile.c\<close>): the counters in shared memory, how the module's
  start sets them, the three functions that increase them, the copy taken for the statistics pages and
  the text of the two pages. Counters are 64-bit words and wrap around. Indexing an array outside its
  bounds is \<open>None\<close>.
\<close>

section \<open>Data\<close>

type_synonym counter = "64 word"

record stats_data =
  st_noResp200 :: counter
  st_noResp304 :: counter
  st_noResp404 :: counter
  st_noResp503 :: counter
  st_noResp5XX :: counter
  st_noRespOther :: counter
  st_noFreshCache :: counter
  st_noFreshRender :: counter
  st_noOldCache :: counter
  st_noOldRender :: counter
  st_noVeryOldCache :: counter
  st_noVeryOldRender :: counter
  st_noRespZoom :: "counter list"
  st_totalBufferRetrievalTime :: counter
  st_noTotalBufferRetrieval :: counter
  st_zoomBufferRetrievalTime :: "counter list"
  st_noZoomBufferRetrieval :: "counter list"
  st_noResp200Layer :: "counter list"
  st_noResp404Layer :: "counter list"

text \<open>The status codes of a handler; the first three are Apache's own.\<close>

definition HTTP_OK :: int where
  "HTTP_OK = 0"

definition HTTP_DECLINED :: int where
  "HTTP_DECLINED = -1"

definition HTTP_DONE :: int where
  "HTTP_DONE = -2"

definition HTTP_NOT_MODIFIED :: int where
  "HTTP_NOT_MODIFIED = 304"

definition HTTP_FORBIDDEN :: int where
  "HTTP_FORBIDDEN = 403"

definition HTTP_NOT_FOUND :: int where
  "HTTP_NOT_FOUND = 404"

definition HTTP_INTERNAL_SERVER_ERROR :: int where
  "HTTP_INTERNAL_SERVER_ERROR = 500"

definition HTTP_SERVICE_UNAVAILABLE :: int where
  "HTTP_SERVICE_UNAVAILABLE = 503"

datatype freshness = FRESH | OLD | FRESH_RENDER | OLD_RENDER | VERYOLD_RENDER | VERYOLD

text \<open>How the attempts to take the lock of the statistics end, and whether a blocking lock succeeds.\<close>

type_synonym lock_try = "(nat \<Rightarrow> lock_status) \<times> bool"

definition locks :: "lock_try \<Rightarrow> bool" where
  "locks l = get_global_lock (fst l) (snd l)"

section \<open>Starting\<close>

text \<open>
  The part of \<open>mod_tile_post_config\<close> that sets the counters in the new shared memory, whose former
  contents is \<open>raw\<close>: two counters are left as they are, and of the arrays only the entries up to the
  largest configured zoom level are set.
\<close>

definition zero_upto :: "int \<Rightarrow> counter list \<Rightarrow> counter list" where
  "zero_upto gmax xs = map (\<lambda>i. if int i \<le> gmax then 0 else xs ! i) [0..<length xs]"

definition init_stats :: "stats_data \<Rightarrow> int \<Rightarrow> nat \<Rightarrow> stats_data" where
  "init_stats raw gmax layerCount =
     raw\<lparr>st_noResp200 := 0, st_noResp304 := 0, st_noResp404 := 0, st_noResp503 := 0, st_noResp5XX := 0,
         st_noRespZoom := zero_upto gmax (st_noRespZoom raw),
         st_totalBufferRetrievalTime := 0, st_noTotalBufferRetrieval := 0,
         st_zoomBufferRetrievalTime := zero_upto gmax (st_zoomBufferRetrievalTime raw),
         st_noZoomBufferRetrieval := zero_upto gmax (st_noZoomBufferRetrieval raw),
         st_noRespOther := 0, st_noFreshCache := 0, st_noFreshRender := 0, st_noOldCache := 0, st_noOldRender := 0,
         st_noResp404Layer := replicate layerCount 0, st_noResp200Layer := replicate layerCount 0\<rparr>"

definition init_delaypool :: "int \<Rightarrow> int \<Rightarrow> delaypool \<Rightarrow> delaypool" where
  "init_delaypool now1 now2 raw =
     raw\<lparr>dl_last_tile_fillup := now1, dl_last_render_fillup := now2,
         dl_users := (\<lambda>i. if i < DELAY_HASHTABLE_SIZE
                          then \<lparr>dp_ip_addr = (0, 0, 0, 0), dp_available_tiles = 0, dp_available_render_req = 0\<rparr> else dl_users raw i),
         dl_whitelist := (\<lambda>i. if i < DELAY_HASHTABLE_WHITELIST_SIZE then 0 else dl_whitelist raw i)\<rparr>"

text \<open>
  The hook itself: the first call of a start only leaves a mark. The status of each call it makes is a
  parameter, as are the former contents of the memory.
\<close>

record post_env =
  pe_marked :: bool
  pe_stats_shm :: bool
  pe_delay_shm :: bool
  pe_stats_mutex :: bool
  pe_delay_mutex :: bool
  pe_raw_stats :: stats_data
  pe_raw_pool :: delaypool
  pe_now1 :: int
  pe_now2 :: int

definition mod_tile_post_config :: "post_env \<Rightarrow> int \<Rightarrow> nat \<Rightarrow> int \<times> (stats_data \<times> delaypool) option" where
  "mod_tile_post_config pe gmax layerCount =
     (if \<not> pe_marked pe then (HTTP_OK, None)
      else if \<not> pe_stats_shm pe \<or> \<not> pe_delay_shm pe then (HTTP_INTERNAL_SERVER_ERROR, None)
      else let mem = Some (init_stats (pe_raw_stats pe) gmax layerCount, init_delaypool (pe_now1 pe) (pe_now2 pe) (pe_raw_pool pe))
           in if \<not> pe_stats_mutex pe \<or> \<not> pe_delay_mutex pe then (HTTP_INTERNAL_SERVER_ERROR, mem) else (HTTP_OK, mem))"

text \<open>A child process opens the mutex of the statistics again, and only that one; the result is an exit code if this fails.\<close>

definition mod_tile_child_init :: "bool \<Rightarrow> int option" where
  "mod_tile_child_init stats_mutex_opens = (if stats_mutex_opens then None else Some 1)"

section \<open>Counting\<close>

text \<open>Adding to an entry of an array; \<open>None\<close> outside its bounds.\<close>

definition bump_at :: "int \<Rightarrow> counter \<Rightarrow> counter list \<Rightarrow> counter list option" where
  "bump_at i d xs = (if 0 \<le> i \<and> i < int (length xs) then Some (xs[nat i := xs ! nat i + d]) else None)"

definition count_tile :: "protocol option \<Rightarrow> int \<Rightarrow> stats_data \<Rightarrow> stats_data option" where
  "count_tile cmd layer st =
     (case cmd of
        None \<Rightarrow> Some st
      | Some c \<Rightarrow>
          (case (bump_at (pr_z c) 1 (st_noRespZoom st), bump_at layer 1 (st_noResp200Layer st)) of
             (Some zs, Some ls) \<Rightarrow> Some (st\<lparr>st_noRespZoom := zs, st_noResp200Layer := ls\<rparr>)
           | _ \<Rightarrow> None))"

definition count_response :: "int \<Rightarrow> protocol option \<Rightarrow> int \<Rightarrow> stats_data \<Rightarrow> stats_data option" where
  "count_response resp cmd layer st =
     (if resp = HTTP_OK then count_tile cmd layer (st\<lparr>st_noResp200 := st_noResp200 st + 1\<rparr>)
      else if resp = HTTP_NOT_MODIFIED then count_tile cmd layer (st\<lparr>st_noResp304 := st_noResp304 st + 1\<rparr>)
      else if resp = HTTP_NOT_FOUND
      then (case bump_at layer 1 (st_noResp404Layer st) of
              None \<Rightarrow> None
            | Some ls \<Rightarrow> Some (st\<lparr>st_noResp404 := st_noResp404 st + 1, st_noResp404Layer := ls\<rparr>))
      else if resp = HTTP_SERVICE_UNAVAILABLE then Some (st\<lparr>st_noResp503 := st_noResp503 st + 1\<rparr>)
      else if resp = HTTP_INTERNAL_SERVER_ERROR then Some (st\<lparr>st_noResp5XX := st_noResp5XX st + 1\<rparr>)
      else Some (st\<lparr>st_noRespOther := st_noRespOther st + 1\<rparr>))"

text \<open>The return value (zero: the lock was not obtained) and the statistics.\<close>

definition incRespCounter ::
    "tile_server_conf \<Rightarrow> lock_try \<Rightarrow> int \<Rightarrow> protocol option \<Rightarrow> int \<Rightarrow> stats_data \<Rightarrow> (int \<times> stats_data) option" where
  "incRespCounter scfg lk resp cmd layer st =
     (if \<not> sc_enable_global_stats scfg then Some (1, st)
      else if locks lk then map_option (\<lambda>st'. (1, st')) (count_response resp cmd layer st)
      else Some (0, st))"

definition incFreshCounter :: "tile_server_conf \<Rightarrow> lock_try \<Rightarrow> freshness \<Rightarrow> stats_data \<Rightarrow> int \<times> stats_data" where
  "incFreshCounter scfg lk status st =
     (if \<not> sc_enable_global_stats scfg then (1, st)
      else if locks lk
      then (1, case status of
                 FRESH \<Rightarrow> st\<lparr>st_noFreshCache := st_noFreshCache st + 1\<rparr>
               | FRESH_RENDER \<Rightarrow> st\<lparr>st_noFreshRender := st_noFreshRender st + 1\<rparr>
               | OLD \<Rightarrow> st\<lparr>st_noOldCache := st_noOldCache st + 1\<rparr>
               | VERYOLD \<Rightarrow> st\<lparr>st_noVeryOldCache := st_noVeryOldCache st + 1\<rparr>
               | OLD_RENDER \<Rightarrow> st\<lparr>st_noOldRender := st_noOldRender st + 1\<rparr>
               | VERYOLD_RENDER \<Rightarrow> st\<lparr>st_noVeryOldRender := st_noVeryOldRender st + 1\<rparr>)
      else (0, st))"

definition incTimingCounter ::
    "tile_server_conf \<Rightarrow> lock_try \<Rightarrow> counter \<Rightarrow> int \<Rightarrow> stats_data \<Rightarrow> (int \<times> stats_data) option" where
  "incTimingCounter scfg lk duration z st =
     (if \<not> sc_enable_global_stats scfg then Some (1, st)
      else if locks lk
      then (case (bump_at z duration (st_zoomBufferRetrievalTime st), bump_at z 1 (st_noZoomBufferRetrieval st)) of
              (Some ts, Some ns) \<Rightarrow>
                Some (1, st\<lparr>st_totalBufferRetrievalTime := st_totalBufferRetrievalTime st + duration,
                            st_zoomBufferRetrievalTime := ts,
                            st_noTotalBufferRetrieval := st_noTotalBufferRetrieval st + 1,
                            st_noZoomBufferRetrieval := ns\<rparr>)
            | _ \<Rightarrow> None)
      else Some (0, st))"

section \<open>The statistics pages\<close>

text \<open>
  The copy for a page: of the two per-layer arrays as many entries are copied as the server has
  layers. \<open>None\<close>: the lock was not obtained and the caller's pointer stays unset.
\<close>

definition get_stats_copy :: "tile_server_conf \<Rightarrow> lock_try \<Rightarrow> stats_data \<Rightarrow> stats_data option" where
  "get_stats_copy scfg lk st =
     (if locks lk
      then Some (st\<lparr>st_noResp200Layer := take (length (sc_configs scfg)) (st_noResp200Layer st),
                   st_noResp404Layer := take (length (sc_configs scfg)) (st_noResp404Layer st)\<rparr>)
      else None)"

definition show_counter :: "counter \<Rightarrow> string" where
  "show_counter c = show_nat (unat c)"

definition newline :: string where
  "newline = [CHR 0x0A]"

definition count_line :: "string \<Rightarrow> counter \<Rightarrow> string" where
  "count_line name c = name @ '': '' @ show_counter c @ newline"

definition zoom_name :: "nat \<Rightarrow> string" where
  "zoom_name i = (if i < 10 then CHR ''0'' # show_nat i else show_nat i)"

definition zooms :: "int \<Rightarrow> nat list" where
  "zooms gmax = [0..<nat (gmax + 1)]"

definition mod_stats_text :: "tile_server_conf \<Rightarrow> int \<Rightarrow> stats_data \<Rightarrow> string" where
  "mod_stats_text scfg gmax st =
     count_line ''NoResp200'' (st_noResp200 st) @ count_line ''NoResp304'' (st_noResp304 st)
     @ count_line ''NoResp404'' (st_noResp404 st) @ count_line ''NoResp503'' (st_noResp503 st)
     @ count_line ''NoResp5XX'' (st_noResp5XX st) @ count_line ''NoRespOther'' (st_noRespOther st)
     @ count_line ''NoFreshCache'' (st_noFreshCache st) @ count_line ''NoOldCache'' (st_noOldCache st)
     @ count_line ''NoVeryOldCache'' (st_noVeryOldCache st) @ count_line ''NoFreshRender'' (st_noFreshRender st)
     @ count_line ''NoOldRender'' (st_noOldRender st) @ count_line ''NoVeryOldRender'' (st_noVeryOldRender st)
     @ concat (map (\<lambda>i. count_line (''NoRespZoom'' @ zoom_name i) (st_noRespZoom st ! i)) (zooms gmax))
     @ count_line ''NoTileBufferReads'' (st_noTotalBufferRetrieval st)
     @ count_line ''DurationTileBufferReads'' (st_totalBufferRetrievalTime st)
     @ concat (map (\<lambda>i. count_line (''NoTileBufferReadZoom'' @ zoom_name i) (st_noZoomBufferRetrieval st ! i)
                      @ count_line (''DurationTileBufferReadZoom'' @ zoom_name i) (st_zoomBufferRetrievalTime st ! i)) (zooms gmax))
     @ concat (map (\<lambda>i. count_line (''NoRes200Layer'' @ tr_baseuri (sc_configs scfg ! i)) (st_noResp200Layer st ! i)
                      @ count_line (''NoRes404Layer'' @ tr_baseuri (sc_configs scfg ! i)) (st_noResp404Layer st ! i))
          [0..<length (sc_configs scfg)])"

text \<open>A metric in the format of Prometheus; \<open>%lf\<close> prints six decimals.\<close>

definition dquote :: string where
  "dquote = [CHR 0x22]"

definition label :: "string \<Rightarrow> string \<Rightarrow> string" where
  "label name v = name @ ''='' @ dquote @ v @ dquote"

definition metric_head :: "string \<Rightarrow> string \<Rightarrow> string" where
  "metric_head name help = ''# HELP '' @ name @ '' '' @ help @ newline @ ''# TYPE '' @ name @ '' counter'' @ newline"

definition metric :: "string \<Rightarrow> string \<Rightarrow> string \<Rightarrow> string" where
  "metric name labels v = name @ CHR 0x7B # labels @ CHR 0x7D # '' '' @ v @ newline"

definition show_fixed6 :: "rat \<Rightarrow> string" where
  "show_fixed6 q =
     (let n = nat (round_even (q * 1000000)); frac = show_nat (n mod 1000000)
      in show_nat (n div 1000000) @ ''.'' @ replicate (6 - length frac) (CHR ''0'') @ frac)"

definition seconds_of :: "counter \<Rightarrow> rat" where
  "seconds_of c = ddiv (dbl (of_nat (unat c))) 1000000"

definition metrics_text :: "tile_server_conf \<Rightarrow> int \<Rightarrow> stats_data \<Rightarrow> string" where
  "metrics_text scfg gmax st =
     (let resp = (\<lambda>s c. metric ''modtile_http_responses_total'' (label ''status'' s) (show_counter c));
          tiles = (\<lambda>a r c. metric ''modtile_tiles_total'' (label ''age'' a @ '','' @ label ''rendered'' r) (show_counter c));
          layer = (\<lambda>i s c. metric ''modtile_layer_responses_total''
                     (label ''layer'' (tr_baseuri (sc_configs scfg ! i)) @ '','' @ label ''status'' s) (show_counter c))
      in metric_head ''modtile_http_responses_total'' ''Number of HTTP responses by response code''
       @ resp ''200'' (st_noResp200 st) @ resp ''304'' (st_noResp304 st) @ resp ''404'' (st_noResp404 st)
       @ resp ''503'' (st_noResp503 st) @ resp ''5XX'' (st_noResp5XX st) @ resp ''other'' (st_noRespOther st)
       @ metric_head ''modtile_tiles_total'' ''Tiles served''
       @ tiles ''fresh'' ''no'' (st_noFreshCache st) @ tiles ''old'' ''no'' (st_noOldCache st)
       @ tiles ''outdated'' ''no'' (st_noVeryOldCache st) @ tiles ''fresh'' ''yes'' (st_noFreshRender st)
       @ tiles ''old'' ''attempted'' (st_noOldRender st) @ tiles ''outdated'' ''attempted'' (st_noVeryOldRender st)
       @ metric_head ''modtile_zoom_responses_total'' ''Tiles served by zoom level''
       @ concat (map (\<lambda>i. metric ''modtile_zoom_responses_total'' (label ''zoom'' (zoom_name i)) (show_counter (st_noRespZoom st ! i))) (zooms gmax))
       @ metric_head ''modtile_tile_reads_total'' ''Tiles served from the tile buffer''
       @ concat (map (\<lambda>i. metric ''modtile_tile_reads_total'' (label ''zoom'' (zoom_name i)) (show_counter (st_noZoomBufferRetrieval st ! i))) (zooms gmax))
       @ metric_head ''modtile_tile_reads_seconds_total'' ''Tile buffer duration''
       @ concat (map (\<lambda>i. metric ''modtile_tile_reads_seconds_total'' (label ''zoom'' (zoom_name i))
                            (show_fixed6 (seconds_of (st_zoomBufferRetrievalTime st ! i)))) (zooms gmax))
       @ metric_head ''modtile_layer_responses_total'' ''Layer responses''
       @ concat (map (\<lambda>i. layer i ''200'' (st_noResp200Layer st ! i) @ layer i ''404'' (st_noResp404Layer st ! i))
            [0..<length (sc_configs scfg)]))"

section \<open>The counters agree\<close>

lemma sum_list_add_at: "i < length xs \<Longrightarrow> sum_list (xs[i := xs ! i + d]) = sum_list xs + (d :: counter)"
  by (induction xs arbitrary: i) (auto split: nat.split simp: algebra_simps)

lemma bump_at_sum:
  assumes "bump_at i d xs = Some ys" "i < int n"
  shows "sum_list (take n ys) = sum_list (take n xs) + d" "length ys = length xs"
proof -
  have i: "nat i < length xs" "ys = xs[nat i := xs ! nat i + d]" "nat i < n"
    using assms by (auto simp: bump_at_def split: if_splits)
  then have "take n ys = (take n xs)[nat i := take n xs ! nat i + d]" by (simp add: take_update_swap)
  then show "sum_list (take n ys) = sum_list (take n xs) + d" using i sum_list_add_at [of "nat i" "take n xs" d] by simp
  show "length ys = length xs" using i by simp
qed

text \<open>One response as it is counted: the lock, the status, the tile and the layer.\<close>

type_synonym response = "lock_try \<times> int \<times> protocol option \<times> int"

fun count_responses :: "tile_server_conf \<Rightarrow> response list \<Rightarrow> stats_data \<Rightarrow> stats_data option" where
  "count_responses scfg [] st = Some st"
| "count_responses scfg ((lk, resp, cmd, layer) # rs) st =
     (case incRespCounter scfg lk resp cmd layer st of None \<Rightarrow> None | Some (_, st') \<Rightarrow> count_responses scfg rs st')"

definition counted :: "tile_server_conf \<Rightarrow> response list \<Rightarrow> nat" where
  "counted scfg rs = (if sc_enable_global_stats scfg then length (filter (\<lambda>r. locks (fst r)) rs) else 0)"

text \<open>A response the handlers produce: of a tile within the zoom levels, on one of the layers.\<close>

definition response_ok :: "int \<Rightarrow> nat \<Rightarrow> response \<Rightarrow> bool" where
  "response_ok gmax layers r =
     (case r of (lk, resp, cmd, layer) \<Rightarrow>
        0 \<le> layer \<and> layer < int layers \<and> (case cmd of None \<Rightarrow> False | Some c \<Rightarrow> 0 \<le> pr_z c \<and> pr_z c \<le> gmax))"

definition zoom_sum :: "int \<Rightarrow> stats_data \<Rightarrow> counter" where
  "zoom_sum gmax st = sum_list (take (nat (gmax + 1)) (st_noRespZoom st))"

definition total_responses :: "stats_data \<Rightarrow> counter" where
  "total_responses st =
     st_noResp200 st + st_noResp304 st + st_noResp404 st + st_noResp503 st + st_noResp5XX st + st_noRespOther st"

definition balanced :: "int \<Rightarrow> nat \<Rightarrow> stats_data \<Rightarrow> bool" where
  "balanced gmax layers st \<longleftrightarrow>
     gmax < int (length (st_noRespZoom st)) \<and> length (st_noResp200Layer st) = layers \<and> length (st_noResp404Layer st) = layers
     \<and> zoom_sum gmax st = st_noResp200 st + st_noResp304 st
     \<and> sum_list (st_noResp200Layer st) = st_noResp200 st + st_noResp304 st
     \<and> sum_list (st_noResp404Layer st) = st_noResp404 st"

lemma bump_at_some: "0 \<le> i \<Longrightarrow> i < int (length xs) \<Longrightarrow> \<exists>ys. bump_at i d xs = Some ys"
  by (simp add: bump_at_def)

lemma bump_at_total:
  assumes "bump_at i d xs = Some ys"
  shows "sum_list ys = sum_list xs + d" "length ys = length xs"
  using bump_at_sum [OF assms, of "length xs"] assms by (auto simp: bump_at_def split: if_splits)

lemma count_tile_spec:
  assumes "0 \<le> pr_z c" "pr_z c \<le> gmax" "gmax < int (length (st_noRespZoom st))" "0 \<le> layer" "layer < int (length (st_noResp200Layer st))"
  shows "\<exists>zs ls. count_tile (Some c) layer st = Some (st\<lparr>st_noRespZoom := zs, st_noResp200Layer := ls\<rparr>)
    \<and> sum_list (take (nat (gmax + 1)) zs) = zoom_sum gmax st + 1 \<and> length zs = length (st_noRespZoom st)
    \<and> sum_list ls = sum_list (st_noResp200Layer st) + 1 \<and> length ls = length (st_noResp200Layer st)"
proof -
  obtain zs where z: "bump_at (pr_z c) 1 (st_noRespZoom st) = Some zs" using bump_at_some assms(1-3) by force
  obtain ls where l: "bump_at layer 1 (st_noResp200Layer st) = Some ls" using bump_at_some assms(4,5) by blast
  have "pr_z c < int (nat (gmax + 1))" using assms(1,2) by simp
  from z l bump_at_sum [OF z this] bump_at_total [OF l] show ?thesis
    by (intro exI [of _ zs] exI [of _ ls]) (simp add: count_tile_def zoom_sum_def)
qed

lemma count_response_balanced:
  assumes "balanced gmax layers st" "response_ok gmax layers (lk, resp, cmd, layer)"
  shows "\<exists>st'. count_response resp cmd layer st = Some st' \<and> balanced gmax layers st' \<and> total_responses st' = total_responses st + 1"
proof -
  note b = assms(1) [unfolded balanced_def]
  obtain c where c: "cmd = Some c" "0 \<le> pr_z c" "pr_z c \<le> gmax" "0 \<le> layer" "layer < int layers"
    using assms(2) by (auto simp: response_ok_def split: option.splits)
  consider "resp = HTTP_OK" | "resp = HTTP_NOT_MODIFIED" | "resp = HTTP_NOT_FOUND"
    | "resp \<notin> {HTTP_OK, HTTP_NOT_MODIFIED, HTTP_NOT_FOUND}" by blast
  then show ?thesis
  proof cases
    case 1
    have "zoom_sum gmax (st\<lparr>st_noResp200 := n\<rparr>) = zoom_sum gmax st" for n by (simp add: zoom_sum_def)
    with count_tile_spec [of c gmax "st\<lparr>st_noResp200 := st_noResp200 st + 1\<rparr>" layer] b c
    obtain zs ls where "count_tile (Some c) layer (st\<lparr>st_noResp200 := st_noResp200 st + 1\<rparr>) =
        Some (st\<lparr>st_noResp200 := st_noResp200 st + 1, st_noRespZoom := zs, st_noResp200Layer := ls\<rparr>)"
      "sum_list (take (nat (gmax + 1)) zs) = zoom_sum gmax st + 1" "length zs = length (st_noRespZoom st)"
      "sum_list ls = sum_list (st_noResp200Layer st) + 1" "length ls = length (st_noResp200Layer st)"
      by auto
    with 1 b c show ?thesis by (simp add: count_response_def balanced_def total_responses_def zoom_sum_def algebra_simps)
  next
    case 2
    have "zoom_sum gmax (st\<lparr>st_noResp304 := n\<rparr>) = zoom_sum gmax st" for n by (simp add: zoom_sum_def)
    with count_tile_spec [of c gmax "st\<lparr>st_noResp304 := st_noResp304 st + 1\<rparr>" layer] b c
    obtain zs ls where "count_tile (Some c) layer (st\<lparr>st_noResp304 := st_noResp304 st + 1\<rparr>) =
        Some (st\<lparr>st_noResp304 := st_noResp304 st + 1, st_noRespZoom := zs, st_noResp200Layer := ls\<rparr>)"
      "sum_list (take (nat (gmax + 1)) zs) = zoom_sum gmax st + 1" "length zs = length (st_noRespZoom st)"
      "sum_list ls = sum_list (st_noResp200Layer st) + 1" "length ls = length (st_noResp200Layer st)"
      by auto
    with 2 b c show ?thesis
      by (simp add: count_response_def balanced_def total_responses_def zoom_sum_def algebra_simps HTTP_OK_def HTTP_NOT_MODIFIED_def)
  next
    case 3
    obtain ls where l: "bump_at layer 1 (st_noResp404Layer st) = Some ls" using bump_at_some [of layer "st_noResp404Layer st" 1] b c by auto
    with 3 b bump_at_total [OF l] show ?thesis
      by (simp add: count_response_def balanced_def total_responses_def zoom_sum_def algebra_simps HTTP_OK_def HTTP_NOT_MODIFIED_def HTTP_NOT_FOUND_def)
  next
    case 4
    with b show ?thesis by (simp add: count_response_def balanced_def total_responses_def zoom_sum_def algebra_simps)
  qed
qed

lemma count_responses_balanced:
  assumes "balanced gmax layers st" "list_all (response_ok gmax layers) rs"
  shows "\<exists>st'. count_responses scfg rs st = Some st' \<and> balanced gmax layers st'
    \<and> total_responses st' = total_responses st + of_nat (counted scfg rs)"
  using assms
proof (induction rs arbitrary: st)
  case Nil
  then show ?case by (simp add: counted_def)
next
  case (Cons r rs)
  obtain lk resp cmd layer where r: "r = (lk, resp, cmd, layer)" by (metis prod_cases4)
  let ?on = "sc_enable_global_stats scfg \<and> locks lk"
  obtain st1 where "count_response resp cmd layer st = Some st1" "balanced gmax layers st1" "total_responses st1 = total_responses st + 1"
    using count_response_balanced Cons.prems r by fastforce
  then obtain st2 ret where "incRespCounter scfg lk resp cmd layer st = Some (ret, st2)" "balanced gmax layers st2"
    "total_responses st2 = total_responses st + (if ?on then 1 else 0)"
    using Cons.prems(1) by (cases "sc_enable_global_stats scfg"; cases "locks lk") (auto simp: incRespCounter_def)
  with Cons.IH [of st2] Cons.prems(2) r show ?case
    by (auto simp: counted_def algebra_simps split: if_splits)
qed

lemma sum_zero_upto: "gmax < int (length xs) \<Longrightarrow> sum_list (take (nat (gmax + 1)) (zero_upto gmax xs)) = 0"
proof -
  assume "gmax < int (length xs)"
  then have "take (nat (gmax + 1)) (zero_upto gmax xs) = replicate (nat (gmax + 1)) 0"
    by (intro nth_equalityI) (auto simp: zero_upto_def)
  then show ?thesis by (simp add: sum_list_replicate)
qed

text \<open>
  C30. From the start of the module on, whatever the answers and however often the lock is not obtained:
  counting a response of a tile within the configured zoom levels and layers never leaves an array;
  the tiles counted by zoom level and by layer are those counted as delivered or not modified, the
  missing ones by layer are those counted as not found, and every response that got the lock is
  counted once (modulo the width of the counters).
\<close>

theorem response_counters_agree:
  assumes "st = init_stats raw gmax layers" "gmax < int (length (st_noRespZoom raw))" "list_all (response_ok gmax layers) rs"
  shows "\<exists>st'. count_responses scfg rs st = Some st'
    \<and> zoom_sum gmax st' = st_noResp200 st' + st_noResp304 st'
    \<and> sum_list (st_noResp200Layer st') = st_noResp200 st' + st_noResp304 st'
    \<and> sum_list (st_noResp404Layer st') = st_noResp404 st' \<and> total_responses st' = of_nat (counted scfg rs)"
proof -
  have "balanced gmax layers st" "total_responses st = 0"
    using assms(1,2) sum_zero_upto [of gmax "st_noRespZoom raw"]
    by (simp_all add: balanced_def init_stats_def zoom_sum_def sum_list_replicate total_responses_def)
       (simp add: zero_upto_def)
  with count_responses_balanced [OF this(1) assms(3), of scfg] show ?thesis by (auto simp: balanced_def)
qed

definition sample_raw_stats :: stats_data where
  "sample_raw_stats =
     \<lparr>st_noResp200 = 7, st_noResp304 = 0, st_noResp404 = 0, st_noResp503 = 0, st_noResp5XX = 0, st_noRespOther = 0,
      st_noFreshCache = 0, st_noFreshRender = 0, st_noOldCache = 0, st_noOldRender = 0, st_noVeryOldCache = 0, st_noVeryOldRender = 0,
      st_noRespZoom = replicate 31 9, st_totalBufferRetrievalTime = 0, st_noTotalBufferRetrieval = 0,
      st_zoomBufferRetrievalTime = replicate 31 0, st_noZoomBufferRetrieval = replicate 31 0,
      st_noResp200Layer = [], st_noResp404Layer = []\<rparr>"

definition sample_tile :: protocol where
  "sample_tile = \<lparr>pr_ver = 2, pr_cmd = cmdRender, pr_x = 1, pr_y = 1, pr_z = 3, pr_xmlname = ''default'', pr_mimetype = [], pr_options = []\<rparr>"

theorem response_counters_agree_witness:
  "\<exists>st'. count_responses create_tile_config
      [((\<lambda>k. lockSuccess, True), HTTP_OK, Some sample_tile, 0), ((\<lambda>k. lockSuccess, True), HTTP_NOT_FOUND, Some sample_tile, 1)]
      (init_stats sample_raw_stats 19 2) = Some st'
    \<and> zoom_sum 19 st' = st_noResp200 st' + st_noResp304 st'
    \<and> sum_list (st_noResp200Layer st') = st_noResp200 st' + st_noResp304 st'
    \<and> sum_list (st_noResp404Layer st') = st_noResp404 st' \<and> total_responses st' = of_nat (counted create_tile_config
      [((\<lambda>k. lockSuccess, True), HTTP_OK, Some sample_tile, 0), ((\<lambda>k. lockSuccess, True), HTTP_NOT_FOUND, Some sample_tile, 1)])"
  by (rule response_counters_agree [OF refl]) (simp_all add: sample_raw_stats_def response_ok_def sample_tile_def)

end
