(* ===== verification/Tile_Paths.thy ===== *)
theory Tile_Paths
  imports Tile_Prelude
begin

text \<open>
  The layout of tiles on disk (\<^verbatim>\<open>src/store_file_utils.c\<close>): the path of the metatile a tile belongs to and
  the tile's place in it, the inverse reading of a path, the creation of parent directories and the
  time of the last planet import. The daemon and the Apache module both use these functions and must
  agree on the layout, so the two directions are shown to be inverse to each other. The file system
  is a map from path names to nodes; paths are compared as the strings the code builds.
\<close>

section \<open>Operations\<close>

definition XMLNAME_MAX :: nat where
  "XMLNAME_MAX = 40"

definition PLANET_TIMESTAMP :: string where
  "PLANET_TIMESTAMP = ''/planet-import-complete''"

text \<open>\<open>True\<close>: the coordinates are out of bounds.\<close>

definition check_xyz :: "int \<Rightarrow> int \<Rightarrow> int \<Rightarrow> bool" where
  "check_xyz x y z =
     (if z < 0 \<or> z > MAX_ZOOM then True
      else let limit = push_bit (nat z) 1 - 1 in x < 0 \<or> x > limit \<or> y < 0 \<or> y > limit)"

text \<open>
  What \<open>path_to_xyz\<close> leaves behind: its return value and the outputs, \<open>None\<close> for an output that was
  not assigned.
\<close>

record path_result =
  pt_ret :: int
  pt_xmlconfig :: "string option"
  pt_x :: "int option"
  pt_y :: "int option"
  pt_z :: "int option"

text \<open>The directives \<open>/%d\<close> of the format, at most \<open>n\<close> of them, until one does not match.\<close>

fun scan_ints :: "nat \<Rightarrow> string \<Rightarrow> int list" where
  "scan_ints 0 s = []"
| "scan_ints (Suc n) s =
     (case scan_char (CHR ''/'') s of
        None \<Rightarrow> []
      | Some r \<Rightarrow> (case scan_int r of None \<Rightarrow> [] | Some (v, r') \<Rightarrow> v # scan_ints n r'))"

text \<open>The two coordinates from the five directory numbers.\<close>

definition hash_xy :: "int list \<Rightarrow> int \<times> int" where
  "hash_xy hs = foldl (\<lambda>(x, y) h. (push_bit 4 x OR drop_bit 4 (h AND 0xf0), push_bit 4 y OR (h AND 0x0f))) (0, 0) hs"

definition path_to_xyz :: "string \<Rightarrow> string \<Rightarrow> path_result" where
  "path_to_xyz tilepath path =
     (if \<not> starts_with tilepath path then \<lparr>pt_ret = 1, pt_xmlconfig = None, pt_x = None, pt_y = None, pt_z = None\<rparr>
      else case scan_char (CHR ''/'') (drop (length tilepath) path) of
        None \<Rightarrow> \<lparr>pt_ret = 1, pt_xmlconfig = None, pt_x = None, pt_y = None, pt_z = None\<rparr>
      | Some r0 \<Rightarrow>
          (case scan_until XMLNAME_MAX (CHR ''/'') r0 of
             None \<Rightarrow> \<lparr>pt_ret = 1, pt_xmlconfig = None, pt_x = None, pt_y = None, pt_z = None\<rparr>
           | Some (xml, r1) \<Rightarrow>
               (case scan_ints 6 r1 of
                  [z, h0, h1, h2, h3, h4] \<Rightarrow>
                    (if \<exists>h \<in> set [h0, h1, h2, h3, h4]. h < 0 \<or> h > 255
                     then \<lparr>pt_ret = 2, pt_xmlconfig = Some xml, pt_x = None, pt_y = None, pt_z = Some z\<rparr>
                     else let (x, y) = hash_xy [h0, h1, h2, h3, h4]
                          in \<lparr>pt_ret = (if check_xyz x y z then 1 else 0), pt_xmlconfig = Some xml,
                              pt_x = Some x, pt_y = Some y, pt_z = Some z\<rparr>)
                | zs \<Rightarrow> \<lparr>pt_ret = 1, pt_xmlconfig = Some xml, pt_x = None, pt_y = None,
                         pt_z = (case zs of [] \<Rightarrow> None | z # _ \<Rightarrow> Some z)\<rparr>)))"

text \<open>The five bytes of the directory hash, least significant digits first.\<close>

fun xy_hash :: "nat \<Rightarrow> int \<Rightarrow> int \<Rightarrow> int list" where
  "xy_hash 0 x y = []"
| "xy_hash (Suc n) x y = (push_bit 4 (x AND 0x0f) OR (y AND 0x0f)) # xy_hash n (drop_bit 4 x) (drop_bit 4 y)"

definition meta_offset :: "int \<Rightarrow> int \<Rightarrow> nat" where
  "meta_offset x y = nat ((x AND (METATILE - 1)) * METATILE + (y AND (METATILE - 1)))"

text \<open>The path, cut to the buffer's length, and the offset of the tile in the metatile.\<close>

definition xyzo_to_meta :: "nat \<Rightarrow> string \<Rightarrow> string \<Rightarrow> string \<Rightarrow> int \<Rightarrow> int \<Rightarrow> int \<Rightarrow> string \<times> nat" where
  "xyzo_to_meta len tile_dir xmlconfig options x y z =
     (let h = xy_hash 5 (x AND NOT (METATILE - 1)) (y AND NOT (METATILE - 1));
          num = (\<lambda>i. show_nat (nat (h ! i)));
          leaf = (if options = [] then ''.meta'' else ''.'' @ options @ ''.meta'')
      in (snprintf len (tile_dir @ ''/'' @ xmlconfig @ ''/'' @ show_int z @ ''/'' @ num 4 @ ''/'' @ num 3 @ ''/''
                        @ num 2 @ ''/'' @ num 1 @ ''/'' @ num 0 @ leaf),
          meta_offset x y))"

definition xyz_to_meta :: "nat \<Rightarrow> string \<Rightarrow> string \<Rightarrow> int \<Rightarrow> int \<Rightarrow> int \<Rightarrow> string \<times> nat" where
  "xyz_to_meta len tile_dir xmlconfig x y z = xyzo_to_meta len tile_dir xmlconfig [] x y z"

text \<open>
  The variant of the build without \<open>DIRECTORY_HASH\<close>: the path holds \<open>x\<close> and \<open>y\<close> as the loop over
  the hash left them.
\<close>

definition xyzo_to_meta_flat :: "nat \<Rightarrow> string \<Rightarrow> string \<Rightarrow> string \<Rightarrow> int \<Rightarrow> int \<Rightarrow> int \<Rightarrow> string \<times> nat" where
  "xyzo_to_meta_flat len tile_dir xmlconfig options x y z =
     (let x' = (drop_bit 4 ^^ 5) (x AND NOT (METATILE - 1));
          y' = (drop_bit 4 ^^ 5) (y AND NOT (METATILE - 1));
          leaf = (if options = [] then ''.meta'' else ''.'' @ options @ ''.meta'')
      in (snprintf len (tile_dir @ ''/'' @ xmlconfig @ ''/'' @ show_int z @ ''/'' @ show_nat (nat (x' mod 4294967296)) @ ''/''
                        @ show_nat (nat (y' mod 4294967296)) @ leaf),
          meta_offset x y))"

text \<open>
  The parser of that build. A path compiled in as \<open>TILE_PATH\<close> takes the place of the argument unless it is empty.
\<close>

definition path_to_xyz_flat :: "string option \<Rightarrow> string \<Rightarrow> string \<Rightarrow> path_result" where
  "path_to_xyz_flat TILE_PATH tilepath path =
     (let base_prefix = (case TILE_PATH of None \<Rightarrow> tilepath | Some p \<Rightarrow> if p \<noteq> [] then p else tilepath);
          none = \<lparr>pt_ret = 1, pt_xmlconfig = None, pt_x = None, pt_y = None, pt_z = None\<rparr>
      in if \<not> starts_with base_prefix path then none
         else case scan_char (CHR ''/'') (drop (length base_prefix) path) of
                None \<Rightarrow> none
              | Some r0 \<Rightarrow>
                  (case scan_until XMLNAME_MAX (CHR ''/'') r0 of
                     None \<Rightarrow> none
                   | Some (xml, r1) \<Rightarrow>
                       (case scan_ints 3 r1 of
                          [z, x, y] \<Rightarrow> \<lparr>pt_ret = (if check_xyz x y z then 1 else 0), pt_xmlconfig = Some xml, pt_x = Some x, pt_y = Some y, pt_z = Some z\<rparr>
                        | zs \<Rightarrow> \<lparr>pt_ret = 1, pt_xmlconfig = Some xml, pt_x = (case zs of z # x # _ \<Rightarrow> Some x | _ \<Rightarrow> None), pt_y = None,
                                 pt_z = (case zs of [] \<Rightarrow> None | z # _ \<Rightarrow> Some z)\<rparr>)))"

text \<open>The time of the planet import; \<open>stat\<close> yields the modification time of an existing file.\<close>

definition get_planet_time :: "(string \<Rightarrow> int option) \<Rightarrow> int \<Rightarrow> string \<Rightarrow> string option \<Rightarrow> int" where
  "get_planet_time stat now tile_dir xmlname =
     (let own = (case xmlname of
                   None \<Rightarrow> None
                 | Some n \<Rightarrow> if n = [] then None
                             else stat (snprintf PATH_MAX (tile_dir @ ''/'' @ n @ ''/'' @ PLANET_TIMESTAMP)))
      in case own of
           Some t \<Rightarrow> t
         | None \<Rightarrow> (case stat (snprintf PATH_MAX (tile_dir @ ''/'' @ PLANET_TIMESTAMP)) of
                      Some t \<Rightarrow> t
                    | None \<Rightarrow> now - 3 * 24 * 60 * 60))"

section \<open>Parent directories\<close>

datatype fnode = FDir | FFile

type_synonym dirs = "string \<rightharpoonup> fnode"

text \<open>
  The walk over the path: \<open>done\<close> is the part in front of the position. \<open>deny\<close> tells for which
  directories \<open>mkdir\<close> fails with an error other than \<open>EEXIST\<close>. The result is the return value and the
  file system.
\<close>

fun mkdir_walk :: "(string \<Rightarrow> bool) \<Rightarrow> dirs \<Rightarrow> string \<Rightarrow> string \<Rightarrow> int \<times> dirs" where
  "mkdir_walk deny fs seen [] = (0, fs)"
| "mkdir_walk deny fs seen (c # rest) =
     (if c = CHR ''/''
      then (case fs seen of
              Some FDir \<Rightarrow> mkdir_walk deny fs (seen @ [c]) rest
            | Some FFile \<Rightarrow> (1, fs)
            | None \<Rightarrow> if deny seen then (1, fs) else mkdir_walk deny (fs(seen \<mapsto> FDir)) (seen @ [c]) rest)
      else mkdir_walk deny fs (seen @ [c]) rest)"

definition mkdirp :: "(string \<Rightarrow> bool) \<Rightarrow> dirs \<Rightarrow> string \<Rightarrow> int \<times> dirs" where
  "mkdirp deny fs path =
     (let tmp = take (PATH_MAX - 1) path
      in case strrchr tmp (CHR ''/'') of
           None \<Rightarrow> (0, fs)
         | Some (par, _) \<Rightarrow>
             (case fs par of
                Some n \<Rightarrow> (if n = FDir then 0 else 1, fs)
              | None \<Rightarrow> (case tmp of [] \<Rightarrow> (0, fs) | c # rest \<Rightarrow> mkdir_walk deny fs [c] rest)))"

section \<open>Bits\<close>

lemma and_7: "x AND 7 = x mod (8 :: int)"
  using take_bit_eq_mask [of 3 x] by (simp add: mask_eq_exp_minus_1 take_bit_eq_mod)

lemma and_15: "x AND 15 = x mod (16 :: int)"
  using take_bit_eq_mask [of 4 x] by (simp add: mask_eq_exp_minus_1 take_bit_eq_mod)

lemma and_not_7: "x AND NOT 7 = x - x mod (8 :: int)"
proof -
  have "NOT x AND (x AND 7) = 0" by (rule bit_eqI) (simp add: bit_simps)
  then have "x - (x AND 7) = x AND NOT (x AND 7)" by (rule disjunctive_diff_eq_and_not)
  also have "\<dots> = x AND NOT 7" by (rule bit_eqI) (auto simp: bit_simps)
  finally show ?thesis by (simp add: and_7)
qed

lemma metatile_corner: "x AND NOT (METATILE - 1) = x - x mod METATILE"
  unfolding METATILE_def using and_not_7 [of x] by simp

lemma or_low_bits: "0 \<le> b \<Longrightarrow> b < 16 \<Longrightarrow> push_bit 4 a OR b = 16 * a + (b :: int)"
proof -
  assume "0 \<le> b" "b < 16"
  then have b: "b = take_bit 4 b" by (simp add: take_bit_eq_mod)
  have "push_bit 4 a AND take_bit 4 b = 0" by (rule bit_eqI) (auto simp: bit_simps)
  then have "push_bit 4 a + take_bit 4 b = push_bit 4 a OR take_bit 4 b" by (rule disjunctive_add_eq_or)
  with b show ?thesis by (simp add: push_bit_eq_mult)
qed

lemma high_nibble: "drop_bit 4 (h AND 0xf0) = (h div 16) mod (16 :: int)"
proof -
  have "drop_bit 4 (h AND 0xf0) = drop_bit 4 h AND drop_bit 4 0xf0" by (rule drop_bit_and)
  also have "drop_bit 4 (0xf0 :: int) = 15" by (simp add: drop_bit_eq_div)
  finally have "drop_bit 4 (h AND 0xf0) = drop_bit 4 h AND 15" .
  moreover have "drop_bit 4 h = h div 16" by (subst drop_bit_eq_div) simp
  ultimately show ?thesis by (simp only: and_15)
qed

text \<open>One byte of the hash joins two digits; reading it separates them.\<close>

lemma xy_hash_simps:
  "xy_hash 0 x y = []"
  "xy_hash (Suc n) x y = (16 * (x mod 16) + y mod 16) # xy_hash n (x div 16) (y div 16)"
  by (simp_all add: and_15 or_low_bits drop_bit_eq_div)

lemma xy_hash_bytes: "h \<in> set (xy_hash n x y) \<Longrightarrow> 0 \<le> h \<and> h \<le> 255"
proof (induction n arbitrary: x y)
  case (Suc n)
  have "0 \<le> x mod 16" "x mod 16 < 16" "0 \<le> y mod 16" "y mod 16 < 16" by simp_all
  then have "0 \<le> 16 * (x mod 16) + y mod 16 \<and> 16 * (x mod 16) + y mod 16 \<le> 255" by linarith
  with Suc show ?case unfolding xy_hash_simps by auto
qed simp

lemma length_xy_hash [simp]: "length (xy_hash n x y) = n"
  by (induction n arbitrary: x y) simp_all

lemma list_of_five: "length xs = 5 \<Longrightarrow> \<exists>a b c d e. xs = [a, b, c, d, e]"
  by (auto simp: numeral_eq_Suc length_Suc_conv)

lemma hash_xy_snoc:
  "hash_xy (hs @ [h]) = (16 * fst (hash_xy hs) + h div 16 mod 16, 16 * snd (hash_xy hs) + h mod 16)"
  by (simp add: hash_xy_def case_prod_beta high_nibble and_15 or_low_bits del: drop_bit_and)

lemma mod_digit: "x mod (16 * m) = 16 * ((x div 16) mod m) + x mod (16 :: int)" if "0 \<le> m"
  using zmod_zmult2_eq [OF that, of x 16] by simp

lemma hash_xy_inverse: "hash_xy (rev (xy_hash n x y)) = (x mod 16 ^ n, y mod 16 ^ n)"
proof (induction n arbitrary: x y)
  case 0
  then show ?case by (simp add: hash_xy_def)
next
  case (Suc n)
  have "(16 * (x mod 16) + y mod 16) div 16 = x mod 16" by simp
  then show ?case
    using Suc [of "x div 16" "y div 16"] mod_digit [of "16 ^ n" x] mod_digit [of "16 ^ n" y]
    by (simp add: xy_hash_simps(2) hash_xy_snoc del: xy_hash.simps)
qed

section \<open>Printing and scanning a path\<close>

lemma starts_with_append [simp]: "starts_with p (p @ s)"
  by (induction p) auto

lemma scan_ints_printed:
  assumes "\<forall>v \<in> set vs. in_int32 v" "no_digit_head r"
  shows "scan_ints (length vs) (concat (map (\<lambda>v. CHR ''/'' # show_int v) vs) @ r) = vs"
  using assms
proof (induction vs)
  case (Cons v vs)
  let ?r = "concat (map (\<lambda>v. CHR ''/'' # show_int v) vs) @ r"
  have "no_digit_head ?r" using Cons.prems(2) by (cases vs) (auto simp: no_digit_head_def)
  then have "scan_int (show_int v @ ?r) = Some (v, ?r)" using Cons.prems(1) by (intro scan_int_show_int) auto
  with Cons show ?case by (simp add: scan_char_def)
qed simp

lemma show_nat_show_int: "0 \<le> h \<Longrightarrow> show_nat (nat h) = show_int h"
  by (simp add: show_int_def)

text \<open>The path before it is cut to the buffer.\<close>

definition leaf_of :: "string \<Rightarrow> string" where
  "leaf_of options = (if options = [] then ''.meta'' else ''.'' @ options @ ''.meta'')"

definition meta_path :: "string \<Rightarrow> string \<Rightarrow> string \<Rightarrow> int \<Rightarrow> int \<Rightarrow> int \<Rightarrow> string" where
  "meta_path tile_dir xmlconfig options x y z =
     tile_dir @ ''/'' @ xmlconfig
     @ concat (map (\<lambda>v. CHR ''/'' # show_int v)
         (z # rev (xy_hash 5 (x AND NOT (METATILE - 1)) (y AND NOT (METATILE - 1))))) @ leaf_of options"

lemma xyzo_to_meta_path:
  "xyzo_to_meta len tile_dir xmlconfig options x y z =
     (snprintf len (meta_path tile_dir xmlconfig options x y z), meta_offset x y)"
proof -
  let ?x = "x AND NOT (METATILE - 1)" and ?y = "y AND NOT (METATILE - 1)"
  obtain h0 h1 h2 h3 h4 where h: "xy_hash 5 ?x ?y = [h0, h1, h2, h3, h4]"
    using list_of_five [OF length_xy_hash [of 5 ?x ?y]] by blast
  have "0 \<le> h0" "0 \<le> h1" "0 \<le> h2" "0 \<le> h3" "0 \<le> h4"
    using xy_hash_bytes [of _ 5 ?x ?y] unfolding h by auto
  then show ?thesis
    unfolding xyzo_to_meta_def meta_path_def h Let_def
    by (simp add: show_nat_show_int leaf_of_def)
qed

text \<open>Reading the path of a tile yields the corner of its metatile.\<close>

lemma no_digit_leaf: "no_digit_head (leaf_of options)"
  by (simp add: leaf_of_def no_digit_head_def)

lemma path_to_xyz_meta_path:
  assumes "xml \<noteq> []" "length xml \<le> XMLNAME_MAX" "CHR ''/'' \<notin> set xml" "in_int32 z"
    and "X = x AND NOT (METATILE - 1)" "Y = y AND NOT (METATILE - 1)"
  shows "path_to_xyz td (meta_path td xml opts x y z) =
    \<lparr>pt_ret = (if check_xyz (X mod 2 ^ 20) (Y mod 2 ^ 20) z then 1 else 0), pt_xmlconfig = Some xml,
     pt_x = Some (X mod 2 ^ 20), pt_y = Some (Y mod 2 ^ 20), pt_z = Some z\<rparr>"
proof -
  let ?vs = "z # rev (xy_hash 5 X Y)"
  let ?ints = "concat (map (\<lambda>v. CHR ''/'' # show_int v) ?vs) @ leaf_of opts"
  obtain h0 h1 h2 h3 h4 where h: "rev (xy_hash 5 X Y) = [h0, h1, h2, h3, h4]"
    using list_of_five [of "rev (xy_hash 5 X Y)"] by (metis length_rev length_xy_hash)
  have hb: "\<forall>h \<in> set [h0, h1, h2, h3, h4]. 0 \<le> h \<and> h \<le> 255"
    using xy_hash_bytes [of _ 5 X Y] unfolding h [symmetric] by auto
  have "\<forall>v \<in> set ?vs. in_int32 v"
    using assms(4) hb unfolding h by (auto simp: in_int32_def)
  from scan_ints_printed [OF this no_digit_leaf, of opts] have "scan_ints (length ?vs) ?ints = ?vs" .
  moreover have "length ?vs = 6" by simp
  ultimately have ints: "scan_ints 6 ?ints = [z, h0, h1, h2, h3, h4]" by (metis h)
  have "?ints = CHR ''/'' # tl ?ints" by simp
  then have "scan_until XMLNAME_MAX (CHR ''/'') (xml @ ?ints) = Some (xml, ?ints)"
    using scan_until_field [OF assms(1-3), of "tl ?ints"] by metis
  moreover have "hash_xy [h0, h1, h2, h3, h4] = (X mod 2 ^ 20, Y mod 2 ^ 20)"
    using hash_xy_inverse [of 5 X Y] unfolding h by simp
  ultimately show ?thesis
    using ints hb assms(5,6) unfolding meta_path_def
    by (simp add: path_to_xyz_def scan_char_def)
qed

section \<open>Parent directories\<close>

lemma strrchr_Some:
  assumes "strrchr s c = Some (a, b)"
  shows "s = a @ c # b \<and> c \<notin> set b"
proof -
  let ?suf = "takeWhile (\<lambda>d. d \<noteq> c) (rev s)" and ?rest = "dropWhile (\<lambda>d. d \<noteq> c) (rev s)"
  have r: "?rest \<noteq> []" "a = rev (tl ?rest)" "b = rev ?suf" using assms by (auto simp: strrchr_def Let_def split: if_splits)
  then have "hd ?rest = c" using hd_dropWhile [of "\<lambda>d. d \<noteq> c" "rev s"] by auto
  then have "rev s = ?suf @ c # tl ?rest" using r(1) by (metis list.collapse takeWhile_dropWhile_id)
  then have "s = a @ c # b" using r(2,3) by (metis append.assoc append_Cons append_Nil rev.simps(2) rev_append rev_rev_ident)
  moreover have "c \<notin> set b" unfolding r(3) by (auto dest: set_takeWhileD)
  ultimately show ?thesis by blast
qed

lemma strrchr_None: "strrchr s c = None \<Longrightarrow> c \<notin> set s"
  by (auto simp: strrchr_def Let_def split: if_splits)

lemma mkdir_walk_Cons:
  assumes "mkdir_walk deny fs seen (c # rest) = (r, fs')"
  shows "(\<exists>fs1. mkdir_walk deny fs1 (seen @ [c]) rest = (r, fs') \<and> fs \<subseteq>\<^sub>m fs1 \<and> (c = CHR ''/'' \<longrightarrow> fs1 seen = Some FDir))
    \<or> (r = 1 \<and> fs' = fs)"
proof (cases "c = CHR ''/''")
  case True
  have "fs seen = None \<Longrightarrow> fs \<subseteq>\<^sub>m fs(seen \<mapsto> FDir)" by (auto simp: map_le_def)
  with True assms show ?thesis
    by (cases "fs seen"; cases "the (fs seen)"; cases "deny seen") (auto simp: fun_upd_def)
next
  case False
  with assms show ?thesis by auto
qed

lemma mkdir_walk_keeps: "mkdir_walk deny fs seen rest = (r, fs') \<Longrightarrow> fs \<subseteq>\<^sub>m fs'"
proof (induction rest arbitrary: fs seen)
  case (Cons c rest)
  with mkdir_walk_Cons [OF Cons.prems] show ?case by (auto intro: map_le_trans)
qed simp

lemma mkdir_walk_creates:
  "mkdir_walk deny fs seen (ys @ CHR ''/'' # zs) = (0, fs') \<Longrightarrow> fs' (seen @ ys) = Some FDir"
proof (induction ys arbitrary: fs seen)
  case Nil
  from mkdir_walk_Cons [OF Nil [unfolded append_Nil]] obtain fs1 where
    "mkdir_walk deny fs1 (seen @ [CHR ''/'']) zs = (0, fs')" "fs1 seen = Some FDir" by auto
  with mkdir_walk_keeps show ?case by (auto simp: map_le_def) (metis domI)
next
  case (Cons y ys)
  from mkdir_walk_Cons [OF Cons.prems [unfolded append_Cons]] obtain fs1 where
    "mkdir_walk deny fs1 (seen @ [y]) (ys @ CHR ''/'' # zs) = (0, fs')" by auto
  from Cons.IH [OF this] show ?case by simp
qed

lemma mkdirp_keeps: "mkdirp deny fs path = (r, fs') \<Longrightarrow> fs \<subseteq>\<^sub>m fs'"
  by (auto simp: mkdirp_def Let_def split: option.splits list.splits if_splits dest: mkdir_walk_keeps)

section \<open>Properties of the tile paths\<close>

lemma in_bounds_20:
  assumes "\<not> check_xyz x y z"
  shows "0 \<le> z" "z \<le> 20" "0 \<le> x" "x < 2 ^ 20" "0 \<le> y" "y < 2 ^ 20"
proof -
  show z: "0 \<le> z" "z \<le> 20" using assms by (auto simp: check_xyz_def MAX_ZOOM_def split: if_splits)
  have b: "0 \<le> x" "x < 2 ^ nat z" "0 \<le> y" "y < 2 ^ nat z"
    using assms by (auto simp: check_xyz_def Let_def push_bit_eq_mult split: if_splits)
  have "(2 :: int) ^ nat z \<le> 2 ^ 20" using z by (intro power_increasing) auto
  with b show "0 \<le> x" "x < 2 ^ 20" "0 \<le> y" "y < 2 ^ 20" by linarith+
qed

lemma path_roundtrip_lemma:
  assumes "\<not> check_xyz x y z" "xml \<noteq> []" "length xml \<le> XMLNAME_MAX" "CHR ''/'' \<notin> set xml"
    and "length (meta_path td xml opts x y z) < len"
  shows "path_to_xyz td (fst (xyzo_to_meta len td xml opts x y z)) =
    \<lparr>pt_ret = 0, pt_xmlconfig = Some xml, pt_x = Some (x - x mod METATILE), pt_y = Some (y - y mod METATILE), pt_z = Some z\<rparr>"
proof -
  note z = in_bounds_20(1,2) [OF assms(1)] and b = in_bounds_20(3-6) [OF assms(1)]
  define X Y where "X = x - x mod METATILE" and "Y = y - y mod METATILE"
  have "0 \<le> w - w mod 8 \<and> w - w mod 8 \<le> w" if "0 \<le> w" for w :: int
    using that pos_mod_sign [of 8 w] by (simp add: minus_mod_eq_mult_div)
  then have c: "0 \<le> X" "X \<le> x" "0 \<le> Y" "Y \<le> y" using b by (simp_all add: X_def Y_def METATILE_def)
  have m: "X mod 2 ^ 20 = X" "Y mod 2 ^ 20 = Y"
    by (rule mod_pos_pos_trivial; use c b in linarith)+
  have n: "\<not> check_xyz X Y z"
    using assms(1) c by (auto simp: check_xyz_def Let_def split: if_splits)
  have "in_int32 z" using z by (simp add: in_int32_def)
  then have "path_to_xyz td (meta_path td xml opts x y z) =
      \<lparr>pt_ret = (if check_xyz (X mod 2 ^ 20) (Y mod 2 ^ 20) z then 1 else 0), pt_xmlconfig = Some xml,
       pt_x = Some (X mod 2 ^ 20), pt_y = Some (Y mod 2 ^ 20), pt_z = Some z\<rparr>"
    by (intro path_to_xyz_meta_path [OF assms(2-4)]) (simp_all only: X_def Y_def metatile_corner)
  moreover have "snprintf len (meta_path td xml opts x y z) = meta_path td xml opts x y z"
    using assms(5) by (simp add: snprintf_def)
  ultimately show ?thesis
    unfolding xyzo_to_meta_path fst_conv m using n unfolding X_def Y_def by simp
qed

text \<open>
  C16. Round trip: reading the path that was built for a tile, of any parameterisation, yields the map
  name, the zoom and the corner of the metatile that holds the tile, and accepts it, for every tile
  within the bounds of its zoom, provided the path fits its buffer and the map name is a path
  component of at most 40 characters.
\<close>

theorem path_roundtrip:
  assumes "\<not> check_xyz x y z" "xml \<noteq> []" "length xml \<le> XMLNAME_MAX" "CHR ''/'' \<notin> set xml"
    and "length (meta_path td xml opts x y z) < len"
  shows "path_to_xyz td (fst (xyzo_to_meta len td xml opts x y z)) =
    \<lparr>pt_ret = 0, pt_xmlconfig = Some xml, pt_x = Some (x - x mod METATILE), pt_y = Some (y - y mod METATILE), pt_z = Some z\<rparr>"
  using path_roundtrip_lemma [OF assms] .

theorem path_roundtrip_witness:
  "path_to_xyz ''/tiles'' (fst (xyzo_to_meta 4096 ''/tiles'' ''osm'' ''de'' 1234 567 12)) =
    \<lparr>pt_ret = 0, pt_xmlconfig = Some ''osm'', pt_x = Some (1234 - 1234 mod METATILE),
     pt_y = Some (567 - 567 mod METATILE), pt_z = Some 12\<rparr>"
proof (rule path_roundtrip)
  show "length (meta_path ''/tiles'' ''osm'' ''de'' 1234 567 12) < 4096" by code_simp
qed (simp_all add: check_xyz_def MAX_ZOOM_def XMLNAME_MAX_def)


lemma meta_offset_bound: "meta_offset x y < 64"
proof -
  have "0 \<le> x mod 8" "x mod 8 \<le> 7" "0 \<le> y mod 8" "y mod 8 \<le> 7" using pos_mod_bound [of 8 x] pos_mod_bound [of 8 y] by simp_all
  then have "x mod 8 * 8 + y mod 8 < 64" by linarith
  then show ?thesis by (simp add: meta_offset_def METATILE_def and_7)
qed

lemma meta_offset_inj:
  assumes "meta_offset x y = meta_offset x' y'" "x - x mod 8 = x' - x' mod 8" "y - y mod 8 = y' - y' mod 8"
  shows "x = x' \<and> y = y'"
proof -
  have r: "0 \<le> x mod 8" "x mod 8 < 8" "0 \<le> y mod 8" "y mod 8 < 8" "0 \<le> x' mod 8" "x' mod 8 < 8" "0 \<le> y' mod 8" "y' mod 8 < 8"
    by simp_all
  have "nat (x mod 8 * 8 + y mod 8) = nat (x' mod 8 * 8 + y' mod 8)"
    using assms(1) by (simp add: meta_offset_def METATILE_def and_7)
  then have "x mod 8 * 8 + y mod 8 = x' mod 8 * 8 + y' mod 8"
    using r by (simp add: nat_eq_iff2)
  moreover have "(x mod 8 * 8 + y mod 8) div 8 = x mod 8" "(x' mod 8 * 8 + y' mod 8) div 8 = x' mod 8" by simp_all
  ultimately have "x mod 8 = x' mod 8 \<and> y mod 8 = y' mod 8" by (metis add_left_cancel)
  with assms(2,3) show ?thesis by linarith
qed

text \<open>
  Two different tiles within bounds never share both their metatile file and their place in it:
  the path and the offset together determine the tile. The offset is always below 64.
\<close>

theorem path_and_offset_injective:
  assumes "\<not> check_xyz x y z" "\<not> check_xyz x' y' z'" "xml \<noteq> []" "length xml \<le> XMLNAME_MAX" "CHR ''/'' \<notin> set xml"
    and "length (meta_path td xml opts x y z) < len" "length (meta_path td xml opts x' y' z') < len"
    and "xyzo_to_meta len td xml opts x y z = xyzo_to_meta len td xml opts x' y' z'"
  shows "(x, y, z) = (x', y', z') \<and> snd (xyzo_to_meta len td xml opts x y z) < 64"
proof -
  note r = path_roundtrip_lemma [OF assms(1,3-6)] path_roundtrip_lemma [OF assms(2-5,7)]
  have "x - x mod 8 = x' - x' mod 8" "y - y mod 8 = y' - y' mod 8" "z = z'"
    using r assms(8) by (simp_all add: METATILE_def)
  moreover have "meta_offset x y = meta_offset x' y'" using assms(8) by (simp add: xyzo_to_meta_path)
  ultimately show ?thesis using meta_offset_inj meta_offset_bound by (simp add: xyzo_to_meta_path)
qed

theorem path_and_offset_injective_witness:
  "(5, 6, 4) = (5 :: int, 6 :: int, 4 :: int) \<and> snd (xyzo_to_meta 4096 ''/tiles'' ''osm'' [] 5 6 4) < 64"
proof (rule path_and_offset_injective [where xml = "''osm''" and td = "''/tiles''" and len = 4096])
  show "length (meta_path ''/tiles'' ''osm'' [] 5 6 4) < 4096" by code_simp
  show "length (meta_path ''/tiles'' ''osm'' [] 5 6 4) < 4096" by code_simp
qed (simp_all add: check_xyz_def MAX_ZOOM_def XMLNAME_MAX_def)

text \<open>
  A path is only accepted with all outputs assigned and coordinates within the bounds of the zoom;
  every rejected path has a positive return value and, unless all seven fields matched and were
  valid, leaves the coordinates unassigned.
\<close>

theorem path_to_xyz_accepts_only_valid:
  shows "case path_to_xyz td p of r \<Rightarrow>
    (pt_ret r = 0 \<and> (\<exists>xml x y z. pt_xmlconfig r = Some xml \<and> pt_x r = Some x \<and> pt_y r = Some y \<and> pt_z r = Some z
        \<and> \<not> check_xyz x y z))
    \<or> (pt_ret r \<in> {1, 2} \<and> (pt_x r = None \<or> (\<exists>x y z. pt_x r = Some x \<and> pt_y r = Some y \<and> pt_z r = Some z \<and> check_xyz x y z)))"
  by (auto simp: path_to_xyz_def Let_def case_prod_beta split: if_splits option.splits list.splits)

text \<open>
  \<open>mkdirp\<close> never removes or changes a node, and when it returns zero for a path that fits its
  buffer, every directory above the path's last component exists.
\<close>

theorem mkdirp_creates_parents:
  assumes "mkdirp deny fs path = (0, fs')" "length path < PATH_MAX" "path = par @ CHR ''/'' # name" "CHR ''/'' \<notin> set name" "par \<noteq> []"
  shows "fs \<subseteq>\<^sub>m fs' \<and> fs' par = Some FDir"
proof -
  have t: "take (PATH_MAX - 1) path = path" using assms(2) by simp
  obtain p n where s: "strrchr path (CHR ''/'') = Some (p, n)"
    using strrchr_None [of path "CHR ''/''"] assms(3) by (cases "strrchr path (CHR ''/'')") auto
  from strrchr_Some [OF this] assms(3,4) have "p = par" "n = name"
    by (auto simp: append_eq_append_conv2 append_eq_Cons_conv Cons_eq_append_conv)
  show ?thesis
  proof (cases "fs par")
    case (Some nd)
    with assms(1) s \<open>p = par\<close> show ?thesis unfolding mkdirp_def Let_def t by (auto split: if_splits)
  next
    case None
    obtain c cs where c: "par = c # cs" using assms(5) by (cases par) auto
    then have "mkdir_walk deny fs [c] (cs @ CHR ''/'' # name) = (0, fs')"
      using assms(1,3) s None \<open>p = par\<close> unfolding mkdirp_def Let_def t by simp
    from mkdir_walk_creates [OF this] mkdir_walk_keeps [OF this] c show ?thesis by simp
  qed
qed

theorem mkdirp_creates_parents_witness:
  "[''/t'' \<mapsto> FDir] \<subseteq>\<^sub>m [''/t'' \<mapsto> FDir, ''/t/osm'' \<mapsto> FDir] \<and> [''/t'' \<mapsto> FDir, ''/t/osm'' \<mapsto> FDir] ''/t/osm'' = Some FDir"
proof (rule mkdirp_creates_parents [where deny = "\<lambda>_. False" and path = "''/t/osm/5.meta''" and name = "''5.meta''"])
  show "mkdirp (\<lambda>_. False) [''/t'' \<mapsto> FDir] ''/t/osm/5.meta'' = (0, [''/t'' \<mapsto> FDir, ''/t/osm'' \<mapsto> FDir])"
    by (simp add: mkdirp_def PATH_MAX_def strrchr_def)
qed (simp_all add: PATH_MAX_def)

lemma shift_out: "0 \<le> w \<Longrightarrow> w < 2 ^ 20 \<Longrightarrow> (drop_bit 4 ^^ 5) (w AND NOT (METATILE - 1)) = (0 :: int)"
proof -
  assume w: "0 \<le> w" "w < 2 ^ 20"
  have "0 \<le> w - w mod 8" "w - w mod 8 \<le> w" using w(1) by (simp_all add: minus_mod_eq_mult_div)
  then have "(w - w mod 8) div 1048576 = 0" using w by (intro div_pos_pos_trivial) auto
  then show ?thesis
    unfolding metatile_corner by (simp add: METATILE_def drop_bit_eq_div numeral_eq_Suc zdiv_zmult2_eq [symmetric])
qed

text \<open>
  In the build without \<open>DIRECTORY_HASH\<close> the path does not depend on the tile: the loop over the
  hash has shifted both coordinates to zero, so that all metatiles of a zoom get the same file.
\<close>

theorem flat_layout_collides:
  assumes "\<not> check_xyz x y z" "\<not> check_xyz x' y' z"
  shows "fst (xyzo_to_meta_flat len td xml opts x y z) = fst (xyzo_to_meta_flat len td xml opts x' y' z)"
  using in_bounds_20 [OF assms(1)] in_bounds_20 [OF assms(2)]
  by (simp add: xyzo_to_meta_flat_def Let_def shift_out del: funpow.simps)

theorem flat_layout_collides_witness:
  "fst (xyzo_to_meta_flat 4096 ''/tiles'' ''osm'' [] 0 0 10) = fst (xyzo_to_meta_flat 4096 ''/tiles'' ''osm'' [] 900 512 10)"
  by (rule flat_layout_collides) (simp_all add: check_xyz_def MAX_ZOOM_def)

text \<open>Reading such a path back yields the first tile of the zoom level, whatever tile it was built for.\<close>

lemma flat_layout_reads_origin:
  assumes "\<not> check_xyz x y z" "xml \<noteq> []" "length xml \<le> XMLNAME_MAX" "CHR ''/'' \<notin> set xml"
    and "path = fst (xyzo_to_meta_flat len td xml opts x y z)" "length td + length xml + length opts + 100 < len"
  shows "path_to_xyz_flat None td path = \<lparr>pt_ret = 0, pt_xmlconfig = Some xml, pt_x = Some 0, pt_y = Some 0, pt_z = Some z\<rparr>"
proof -
  note b = in_bounds_20 [OF assms(1)]
  have sx: "(drop_bit 4 ^^ 5) (x AND NOT (METATILE - 1)) = 0" and sy: "(drop_bit 4 ^^ 5) (y AND NOT (METATILE - 1)) = 0"
    by (rule shift_out [OF b(3,4)], rule shift_out [OF b(5,6)])
  have z: "length (show_int z) \<le> 2"
  proof -
    have "nat z < 100" using b by simp
    then have "length (show_nat (nat z)) \<le> 2" by (subst show_nat.simps, subst show_nat.simps) auto
    then show ?thesis using b by (simp add: show_int_def)
  qed
  let ?rest = "concat (map (\<lambda>v. CHR ''/'' # show_int v) [z, 0, 0]) @ leaf_of opts"
  have full: "path = td @ CHR ''/'' # xml @ ?rest"
  proof -
    have "path = snprintf len (td @ ''/'' @ xml @ ''/'' @ show_int z @ ''/'' @ show_nat 0 @ ''/'' @ show_nat 0 @ leaf_of opts)"
      unfolding assms(5) xyzo_to_meta_flat_def Let_def sx sy by (simp add: leaf_of_def)
    moreover have "show_nat 0 = show_int 0" by (simp add: show_int_def)
    moreover have zero: "length (show_nat 0) = 1" by (subst show_nat.simps) simp
    moreover have "length (td @ ''/'' @ xml @ ''/'' @ show_int z @ ''/'' @ show_nat 0 @ ''/'' @ show_nat 0 @ leaf_of opts) \<le> len - 1"
      using z assms(6) zero by (auto simp: leaf_of_def)
    ultimately show ?thesis by (simp add: snprintf_def)
  qed
  have "\<forall>v \<in> set [z, 0, 0]. in_int32 v" using b by (auto simp: in_int32_def)
  from scan_ints_printed [OF this no_digit_leaf, of opts] have "scan_ints 3 ?rest = [z, 0, 0]" by (simp add: numeral_3_eq_3)
  moreover have "scan_until XMLNAME_MAX (CHR ''/'') (xml @ ?rest) = Some (xml, ?rest)"
    using scan_until_field [OF assms(2-4)] by simp
  moreover have "\<not> check_xyz 0 0 z" using b by (simp add: check_xyz_def Let_def MAX_ZOOM_def not_less)
  ultimately show ?thesis
    unfolding full by (simp add: path_to_xyz_flat_def scan_char_def Let_def del: map_eq_Cons_conv concat.simps list.map)
qed

end
