(* ===== verification/Store.thy ===== *)
theory Store
  imports Tile_Paths Protocol
begin

text \<open>
  The interface of the tile storages (\<^verbatim>\<open>includes/store.h\<close>), the choice of a storage from its option
  string (\<^verbatim>\<open>src/store.c\<close>), the storage that keeps nothing (\<^verbatim>\<open>src/store_null.c\<close>) and the format of a
  metatile file (\<^verbatim>\<open>includes/metatile.h\<close>, \<^verbatim>\<open>src/metatile.cpp\<close>). A storage is a record of operations over a
  state \<open>'st\<close>, as \<open>struct storage_backend\<close> is a record of function pointers and a context. What every
  storage promises is the locale \<open>tile_storage\<close>.
\<close>

section \<open>The interface\<close>

record stat_info =
  si_size :: int
  si_atime :: int
  si_mtime :: int
  si_ctime :: int
  si_expired :: int

text \<open>
  What a read leaves behind: the return value, the bytes stored into the caller's buffer and the
  \<open>compressed\<close> flag (\<open>None\<close>: not assigned). The message written for the log is not modelled.
\<close>

record read_result =
  rr_ret :: int
  rr_buf :: "byte list"
  rr_compressed :: "int option"

definition read_error :: "int \<Rightarrow> read_result" where
  "read_error r = \<lparr>rr_ret = r, rr_buf = [], rr_compressed = None\<rparr>"

record 'st storage_backend =
  sb_tile_read :: "'st \<Rightarrow> string \<Rightarrow> string \<Rightarrow> int \<Rightarrow> int \<Rightarrow> int \<Rightarrow> nat \<Rightarrow> read_result"
  sb_tile_stat :: "'st \<Rightarrow> string \<Rightarrow> string \<Rightarrow> int \<Rightarrow> int \<Rightarrow> int \<Rightarrow> stat_info"
  sb_metatile_write :: "'st \<Rightarrow> string \<Rightarrow> string \<Rightarrow> int \<Rightarrow> int \<Rightarrow> int \<Rightarrow> byte list \<Rightarrow> int \<times> 'st"
  sb_metatile_delete :: "'st \<Rightarrow> string \<Rightarrow> int \<Rightarrow> int \<Rightarrow> int \<Rightarrow> int \<times> 'st"
  sb_metatile_expire :: "'st \<Rightarrow> string \<Rightarrow> int \<Rightarrow> int \<Rightarrow> int \<Rightarrow> int \<times> 'st"
  sb_tile_storage_id :: "'st \<Rightarrow> string \<Rightarrow> string \<Rightarrow> int \<Rightarrow> int \<Rightarrow> int \<Rightarrow> string"
  sb_close_storage :: "'st \<Rightarrow> int \<times> 'st"
  sb_storage_ctx :: "'st \<Rightarrow> bool"

text \<open>
  The laws of every storage. A tile without a size cannot be read; a tile that cannot be read
  leaves a negative value; otherwise the value is the number of bytes, within the buffer, and the
  flag is set.
\<close>

locale tile_storage =
  fixes rd :: "'st \<Rightarrow> string \<Rightarrow> string \<Rightarrow> int \<Rightarrow> int \<Rightarrow> int \<Rightarrow> nat \<Rightarrow> read_result"
    and stt :: "'st \<Rightarrow> string \<Rightarrow> string \<Rightarrow> int \<Rightarrow> int \<Rightarrow> int \<Rightarrow> stat_info"
  assumes missing: "si_size (stt s xml opts x y z) < 0 \<Longrightarrow> rr_ret (rd s xml opts x y z sz) < 0"
    and fits: "0 \<le> rr_ret (rd s xml opts x y z sz) \<Longrightarrow>
        rr_ret (rd s xml opts x y z sz) = int (length (rr_buf (rd s xml opts x y z sz)))
        \<and> length (rr_buf (rd s xml opts x y z sz)) \<le> sz
        \<and> rr_compressed (rd s xml opts x y z sz) \<in> {Some 0, Some 1}"
begin

lemma readable_has_size: "0 \<le> rr_ret (rd s xml opts x y z sz) \<Longrightarrow> 0 \<le> si_size (stt s xml opts x y z)"
  using missing by (metis linorder_not_less)

lemma never_overruns: "rr_ret (rd s xml opts x y z sz) \<le> int sz"
  using fits by (cases "0 \<le> rr_ret (rd s xml opts x y z sz)") fastforce+

end

section \<open>Choosing a storage\<close>

datatype storage_kind =
  storageFile | storageRados | storageMemcached | storageHttpProxy | storageComposite | storageNull

text \<open>
  Which storage an option string selects; \<open>stat\<close> tells what is at an absolute path. \<open>None\<close>: a null
  pointer is returned before any storage is initialised.
\<close>

definition storage_choice :: "dirs \<Rightarrow> string \<Rightarrow> storage_kind option" where
  "storage_choice fs options =
     (case options of
        [] \<Rightarrow> None
      | c # _ \<Rightarrow>
          if c = CHR ''/''
          then (case fs options of None \<Rightarrow> None | Some n \<Rightarrow> if n = FDir then Some storageFile else None)
          else if starts_with ''rados://'' options then Some storageRados
          else if starts_with ''memcached://'' options then Some storageMemcached
          else if starts_with ''ro_http_proxy://'' options then Some storageHttpProxy
          else if starts_with ''composite:{'' options then Some storageComposite
          else if starts_with ''null://'' options then Some storageNull
          else None)"

text \<open>The storage of the given kind, or a null pointer when its initialisation fails.\<close>

definition init_storage_backend ::
    "(storage_kind \<Rightarrow> string \<Rightarrow> 'st storage_backend option) \<Rightarrow> dirs \<Rightarrow> string \<Rightarrow> 'st storage_backend option" where
  "init_storage_backend init fs options =
     (case storage_choice fs options of None \<Rightarrow> None | Some k \<Rightarrow> init k options)"

section \<open>The storage that keeps nothing\<close>

definition null_tile_read :: "'st \<Rightarrow> string \<Rightarrow> string \<Rightarrow> int \<Rightarrow> int \<Rightarrow> int \<Rightarrow> nat \<Rightarrow> read_result" where
  "null_tile_read st xmlconfig options x y z sz = read_error (-1)"

definition null_tile_stat :: "'st \<Rightarrow> string \<Rightarrow> string \<Rightarrow> int \<Rightarrow> int \<Rightarrow> int \<Rightarrow> stat_info" where
  "null_tile_stat st xmlconfig options x y z =
     \<lparr>si_size = -1, si_atime = 0, si_mtime = 0, si_ctime = 0, si_expired = 1\<rparr>"

definition null_metatile_write :: "'st \<Rightarrow> string \<Rightarrow> string \<Rightarrow> int \<Rightarrow> int \<Rightarrow> int \<Rightarrow> byte list \<Rightarrow> int \<times> 'st" where
  "null_metatile_write st xmlconfig options x y z buf = (int (length buf), st)"

definition null_metatile_delete :: "'st \<Rightarrow> string \<Rightarrow> int \<Rightarrow> int \<Rightarrow> int \<Rightarrow> int \<times> 'st" where
  "null_metatile_delete st xmlconfig x y z = (0, st)"

definition null_metatile_expire :: "'st \<Rightarrow> string \<Rightarrow> int \<Rightarrow> int \<Rightarrow> int \<Rightarrow> int \<times> 'st" where
  "null_metatile_expire st xmlconfig x y z = (0, st)"

definition null_tile_storage_id :: "'st \<Rightarrow> string \<Rightarrow> string \<Rightarrow> int \<Rightarrow> int \<Rightarrow> int \<Rightarrow> string" where
  "null_tile_storage_id st xmlconfig options x y z = ''null://''"

definition null_close_storage :: "'st \<Rightarrow> int \<times> 'st" where
  "null_close_storage st = (0, st)"

definition init_storage_null :: "bool \<Rightarrow> 'st storage_backend option" where
  "init_storage_null malloc_ok =
     (if \<not> malloc_ok then None
      else Some \<lparr>sb_tile_read = null_tile_read, sb_tile_stat = null_tile_stat,
                 sb_metatile_write = null_metatile_write, sb_metatile_delete = null_metatile_delete,
                 sb_metatile_expire = null_metatile_expire, sb_tile_storage_id = null_tile_storage_id,
                 sb_close_storage = null_close_storage, sb_storage_ctx = (\<lambda>_. False)\<rparr>)"

interpretation null_store: tile_storage null_tile_read null_tile_stat
  by unfold_locales (simp_all add: null_tile_read_def read_error_def)

section \<open>The metatile file\<close>

definition META_MAGIC :: "byte list" where
  "META_MAGIC = map char_byte ''META''"

definition META_MAGIC_COMPRESSED :: "byte list" where
  "META_MAGIC_COMPRESSED = map char_byte ''METZ''"

definition META_COUNT :: nat where
  "META_COUNT = 64"

record entry =
  en_offset :: int
  en_size :: int

record meta_layout =
  ml_magic :: "byte list"
  ml_count :: int
  ml_x :: int
  ml_y :: int
  ml_z :: int

definition sizeof_meta_layout :: nat where
  "sizeof_meta_layout = 20"

definition sizeof_entry :: nat where
  "sizeof_entry = 8"

definition header_size :: nat where
  "header_size = sizeof_meta_layout + sizeof_entry * META_COUNT"

definition layout_bytes :: "meta_layout \<Rightarrow> byte list" where
  "layout_bytes m = ml_magic m @ le32 (ml_count m) @ le32 (ml_x m) @ le32 (ml_y m) @ le32 (ml_z m)"

definition entry_bytes :: "entry \<Rightarrow> byte list" where
  "entry_bytes e = le32 (en_offset e) @ le32 (en_size e)"

definition bytes_layout :: "byte list \<Rightarrow> meta_layout" where
  "bytes_layout bs = \<lparr>ml_magic = take 4 bs, ml_count = rd32 (drop 4 bs), ml_x = rd32 (drop 8 bs),
                      ml_y = rd32 (drop 12 bs), ml_z = rd32 (drop 16 bs)\<rparr>"

definition bytes_entry :: "byte list \<Rightarrow> nat \<Rightarrow> entry" where
  "bytes_entry bs i = \<lparr>en_offset = rd32 (drop (sizeof_meta_layout + sizeof_entry * i) bs),
                       en_size = rd32 (drop (sizeof_meta_layout + sizeof_entry * i + 4) bs)\<rparr>"

text \<open>The 8 by 8 tiles of a metatile being rendered, with the corner \<open>x\<close>, \<open>y\<close> and zoom \<open>z\<close>.\<close>

record metaTile =
  mt_x :: int
  mt_y :: int
  mt_z :: int
  mt_xmlconfig :: string
  mt_options :: string
  mt_tile :: "nat \<Rightarrow> nat \<Rightarrow> byte list"

definition metaTile_new :: "string \<Rightarrow> string \<Rightarrow> int \<Rightarrow> int \<Rightarrow> int \<Rightarrow> metaTile" where
  "metaTile_new xmlconfig options x y z =
     \<lparr>mt_x = x, mt_y = y, mt_z = z, mt_xmlconfig = xmlconfig, mt_options = options, mt_tile = (\<lambda>_ _. [])\<rparr>"

definition metaTile_set :: "nat \<Rightarrow> nat \<Rightarrow> byte list \<Rightarrow> metaTile \<Rightarrow> metaTile" where
  "metaTile_set x y data t = t\<lparr>mt_tile := (mt_tile t)(x := (mt_tile t x)(y := data))\<rparr>"

definition metaTile_get :: "nat \<Rightarrow> nat \<Rightarrow> metaTile \<Rightarrow> byte list" where
  "metaTile_get x y t = mt_tile t x y"

definition xyz_to_meta_offset :: "int \<Rightarrow> int \<Rightarrow> int \<Rightarrow> nat" where
  "xyz_to_meta_offset x y z = nat ((x AND (METATILE - 1)) * METATILE + (y AND (METATILE - 1)))"

text \<open>The order of the two nested loops over the tiles.\<close>

definition tile_order :: "(nat \<times> nat) list" where
  "tile_order = concat (map (\<lambda>ox. map (\<lambda>oy. (ox, oy)) [0..<8]) [0..<8])"

text \<open>The loop that fills the offset table: the table and the offset behind the last tile.\<close>

fun offset_table :: "metaTile \<Rightarrow> entry list \<Rightarrow> nat \<Rightarrow> (nat \<times> nat) list \<Rightarrow> entry list \<times> nat" where
  "offset_table t es off [] = (es, off)"
| "offset_table t es off ((ox, oy) # ps) =
     (let mt = xyz_to_meta_offset (mt_x t + int ox) (mt_y t + int oy) (mt_z t);
          n = length (mt_tile t ox oy)
      in offset_table t (es[mt := \<lparr>en_offset = int off, en_size = int n\<rparr>]) (off + n) ps)"

text \<open>The loop that copies the tiles into the buffer.\<close>

fun copy_tiles :: "metaTile \<Rightarrow> entry list \<Rightarrow> byte list \<Rightarrow> (nat \<times> nat) list \<Rightarrow> byte list" where
  "copy_tiles t es buf [] = buf"
| "copy_tiles t es buf ((ox, oy) # ps) =
     (let mt = xyz_to_meta_offset (mt_x t + int ox) (mt_y t + int oy) (mt_z t)
      in copy_tiles t es (store_at (nat (en_offset (es ! mt))) (mt_tile t ox oy) buf) ps)"

definition metatile_buffer :: "metaTile \<Rightarrow> byte list" where
  "metatile_buffer t =
     (let (es, total) = offset_table t (replicate META_COUNT \<lparr>en_offset = 0, en_size = 0\<rparr>) header_size tile_order;
          m = \<lparr>ml_magic = META_MAGIC, ml_count = int META_COUNT, ml_x = mt_x t, ml_y = mt_y t, ml_z = mt_z t\<rparr>;
          buf = store_at 0 (layout_bytes m @ concat (map entry_bytes es)) (replicate total 0)
      in copy_tiles t es buf tile_order)"

text \<open>\<open>None\<close> for a failing allocation: the metatile is dropped. A failing write only logs.\<close>

definition metaTile_save :: "bool \<Rightarrow> 'st storage_backend \<Rightarrow> 'st \<Rightarrow> metaTile \<Rightarrow> 'st" where
  "metaTile_save malloc_ok sb st t =
     (if \<not> malloc_ok then st
      else snd (sb_metatile_write sb st (mt_xmlconfig t) (mt_options t) (mt_x t) (mt_y t) (mt_z t) (metatile_buffer t)))"

section \<open>What the metatile file holds\<close>

definition tdata :: "metaTile \<Rightarrow> nat \<times> nat \<Rightarrow> byte list" where
  "tdata t p = mt_tile t (fst p) (snd p)"

definition tidx :: "metaTile \<Rightarrow> nat \<times> nat \<Rightarrow> nat" where
  "tidx t p = xyz_to_meta_offset (mt_x t + int (fst p)) (mt_y t + int (snd p)) (mt_z t)"

text \<open>The bytes of the tiles in front of tile number \<open>k\<close>.\<close>

definition before :: "metaTile \<Rightarrow> (nat \<times> nat) list \<Rightarrow> nat \<Rightarrow> nat" where
  "before t ps k = length (concat (map (tdata t) (take k ps)))"

lemma before_0 [simp]: "before t ps 0 = 0"
  by (simp add: before_def)

lemma before_Cons [simp]: "before t (p # ps) (Suc k) = length (tdata t p) + before t ps k"
  by (simp add: before_def)

lemma offset_table_Cons:
  "offset_table t es off (p # ps) =
     offset_table t (es[tidx t p := \<lparr>en_offset = int off, en_size = int (length (tdata t p))\<rparr>]) (off + length (tdata t p)) ps"
  by (cases p) (simp add: Let_def tidx_def tdata_def)

lemma copy_tiles_Cons:
  "copy_tiles t es buf (p # ps) = copy_tiles t es (store_at (nat (en_offset (es ! tidx t p))) (tdata t p) buf) ps"
  by (cases p) (simp add: Let_def tidx_def tdata_def)

lemma offset_table_keeps:
  "i \<notin> tidx t ` set ps \<Longrightarrow> fst (offset_table t es off ps) ! i = es ! i"
  by (induction ps arbitrary: es off) (auto simp: offset_table_Cons simp del: offset_table.simps(2))

lemma offset_table_spec:
  assumes "distinct (map (tidx t) ps)" "\<forall>p \<in> set ps. tidx t p < length es" "offset_table t es off ps = (es', off')"
  shows "off' = off + before t ps (length ps)" "length es' = length es"
    "\<forall>k < length ps. es' ! tidx t (ps ! k) = \<lparr>en_offset = int (off + before t ps k), en_size = int (length (tdata t (ps ! k)))\<rparr>"
  using assms
proof (atomize (full), induction ps arbitrary: es off)
  case Nil
  then show ?case by simp
next
  case (Cons p ps)
  let ?e = "\<lparr>en_offset = int off, en_size = int (length (tdata t p))\<rparr>"
  let ?es = "es[tidx t p := ?e]" and ?off = "off + length (tdata t p)"
  have o: "offset_table t ?es ?off ps = (es', off')" using Cons.prems(3) by (simp add: offset_table_Cons)
  have ih: "off' = ?off + before t ps (length ps)" "length es' = length ?es"
    "\<And>k. k < length ps \<Longrightarrow> es' ! tidx t (ps ! k) = \<lparr>en_offset = int (?off + before t ps k), en_size = int (length (tdata t (ps ! k)))\<rparr>"
    using Cons.IH [OF _ _ o] Cons.prems by auto
  have "es' ! tidx t p = ?es ! tidx t p"
    using offset_table_keeps [of "tidx t p" t ps ?es ?off] o Cons.prems(1) by auto
  then have first: "es' ! tidx t p = ?e" using Cons.prems(2) by simp
  have "es' ! tidx t ((p # ps) ! k) =
      \<lparr>en_offset = int (off + before t (p # ps) k), en_size = int (length (tdata t ((p # ps) ! k)))\<rparr>"
    if "k < length (p # ps)" for k
    using that first ih(3) by (cases k) (auto simp: add.assoc)
  with ih(1,2) show ?case by simp
qed

lemma store_at_middle: "length xs = length ys \<Longrightarrow> store_at (length pre) xs (pre @ ys @ post) = pre @ xs @ post"
  by (simp add: store_at_def)

lemma copy_tiles_spec:
  assumes "\<forall>k < length ps. en_offset (es ! tidx t (ps ! k)) = int (length pre + before t ps k)"
    and "length gap = length (concat (map (tdata t) ps))"
  shows "copy_tiles t es (pre @ gap) ps = pre @ concat (map (tdata t) ps)"
  using assms
proof (induction ps arbitrary: pre gap)
  case Nil
  then show ?case by simp
next
  case (Cons p ps)
  define g1 g2 where "g1 = take (length (tdata t p)) gap" and "g2 = drop (length (tdata t p)) gap"
  then have g: "gap = g1 @ g2" "length g1 = length (tdata t p)" "length g2 = length (concat (map (tdata t) ps))"
    using Cons.prems(2) by simp_all
  have "en_offset (es ! tidx t p) = int (length pre)" using Cons.prems(1) by force
  then have "copy_tiles t es (pre @ gap) (p # ps) = copy_tiles t es ((pre @ tdata t p) @ g2) ps"
    using store_at_middle [of "tdata t p" g1 pre g2] g by (simp add: copy_tiles_Cons)
  also have "\<dots> = (pre @ tdata t p) @ concat (map (tdata t) ps)"
  proof (rule Cons.IH)
    show "\<forall>k < length ps. en_offset (es ! tidx t (ps ! k)) = int (length (pre @ tdata t p) + before t ps k)"
      using Cons.prems(1) by (auto simp: add.assoc)
  qed (use g in simp)
  finally show ?case by simp
qed


text \<open>The corner of a metatile is at multiples of eight.\<close>

definition aligned :: "metaTile \<Rightarrow> bool" where
  "aligned t \<longleftrightarrow> mt_x t mod 8 = 0 \<and> mt_y t mod 8 = 0"

lemma add_mod_aligned: "x mod 8 = 0 \<Longrightarrow> n < 8 \<Longrightarrow> (x + int n) mod 8 = int n"
  by (simp add: mod_add_eq [of x 8 "int n", symmetric])

lemma offset_aligned:
  assumes "x mod 8 = 0" "y mod 8 = 0" "ox < 8" "oy < 8"
  shows "meta_offset (x + int ox) (y + int oy) = 8 * ox + oy"
  using add_mod_aligned [OF assms(1,3)] add_mod_aligned [OF assms(2,4)]
  by (simp add: meta_offset_def METATILE_def and_7 nat_add_distrib nat_mult_distrib)

lemma tidx_aligned: "aligned t \<Longrightarrow> fst p < 8 \<Longrightarrow> snd p < 8 \<Longrightarrow> tidx t p = 8 * fst p + snd p"
  using offset_aligned by (simp add: tidx_def xyz_to_meta_offset_def aligned_def meta_offset_def)

lemma tile_order_bounds: "\<forall>p \<in> set tile_order. fst p < 8 \<and> snd p < 8"
  by (auto simp: tile_order_def)

lemma length_tile_order [simp]: "length tile_order = 64"
  by (simp add: tile_order_def upt_rec)

lemma tile_order_indices: "map (\<lambda>p. 8 * fst p + snd p) tile_order = [0..<64]"
  by (simp add: tile_order_def upt_rec)

lemma tidx_order:
  assumes "aligned t"
  shows "map (tidx t) tile_order = [0..<64]"
proof -
  have "map (tidx t) tile_order = map (\<lambda>p. 8 * fst p + snd p) tile_order"
    using tile_order_bounds tidx_aligned [OF assms] by simp
  then show ?thesis using tile_order_indices by simp
qed

lemma tile_order_nth:
  assumes "ox < 8" "oy < 8"
  shows "tile_order ! (8 * ox + oy) = (ox, oy)"
proof -
  have k: "8 * ox + oy < 64" using assms by linarith
  have "map (\<lambda>p. 8 * fst p + snd p) tile_order ! (8 * ox + oy) = 8 * ox + oy"
    unfolding tile_order_indices using k by simp
  then have e: "8 * fst (tile_order ! (8 * ox + oy)) + snd (tile_order ! (8 * ox + oy)) = 8 * ox + oy" using k by simp
  moreover have "fst (tile_order ! (8 * ox + oy)) < 8 \<and> snd (tile_order ! (8 * ox + oy)) < 8"
    using tile_order_bounds k by (metis length_tile_order nth_mem)
  ultimately have "fst (tile_order ! (8 * ox + oy)) = ox" using assms by linarith
  with e show ?thesis by (simp add: prod_eq_iff)
qed

lemmas meta_sizes = header_size_def sizeof_meta_layout_def sizeof_entry_def META_COUNT_def

definition layout_of :: "metaTile \<Rightarrow> meta_layout" where
  "layout_of t = \<lparr>ml_magic = META_MAGIC, ml_count = int META_COUNT, ml_x = mt_x t, ml_y = mt_y t, ml_z = mt_z t\<rparr>"

definition entries_of :: "metaTile \<Rightarrow> entry list" where
  "entries_of t = map (\<lambda>k. \<lparr>en_offset = int (header_size + before t tile_order k),
                             en_size = int (length (tdata t (tile_order ! k)))\<rparr>) [0..<64]"

lemma length_entry_bytes [simp]: "length (entry_bytes e) = 8"
  by (simp add: entry_bytes_def)

lemma length_layout_of [simp]: "length (layout_bytes (layout_of t)) = 20"
  by (simp add: layout_bytes_def layout_of_def META_MAGIC_def)

lemma length_entries: "length (concat (map entry_bytes es)) = 8 * length es"
  by (induction es) simp_all

lemma metatile_buffer_form:
  assumes "aligned t"
  shows "metatile_buffer t =
    layout_bytes (layout_of t) @ concat (map entry_bytes (entries_of t)) @ concat (map (tdata t) tile_order)"
proof -
  let ?es0 = "replicate META_COUNT \<lparr>en_offset = 0, en_size = 0\<rparr>"
  obtain es total where o: "offset_table t ?es0 header_size tile_order = (es, total)" by fastforce
  note tx = tidx_order [OF assms]
  have d: "distinct (map (tidx t) tile_order)" unfolding tx by simp
  have "tidx t ` set tile_order = {0..<64}" using tx by (metis atLeastLessThan_upt list.set_map)
  then have b: "\<forall>p \<in> set tile_order. tidx t p < length ?es0" by (auto simp: META_COUNT_def)
  note sp = offset_table_spec [OF d b o]
  have k: "tidx t (tile_order ! k) = k" if "k < 64" for k
    using that tx by (metis add.left_neutral length_tile_order nth_map nth_upt)
  have "es = entries_of t"
    by (rule nth_equalityI) (use sp(2,3) k in \<open>auto simp: entries_of_def META_COUNT_def\<close>)
  let ?data = "concat (map (tdata t) tile_order)"
  let ?pre = "layout_bytes (layout_of t) @ concat (map entry_bytes es)"
  have pre: "length ?pre = header_size"
    using sp(2) by (simp add: length_entries meta_sizes)
  have tot: "total = header_size + length ?data" using sp(1) by (simp add: before_def)
  have "store_at 0 ?pre (replicate total 0) = ?pre @ replicate (length ?data) (0 :: byte)"
    using pre tot by (simp add: store_at_def del: length_append)
  moreover have "\<forall>k < length tile_order. en_offset (es ! tidx t (tile_order ! k)) = int (length ?pre + before t tile_order k)"
    using sp(3) pre by (simp del: length_append)
  from copy_tiles_spec [OF this, of "replicate (length ?data) 0"]
  have "copy_tiles t es (?pre @ replicate (length ?data) 0) tile_order = ?pre @ ?data" by simp
  ultimately show ?thesis
    using o \<open>es = entries_of t\<close> by (simp add: metatile_buffer_def layout_of_def)
qed

text \<open>Reading the header back, and the bytes of one tile.\<close>

definition meta_header :: "metaTile \<Rightarrow> byte list" where
  "meta_header t = layout_bytes (layout_of t) @ concat (map entry_bytes (entries_of t))"

lemma length_entries_of [simp]: "length (entries_of t) = 64"
  by (simp add: entries_of_def)

lemma length_meta_header [simp]: "length (meta_header t) = 532"
  by (simp add: meta_header_def length_entries)

lemma buffer_header: "aligned t \<Longrightarrow> metatile_buffer t = meta_header t @ concat (map (tdata t) tile_order)"
  by (simp add: metatile_buffer_form meta_header_def)

lemma drop_entries: "drop (8 * i) (concat (map entry_bytes es)) = concat (map entry_bytes (drop i es))"
proof (induction i arbitrary: es)
  case (Suc i)
  show ?case
  proof (cases es)
    case (Cons e es')
    have "drop (8 * Suc i) (entry_bytes e @ concat (map entry_bytes es')) = drop (8 * i) (concat (map entry_bytes es'))"
      by simp
    with Suc Cons show ?thesis by simp
  qed simp
qed simp

lemma before_Suc_le: "i < 64 \<Longrightarrow> before t tile_order i + length (tdata t (tile_order ! i)) \<le> before t tile_order 64"
proof -
  assume i: "i < 64"
  have "take (Suc i) tile_order = take i tile_order @ [tile_order ! i]" using i by (simp add: take_Suc_conv_app_nth)
  then have "before t tile_order i + length (tdata t (tile_order ! i)) = before t tile_order (Suc i)"
    by (simp add: before_def)
  also have "\<dots> \<le> before t tile_order 64"
  proof -
    have "take 64 tile_order = take (Suc i) tile_order @ drop (Suc i) tile_order" by simp
    then show ?thesis unfolding before_def by (metis concat_append le_add1 length_append map_append)
  qed
  finally show ?thesis .
qed

lemma header_entry:
  assumes "i < 64" "in_int32 (int (length (metatile_buffer t)))" "aligned t"
  shows "bytes_entry (meta_header t) i = entries_of t ! i"
proof -
  obtain e es where e: "drop i (entries_of t) = e # es" "e = entries_of t ! i"
    using assms(1) Cons_nth_drop_Suc [of i "entries_of t"] by (metis length_entries_of)
  have "length (metatile_buffer t) = 532 + before t tile_order 64"
    using buffer_header [OF assms(3)] by (simp add: before_def)
  moreover have "before t tile_order i + length (tdata t (tile_order ! i)) \<le> before t tile_order 64"
    using before_Suc_le [of i t] assms(1) by simp
  ultimately have b: "in_int32 (en_offset e)" "in_int32 (en_size e)"
    using assms(1,2) e(2) by (auto simp: entries_of_def in_int32_def meta_sizes)
  have d: "drop (20 + 8 * i) (meta_header t) = concat (map entry_bytes (drop i (entries_of t)))"
    using drop_entries [of i "entries_of t"] by (simp add: meta_header_def)
  have d4: "drop (20 + 8 * i + 4) (meta_header t) = drop 4 (concat (map entry_bytes (drop i (entries_of t))))"
    unfolding d [symmetric] by (simp add: add.commute)
  have "rd32 (drop (20 + 8 * i) (meta_header t)) = en_offset e"
    unfolding d e(1) using b(1) by (simp add: entry_bytes_def rd32_le32)
  moreover have "rd32 (drop (20 + 8 * i + 4) (meta_header t)) = en_size e"
    unfolding d4 e(1) using b(2) by (simp add: entry_bytes_def rd32_le32)
  ultimately show ?thesis
    by (simp add: bytes_entry_def sizeof_meta_layout_def sizeof_entry_def e(2))
qed

lemma header_layout:
  "take 4 (meta_header t) = META_MAGIC" "rd32 (drop 4 (meta_header t)) = 64"
  by (simp_all add: meta_header_def layout_bytes_def layout_of_def META_MAGIC_def META_COUNT_def rd32_le32 in_int32_def)

lemma tile_bytes:
  assumes "i < 64" "aligned t"
  shows "take (length (tdata t (tile_order ! i))) (drop (header_size + before t tile_order i) (metatile_buffer t))
    = tdata t (tile_order ! i)"
proof -
  have "map (tdata t) tile_order = map (tdata t) (take i tile_order) @ tdata t (tile_order ! i) # map (tdata t) (drop (Suc i) tile_order)"
    using id_take_nth_drop [of i tile_order] assms(1) by (metis length_tile_order list.simps(9) map_append)
  then have "concat (map (tdata t) tile_order) = concat (map (tdata t) (take i tile_order)) @ tdata t (tile_order ! i)
      @ concat (map (tdata t) (drop (Suc i) tile_order))"
    by (metis concat.simps(2) concat_append)
  then show ?thesis
    using buffer_header [OF assms(2)] by (simp add: before_def meta_sizes)
qed

end
