(* ===== verification/Mod_Tile.thy ===== *)
theory Mod_Tile
  imports Tile_Request Mod_Tile_Stats Store
begin

text \<open>
  The request hooks of the Apache module (\<^verbatim>\<open>src/mod_tile.c\<close>): the translation of an address to a tile, the
  decision whether a tile is served, rendered first or refused, and the handlers that produce the
  answers. A request is a record that the hooks fill in, as Apache's \<open>request_rec\<close> is. The server's state is
  the world outside (sockets and storages), the statistics, the token buckets and the storages the thread
  has opened. Functions of Apache, the clock, the load and the random numbers are parameters. A result
  \<open>None\<close> is a step the C standard does not define (an index out of bounds, an unset variable, a null
  pointer) or lack of fuel.
\<close>

section \<open>Data\<close>

text \<open>What is kept with a request. Its pointer to the storage is the entry of the thread's storages for the layer (\<open>store_of\<close>).\<close>

record tile_request_data =
  td_cmd :: "protocol option"
  td_layerNumber :: int
  td_tileState :: tileState

record request_rec =
  rq_uri :: string
  rq_method :: string
  rq_hostname :: string
  rq_useragent_ip :: string
  rq_headers_in :: "string \<Rightarrow> string option"
  rq_header_only :: bool
  rq_request_time :: int
  rq_handler :: "string option"
  rq_rdata :: "tile_request_data option"
  rq_mtime :: int
  rq_atime :: int
  rq_ctime :: int
  rq_headers_out :: "(string \<times> string) list"
  rq_content_type :: "string option"
  rq_content_encoding :: "string option"
  rq_content_length :: "int option"
  rq_body :: "byte list"

text \<open>The storages a thread has opened, one slot per layer; \<open>None\<close> before the first request.\<close>

record 'w server =
  sv_world :: 'w
  sv_stats :: stats_data
  sv_pool :: delaypool
  sv_stores :: "'w storage_backend option list option"
  sv_open :: "int list"

record 'w henv =
  he_scfg :: tile_server_conf
  he_gmax :: int
  he_os :: "'w module_os"
  he_fuel :: nat
  he_lock :: lock_try
  he_timing_lock :: lock_try
  he_throttle :: throttle_env
  he_loadavg :: "rat option"
  he_rand :: int
  he_init :: "string \<Rightarrow> 'w storage_backend option"
  he_md5 :: "byte list \<Rightarrow> string"
  he_date :: "int \<Rightarrow> string"
  he_ctime :: "int \<Rightarrow> string"
  he_meets :: "request_rec \<Rightarrow> int"
  he_alloc :: bool
  he_start :: int
  he_end :: int

definition MAX_SIZE :: nat where
  "MAX_SIZE = 1024 * 1024"

text \<open>The tables of header lines: \<open>apr_table_setn\<close> and \<open>apr_table_mergen\<close>.\<close>

definition table_set :: "string \<Rightarrow> string \<Rightarrow> (string \<times> string) list \<Rightarrow> (string \<times> string) list" where
  "table_set k v t = filter (\<lambda>e. fst e \<noteq> k) t @ [(k, v)]"

definition table_merge :: "string \<Rightarrow> string \<Rightarrow> (string \<times> string) list \<Rightarrow> (string \<times> string) list" where
  "table_merge k v t =
     (case map_of t k of None \<Rightarrow> t @ [(k, v)] | Some _ \<Rightarrow> map (\<lambda>(k', v'). if k' = k then (k', v' @ '', '' @ v) else (k', v')) t)"

definition set_out :: "string \<Rightarrow> string \<Rightarrow> request_rec \<Rightarrow> request_rec" where
  "set_out k v r = r\<lparr>rq_headers_out := table_set k v (rq_headers_out r)\<rparr>"

definition merge_out :: "string \<Rightarrow> string \<Rightarrow> request_rec \<Rightarrow> request_rec" where
  "merge_out k v r = r\<lparr>rq_headers_out := table_merge k v (rq_headers_out r)\<rparr>"

definition text_bytes :: "string \<Rightarrow> byte list" where
  "text_bytes s = map char_byte s"

section \<open>Helpers\<close>

definition error_message :: "string \<Rightarrow> request_rec \<Rightarrow> int \<times> request_rec" where
  "error_message msg r =
     (HTTP_OK, r\<lparr>rq_content_type := Some ''text/plain'',
                 rq_body := (if rq_header_only r then rq_body r else rq_body r @ text_bytes msg)\<rparr>)"

definition get_load_avg :: "rat option \<Rightarrow> rat" where
  "get_load_avg la = (case la of None \<Rightarrow> 1000 | Some v \<Rightarrow> v)"

definition throttle_of :: "tile_server_conf \<Rightarrow> throttle_conf" where
  "throttle_of scfg =
     \<lparr>tc_xforward = sc_enable_tile_throttling_xforward scfg, tc_tile_size = sc_delaypool_tile_size scfg,
      tc_render_size = sc_delaypool_render_size scfg, tc_tile_rate = sc_delaypool_tile_rate scfg,
      tc_render_rate = sc_delaypool_render_rate scfg\<rparr>"

text \<open>The storage of a layer for the current thread: opened once, asked for again as long as that fails.\<close>

definition get_storage_backend :: "'w henv \<Rightarrow> nat \<Rightarrow> 'w server \<Rightarrow> 'w storage_backend option \<times> 'w server" where
  "get_storage_backend he layer sv =
     (let stores = (case sv_stores sv of None \<Rightarrow> replicate (length (sc_configs (he_scfg he))) None | Some ss \<Rightarrow> ss);
          store = (case stores ! layer of
                     None \<Rightarrow> he_init he (tr_store (sc_configs (he_scfg he) ! layer))
                   | Some b \<Rightarrow> Some b)
      in (store, sv\<lparr>sv_stores := Some (stores[layer := store])\<rparr>))"

text \<open>When the thread ends its storages are closed, one after the other.\<close>

fun close_stores :: "'w storage_backend option list \<Rightarrow> 'w \<Rightarrow> 'w" where
  "close_stores [] w = w"
| "close_stores (None # ss) w = close_stores ss w"
| "close_stores (Some b # ss) w = close_stores ss (snd (sb_close_storage b w))"

definition cleanup_storage_backend :: "'w server \<Rightarrow> 'w server" where
  "cleanup_storage_backend sv =
     (case sv_stores sv of None \<Rightarrow> sv | Some ss \<Rightarrow> sv\<lparr>sv_world := close_stores ss (sv_world sv), sv_stores := None\<rparr>)"

definition store_of :: "tile_request_data \<Rightarrow> 'w server \<Rightarrow> 'w storage_backend option" where
  "store_of rd sv = (case sv_stores sv of None \<Rightarrow> None | Some ss \<Rightarrow> ss ! nat (td_layerNumber rd))"

text \<open>The state of a tile; the times of the file are noted in the request.\<close>

definition tile_state :: "'w henv \<Rightarrow> 'w storage_backend \<Rightarrow> 'w server \<Rightarrow> protocol \<Rightarrow> request_rec \<Rightarrow> tileState \<times> request_rec" where
  "tile_state he b sv cmd r =
     (let st = sb_tile_stat b (sv_world sv) (pr_xmlname cmd) (pr_options cmd) (pr_x cmd) (pr_y cmd) (pr_z cmd);
          r' = r\<lparr>rq_mtime := si_mtime st * 1000000, rq_atime := si_atime st * 1000000, rq_ctime := si_ctime st * 1000000\<rparr>
      in (if si_size st < 0 then tileMissing
          else if si_expired st \<noteq> 0
          then if rq_request_time r' - rq_mtime r' < sc_very_old_threshold (he_scfg he) then tileOld else tileVeryOld
          else tileCurrent, r'))"

definition ensure_state :: "'w henv \<Rightarrow> 'w storage_backend \<Rightarrow> 'w server \<Rightarrow> protocol \<Rightarrow> tile_request_data \<Rightarrow> request_rec \<Rightarrow> tile_request_data \<times> request_rec" where
  "ensure_state he b sv cmd rd r =
     (if td_tileState rd = tileUnknown
      then let (ts, r') = tile_state he b sv cmd r; rd' = rd\<lparr>td_tileState := ts\<rparr> in (rd', r'\<lparr>rq_rdata := Some rd'\<rparr>)
      else (rd, r))"

definition add_cors :: "string \<Rightarrow> request_rec \<Rightarrow> int \<times> request_rec" where
  "add_cors cors r =
     (case rq_headers_in r ''Origin'' of
        None \<Rightarrow> (HTTP_DONE, r)
      | Some origin \<Rightarrow>
          if cors = ''*'' \<or> strstr cors origin \<noteq> None
          then let r1 = (if cors = ''*'' then set_out ''Access-Control-Allow-Origin'' cors r
                         else set_out ''Vary'' ''Origin'' (set_out ''Access-Control-Allow-Origin'' origin r))
               in if rq_method r = ''OPTIONS'' \<and> rq_headers_in r ''Access-Control-Request-Method'' \<noteq> None
                  then let r2 = (case rq_headers_in r ''Access-Control-Request-Headers'' of
                                   None \<Rightarrow> r1 | Some h \<Rightarrow> set_out ''Access-Control-Allow-Headers'' h r1)
                       in (HTTP_OK, set_out ''Access-Control-Max-Age'' ''604800'' r2)
                  else (HTTP_DONE, r1)
          else (HTTP_FORBIDDEN, r))"

section \<open>Cache times\<close>

text \<open>A share of \<open>n\<close> seconds, \<open>rand\<close> being between zero and \<open>RAND_MAX\<close>.\<close>

definition jitter :: "rat \<Rightarrow> int \<Rightarrow> int" where
  "jitter n rand = dtrunc (dmul n (ddiv (of_int rand) 2147483648))"

text \<open>The conversion of a \<open>double\<close> to \<open>int\<close>: outside the range the processor delivers the least \<open>int\<close>.\<close>

definition double_to_int :: "rat \<Rightarrow> int" where
  "double_to_int q = (if in_int32 (dtrunc q) then dtrunc q else -2147483648)"

definition last_modified_age :: "tile_server_conf \<Rightarrow> request_rec \<Rightarrow> int" where
  "last_modified_age scfg r =
     double_to_int (dmul (dbl (of_int (cdiv (rq_request_time r - rq_mtime r) 1000000))) (sc_cache_duration_last_modified_factor scfg))"

definition extended_host :: "tile_server_conf \<Rightarrow> request_rec \<Rightarrow> bool" where
  "extended_host scfg r \<longleftrightarrow>
     sc_cache_extended_hostname scfg \<noteq> [] \<and> strstr (rq_hostname r) (sc_cache_extended_hostname scfg) \<noteq> None"

definition max_age :: "tile_server_conf \<Rightarrow> tile_config_rec \<Rightarrow> int \<Rightarrow> tileState \<Rightarrow> protocol \<Rightarrow> request_rec \<Rightarrow> int option" where
  "max_age scfg layer rand state cmd r =
     (if extended_host scfg r then Some (sc_cache_extended_duration scfg)
      else if state = tileOld \<or> state = tileVeryOld
      then Some (min (sc_cache_duration_dirty scfg + jitter (ddiv (of_int (sc_cache_duration_dirty scfg)) 2) rand) (sc_cache_duration_max scfg))
      else if pr_z cmd > tr_maxzoom layer
      then Some (min (max 0 (last_modified_age scfg r) + jitter (3 * 60 * 60) rand) (sc_cache_duration_max scfg))
      else if 0 \<le> pr_z cmd \<and> pr_z cmd < int (length (sc_mincachetime scfg))
      then Some (min (max (sc_mincachetime scfg ! nat (pr_z cmd)) (last_modified_age scfg r) + jitter (3 * 60 * 60) rand)
                     (sc_cache_duration_max scfg))
      else None)"

definition expiry_headers :: "'w henv \<Rightarrow> int \<Rightarrow> request_rec \<Rightarrow> request_rec" where
  "expiry_headers he age r =
     set_out ''Expires'' (he_date he (age * 1000000 + rq_request_time r))
       (merge_out ''Cache-Control'' (''max-age='' @ show_int age) r)"

definition add_expiry ::
    "'w henv \<Rightarrow> 'w storage_backend \<Rightarrow> 'w server \<Rightarrow> protocol \<Rightarrow> tile_request_data \<Rightarrow> request_rec \<Rightarrow> request_rec option" where
  "add_expiry he b sv cmd rd r =
     (let (rd', r') = ensure_state he b sv cmd rd r
      in case max_age (he_scfg he) (sc_configs (he_scfg he) ! nat (td_layerNumber rd')) (he_rand he) (td_tileState rd') cmd r' of
           None \<Rightarrow> None
         | Some age \<Rightarrow> Some (expiry_headers he age r'))"

section \<open>Whether a tile is served\<close>

text \<open>Counting a response; a failing lock only logs.\<close>

definition count_resp :: "'w henv \<Rightarrow> int \<Rightarrow> protocol option \<Rightarrow> int \<Rightarrow> 'w server \<Rightarrow> 'w server option" where
  "count_resp he resp cmd layer sv =
     map_option (\<lambda>(_, st). sv\<lparr>sv_stats := st\<rparr>) (incRespCounter (he_scfg he) (he_lock he) resp cmd layer (sv_stats sv))"

definition count_fresh :: "'w henv \<Rightarrow> freshness \<Rightarrow> 'w server \<Rightarrow> 'w server" where
  "count_fresh he status sv = sv\<lparr>sv_stats := snd (incFreshCounter (he_scfg he) (he_lock he) status (sv_stats sv))\<rparr>"

text \<open>Asking the daemon for the tile.\<close>

definition ask_daemon :: "'w henv \<Rightarrow> protocol \<Rightarrow> int \<Rightarrow> 'w server \<Rightarrow> (bool \<times> 'w server) option" where
  "ask_daemon he cmd prio sv =
     map_option (\<lambda>(v, op, w). (v \<noteq> 0, sv\<lparr>sv_open := op, sv_world := w\<rparr>))
       (request_tile (he_os he) (he_fuel he) (he_scfg he) cmd prio (sv_open sv) (sv_world sv))"

type_synonym 'w outcome = "(int \<times> request_rec \<times> 'w server) option"

definition respond :: "'w henv \<Rightarrow> int \<Rightarrow> protocol option \<Rightarrow> int \<Rightarrow> request_rec \<Rightarrow> 'w server \<Rightarrow> 'w outcome" where
  "respond he resp cmd layer r sv = map_option (\<lambda>sv'. (resp, r, sv')) (count_resp he resp cmd layer sv)"

text \<open>Rendering at a priority and what is served if it does not finish in time.\<close>

definition render_or_stale ::
    "'w henv \<Rightarrow> 'w storage_backend \<Rightarrow> protocol \<Rightarrow> tile_request_data \<Rightarrow> int \<Rightarrow> request_rec \<Rightarrow> 'w server \<Rightarrow> 'w outcome" where
  "render_or_stale he b cmd rd prio r sv =
     (case ask_daemon he cmd prio sv of
        None \<Rightarrow> None
      | Some (True, sv1) \<Rightarrow>
          let (ts, r1) = tile_state he b sv1 cmd r
          in Some (HTTP_OK, r1\<lparr>rq_rdata := Some (rd\<lparr>td_tileState := ts\<rparr>)\<rparr>, count_fresh he FRESH_RENDER sv1)
      | Some (False, sv1) \<Rightarrow>
          if td_tileState rd = tileOld then Some (HTTP_OK, r, count_fresh he OLD_RENDER sv1)
          else if td_tileState rd = tileVeryOld then Some (HTTP_OK, r, count_fresh he VERYOLD_RENDER sv1)
          else respond he HTTP_NOT_FOUND (Some cmd) (td_layerNumber rd) r sv1)"

text \<open>The decision by the state of the tile and the load.\<close>

definition decide_tile ::
    "'w henv \<Rightarrow> 'w storage_backend \<Rightarrow> protocol \<Rightarrow> tile_request_data \<Rightarrow> request_rec \<Rightarrow> 'w server \<Rightarrow> 'w outcome" where
  "decide_tile he b cmd rd r sv =
     (case td_tileState rd of
        tileCurrent \<Rightarrow> Some (HTTP_OK, r, count_fresh he FRESH sv)
      | tileMissing \<Rightarrow>
          if get_load_avg (he_loadavg he) > of_int (sc_max_load_missing (he_scfg he))
          then (case ask_daemon he cmd 0 sv of
                  None \<Rightarrow> None
                | Some (_, sv1) \<Rightarrow> respond he HTTP_NOT_FOUND (Some cmd) (td_layerNumber rd) r sv1)
          else render_or_stale he b cmd rd 3 r sv
      | tileUnknown \<Rightarrow> Some (HTTP_INTERNAL_SERVER_ERROR, r, sv)
      | old \<Rightarrow>
          if sc_enable_bulk_mode (he_scfg he) then Some (HTTP_OK, r, sv)
          else if get_load_avg (he_loadavg he) > of_int (sc_max_load_old (he_scfg he))
          then (case ask_daemon he cmd 0 sv of
                  None \<Rightarrow> None
                | Some (_, sv1) \<Rightarrow> Some (HTTP_OK, r, count_fresh he (if old = tileVeryOld then VERYOLD else OLD) sv1))
          else render_or_stale he b cmd rd (if old = tileVeryOld then 2 else 1) r sv)"

definition tile_storage_hook :: "'w henv \<Rightarrow> request_rec \<Rightarrow> 'w server \<Rightarrow> 'w outcome" where
  "tile_storage_hook he r sv =
     (case rq_handler r of
        None \<Rightarrow> Some (HTTP_DECLINED, r, sv)
      | Some h \<Rightarrow>
          if h \<in> {''tile_status'', ''tile_dirty'', ''tile_mod_stats'', ''tile_json''} then Some (HTTP_OK, r, sv)
          else if h \<noteq> ''tile_serve'' then Some (HTTP_DECLINED, r, sv)
          else (case rq_rdata r of
                 None \<Rightarrow> None
               | Some rd \<Rightarrow>
                   (case td_cmd rd of
                      None \<Rightarrow> Some (HTTP_DECLINED, r, sv)
                    | Some cmd \<Rightarrow>
                        (case store_of rd sv of
                           None \<Rightarrow> None
                         | Some b \<Rightarrow>
                             let (rd1, r1) = ensure_state he b sv cmd rd r
                             in if sc_enable_tile_throttling (he_scfg he)
                                then (case delay_allowed (throttle_of (he_scfg he)) (he_throttle he) (rq_useragent_ip r1)
                                             (rq_headers_in r1 ''X-Forwarded-For'') (td_tileState rd1) (sv_pool sv) of
                                        None \<Rightarrow> None
                                      | Some (ok, dl) \<Rightarrow>
                                          let sv1 = sv\<lparr>sv_pool := dl\<rparr>
                                          in if ok then decide_tile he b cmd rd1 r1 sv1
                                             else respond he HTTP_SERVICE_UNAVAILABLE (Some cmd) (td_layerNumber rd1) r1 sv1)
                                else decide_tile he b cmd rd1 r1 sv))))"

section \<open>From an address to a tile\<close>

definition safe_parse_int :: "string \<Rightarrow> int option" where
  "safe_parse_int s =
     (if s = [] then None else case strtoi64 s of None \<Rightarrow> None | Some (v, rest) \<Rightarrow> if rest = [] then Some (wrap32 v) else None)"

text \<open>The name without its extension, and the extension if there is a dot.\<close>

definition get_extension :: "string \<Rightarrow> string \<times> string option" where
  "get_extension filename =
     (case strrchr filename (CHR ''.'') of None \<Rightarrow> (filename, None) | Some (pre, ext) \<Rightarrow> (pre, Some (take 255 ext)))"

text \<open>What the parts of a path say: parameters, zoom, x, y, extension and the last part, if there is one.\<close>

record tile_path =
  tp_ver :: int
  tp_parameters :: string
  tp_z :: int
  tp_x :: int
  tp_y :: int
  tp_extension :: "string option"
  tp_option :: "string option"

definition parse_zxy :: "int \<Rightarrow> string \<Rightarrow> string list \<Rightarrow> tile_path option" where
  "parse_zxy ver parameters parts =
     (case parts of
        zs # xs # ys # rest \<Rightarrow>
          (case (safe_parse_int zs, safe_parse_int xs) of
             (Some z, Some x) \<Rightarrow>
               (case get_extension ys of
                  (y_str, ext) \<Rightarrow>
                    (case safe_parse_int y_str of
                       None \<Rightarrow> None
                     | Some y \<Rightarrow>
                         Some \<lparr>tp_ver = ver, tp_parameters = parameters, tp_z = z, tp_x = x, tp_y = y, tp_extension = ext,
                               tp_option = (case rest of [] \<Rightarrow> None | o1 # _ \<Rightarrow> Some (take 10 o1))\<rparr>))
           | _ \<Rightarrow> None)
      | _ \<Rightarrow> None)"

definition parse_tile_path :: "tile_config_rec \<Rightarrow> string list \<Rightarrow> tile_path option" where
  "parse_tile_path layer parts =
     (if tr_enableOptions layer \<noteq> 0
      then (case parts of [] \<Rightarrow> None | p # ps \<Rightarrow> parse_zxy PROTO_VER (take 40 p) ps)
      else parse_zxy 2 [] parts)"

definition tile_oob :: "tile_config_rec \<Rightarrow> tile_path \<Rightarrow> bool" where
  "tile_oob layer tp \<longleftrightarrow>
     tp_z tp < tr_minzoom layer \<or> tp_z tp > tr_maxzoom layer
     \<or> (let limit = wrap32 (2 ^ nat (tp_z tp))
        in tp_x tp < 0 \<or> tp_x tp > wrap32 (limit * tr_aspect_x layer) - 1
           \<or> tp_y tp < 0 \<or> tp_y tp > wrap32 (limit * tr_aspect_y layer) - 1)"

definition tile_cmd :: "tile_config_rec \<Rightarrow> tile_path \<Rightarrow> protocol" where
  "tile_cmd layer tp =
     \<lparr>pr_ver = tp_ver tp, pr_cmd = cmdIgnore, pr_x = tp_x tp, pr_y = tp_y tp, pr_z = tp_z tp,
      pr_xmlname = take 40 (tr_xmlname layer), pr_mimetype = take 40 (tr_mimeType layer), pr_options = take 40 (tp_parameters tp)\<rparr>"

text \<open>
  The layer with number \<open>i\<close> handles the address. Without a dot in the last part the extension that is
  compared has never been set.
\<close>

definition translate_layer :: "'w henv \<Rightarrow> nat \<Rightarrow> tile_config_rec \<Rightarrow> request_rec \<Rightarrow> 'w server \<Rightarrow> 'w outcome" where
  "translate_layer he i layer r sv =
     (let path_info = drop (length (tr_baseuri layer)) (rq_uri r)
      in if starts_with ''tile-layer.json'' path_info
         then Some (HTTP_OK, r\<lparr>rq_handler := Some ''tile_json'',
                               rq_rdata := Some \<lparr>td_cmd = None, td_layerNumber = int i, td_tileState = tileUnknown\<rparr>\<rparr>, sv)
         else let parts = apr_tokens ''/'' path_info
              in case parse_tile_path layer parts of
                   None \<Rightarrow> Some (HTTP_DECLINED, r, sv)
                 | Some tp \<Rightarrow>
                     (case tp_extension tp of
                        None \<Rightarrow> None
                      | Some ext \<Rightarrow>
                          if ext \<noteq> tr_fileExtension layer then Some (HTTP_DECLINED, r, sv)
                          else if tile_oob layer tp then Some (HTTP_NOT_FOUND, r, sv)
                          else let cmd = tile_cmd layer tp; (store, sv1) = get_storage_backend he i sv
                               in if (case store of None \<Rightarrow> True | Some b \<Rightarrow> \<not> sb_storage_ctx b (sv_world sv1))
                                  then respond he HTTP_INTERNAL_SERVER_ERROR (Some cmd) (int i) r sv1
                                  else let r1 = r\<lparr>rq_rdata := Some \<lparr>td_cmd = Some cmd, td_layerNumber = int i, td_tileState = tileUnknown\<rparr>\<rparr>
                                       in if length parts = (if tr_enableOptions layer \<noteq> 0 then 5 else 4)
                                          then if tp_option tp = Some ''status'' then Some (HTTP_OK, r1\<lparr>rq_handler := Some ''tile_status''\<rparr>, sv1)
                                               else if tp_option tp = Some ''dirty'' then Some (HTTP_OK, r1\<lparr>rq_handler := Some ''tile_dirty''\<rparr>, sv1)
                                               else Some (HTTP_DECLINED, r1, sv1)
                                          else Some (HTTP_OK, r1\<lparr>rq_handler := Some ''tile_serve''\<rparr>, sv1)))"

fun translate_layers :: "'w henv \<Rightarrow> nat \<Rightarrow> tile_config_rec list \<Rightarrow> request_rec \<Rightarrow> 'w server \<Rightarrow> 'w outcome" where
  "translate_layers he i [] r sv = Some (HTTP_DECLINED, r, sv)"
| "translate_layers he i (layer # layers) r sv =
     (if starts_with (tr_baseuri layer) (rq_uri r) then translate_layer he i layer r sv
      else translate_layers he (Suc i) layers r sv)"

definition tile_translate :: "'w henv \<Rightarrow> request_rec \<Rightarrow> 'w server \<Rightarrow> 'w outcome" where
  "tile_translate he r sv =
     (if starts_with ''/mod_tile'' (rq_uri r) then Some (HTTP_OK, r\<lparr>rq_handler := Some ''tile_mod_stats''\<rparr>, sv)
      else if starts_with ''/metrics'' (rq_uri r) then Some (HTTP_OK, r\<lparr>rq_handler := Some ''tile_metrics''\<rparr>, sv)
      else translate_layers he 0 (sc_configs (he_scfg he)) r sv)"

section \<open>Handlers\<close>

text \<open>Each handler declines the requests of the others.\<close>

definition tile_handler_dirty :: "'w henv \<Rightarrow> request_rec \<Rightarrow> 'w server \<Rightarrow> 'w outcome" where
  "tile_handler_dirty he r sv =
     (if rq_handler r \<noteq> Some ''tile_dirty'' then Some (HTTP_DECLINED, r, sv)
      else case rq_rdata r of
             None \<Rightarrow> None
           | Some rd \<Rightarrow>
               (case td_cmd rd of
                  None \<Rightarrow> Some (HTTP_DECLINED, r, sv)
                | Some cmd \<Rightarrow>
                    if \<not> sc_enable_dirty_url (he_scfg he) then Some (HTTP_NOT_FOUND, r, sv)
                    else if sc_enable_bulk_mode (he_scfg he) then Some (HTTP_OK, r, sv)
                    else (case ask_daemon he cmd 0 sv of
                            None \<Rightarrow> None
                          | Some (_, sv1) \<Rightarrow>
                              let (c, r1) = error_message (''Tile submitted for rendering'' @ newline) r in Some (c, r1, sv1))))"

definition status_text :: "tileState \<Rightarrow> string \<Rightarrow> string \<Rightarrow> string \<Rightarrow> string" where
  "status_text ts mtime atime place =
     (if ts = tileMissing then ''No tile could not be found at storage location: '' @ place @ newline
      else ''Tile is '' @ (if ts = tileOld \<or> ts = tileVeryOld then ''due to be rendered'' else ''clean'')
        @ ''. Last rendered at '' @ mtime @ ''. Last accessed at '' @ atime @ ''. Stored in '' @ place @ newline @ newline
        @ ''(Dates might not be accurate. Rendering time might be reset to an old date for tile expiry.''
        @ '' Access times might not be updated on all file systems)'' @ newline)"

definition tile_handler_status :: "'w henv \<Rightarrow> request_rec \<Rightarrow> 'w server \<Rightarrow> 'w outcome" where
  "tile_handler_status he r sv =
     (if rq_handler r \<noteq> Some ''tile_status'' then Some (HTTP_DECLINED, r, sv)
      else if \<not> sc_enable_status_url (he_scfg he) then Some (HTTP_NOT_FOUND, r, sv)
      else case rq_rdata r of
             None \<Rightarrow> None
           | Some rd \<Rightarrow>
               (case td_cmd rd of
                  None \<Rightarrow> Some (HTTP_NOT_FOUND, r, sv)
                | Some cmd \<Rightarrow>
                    (case store_of rd sv of
                       None \<Rightarrow> None
                     | Some b \<Rightarrow>
                         let (rd1, r1) = ensure_state he b sv cmd rd r;
                             place = sb_tile_storage_id b (sv_world sv) (pr_xmlname cmd) (pr_options cmd) (pr_x cmd) (pr_y cmd) (pr_z cmd);
                             (c, r2) = error_message (status_text (td_tileState rd1) (he_ctime he (rq_mtime r1)) (he_ctime he (rq_atime r1)) place) r1
                         in Some (c, r2, sv))))"

definition tilejson_text :: "tile_config_rec \<Rightarrow> string" where
  "tilejson_text layer =
     (let tab = [CHR 0x09];
          str = (\<lambda>s. dquote @ s @ dquote);
          field = (\<lambda>k v. tab @ str k @ '': '' @ v @ '','' @ newline);
          host = (\<lambda>i h. tab @ tab @ dquote @ h @ tr_baseuri layer @ [CHR 0x7B] @ ''z'' @ [CHR 0x7D] @ ''/'' @ [CHR 0x7B] @ ''x'' @ [CHR 0x7D]
                    @ ''/'' @ [CHR 0x7B] @ ''y'' @ [CHR 0x7D] @ ''.'' @ tr_fileExtension layer @ dquote
                    @ (if int i < tr_noHostnames layer - 1 then '','' else []) @ newline)
      in take 8191
           ([CHR 0x7B] @ newline @ field ''tilejson'' (str ''2.0.0'') @ field ''schema'' (str ''xyz'')
            @ field ''name'' (str (tr_xmlname layer)) @ field ''description'' (str (tr_description layer))
            @ field ''attribution'' (str (tr_attribution layer)) @ field ''minzoom'' (show_int (tr_minzoom layer))
            @ field ''maxzoom'' (show_int (tr_maxzoom layer)) @ tab @ str ''tiles'' @ '': ['' @ newline
            @ concat (map (\<lambda>i. host i (tr_hostnames layer ! i)) [0..<nat (tr_noHostnames layer)])
            @ tab @ '']'' @ newline @ [CHR 0x7D] @ newline))"

definition etag :: "'w henv \<Rightarrow> byte list \<Rightarrow> string" where
  "etag he buf = dquote @ he_md5 he buf @ dquote"

definition tile_handler_json :: "'w henv \<Rightarrow> request_rec \<Rightarrow> 'w server \<Rightarrow> 'w outcome" where
  "tile_handler_json he r sv =
     (if rq_handler r \<noteq> Some ''tile_json'' then Some (HTTP_DECLINED, r, sv)
      else case rq_rdata r of
             None \<Rightarrow> None
           | Some rd \<Rightarrow>
               let layer = sc_configs (he_scfg he) ! nat (td_layerNumber rd);
                   (resp, r1) = (case tr_cors layer of None \<Rightarrow> (HTTP_DONE, r) | Some cors \<Rightarrow> add_cors cors r);
                   buf = text_bytes (tilejson_text layer);
                   r2 = (set_out ''ETag'' (etag he buf) r1)\<lparr>rq_content_type := Some ''application/json'', rq_content_length := Some (int (length buf))\<rparr>;
                   r3 = expiry_headers he (7 * 24 * 60 * 60) r2
               in if resp \<noteq> HTTP_DONE then Some (resp, r1, sv) else Some (HTTP_OK, r3\<lparr>rq_body := rq_body r3 @ buf\<rparr>, sv))"

text \<open>A statistics page: without the lock the pointer to the copy is read although it was never set.\<close>

definition stats_page ::
    "'w henv \<Rightarrow> string \<Rightarrow> (tile_server_conf \<Rightarrow> int \<Rightarrow> stats_data \<Rightarrow> string) \<Rightarrow> request_rec \<Rightarrow> 'w server \<Rightarrow> 'w outcome" where
  "stats_page he handler text r sv =
     (if rq_handler r \<noteq> Some handler then Some (HTTP_DECLINED, r, sv)
      else if \<not> sc_enable_global_stats (he_scfg he)
      then let (c, r1) = error_message ''Stats are not enabled for this server'' r in Some (c, r1, sv)
      else case get_stats_copy (he_scfg he) (he_lock he) (sv_stats sv) of
             None \<Rightarrow> None
           | Some st \<Rightarrow> Some (HTTP_OK, r\<lparr>rq_body := rq_body r @ text_bytes (text (he_scfg he) (he_gmax he) st)\<rparr>, sv))"

definition tile_handler_mod_stats :: "'w henv \<Rightarrow> request_rec \<Rightarrow> 'w server \<Rightarrow> 'w outcome" where
  "tile_handler_mod_stats he = stats_page he ''tile_mod_stats'' mod_stats_text"

definition tile_handler_metrics :: "'w henv \<Rightarrow> request_rec \<Rightarrow> 'w server \<Rightarrow> 'w outcome" where
  "tile_handler_metrics he = stats_page he ''tile_metrics'' metrics_text"

text \<open>A tile that was read: headers, the time it took, and the body unless the client has it.\<close>

definition accepts_gzip :: "request_rec \<Rightarrow> bool" where
  "accepts_gzip r = (case rq_headers_in r ''Accept-Encoding'' of None \<Rightarrow> False | Some a \<Rightarrow> strstr a ''gzip'' \<noteq> None)"

definition send_tile ::
    "'w henv \<Rightarrow> 'w storage_backend \<Rightarrow> protocol \<Rightarrow> tile_request_data \<Rightarrow> byte list \<Rightarrow> bool \<Rightarrow> request_rec \<Rightarrow> 'w server \<Rightarrow> 'w outcome" where
  "send_tile he b cmd rd buf compressed r sv =
     (let r1 = (if compressed \<and> accepts_gzip r then r\<lparr>rq_content_encoding := Some ''gzip''\<rparr> else r);
          r2 = (set_out ''ETag'' (etag he buf) r1)
                 \<lparr>rq_content_type := Some (tr_mimeType (sc_configs (he_scfg he) ! nat (td_layerNumber rd))),
                  rq_content_length := Some (int (length buf))\<rparr>
      in case add_expiry he b sv cmd rd r2 of
           None \<Rightarrow> None
         | Some r3 \<Rightarrow>
             (case incTimingCounter (he_scfg he) (he_timing_lock he) (word_of_int (he_end he - he_start he)) (pr_z cmd) (sv_stats sv) of
                None \<Rightarrow> None
              | Some (_, st) \<Rightarrow>
                  let sv1 = sv\<lparr>sv_stats := st\<rparr>; status = he_meets he r3
                  in if status \<noteq> HTTP_OK then respond he status (Some cmd) (td_layerNumber rd) r3 sv1
                     else respond he HTTP_OK (Some cmd) (td_layerNumber rd) (r3\<lparr>rq_body := rq_body r3 @ buf\<rparr>) sv1))"

definition tile_handler_serve :: "'w henv \<Rightarrow> request_rec \<Rightarrow> 'w server \<Rightarrow> 'w outcome" where
  "tile_handler_serve he r sv =
     (if rq_handler r \<noteq> Some ''tile_serve'' then Some (HTTP_DECLINED, r, sv)
      else case rq_rdata r of
             None \<Rightarrow> None
           | Some rd \<Rightarrow>
               (case td_cmd rd of
                  None \<Rightarrow> respond he HTTP_NOT_FOUND None (td_layerNumber rd) r sv
                | Some cmd \<Rightarrow>
                    let (resp, r1) = (case tr_cors (sc_configs (he_scfg he) ! nat (td_layerNumber rd)) of
                                        None \<Rightarrow> (HTTP_DONE, r) | Some cors \<Rightarrow> add_cors cors r)
                    in if resp \<noteq> HTTP_DONE then Some (resp, r1, sv)
                       else if \<not> he_alloc he then respond he HTTP_INTERNAL_SERVER_ERROR (Some cmd) (td_layerNumber rd) r1 sv
                       else (case store_of rd sv of
                              None \<Rightarrow> None
                            | Some b \<Rightarrow>
                                let rr = sb_tile_read b (sv_world sv) (pr_xmlname cmd) (pr_options cmd) (pr_x cmd) (pr_y cmd) (pr_z cmd) MAX_SIZE
                                in if rr_ret rr > 0
                                   then (case rr_compressed rr of
                                           None \<Rightarrow> None
                                         | Some c \<Rightarrow> send_tile he b cmd rd (take (nat (rr_ret rr)) (rr_buf rr)) (c \<noteq> 0) r1 sv)
                                   else map_option (\<lambda>(_, r2, sv2). (HTTP_DECLINED, r2, sv2))
                                          (respond he HTTP_NOT_FOUND (Some cmd) (td_layerNumber rd) r1 sv))))"

text \<open>
  A request through the module's hooks, in Apache's order: translation, then the storage hook, then the
  handlers in the order of their registration until one does not decline.
\<close>

fun run_handlers :: "('w henv \<Rightarrow> request_rec \<Rightarrow> 'w server \<Rightarrow> 'w outcome) list \<Rightarrow> 'w henv \<Rightarrow> request_rec \<Rightarrow> 'w server \<Rightarrow> 'w outcome" where
  "run_handlers [] he r sv = Some (HTTP_DECLINED, r, sv)"
| "run_handlers (h # hs) he r sv =
     (case h he r sv of
        None \<Rightarrow> None
      | Some (c, r1, sv1) \<Rightarrow> if c = HTTP_DECLINED then run_handlers hs he r1 sv1 else Some (c, r1, sv1))"

definition module_handlers :: "('w henv \<Rightarrow> request_rec \<Rightarrow> 'w server \<Rightarrow> 'w outcome) list" where
  "module_handlers = [tile_handler_serve, tile_handler_dirty, tile_handler_status, tile_handler_json, tile_handler_mod_stats, tile_handler_metrics]"

definition handle_request :: "'w henv \<Rightarrow> request_rec \<Rightarrow> 'w server \<Rightarrow> 'w outcome" where
  "handle_request he r sv =
     (case tile_translate he r sv of
        None \<Rightarrow> None
      | Some (c, r1, sv1) \<Rightarrow>
          if c \<noteq> HTTP_OK then Some (c, r1, sv1)
          else (case tile_storage_hook he r1 sv1 of
                  None \<Rightarrow> None
                | Some (c2, r2, sv2) \<Rightarrow>
                    if c2 \<noteq> HTTP_OK \<and> c2 \<noteq> HTTP_DECLINED then Some (c2, r2, sv2)
                    else run_handlers module_handlers he r2 sv2))"

end
