(* ===== verification/Store_File.thy ===== *)
theory Store_File
  imports Store
begin

text \<open>
  The storage in files (\<^verbatim>\<open>src/store_file.c\<close>). The state is a file system: which paths exist, and for a
  file its contents and times. What the operating system may do differently from call to call is a
  record of parameters: how many bytes a \<open>read\<close> delivers or whether it fails, which opens, writes and
  renames fail, the time, the identity of the thread, and the local calendar.
\<close>

section \<open>The file system\<close>

record file_node =
  fn_data :: "byte list"
  fn_mtime :: int
  fn_atime :: int
  fn_ctime :: int

record fsys =
  fs_nodes :: dirs
  fs_file :: "string \<Rightarrow> file_node"

record file_env =
  fe_malloc :: bool
  fe_openable :: "string \<Rightarrow> bool"
  fe_chunk :: "nat \<Rightarrow> int"
  fe_deny :: "string \<Rightarrow> bool"
  fe_write :: "byte list \<Rightarrow> int"
  fe_rename :: bool
  fe_unlink :: "string \<Rightarrow> bool"
  fe_now :: int
  fe_self :: nat
  fe_mktime20 :: "int \<Rightarrow> int"

text \<open>
  One \<open>read\<close> at position \<open>pos\<close>: the call number \<open>k\<close> selects what the operating system does. It fails
  when \<open>fe_chunk\<close> is negative; else it delivers at least one of the bytes that are there and asked for,
  and as many as \<open>fe_chunk\<close> allows; at the end of the file it delivers none.
\<close>

definition os_read :: "file_env \<Rightarrow> nat \<Rightarrow> byte list \<Rightarrow> nat \<Rightarrow> nat \<Rightarrow> (byte list) option" where
  "os_read e k data pos len =
     (if fe_chunk e k < 0 then None
      else Some (take (max 1 (nat (fe_chunk e k))) (take len (drop pos data))))"

text \<open>
  The two loops that read until a number of bytes is there or the file ends: the bytes got and the
  number of the next call, or \<open>None\<close> for an error.
\<close>

function read_loop :: "file_env \<Rightarrow> nat \<Rightarrow> byte list \<Rightarrow> nat \<Rightarrow> nat \<Rightarrow> byte list \<Rightarrow> (byte list \<times> nat) option" where
  "read_loop e k data start want acc =
     (if length acc < want
      then case os_read e k data (start + length acc) (want - length acc) of
             None \<Rightarrow> None
           | Some got \<Rightarrow> if got \<noteq> [] then read_loop e (Suc k) data start want (acc @ got) else Some (acc, Suc k)
      else Some (acc, k))"
  by pat_completeness auto
termination
  by (relation "measure (\<lambda>(e, k, data, start, want, acc). want - length acc)") (auto, metis diff_less_mono2 length_greater_0_conv less_add_same_cancel1)

definition tile_file :: "string \<Rightarrow> string \<Rightarrow> string \<Rightarrow> int \<Rightarrow> int \<Rightarrow> int \<Rightarrow> string" where
  "tile_file tile_dir xmlconfig options x y z = fst (xyzo_to_meta PATH_MAX tile_dir xmlconfig options x y z)"

section \<open>Reading\<close>

text \<open>The part of the reader behind the header: the index entry, the seek and the tile's bytes.\<close>

definition read_tile_at :: "file_env \<Rightarrow> nat \<Rightarrow> byte list \<Rightarrow> entry \<Rightarrow> nat \<Rightarrow> int \<Rightarrow> read_result" where
  "read_tile_at e k data en sz compressed =
     (let tile_size = en_size en mod 2 ^ 64
      in if tile_size > int sz then (read_error (-6))\<lparr>rr_compressed := Some compressed\<rparr>
         else if en_offset en < 0 then (read_error (-7))\<lparr>rr_compressed := Some compressed\<rparr>
         else case read_loop e k data (nat (en_offset en)) (nat tile_size) [] of
                None \<Rightarrow> (read_error (-8))\<lparr>rr_compressed := Some compressed\<rparr>
              | Some (got, _) \<Rightarrow> \<lparr>rr_ret = int (length got), rr_buf = got, rr_compressed = Some compressed\<rparr>)"

definition file_tile_read ::
    "file_env \<Rightarrow> string \<Rightarrow> fsys \<Rightarrow> string \<Rightarrow> string \<Rightarrow> int \<Rightarrow> int \<Rightarrow> int \<Rightarrow> nat \<Rightarrow> read_result" where
  "file_tile_read e tile_dir fs xmlconfig options x y z sz =
     (let (path, off) = xyzo_to_meta PATH_MAX tile_dir xmlconfig options x y z
      in if \<not> fe_malloc e then read_error (-1)
         else if fs_nodes fs path = None \<or> \<not> fe_openable e path then read_error (-1)
         else if fs_nodes fs path = Some FDir then read_error (-2)
         else let data = fn_data (fs_file fs path)
              in case read_loop e 0 data 0 header_size [] of
                   None \<Rightarrow> read_error (-2)
                 | Some (hdr, k) \<Rightarrow>
                     if length hdr < header_size then read_error (-3)
                     else if take 4 hdr \<noteq> META_MAGIC \<and> take 4 hdr \<noteq> META_MAGIC_COMPRESSED then read_error (-4)
                     else let c = (if take 4 hdr = META_MAGIC then 0 else 1)
                          in if ml_count (bytes_layout hdr) \<noteq> int META_COUNT
                             then (read_error (-5))\<lparr>rr_compressed := Some c\<rparr>
                             else read_tile_at e k data (bytes_entry hdr off) sz c)"

section \<open>The other operations\<close>

definition fs_stat :: "fsys \<Rightarrow> string \<Rightarrow> file_node option" where
  "fs_stat fs path = (case fs_nodes fs path of None \<Rightarrow> None | Some _ \<Rightarrow> Some (fs_file fs path))"

definition file_tile_stat ::
    "file_env \<Rightarrow> string \<Rightarrow> fsys \<Rightarrow> string \<Rightarrow> string \<Rightarrow> int \<Rightarrow> int \<Rightarrow> int \<Rightarrow> stat_info" where
  "file_tile_stat e tile_dir fs xmlconfig options x y z =
     (let st = (case fs_stat fs (tile_file tile_dir xmlconfig options x y z) of
                  None \<Rightarrow> \<lparr>si_size = -1, si_atime = 0, si_mtime = 0, si_ctime = 0, si_expired = 0\<rparr>
                | Some n \<Rightarrow> \<lparr>si_size = int (length (fn_data n)), si_atime = fn_atime n, si_mtime = fn_mtime n,
                            si_ctime = fn_ctime n, si_expired = 0\<rparr>);
          planet = get_planet_time (\<lambda>p. map_option fn_mtime (fs_stat fs p)) (fe_now e) tile_dir (Some xmlconfig)
      in st\<lparr>si_expired := (if si_mtime st < planet then 1 else 0)\<rparr>)"

definition file_tile_storage_id :: "string \<Rightarrow> fsys \<Rightarrow> string \<Rightarrow> string \<Rightarrow> int \<Rightarrow> int \<Rightarrow> int \<Rightarrow> string" where
  "file_tile_storage_id tile_dir fs xmlconfig options x y z =
     snprintf (PATH_MAX - 1) (''file://'' @ tile_file tile_dir xmlconfig options x y z)"

definition fs_put :: "string \<Rightarrow> file_node \<Rightarrow> fsys \<Rightarrow> fsys" where
  "fs_put path n fs = fs\<lparr>fs_nodes := (fs_nodes fs)(path \<mapsto> FFile), fs_file := (fs_file fs)(path := n)\<rparr>"

definition fs_unlink :: "string \<Rightarrow> fsys \<Rightarrow> fsys" where
  "fs_unlink path fs = fs\<lparr>fs_nodes := (fs_nodes fs)(path := None)\<rparr>"

text \<open>
  The metatile is written to a temporary file beside the target, which then replaces the target. An
  open fails on a directory; a write that is not complete leaves the bytes it wrote in the temporary
  file; a failing rename removes it.
\<close>

definition file_metatile_write ::
    "file_env \<Rightarrow> string \<Rightarrow> fsys \<Rightarrow> string \<Rightarrow> string \<Rightarrow> int \<Rightarrow> int \<Rightarrow> int \<Rightarrow> byte list \<Rightarrow> int \<times> fsys" where
  "file_metatile_write e tile_dir fs xmlconfig options x y z buf =
     (let path = tile_file tile_dir xmlconfig options x y z;
          tmp = path @ ''.'' @ show_nat (fe_self e);
          node = (\<lambda>bs. \<lparr>fn_data = bs, fn_mtime = fe_now e, fn_atime = fe_now e, fn_ctime = fe_now e\<rparr>)
      in if \<not> fe_malloc e then (-1, fs)
         else let (r, nodes) = mkdirp (fe_deny e) (fs_nodes fs) tmp; fs1 = fs\<lparr>fs_nodes := nodes\<rparr>
              in if r \<noteq> 0 then (-1, fs1)
                 else if fs_nodes fs1 tmp = Some FDir \<or> \<not> fe_openable e tmp then (-1, fs1)
                 else let res = fe_write e buf;
                          fs2 = fs_put tmp (node (take (nat res) buf)) fs1
                      in if res \<noteq> int (length buf) then (-1, fs2)
                         else if \<not> fe_rename e \<or> fs_nodes fs2 path = Some FDir then (-1, fs_unlink tmp fs2)
                         else (int (length buf), fs_put path (fs_file fs2 tmp) (fs_unlink tmp fs2)))"

text \<open>Deleting and expiring always concern the tiles without parameterisation.\<close>

definition file_metatile_delete :: "file_env \<Rightarrow> string \<Rightarrow> fsys \<Rightarrow> string \<Rightarrow> int \<Rightarrow> int \<Rightarrow> int \<Rightarrow> int \<times> fsys" where
  "file_metatile_delete e tile_dir fs xmlconfig x y z =
     (let path = fst (xyz_to_meta PATH_MAX tile_dir xmlconfig x y z)
      in if fs_nodes fs path = Some FFile \<and> fe_unlink e path then (0, fs_unlink path fs) else (-1, fs))"

text \<open>
  The calendar year of a time in UTC is at least 2016 (\<open>tm_year > 115\<close>) from this second on. The date
  twenty years earlier depends on the local calendar; \<open>gmtime_r\<close> fails only outside the years an \<open>int\<close>
  can hold.
\<close>

definition YEAR_2016 :: int where
  "YEAR_2016 = 1451606400"

definition gmtime_ok :: "int \<Rightarrow> bool" where
  "gmtime_ok t \<longleftrightarrow> \<bar>t\<bar> < 67767976233532800"

definition file_metatile_expire :: "file_env \<Rightarrow> string \<Rightarrow> fsys \<Rightarrow> string \<Rightarrow> int \<Rightarrow> int \<Rightarrow> int \<Rightarrow> int \<times> fsys" where
  "file_metatile_expire e tile_dir fs xmlconfig x y z =
     (let name = fst (xyz_to_meta PATH_MAX tile_dir xmlconfig x y z)
      in case fs_stat fs name of
           None \<Rightarrow> (0, fs)
         | Some n \<Rightarrow>
             let t = (if \<not> gmtime_ok (fn_mtime n) then 315558000
                      else if fn_mtime n \<ge> YEAR_2016 then fe_mktime20 e (fn_mtime n)
                      else fn_mtime n)
             in (0, if fe_openable e name then fs\<lparr>fs_file := (fs_file fs)(name := n\<lparr>fn_mtime := t\<rparr>)\<rparr> else fs))"

definition file_close_storage :: "fsys \<Rightarrow> int \<times> fsys" where
  "file_close_storage fs = (0, fs)"

definition init_storage_file :: "file_env \<Rightarrow> string \<Rightarrow> fsys storage_backend option" where
  "init_storage_file e tile_dir =
     (if \<not> fe_malloc e then None
      else Some \<lparr>sb_tile_read = file_tile_read e tile_dir, sb_tile_stat = file_tile_stat e tile_dir,
                 sb_metatile_write = file_metatile_write e tile_dir, sb_metatile_delete = file_metatile_delete e tile_dir,
                 sb_metatile_expire = file_metatile_expire e tile_dir, sb_tile_storage_id = file_tile_storage_id tile_dir,
                 sb_close_storage = file_close_storage, sb_storage_ctx = (\<lambda>_. True)\<rparr>)"

section \<open>The reading loops\<close>

declare read_loop.simps [simp del]

lemma read_loop_length: "read_loop e k data start want acc = Some (r, k') \<Longrightarrow> length acc \<le> want \<Longrightarrow> length r \<le> want"
proof (induction e k data start want acc rule: read_loop.induct)
  case (1 e k data start want acc)
  show ?case
  proof (cases "length acc < want")
    case True
    with 1(2) obtain got where g: "os_read e k data (start + length acc) (want - length acc) = Some got"
      by (subst (asm) read_loop.simps) (auto split: option.splits)
    have "length got \<le> want - length acc" using g by (auto simp: os_read_def split: if_splits)
    moreover have "read_loop e k data start want acc =
        (if got \<noteq> [] then read_loop e (Suc k) data start want (acc @ got) else Some (acc, Suc k))"
      using True g by (subst read_loop.simps) simp
    ultimately show ?thesis using 1 True g by (auto split: if_splits)
  next
    case False
    with 1(2,3) show ?thesis by (subst (asm) read_loop.simps) auto
  qed
qed

lemma take_chunk: "take n (take m xs) @ take (m - length (take n (take m xs))) (drop (length (take n (take m xs))) xs) = take m xs"
proof -
  define k where "k = length (take n (take m xs))"
  have t: "take n (take m xs) = take k xs" unfolding k_def by (simp add: min_def)
  have "k \<le> m" unfolding k_def by simp
  then have "take k xs @ take (m - k) (drop k xs) = take m xs" using take_add [of k "m - k" xs] by simp
  then show ?thesis unfolding t [symmetric] unfolding k_def .
qed

lemma read_loop_complete:
  assumes "\<forall>k. 0 \<le> fe_chunk e k" "length acc \<le> want"
  shows "\<exists>k'. read_loop e k data start want acc =
    Some (acc @ take (want - length acc) (drop (start + length acc) data), k')"
  using assms
proof (induction e k data start want acc rule: read_loop.induct)
  case (1 e k data start want acc)
  show ?case
  proof (cases "length acc < want")
    case False
    with 1(3) show ?thesis by (subst read_loop.simps) simp
  next
    case True
    let ?rest = "take (want - length acc) (drop (start + length acc) data)"
    let ?n = "max 1 (nat (fe_chunk e k))"
    have g: "os_read e k data (start + length acc) (want - length acc) = Some (take ?n ?rest)"
      using 1(2) by (auto simp: os_read_def not_less)
    show ?thesis
    proof (cases "take ?n ?rest = []")
      case True
      moreover have "?n \<noteq> 0" by simp
      ultimately have "?rest = []" unfolding take_eq_Nil by blast
      with g True \<open>length acc < want\<close> show ?thesis by (subst read_loop.simps) simp
    next
      case False
      have "length (take ?n ?rest) \<le> want - length acc" by simp
      then have "length (acc @ take ?n ?rest) \<le> want" using True unfolding length_append by linarith
      from 1(1) [OF True g False 1(2) this] obtain k' where
        r: "read_loop e (Suc k) data start want (acc @ take ?n ?rest) =
          Some ((acc @ take ?n ?rest) @ take (want - length (acc @ take ?n ?rest)) (drop (start + length (acc @ take ?n ?rest)) data), k')"
        by blast
      have "take ?n ?rest @ take (want - length (acc @ take ?n ?rest)) (drop (start + length (acc @ take ?n ?rest)) data) = ?rest"
        using take_chunk [of ?n "want - length acc" "drop (start + length acc) data"] by (simp add: add_ac)
      with r g False True show ?thesis by (subst read_loop.simps) simp
    qed
  qed
qed

definition read_sound :: "nat \<Rightarrow> read_result \<Rightarrow> bool" where
  "read_sound sz r \<longleftrightarrow>
     (0 \<le> rr_ret r \<longrightarrow> rr_ret r = int (length (rr_buf r)) \<and> length (rr_buf r) \<le> sz \<and> rr_compressed r \<in> {Some 0, Some 1})"

lemma read_sound_error: "r < 0 \<Longrightarrow> read_sound sz (read_error r)" "r < 0 \<Longrightarrow> read_sound sz ((read_error r)\<lparr>rr_compressed := c\<rparr>)"
  by (simp_all add: read_sound_def read_error_def)

lemma read_sound_tile: "c \<in> {0, 1} \<Longrightarrow> read_sound sz (read_tile_at e k data en sz c)"
  by (auto simp: read_tile_at_def Let_def read_sound_error split: option.splits)
    (auto simp: read_sound_def dest!: read_loop_length)

lemma read_sound_file: "read_sound sz (file_tile_read e tile_dir fs xml opts x y z sz)"
  by (auto simp: file_tile_read_def Let_def read_sound_error read_sound_tile split: prod.splits option.splits)

interpretation file_store: tile_storage "file_tile_read e tile_dir" "file_tile_stat e tile_dir"
proof (unfold_locales, goal_cases)
  case (1 fs xml opts x y z sz)
  then show ?case
    by (auto simp: file_tile_stat_def file_tile_read_def fs_stat_def tile_file_def Let_def case_prod_beta read_error_def
        split: option.splits)
next
  case (2 fs xml opts x y z sz)
  then show ?case using read_sound_file unfolding read_sound_def by blast
qed

section \<open>Reading what was written\<close>

lemma corner_same: "x mod 8 = 0 \<Longrightarrow> ox < 8 \<Longrightarrow> (x + int ox) AND NOT (METATILE - 1) = x AND NOT (METATILE - 1)"
  unfolding metatile_corner using add_mod_aligned [of x ox] by (simp add: METATILE_def)

lemma tile_file_corner:
  assumes "x mod 8 = 0" "y mod 8 = 0" "ox < 8" "oy < 8"
  shows "xyzo_to_meta PATH_MAX td xml opts (x + int ox) (y + int oy) z = (tile_file td xml opts x y z, 8 * ox + oy)"
  using corner_same [OF assms(1,3)] corner_same [OF assms(2,4)] offset_aligned [OF assms]
  by (simp add: xyzo_to_meta_path tile_file_def meta_path_def)

lemma tmp_differs: "path \<noteq> path @ ''.'' @ n" "path @ CHR ''.'' # n \<noteq> path"
  by simp_all

lemma read_stored_tile:
  assumes t: "aligned t" "in_int32 (int (length (metatile_buffer t)))" "ox < 8" "oy < 8" "length (mt_tile t ox oy) \<le> sz"
    and e: "fe_malloc e" "\<forall>k. 0 \<le> fe_chunk e k"
    and path: "path = tile_file td xml opts (mt_x t) (mt_y t) (mt_z t)" "fe_openable e path"
    and fs: "fs_nodes fs path = Some FFile" "fn_data (fs_file fs path) = metatile_buffer t"
  shows "file_tile_read e td fs xml opts (mt_x t + int ox) (mt_y t + int oy) (mt_z t) sz =
    \<lparr>rr_ret = int (length (mt_tile t ox oy)), rr_buf = mt_tile t ox oy, rr_compressed = Some 0\<rparr>"
proof -
  let ?i = "8 * ox + oy" and ?data = "metatile_buffer t"
  have i: "?i < 64" using t(3,4) by linarith
  have td: "tdata t (tile_order ! ?i) = mt_tile t ox oy" by (simp add: tile_order_nth [OF t(3,4)] tdata_def)
  have xy: "xyzo_to_meta PATH_MAX td xml opts (mt_x t + int ox) (mt_y t + int oy) (mt_z t) = (path, ?i)"
    using tile_file_corner [OF _ _ t(3,4)] t(1) path(1) by (simp add: aligned_def)
  have h: "take header_size (drop (0 + 0) ?data) = meta_header t"
    using buffer_header [OF t(1)] by (simp add: meta_sizes)
  obtain k where k: "read_loop e 0 ?data 0 header_size [] = Some (meta_header t, k)"
    using read_loop_complete [OF e(2), of "[]" header_size 0 ?data 0] h by auto
  have en: "bytes_entry (meta_header t) ?i =
      \<lparr>en_offset = int (header_size + before t tile_order ?i), en_size = int (length (mt_tile t ox oy))\<rparr>"
    using header_entry [OF i t(2,1)] i td by (simp add: entries_of_def)
  have small: "int (length (mt_tile t ox oy)) mod 2 ^ 64 = int (length (mt_tile t ox oy))"
    using before_Suc_le [OF i, of t] td t(2) buffer_header [OF t(1)]
    by (intro mod_pos_pos_trivial) (auto simp: before_def in_int32_def)
  obtain k' where "read_loop e k ?data (header_size + before t tile_order ?i) (length (mt_tile t ox oy)) [] =
      Some (take (length (mt_tile t ox oy)) (drop (header_size + before t tile_order ?i) ?data), k')"
    using read_loop_complete [OF e(2), of "[]" "length (mt_tile t ox oy)" k ?data "header_size + before t tile_order ?i"] by auto
  then have "read_tile_at e k ?data (bytes_entry (meta_header t) ?i) sz 0 =
      \<lparr>rr_ret = int (length (mt_tile t ox oy)), rr_buf = mt_tile t ox oy, rr_compressed = Some 0\<rparr>"
    using tile_bytes [OF i t(1)] td t(5) small unfolding en by (simp add: read_tile_at_def Let_def nat_int_add)
  then show ?thesis
    unfolding file_tile_read_def xy using e(1) path(2) fs k header_layout [of t]
    by (simp add: meta_sizes bytes_layout_def Let_def)
qed

lemma file_write_success:
  assumes "file_metatile_write e td fs xml opts x y z buf = (int (length buf), fs')"
  shows "fs_nodes fs' (tile_file td xml opts x y z) = Some FFile
    \<and> fs_file fs' (tile_file td xml opts x y z) =
        \<lparr>fn_data = buf, fn_mtime = fe_now e, fn_atime = fe_now e, fn_ctime = fe_now e\<rparr>"
  using assms
  by (auto simp: file_metatile_write_def Let_def case_prod_beta fs_put_def fs_unlink_def split: if_splits)

text \<open>A failed write changes no file but the temporary one.\<close>

lemma file_write_failure:
  assumes "file_metatile_write e td fs xml opts x y z buf = (-1, fs')"
    and "p \<noteq> tile_file td xml opts x y z @ ''.'' @ show_nat (fe_self e)" "fs_nodes fs p = Some FFile"
  shows "fs_nodes fs' p = Some FFile \<and> fs_file fs' p = fs_file fs p"
proof -
  let ?tmp = "tile_file td xml opts x y z @ ''.'' @ show_nat (fe_self e)"
  obtain r nodes where m: "mkdirp (fe_deny e) (fs_nodes fs) ?tmp = (r, nodes)" by fastforce
  have "nodes p = Some FFile"
    using mkdirp_keeps [OF m] assms(3) by (auto simp: map_le_def) (metis domI)
  with assms m show ?thesis
    by (auto simp: file_metatile_write_def Let_def fs_put_def fs_unlink_def split: if_splits)
qed

lemma expire_spec:
  assumes "fs_stat fs (fst (xyz_to_meta PATH_MAX td xml x y z)) = Some n" "gmtime_ok (fn_mtime n)" "YEAR_2016 \<le> fn_mtime n"
    "fe_openable e (fst (xyz_to_meta PATH_MAX td xml x y z))"
  shows "file_metatile_expire e td fs xml x y z =
    (0, fs\<lparr>fs_file := (fs_file fs)(fst (xyz_to_meta PATH_MAX td xml x y z) := n\<lparr>fn_mtime := fe_mktime20 e (fn_mtime n)\<rparr>)\<rparr>)"
  using assms by (simp add: file_metatile_expire_def Let_def)

section \<open>Properties of the file storage\<close>

text \<open>
  C12. End to end: after a metatile was saved to the file storage and the write was complete, reading
  any of its 64 tiles, with any division of the file into partial reads, yields exactly the bytes of
  that tile, uncompressed, when they fit the caller's buffer.
\<close>

theorem saved_metatile_reads_back:
  assumes "aligned t" "in_int32 (int (length (metatile_buffer t)))" "ox < 8" "oy < 8" "length (mt_tile t ox oy) \<le> sz"
    and "init_storage_file e td = Some sb"
    and "fst (file_metatile_write e td fs (mt_xmlconfig t) (mt_options t) (mt_x t) (mt_y t) (mt_z t) (metatile_buffer t))
           = int (length (metatile_buffer t))"
    and "fe_malloc r" "\<forall>k. 0 \<le> fe_chunk r k"
        "fe_openable r (tile_file td (mt_xmlconfig t) (mt_options t) (mt_x t) (mt_y t) (mt_z t))"
  shows "file_tile_read r td (metaTile_save True sb fs t) (mt_xmlconfig t) (mt_options t)
           (mt_x t + int ox) (mt_y t + int oy) (mt_z t) sz =
    \<lparr>rr_ret = int (length (mt_tile t ox oy)), rr_buf = mt_tile t ox oy, rr_compressed = Some 0\<rparr>"
proof (rule read_stored_tile [OF assms(1-5,8,9) refl assms(10)])
  have "metaTile_save True sb fs t = snd (file_metatile_write e td fs (mt_xmlconfig t) (mt_options t) (mt_x t) (mt_y t) (mt_z t) (metatile_buffer t))"
    using assms(6) by (auto simp: metaTile_save_def init_storage_file_def split: if_splits)
  with assms(7) have "file_metatile_write e td fs (mt_xmlconfig t) (mt_options t) (mt_x t) (mt_y t) (mt_z t) (metatile_buffer t)
      = (int (length (metatile_buffer t)), metaTile_save True sb fs t)" by (simp add: prod_eq_iff)
  from file_write_success [OF this]
  show "fs_nodes (metaTile_save True sb fs t) (tile_file td (mt_xmlconfig t) (mt_options t) (mt_x t) (mt_y t) (mt_z t)) = Some FFile"
    "fn_data (fs_file (metaTile_save True sb fs t) (tile_file td (mt_xmlconfig t) (mt_options t) (mt_x t) (mt_y t) (mt_z t))) = metatile_buffer t"
    by simp_all
qed

definition sample_env :: file_env where
  "sample_env = \<lparr>fe_malloc = True, fe_openable = (\<lambda>_. True), fe_chunk = (\<lambda>_. 100), fe_deny = (\<lambda>_. False),
                 fe_write = (\<lambda>bs. int (length bs)), fe_rename = True, fe_unlink = (\<lambda>_. True), fe_now = 1700000000,
                 fe_self = 1, fe_mktime20 = (\<lambda>t. t - 631152000)\<rparr>"

definition sample_fs :: fsys where
  "sample_fs = \<lparr>fs_nodes = [''/t/osm/5/0/0/0/1'' \<mapsto> FDir], fs_file = (\<lambda>_. \<lparr>fn_data = [], fn_mtime = 0, fn_atime = 0, fn_ctime = 0\<rparr>)\<rparr>"

definition sample_metatile :: metaTile where
  "sample_metatile = metaTile_set 1 2 [1, 2, 3] (metaTile_new ''osm'' [] 8 16 5)"

lemma sample_path: "tile_file ''/t'' ''osm'' [] 8 16 5 = ''/t/osm/5/0/0/0/1/128.meta''"
  by code_simp

lemma sample_aligned: "aligned sample_metatile"
  by (simp add: aligned_def sample_metatile_def metaTile_set_def metaTile_new_def)

lemma sample_fields:
  "mt_xmlconfig sample_metatile = ''osm''" "mt_options sample_metatile = []" "mt_x sample_metatile = 8"
  "mt_y sample_metatile = 16" "mt_z sample_metatile = 5" "mt_tile sample_metatile 1 2 = [1, 2, 3]"
  by (simp_all add: sample_metatile_def metaTile_set_def metaTile_new_def)

lemma sample_length: "length (metatile_buffer sample_metatile) = 535"
proof -
  have "length (concat (map (tdata sample_metatile) tile_order)) = 3"
    by (simp add: tile_order_def upt_rec tdata_def sample_metatile_def metaTile_set_def metaTile_new_def)
  then show ?thesis using buffer_header [OF sample_aligned] by simp
qed

lemma sample_tmp: "''/t/osm/5/0/0/0/1/128.meta'' @ ''.'' @ show_nat 1 = ''/t/osm/5/0/0/0/1/128.meta.1''"
  by code_simp

lemma sample_mkdirp:
  "nodes ''/t/osm/5/0/0/0/1'' = Some FDir \<Longrightarrow> mkdirp deny nodes ''/t/osm/5/0/0/0/1/128.meta.1'' = (0, nodes)"
  by (simp add: mkdirp_def PATH_MAX_def strrchr_def)

lemma sample_self: "fe_self sample_env = 1" "fe_self (sample_env\<lparr>fe_write := w\<rparr>) = 1"
  by (simp_all add: sample_env_def)

lemma sample_write: "fst (file_metatile_write sample_env ''/t'' sample_fs ''osm'' [] 8 16 5 buf) = int (length buf)"
  unfolding file_metatile_write_def Let_def sample_path sample_self sample_tmp
  by (simp add: sample_mkdirp sample_fs_def fs_put_def Let_def) (simp add: sample_env_def)

theorem saved_metatile_reads_back_witness:
  "file_tile_read sample_env ''/t'' (metaTile_save True (the (init_storage_file sample_env ''/t'')) sample_fs sample_metatile)
     ''osm'' [] (8 + int 1) (16 + int 2) 5 16384
   = \<lparr>rr_ret = int (length (mt_tile sample_metatile 1 2)), rr_buf = mt_tile sample_metatile 1 2, rr_compressed = Some 0\<rparr>"
proof -
  have sb: "init_storage_file sample_env ''/t'' = Some (the (init_storage_file sample_env ''/t''))"
    by (simp add: init_storage_file_def sample_env_def)
  have len: "in_int32 (int (length (metatile_buffer sample_metatile)))" by (simp add: sample_length in_int32_def)
  have small: "length (mt_tile sample_metatile 1 2) \<le> 16384" unfolding sample_fields by simp
  have one: "(1 :: nat) < 8" "(2 :: nat) < 8" by simp_all
  have env: "fe_malloc sample_env" "\<forall>k. 0 \<le> fe_chunk sample_env k" "fe_openable sample_env p" for p
    by (simp_all add: sample_env_def)
  show ?thesis
    using saved_metatile_reads_back [OF sample_aligned len one small sb _ env(1,2) env(3), of sample_fs]
      sample_write [of "metatile_buffer sample_metatile"]
    unfolding sample_fields by blast
qed

text \<open>
  A failed write never damages a tile: whatever fails (directories, the open, a short write, the
  rename), every existing file except the writer's own temporary file keeps its contents and times,
  in particular the old metatile.
\<close>

theorem failed_write_keeps_files:
  assumes "file_metatile_write e td fs xml opts x y z buf = (-1, fs')"
    and "p \<noteq> tile_file td xml opts x y z @ ''.'' @ show_nat (fe_self e)" "fs_nodes fs p = Some FFile"
  shows "fs_nodes fs' p = Some FFile \<and> fs_file fs' p = fs_file fs p"
  using file_write_failure [OF assms] .

definition sample_fs2 :: fsys where
  "sample_fs2 = fs_put ''/t/osm/5/0/0/0/1/128.meta'' \<lparr>fn_data = [7], fn_mtime = 1600000000, fn_atime = 0, fn_ctime = 0\<rparr> sample_fs"

theorem failed_write_keeps_files_witness:
  "fs_file (snd (file_metatile_write (sample_env\<lparr>fe_write := (\<lambda>_. 0)\<rparr>) ''/t'' sample_fs2 ''osm'' [] 8 16 5 [1, 2]))
     ''/t/osm/5/0/0/0/1/128.meta'' = fs_file sample_fs2 ''/t/osm/5/0/0/0/1/128.meta''"
proof -
  have "fst (file_metatile_write (sample_env\<lparr>fe_write := (\<lambda>_. 0)\<rparr>) ''/t'' sample_fs2 ''osm'' [] 8 16 5 [1, 2]) = -1"
    unfolding file_metatile_write_def Let_def sample_path sample_self sample_tmp
    by (simp add: sample_mkdirp sample_fs2_def sample_fs_def fs_put_def)
  then have "file_metatile_write (sample_env\<lparr>fe_write := (\<lambda>_. 0)\<rparr>) ''/t'' sample_fs2 ''osm'' [] 8 16 5 [1, 2] =
      (-1, snd (file_metatile_write (sample_env\<lparr>fe_write := (\<lambda>_. 0)\<rparr>) ''/t'' sample_fs2 ''osm'' [] 8 16 5 [1, 2]))"
    by (simp add: prod_eq_iff)
  from failed_write_keeps_files [OF this, of "''/t/osm/5/0/0/0/1/128.meta''"] show ?thesis
    by (simp add: sample_path sample_fs2_def fs_put_def)
qed

text \<open>
  Reading from the file storage never stores more than the caller's buffer holds, whatever the
  file contains and however reads behave, and a tile whose status has no size cannot be read.
\<close>

theorem file_read_is_bounded:
  "rr_ret (file_tile_read e td fs xml opts x y z sz) \<le> int sz
   \<and> (0 \<le> rr_ret (file_tile_read e td fs xml opts x y z sz) \<longrightarrow>
        int (length (rr_buf (file_tile_read e td fs xml opts x y z sz))) = rr_ret (file_tile_read e td fs xml opts x y z sz)
        \<and> 0 \<le> si_size (file_tile_stat e td fs xml opts x y z))"
  using file_store.never_overruns file_store.readable_has_size file_store.fits by metis

theorem file_read_is_bounded_witness:
  "rr_ret (file_tile_read sample_env ''/t'' sample_fs2 ''osm'' [] 9 18 5 10) \<le> 10"
  using file_read_is_bounded [of sample_env "''/t''" sample_fs2 "''osm''" "[]" 9 18 5 10] by simp

text \<open>
  A malformed metatile is always reported: a file shorter than the header, a wrong magic number
  and a wrong number of entries yield their error codes and no data.
\<close>

theorem malformed_metatile_is_rejected:
  assumes "fe_malloc e" "\<forall>k. 0 \<le> fe_chunk e k" "path = tile_file td xml opts x y z" "fe_openable e path"
    "fs_nodes fs path = Some FFile" "data = fn_data (fs_file fs path)"
    and bad: "length data < header_size \<or> (take 4 data \<noteq> META_MAGIC \<and> take 4 data \<noteq> META_MAGIC_COMPRESSED)
         \<or> rd32 (take (header_size - 4) (drop 4 data)) \<noteq> int META_COUNT"
  shows "rr_ret (file_tile_read e td fs xml opts x y z sz) \<in> {-3, -4, -5}
    \<and> rr_buf (file_tile_read e td fs xml opts x y z sz) = []"
proof -
  obtain off where xy: "xyzo_to_meta PATH_MAX td xml opts x y z = (path, off)"
    using assms(3) by (simp add: tile_file_def prod_eq_iff)
  obtain k where k: "read_loop e 0 data 0 header_size [] = Some (take header_size data, k)"
    using read_loop_complete [OF assms(2), of "[]" header_size 0 data 0] by auto
  have "take 4 (take header_size data) = take 4 data" by (simp add: meta_sizes)
  moreover have "rd32 (drop 4 (take header_size data)) = rd32 (take (header_size - 4) (drop 4 data))" by (simp add: drop_take)
  ultimately show ?thesis
    unfolding file_tile_read_def xy using assms(1,4,5,6) k bad
    by (auto simp: Let_def read_error_def bytes_layout_def)
qed

theorem malformed_metatile_is_rejected_witness:
  "rr_ret (file_tile_read sample_env ''/t'' sample_fs2 ''osm'' [] 8 16 5 10) \<in> {-3, -4, -5}
    \<and> rr_buf (file_tile_read sample_env ''/t'' sample_fs2 ''osm'' [] 8 16 5 10) = []"
  by (rule malformed_metatile_is_rejected [OF _ _ refl _ _ refl])
    (simp_all add: sample_env_def sample_path sample_fs2_def fs_put_def meta_sizes)

text \<open>
  Expiring a tile that was rendered in 2016 or later and whose date twenty years back is before the
  planet import makes its status report it as expired; the contents stay readable as before.
\<close>

theorem expire_marks_expired:
  assumes "path = tile_file td xml [] x y z" "fs_nodes fs path = Some FFile" "n = fs_file fs path"
    "gmtime_ok (fn_mtime n)" "YEAR_2016 \<le> fn_mtime n" "fe_openable e path"
    "fe_mktime20 e (fn_mtime n) < get_planet_time (\<lambda>p. map_option fn_mtime (fs_stat (snd (file_metatile_expire e td fs xml x y z)) p))
       (fe_now e) td (Some xml)"
  shows "si_expired (file_tile_stat e td (snd (file_metatile_expire e td fs xml x y z)) xml [] x y z) = 1
    \<and> fn_data (fs_file (snd (file_metatile_expire e td fs xml x y z)) path) = fn_data n"
proof -
  have p: "fst (xyz_to_meta PATH_MAX td xml x y z) = path" using assms(1) by (simp add: xyz_to_meta_def tile_file_def)
  have "fs_stat fs path = Some n" using assms(2,3) by (simp add: fs_stat_def)
  note ex = expire_spec [of fs td xml x y z n e, unfolded p, OF this assms(4-6)]
  let ?fs = "snd (file_metatile_expire e td fs xml x y z)"
  have f: "?fs = fs\<lparr>fs_file := (fs_file fs)(path := n\<lparr>fn_mtime := fe_mktime20 e (fn_mtime n)\<rparr>)\<rparr>" using ex by simp
  then have s: "fs_stat ?fs path = Some (n\<lparr>fn_mtime := fe_mktime20 e (fn_mtime n)\<rparr>)"
    using assms(2) by (simp add: fs_stat_def)
  have "si_expired (file_tile_stat e td ?fs xml [] x y z) = 1"
    unfolding file_tile_stat_def assms(1) [symmetric] s using assms(7) by (simp add: Let_def)
  with f show ?thesis by simp
qed

theorem expire_marks_expired_witness:
  "si_expired (file_tile_stat sample_env ''/t'' (snd (file_metatile_expire sample_env ''/t'' sample_fs2 ''osm'' 8 16 5)) ''osm'' [] 8 16 5) = 1
    \<and> fn_data (fs_file (snd (file_metatile_expire sample_env ''/t'' sample_fs2 ''osm'' 8 16 5)) ''/t/osm/5/0/0/0/1/128.meta'')
      = fn_data (fs_file sample_fs2 ''/t/osm/5/0/0/0/1/128.meta'')"
proof (rule expire_marks_expired)
  have "fst (xyz_to_meta PATH_MAX ''/t'' ''osm'' 8 16 5) = ''/t/osm/5/0/0/0/1/128.meta''"
    using sample_path by (simp add: xyz_to_meta_def tile_file_def)
  then show "fe_mktime20 sample_env (fn_mtime (fs_file sample_fs2 ''/t/osm/5/0/0/0/1/128.meta''))
    < get_planet_time (\<lambda>p. map_option fn_mtime (fs_stat (snd (file_metatile_expire sample_env ''/t'' sample_fs2 ''osm'' 8 16 5)) p))
       (fe_now sample_env) ''/t'' (Some ''osm'')"
    by (simp add: file_metatile_expire_def Let_def fs_stat_def sample_fs2_def fs_put_def sample_fs_def sample_env_def gmtime_ok_def
        YEAR_2016_def get_planet_time_def snprintf_def PLANET_TIMESTAMP_def PATH_MAX_def)
qed (simp_all add: sample_path sample_fs2_def fs_put_def sample_env_def gmtime_ok_def YEAR_2016_def)

end
