(* ===== verification/Mod_Tile_Serving.thy ===== *)
theory Mod_Tile_Serving
  imports Mod_Tile Store_File
begin

text \<open>
  What the hooks of the Apache module (theory \<open>Mod_Tile\<close>) guarantee: which tiles an address can name,
  that the address of a tile is understood, how a request is decided, the bounds of the cache times,
  what is sent, and the whole way from a saved metatile to the body of an answer.
\<close>

section \<open>Translation\<close>

text \<open>A layer whose zoom levels fit the module's tables and whose tile numbers fit an \<open>int\<close>.\<close>

definition layer_sane :: "int \<Rightarrow> tile_config_rec \<Rightarrow> bool" where
  "layer_sane gmax l \<longleftrightarrow>
     0 \<le> tr_minzoom l \<and> tr_maxzoom l \<le> gmax \<and> gmax \<le> MAX_ZOOM_SERVER
     \<and> 0 \<le> tr_aspect_x l \<and> 2 ^ nat (tr_maxzoom l) * tr_aspect_x l < 2147483648
     \<and> 0 \<le> tr_aspect_y l \<and> 2 ^ nat (tr_maxzoom l) * tr_aspect_y l < 2147483648"

definition stores_ok :: "'w henv \<Rightarrow> 'w server \<Rightarrow> bool" where
  "stores_ok he sv \<longleftrightarrow> (case sv_stores sv of None \<Rightarrow> True | Some ss \<Rightarrow> length ss = length (sc_configs (he_scfg he)))"

text \<open>A tile of a layer.\<close>

definition tile_in_layer :: "tile_config_rec \<Rightarrow> int \<Rightarrow> int \<Rightarrow> int \<Rightarrow> bool" where
  "tile_in_layer l x y z \<longleftrightarrow>
     tr_minzoom l \<le> z \<and> z \<le> tr_maxzoom l \<and> 0 \<le> x \<and> x < 2 ^ nat z * tr_aspect_x l \<and> 0 \<le> y \<and> y < 2 ^ nat z * tr_aspect_y l"

lemma scaled_in_range:
  assumes "0 \<le> a" "2 ^ nat zm * a < (2147483648 :: int)" "z \<le> zm"
  shows "in_int32 (2 ^ nat z * a)" "0 \<le> 2 ^ nat z * a"
proof -
  have "(2 :: int) ^ nat z \<le> 2 ^ nat zm" using assms(3) by (intro power_increasing) auto
  then have "2 ^ nat z * a \<le> 2 ^ nat zm * a" using assms(1) by (rule mult_right_mono)
  moreover show "0 \<le> 2 ^ nat z * a" using assms(1) by simp
  ultimately show "in_int32 (2 ^ nat z * a)" using assms(2) by (simp add: in_int32_def)
qed

lemma tile_oob_iff:
  assumes "layer_sane gmax l"
  shows "tile_oob l tp \<longleftrightarrow> \<not> tile_in_layer l (tp_x tp) (tp_y tp) (tp_z tp)"
proof (cases "tr_minzoom l \<le> tp_z tp \<and> tp_z tp \<le> tr_maxzoom l")
  case True
  let ?z = "tp_z tp"
  note s = assms [unfolded layer_sane_def MAX_ZOOM_SERVER_def]
  have "(2 :: int) ^ nat ?z \<le> 2 ^ 30" using True s by (intro power_increasing) auto
  then have l: "wrap32 (2 ^ nat ?z) = 2 ^ nat ?z"
    using zero_le_power [of "2 :: int" "nat ?z"] by (intro wrap32_id) (simp add: in_int32_def del: zero_le_power)
  show ?thesis
    using True s scaled_in_range [of "tr_aspect_x l" "tr_maxzoom l" ?z] scaled_in_range [of "tr_aspect_y l" "tr_maxzoom l" ?z]
    by (auto simp: tile_oob_def tile_in_layer_def Let_def l)
next
  case False
  then show ?thesis by (auto simp: tile_oob_def tile_in_layer_def)
qed

lemma get_storage_backend_facts:
  assumes "get_storage_backend he i sv = (store, sv')" "stores_ok he sv" "i < length (sc_configs (he_scfg he))"
  shows "stores_ok he sv'" "td_layerNumber rd = int i \<Longrightarrow> store_of rd sv' = store"
    "sv_world sv' = sv_world sv" "sv_stats sv' = sv_stats sv" "sv_pool sv' = sv_pool sv" "sv_open sv' = sv_open sv"
  using assms by (auto simp: get_storage_backend_def stores_ok_def store_of_def Let_def split: option.splits)

lemma translate_layers_found:
  assumes "translate_layers he k ls r sv = Some (c, r', sv')" "c \<noteq> HTTP_DECLINED"
  shows "\<exists>j < length ls. starts_with (tr_baseuri (ls ! j)) (rq_uri r) \<and> translate_layer he (k + j) (ls ! j) r sv = Some (c, r', sv')"
  using assms
proof (induction ls arbitrary: k)
  case Nil
  then show ?case by simp
next
  case (Cons l ls)
  show ?case
  proof (cases "starts_with (tr_baseuri l) (rq_uri r)")
    case True
    with Cons.prems show ?thesis by (intro exI [of _ 0]) simp
  next
    case False
    with Cons obtain j where "j < length ls" "starts_with (tr_baseuri (ls ! j)) (rq_uri r)"
      "translate_layer he (Suc k + j) (ls ! j) r sv = Some (c, r', sv')" by fastforce
    then show ?thesis by (intro exI [of _ "Suc j"]) simp
  qed
qed

lemma http_codes:
  "HTTP_OK \<noteq> HTTP_DECLINED" "HTTP_OK \<noteq> HTTP_NOT_FOUND" "HTTP_OK \<noteq> HTTP_INTERNAL_SERVER_ERROR" "HTTP_OK \<noteq> HTTP_SERVICE_UNAVAILABLE"
  "HTTP_NOT_FOUND \<noteq> HTTP_SERVICE_UNAVAILABLE" "HTTP_DECLINED \<noteq> HTTP_NOT_FOUND" "HTTP_DECLINED \<noteq> HTTP_INTERNAL_SERVER_ERROR"
  "HTTP_NOT_FOUND \<noteq> HTTP_INTERNAL_SERVER_ERROR" "HTTP_INTERNAL_SERVER_ERROR \<noteq> HTTP_SERVICE_UNAVAILABLE"
  by (simp_all add: HTTP_OK_def HTTP_DECLINED_def HTTP_NOT_FOUND_def HTTP_INTERNAL_SERVER_ERROR_def HTTP_SERVICE_UNAVAILABLE_def)

lemma respond_code: "respond he c cmd layer r sv = Some (c', r', sv') \<Longrightarrow> c' = c \<and> r' = r"
  by (auto simp: respond_def)

text \<open>The last part of the translation: the path names a tile of the layer.\<close>

definition finish_translation :: "'w henv \<Rightarrow> nat \<Rightarrow> tile_config_rec \<Rightarrow> tile_path \<Rightarrow> nat \<Rightarrow> request_rec \<Rightarrow> 'w storage_backend option \<Rightarrow> 'w server \<Rightarrow> 'w outcome" where
  "finish_translation he i l tp n r store sv1 =
     (if (case store of None \<Rightarrow> True | Some b \<Rightarrow> \<not> sb_storage_ctx b (sv_world sv1))
      then respond he HTTP_INTERNAL_SERVER_ERROR (Some (tile_cmd l tp)) (int i) r sv1
      else let r1 = r\<lparr>rq_rdata := Some \<lparr>td_cmd = Some (tile_cmd l tp), td_layerNumber = int i, td_tileState = tileUnknown\<rparr>\<rparr>
           in if n = (if tr_enableOptions l \<noteq> 0 then 5 else 4)
              then if tp_option tp = Some ''status'' then Some (HTTP_OK, r1\<lparr>rq_handler := Some ''tile_status''\<rparr>, sv1)
                   else if tp_option tp = Some ''dirty'' then Some (HTTP_OK, r1\<lparr>rq_handler := Some ''tile_dirty''\<rparr>, sv1)
                   else Some (HTTP_DECLINED, r1, sv1)
              else Some (HTTP_OK, r1\<lparr>rq_handler := Some ''tile_serve''\<rparr>, sv1))"

lemma translate_layer_tile:
  assumes "\<not> starts_with ''tile-layer.json'' (drop (length (tr_baseuri l)) (rq_uri r))"
    "parts = apr_tokens ''/'' (drop (length (tr_baseuri l)) (rq_uri r))"
    "parse_tile_path l parts = Some tp" "tp_extension tp = Some (tr_fileExtension l)" "\<not> tile_oob l tp"
    "get_storage_backend he i sv = (store, sv1)"
  shows "translate_layer he i l r sv = finish_translation he i l tp (length parts) r store sv1"
  using assms by (simp add: translate_layer_def finish_translation_def Let_def)

lemma finish_translation_ok:
  assumes "finish_translation he i l tp n r store sv1 = Some (HTTP_OK, r', sv')"
  shows "store \<noteq> None" "sv' = sv1" "rq_rdata r' = Some \<lparr>td_cmd = Some (tile_cmd l tp), td_layerNumber = int i, td_tileState = tileUnknown\<rparr>"
  using assms http_codes
  by (auto simp: finish_translation_def Let_def split: if_splits option.splits dest!: respond_code)

lemma translate_layer_ok:
  assumes "translate_layer he i l r sv = Some (HTTP_OK, r', sv')" "rq_rdata r' = Some rd" "td_cmd rd = Some cmd"
    and "layer_sane gmax l" "stores_ok he sv" "i < length (sc_configs (he_scfg he))"
  shows "td_layerNumber rd = int i" "tile_in_layer l (pr_x cmd) (pr_y cmd) (pr_z cmd)" "store_of rd sv' \<noteq> None" "stores_ok he sv'"
proof -
  let ?path = "drop (length (tr_baseuri l)) (rq_uri r)"
  have nj: "\<not> starts_with ''tile-layer.json'' ?path" using assms(1-3) by (auto simp: translate_layer_def)
  obtain tp where tp: "parse_tile_path l (apr_tokens ''/'' ?path) = Some tp" "tp_extension tp = Some (tr_fileExtension l)" "\<not> tile_oob l tp"
  proof (cases "parse_tile_path l (apr_tokens ''/'' ?path)")
    case None
    then show thesis using assms(1) nj http_codes by (simp add: translate_layer_def Let_def)
  next
    case (Some tp)
    note u = translate_layer_def [of he i l r sv] and t = assms(1)
    have "tp_extension tp \<noteq> None"
    proof
      assume "tp_extension tp = None"
      with Some nj have "translate_layer he i l r sv = None" by (simp add: u)
      with t show False by simp
    qed
    then obtain ext where e: "tp_extension tp = Some ext" by blast
    have "ext = tr_fileExtension l"
    proof (rule ccontr)
      assume "ext \<noteq> tr_fileExtension l"
      with Some nj e have "translate_layer he i l r sv = Some (HTTP_DECLINED, r, sv)" by (simp add: u)
      with t http_codes show False by simp
    qed
    moreover have "\<not> tile_oob l tp"
    proof
      assume "tile_oob l tp"
      with Some nj e \<open>ext = tr_fileExtension l\<close> have "translate_layer he i l r sv = Some (HTTP_NOT_FOUND, r, sv)" by (simp add: u)
      with t http_codes show False by simp
    qed
    ultimately show thesis using that Some e by blast
  qed
  obtain store sv1 where g: "get_storage_backend he i sv = (store, sv1)" by fastforce
  have "finish_translation he i l tp (length (apr_tokens ''/'' ?path)) r store sv1 = Some (HTTP_OK, r', sv')"
    using assms(1) translate_layer_tile [OF nj refl tp g] by simp
  note fin = finish_translation_ok [OF this]
  then have b: "store \<noteq> None" "sv' = sv1" "rd = \<lparr>td_cmd = Some (tile_cmd l tp), td_layerNumber = int i, td_tileState = tileUnknown\<rparr>"
    using assms(2) by auto
  note gf = get_storage_backend_facts [OF g assms(5,6)]
  show "td_layerNumber rd = int i" using b by simp
  have "cmd = tile_cmd l tp" using b(3) assms(3) by simp
  then have "pr_x cmd = tp_x tp" "pr_y cmd = tp_y tp" "pr_z cmd = tp_z tp" by (simp_all add: tile_cmd_def)
  moreover have "tile_in_layer l (tp_x tp) (tp_y tp) (tp_z tp)" using tp(3) tile_oob_iff [OF assms(4), of tp] by blast
  ultimately show "tile_in_layer l (pr_x cmd) (pr_y cmd) (pr_z cmd)" by metis
  show "store_of rd sv' \<noteq> None" "stores_ok he sv'" using gf(1) gf(2) [of rd] b by simp_all
qed

text \<open>
  C14. Every address the module accepts as a tile names a tile of one of its layers: the layer number is
  an index of the configuration, zoom and coordinates are within the layer's bounds, and its storage is
  open. Counting the answer to it stays within the arrays of the statistics.
\<close>

theorem translate_yields_valid_tile:
  assumes "tile_translate he r sv = Some (HTTP_OK, r', sv')" "rq_rdata r = None" "rq_rdata r' = Some rd" "td_cmd rd = Some cmd"
    and "\<forall>l\<in>set (sc_configs (he_scfg he)). layer_sane gmax l" "stores_ok he sv"
  shows "\<exists>l. nat (td_layerNumber rd) < length (sc_configs (he_scfg he)) \<and> l = sc_configs (he_scfg he) ! nat (td_layerNumber rd)
    \<and> starts_with (tr_baseuri l) (rq_uri r) \<and> tile_in_layer l (pr_x cmd) (pr_y cmd) (pr_z cmd) \<and> store_of rd sv' \<noteq> None
    \<and> response_ok gmax (length (sc_configs (he_scfg he))) (lk, c, Some cmd, td_layerNumber rd)"
proof -
  have "translate_layers he 0 (sc_configs (he_scfg he)) r sv = Some (HTTP_OK, r', sv')"
    using assms(1-3) by (auto simp: tile_translate_def split: if_splits)
  from translate_layers_found [OF this http_codes(1)] obtain j where
    j: "j < length (sc_configs (he_scfg he))" "starts_with (tr_baseuri (sc_configs (he_scfg he) ! j)) (rq_uri r)"
    "translate_layer he j (sc_configs (he_scfg he) ! j) r sv = Some (HTTP_OK, r', sv')" by auto
  have s: "layer_sane gmax (sc_configs (he_scfg he) ! j)" using assms(5) j(1) by simp
  from translate_layer_ok [OF j(3) assms(3,4) s assms(6) j(1)] j s show ?thesis
    by (auto simp: response_ok_def tile_in_layer_def layer_sane_def)
qed

section \<open>The address of a tile\<close>

definition tile_uri :: "tile_config_rec \<Rightarrow> int \<Rightarrow> int \<Rightarrow> int \<Rightarrow> string" where
  "tile_uri l x y z =
     tr_baseuri l @ show_int z @ ''/'' @ show_int x @ ''/'' @ show_int y @ ''.'' @ tr_fileExtension l"

text \<open>An extension as a layer has it: no dot, no slash, not too long.\<close>

definition ext_ok :: "string \<Rightarrow> bool" where
  "ext_ok e \<longleftrightarrow> CHR ''.'' \<notin> set e \<and> CHR ''/'' \<notin> set e \<and> length e \<le> 255"

lemma show_int_nat: "0 \<le> i \<Longrightarrow> show_int i = show_nat (nat i)"
  by (simp add: show_int_def)

lemma safe_parse_show:
  assumes "0 \<le> i" "i < 2147483648"
  shows "safe_parse_int (show_int i) = Some i"
proof -
  have w: "takeWhile is_digit (show_nat n) = show_nat n" "dropWhile is_digit (show_nat n) = []" for n
    using show_nat_digits [of n] by auto
  have d: "dropWhile is_space (show_nat n) = show_nat n" for n using dropWhile_space_show_nat [of n "[]"] by simp
  show ?thesis
    using assms by (simp add: safe_parse_int_def strtoi64_def Let_def show_int_nat w d clamp64_def in_int32_def)
qed

lemma strtok_token: "CHR ''/'' \<notin> set t \<Longrightarrow> strtok_go ''/'' acc (t @ s) = strtok_go ''/'' (rev t @ acc) s"
  by (induction t arbitrary: acc) auto

lemma strtok_three:
  assumes "CHR ''/'' \<notin> set a" "CHR ''/'' \<notin> set b" "CHR ''/'' \<notin> set c" "a \<noteq> []" "b \<noteq> []" "c \<noteq> []"
  shows "apr_tokens ''/'' (a @ ''/'' @ b @ ''/'' @ c) = [a, b, c]"
  using assms strtok_token [of c "[]" "[]"] by (simp add: apr_tokens_def strtok_token)

lemma strrchr_last: "c \<notin> set b \<Longrightarrow> strrchr (a @ c # b) c = Some (a, b)"
proof -
  assume "c \<notin> set b"
  then have "d \<noteq> c" if "d \<in> set (rev b)" for d using that by auto
  then have "takeWhile (\<lambda>d. d \<noteq> c) (rev b @ c # rev a) = rev b" "dropWhile (\<lambda>d. d \<noteq> c) (rev b @ c # rev a) = c # rev a"
    using takeWhile_append2 [of "rev b" "\<lambda>d. d \<noteq> c" "c # rev a"] dropWhile_append2 [of "rev b" "\<lambda>d. d \<noteq> c" "c # rev a"] by simp_all
  then show ?thesis by (simp add: strrchr_def Let_def)
qed

lemma get_extension_name:
  assumes "ext_ok e"
  shows "get_extension (show_int y @ ''.'' @ e) = (show_int y, Some e)"
  using assms strrchr_last [of "CHR ''.''" e "show_int y"] by (simp add: get_extension_def ext_ok_def)

lemma json_no_digit: "is_digit c \<Longrightarrow> \<not> starts_with ''tile-layer.json'' (c # s)"
  by (auto simp: is_digit_def char_code_def)

lemma parse_tile_uri:
  assumes "tr_enableOptions l = 0" "ext_ok (tr_fileExtension l)" "0 \<le> x" "0 \<le> y" "0 \<le> z"
    "x < 2147483648" "y < 2147483648" "z < 2147483648"
  shows "apr_tokens ''/'' (drop (length (tr_baseuri l)) (tile_uri l x y z)) = [show_int z, show_int x, show_int y @ ''.'' @ tr_fileExtension l]"
    and "parse_tile_path l [show_int z, show_int x, show_int y @ ''.'' @ tr_fileExtension l] =
      Some \<lparr>tp_ver = 2, tp_parameters = [], tp_z = z, tp_x = x, tp_y = y, tp_extension = Some (tr_fileExtension l), tp_option = None\<rparr>"
    and "\<not> starts_with ''tile-layer.json'' (drop (length (tr_baseuri l)) (tile_uri l x y z))"
proof -
  have ne: "show_int i \<noteq> []" for i by (simp add: show_int_def)
  show "apr_tokens ''/'' (drop (length (tr_baseuri l)) (tile_uri l x y z)) = [show_int z, show_int x, show_int y @ ''.'' @ tr_fileExtension l]"
    using assms(2) strtok_three [of "show_int z" "show_int x" "show_int y @ ''.'' @ tr_fileExtension l"]
    by (simp add: tile_uri_def ne show_int_no_slash ext_ok_def)
  show "parse_tile_path l [show_int z, show_int x, show_int y @ ''.'' @ tr_fileExtension l] =
      Some \<lparr>tp_ver = 2, tp_parameters = [], tp_z = z, tp_x = x, tp_y = y, tp_extension = Some (tr_fileExtension l), tp_option = None\<rparr>"
    using assms get_extension_name [OF assms(2), of y]
    by (simp add: parse_tile_path_def parse_zxy_def safe_parse_show)
  have "is_digit (hd (show_int z))" using hd_show_nat_digit [of "nat z"] assms(5) by (simp add: show_int_nat)
  then show "\<not> starts_with ''tile-layer.json'' (drop (length (tr_baseuri l)) (tile_uri l x y z))"
    using ne [of z] json_no_digit by (cases "show_int z") (auto simp: tile_uri_def)
qed

lemma translate_layers_skip:
  assumes "i < length ls" "\<forall>j < i. \<not> starts_with (tr_baseuri (ls ! j)) (rq_uri r)" "starts_with (tr_baseuri (ls ! i)) (rq_uri r)"
  shows "translate_layers he k ls r sv = translate_layer he (k + i) (ls ! i) r sv"
  using assms
proof (induction ls arbitrary: k i)
  case Nil
  then show ?case by simp
next
  case (Cons l ls)
  show ?case
  proof (cases i)
    case 0
    with Cons.prems show ?thesis by simp
  next
    case (Suc i')
    have "\<not> starts_with (tr_baseuri l) (rq_uri r)" using Cons.prems(2) Suc by auto
    moreover have "\<forall>j < i'. \<not> starts_with (tr_baseuri (ls ! j)) (rq_uri r)" using Cons.prems(2) Suc by (metis Suc_less_eq nth_Cons_Suc)
    ultimately show ?thesis using Cons.IH [of i' "Suc k"] Cons.prems Suc by simp
  qed
qed

text \<open>The address of a tile of the layer \<open>i\<close>, not taken by the module's own pages or an earlier layer.\<close>

definition reaches_layer :: "'w henv \<Rightarrow> nat \<Rightarrow> string \<Rightarrow> bool" where
  "reaches_layer he i uri \<longleftrightarrow>
     i < length (sc_configs (he_scfg he)) \<and> \<not> starts_with ''/mod_tile'' uri \<and> \<not> starts_with ''/metrics'' uri
     \<and> (\<forall>j < i. \<not> starts_with (tr_baseuri (sc_configs (he_scfg he) ! j)) uri)"

lemma tile_in_layer_bounds:
  assumes "layer_sane gmax l" "tile_in_layer l x y z"
  shows "0 \<le> x" "0 \<le> y" "0 \<le> z" "x < 2147483648" "y < 2147483648" "z < 2147483648"
proof -
  note s = assms [unfolded layer_sane_def tile_in_layer_def MAX_ZOOM_SERVER_def]
  have "in_int32 (2 ^ nat z * tr_aspect_x l)" "in_int32 (2 ^ nat z * tr_aspect_y l)"
    using s scaled_in_range [of "tr_aspect_x l" "tr_maxzoom l" z] scaled_in_range [of "tr_aspect_y l" "tr_maxzoom l" z] by blast+
  then show "0 \<le> x" "0 \<le> y" "0 \<le> z" "x < 2147483648" "y < 2147483648" "z < 2147483648"
    using s by (auto simp: in_int32_def)
qed

lemma translate_tile_uri:
  assumes "l = sc_configs (he_scfg he) ! i" "rq_uri r = tile_uri l x y z" "reaches_layer he i (rq_uri r)"
    and "layer_sane gmax l" "tile_in_layer l x y z" "tr_enableOptions l = 0" "ext_ok (tr_fileExtension l)"
    and "get_storage_backend he i sv = (Some b, sv1)" "sb_storage_ctx b (sv_world sv1)"
  shows "tile_translate he r sv =
    Some (HTTP_OK, r\<lparr>rq_handler := Some ''tile_serve'',
      rq_rdata := Some \<lparr>td_cmd = Some \<lparr>pr_ver = 2, pr_cmd = cmdIgnore, pr_x = x, pr_y = y, pr_z = z, pr_xmlname = take 40 (tr_xmlname l),
                          pr_mimetype = take 40 (tr_mimeType l), pr_options = []\<rparr>, td_layerNumber = int i, td_tileState = tileUnknown\<rparr>\<rparr>, sv1)"
proof -
  note p = parse_tile_uri [OF assms(6,7) tile_in_layer_bounds [OF assms(4,5)]]
  let ?tp = "\<lparr>tp_ver = 2, tp_parameters = [], tp_z = z, tp_x = x, tp_y = y, tp_extension = Some (tr_fileExtension l), tp_option = None\<rparr>"
  have "\<not> tile_oob l ?tp" using assms(5) tile_oob_iff [OF assms(4), of ?tp] by simp
  with p translate_layer_tile [of l r "[show_int z, show_int x, show_int y @ ''.'' @ tr_fileExtension l]" ?tp he i sv "Some b" sv1] assms(2,8)
  have "translate_layer he i l r sv = finish_translation he i l ?tp 3 r (Some b) sv1" by (simp add: numeral_3_eq_3)
  moreover have "starts_with (tr_baseuri l) (rq_uri r)" unfolding assms(2) tile_uri_def by (rule starts_with_append)
  ultimately show ?thesis
    using assms(1,3,6,9) translate_layers_skip [of i "sc_configs (he_scfg he)" r he 0 sv]
    by (simp add: tile_translate_def reaches_layer_def finish_translation_def tile_cmd_def)
qed

text \<open>
  C29. The address of a tile: base address, zoom, x, y and extension, as the tile description page of the
  layer announces it, is translated to exactly that tile, for every tile within the layer's bounds,
  whenever the layer's storage can be opened and no earlier layer claims the address.
\<close>

theorem tile_address_roundtrip:
  assumes "l = sc_configs (he_scfg he) ! i" "rq_uri r = tile_uri l x y z" "reaches_layer he i (rq_uri r)"
    and "layer_sane gmax l" "tile_in_layer l x y z" "tr_enableOptions l = 0" "ext_ok (tr_fileExtension l)"
    and "get_storage_backend he i sv = (Some b, sv1)" "sb_storage_ctx b (sv_world sv1)"
  shows "\<exists>r' rd cmd. tile_translate he r sv = Some (HTTP_OK, r', sv1) \<and> rq_handler r' = Some ''tile_serve'' \<and> rq_rdata r' = Some rd
    \<and> td_cmd rd = Some cmd \<and> td_layerNumber rd = int i \<and> (pr_x cmd, pr_y cmd, pr_z cmd) = (x, y, z)
    \<and> pr_xmlname cmd = take 40 (tr_xmlname l)"
  using translate_tile_uri [OF assms] by simp

text \<open>A server with one layer in files, for which no daemon is running.\<close>

definition no_daemon :: "'w module_os" where
  "no_daemon =
     \<lparr>mo_net = \<lparr>no_getaddrinfo = (\<lambda>s h p. ((1, []), s)), no_socket = (\<lambda>s a. (-1, s)), no_connect = (\<lambda>s fd a. (-1, s))\<rparr>,
      mo_send = (\<lambda>s fd bs. (-1, s)), mo_errno = (\<lambda>s. EOTHER), mo_poll = (\<lambda>s fd t. (0, s)), mo_recv = (\<lambda>s fd k. ((-1, []), s))\<rparr>"

definition sample_layer :: tile_config_rec where
  "sample_layer =
     \<lparr>tr_hostnames = [''http://localhost''], tr_attribution = [], tr_baseuri = ''/osm/'', tr_cors = None, tr_description = [],
      tr_fileExtension = ''png'', tr_mimeType = ''image/png'', tr_store = ''/t'', tr_xmlname = ''osm'', tr_aspect_x = 1, tr_aspect_y = 1,
      tr_enableOptions = 0, tr_maxzoom = 19, tr_minzoom = 0, tr_noHostnames = 1\<rparr>"

definition sample_henv :: "fsys henv" where
  "sample_henv =
     \<lparr>he_scfg = merge_tile_config create_tile_config (create_tile_config\<lparr>sc_configs := [sample_layer]\<rparr>), he_gmax = 19, he_os = no_daemon,
      he_fuel = 200, he_lock = (\<lambda>k. lockSuccess, True), he_timing_lock = (\<lambda>k. lockSuccess, True), he_throttle = sample_te 0,
      he_loadavg = Some 1, he_rand = 12345, he_init = init_storage_file sample_env, he_md5 = (\<lambda>bs. ''md5''), he_date = (\<lambda>t. ''date''),
      he_ctime = (\<lambda>t. ''date''), he_meets = (\<lambda>r. HTTP_OK), he_alloc = True, he_start = 0, he_end = 10\<rparr>"

definition sample_rr :: "string \<Rightarrow> request_rec" where
  "sample_rr uri =
     \<lparr>rq_uri = uri, rq_method = ''GET'', rq_hostname = ''localhost'', rq_useragent_ip = ''1.2.3.4'', rq_headers_in = Map.empty, rq_header_only = False,
      rq_request_time = 1700000000000000, rq_handler = None, rq_rdata = None, rq_mtime = 0, rq_atime = 0, rq_ctime = 0, rq_headers_out = [],
      rq_content_type = None, rq_content_encoding = None, rq_content_length = None, rq_body = []\<rparr>"

definition sample_server :: "fsys \<Rightarrow> fsys server" where
  "sample_server fs = \<lparr>sv_world = fs, sv_stats = init_stats sample_raw_stats 19 1, sv_pool = sample_pool, sv_stores = None, sv_open = []\<rparr>"

lemma sample_configs: "sc_configs (he_scfg sample_henv) = [sample_layer]"
  by (simp add: sample_henv_def merge_tile_config_def Let_def create_tile_config_def)

lemma sample_layer_sane: "layer_sane 19 sample_layer"
  by (simp add: layer_sane_def sample_layer_def MAX_ZOOM_SERVER_def)

definition sample_backend :: "fsys storage_backend" where
  "sample_backend = the (init_storage_file sample_env ''/t'')"

lemma sample_init: "he_init sample_henv (tr_store sample_layer) = Some sample_backend"
  by (simp add: sample_backend_def sample_henv_def sample_layer_def init_storage_file_def sample_env_def)

lemma sample_storage:
  "get_storage_backend sample_henv 0 (sample_server fs) = (Some sample_backend, (sample_server fs)\<lparr>sv_stores := Some [Some sample_backend]\<rparr>)"
  by (simp add: get_storage_backend_def sample_configs sample_init) (simp add: sample_server_def sample_configs sample_init Let_def)

lemma sample_storage_ctx: "sb_storage_ctx sample_backend w"
  by (simp add: sample_backend_def init_storage_file_def sample_env_def)

lemma sample_reaches: "reaches_layer sample_henv 0 (tile_uri sample_layer x y z)"
  by (simp add: reaches_layer_def sample_configs tile_uri_def sample_layer_def)

theorem tile_address_roundtrip_witness:
  "\<exists>r' rd cmd. tile_translate sample_henv (sample_rr (tile_uri sample_layer 9 18 5)) (sample_server sample_fs)
      = Some (HTTP_OK, r', (sample_server sample_fs)\<lparr>sv_stores := Some [Some sample_backend]\<rparr>)
    \<and> rq_handler r' = Some ''tile_serve'' \<and> rq_rdata r' = Some rd
    \<and> td_cmd rd = Some cmd \<and> td_layerNumber rd = int 0 \<and> (pr_x cmd, pr_y cmd, pr_z cmd) = (9, 18, 5)
    \<and> pr_xmlname cmd = take 40 (tr_xmlname sample_layer)"
  by (rule tile_address_roundtrip [OF _ _ _ sample_layer_sane _ _ _ sample_storage sample_storage_ctx])
    (simp_all add: sample_configs sample_rr_def sample_reaches tile_in_layer_def ext_ok_def, simp_all add: sample_layer_def)


theorem translate_yields_valid_tile_witness:
  "\<exists>r' rd cmd l. tile_translate sample_henv (sample_rr (tile_uri sample_layer 9 18 5)) (sample_server sample_fs)
      = Some (HTTP_OK, r', (sample_server sample_fs)\<lparr>sv_stores := Some [Some sample_backend]\<rparr>)
    \<and> rq_rdata r' = Some rd \<and> td_cmd rd = Some cmd \<and> l = sc_configs (he_scfg sample_henv) ! nat (td_layerNumber rd)
    \<and> tile_in_layer l (pr_x cmd) (pr_y cmd) (pr_z cmd)"
proof -
  let ?r = "sample_rr (tile_uri sample_layer 9 18 5)"
  have t: "tile_in_layer sample_layer 9 18 5" by (simp add: tile_in_layer_def sample_layer_def)
  note tr = translate_tile_uri [where r = ?r and i = 0 and sv = "sample_server sample_fs", OF _ _ _ sample_layer_sane t _ _ sample_storage sample_storage_ctx]
  have ok: "stores_ok sample_henv (sample_server sample_fs)" by (simp add: stores_ok_def sample_server_def)
  have "tr_enableOptions sample_layer = 0" "ext_ok (tr_fileExtension sample_layer)" by (simp_all add: sample_layer_def ext_ok_def)
  note tr' = tr [simplified, OF _ _ _ this, simplified sample_configs, simplified]
  have u: "rq_uri ?r = tile_uri sample_layer 9 18 5" "rq_rdata ?r = None" by (simp_all add: sample_rr_def)
  note run = tr' [OF u(1) sample_reaches]
  let ?c = "\<lparr>pr_ver = 2, pr_cmd = cmdIgnore, pr_x = 9, pr_y = 18, pr_z = 5, pr_xmlname = take 40 (tr_xmlname sample_layer),
      pr_mimetype = take 40 (tr_mimeType sample_layer), pr_options = []\<rparr>"
  let ?rd = "\<lparr>td_cmd = Some ?c, td_layerNumber = 0, td_tileState = tileUnknown\<rparr>"
  have "tile_in_layer (sc_configs (he_scfg sample_henv) ! nat (td_layerNumber ?rd)) (pr_x ?c) (pr_y ?c) (pr_z ?c)"
    using translate_yields_valid_tile [OF run u(2) _ _ _ ok, where rd = ?rd and cmd = ?c and gmax = 19] sample_layer_sane
    by (simp add: sample_configs)
  then show ?thesis using run by simp
qed

section \<open>The decision\<close>

text \<open>The throttling's word on a request for a tile of the given state: may it go on, and the buckets afterwards.\<close>

definition admission :: "'w henv \<Rightarrow> request_rec \<Rightarrow> tileState \<Rightarrow> 'w server \<Rightarrow> (bool \<times> delaypool) option" where
  "admission he r st sv =
     (if sc_enable_tile_throttling (he_scfg he)
      then delay_allowed (throttle_of (he_scfg he)) (he_throttle he) (rq_useragent_ip r) (rq_headers_in r ''X-Forwarded-For'') st (sv_pool sv)
      else Some (True, sv_pool sv))"

lemma tile_state_keeps:
  "tile_state he b sv cmd r = (st, r') \<Longrightarrow>
     st \<noteq> tileUnknown \<and> rq_useragent_ip r' = rq_useragent_ip r \<and> rq_headers_in r' = rq_headers_in r
     \<and> rq_handler r' = rq_handler r \<and> rq_rdata r' = rq_rdata r \<and> rq_headers_out r' = rq_headers_out r \<and> rq_body r' = rq_body r
     \<and> rq_content_type r' = rq_content_type r \<and> rq_content_encoding r' = rq_content_encoding r \<and> rq_content_length r' = rq_content_length r
     \<and> rq_request_time r' = rq_request_time r \<and> rq_hostname r' = rq_hostname r \<and> rq_uri r' = rq_uri r \<and> rq_header_only r' = rq_header_only r
     \<and> rq_method r' = rq_method r"
  by (auto simp: tile_state_def Let_def split: if_splits)

lemma storage_hook_unfold:
  assumes "rq_handler r = Some ''tile_serve''" "rq_rdata r = Some rd" "td_cmd rd = Some cmd" "store_of rd sv = Some b"
    "td_tileState rd = tileUnknown" "tile_state he b sv cmd r = (st, r1)"
  shows "tile_storage_hook he r sv =
     (case admission he r st sv of
        None \<Rightarrow> None
      | Some (ok, dl) \<Rightarrow>
          let rd1 = rd\<lparr>td_tileState := st\<rparr>; r2 = r1\<lparr>rq_rdata := Some rd1\<rparr>; sv1 = sv\<lparr>sv_pool := dl\<rparr>
          in if ok then decide_tile he b cmd rd1 r2 sv1
             else respond he HTTP_SERVICE_UNAVAILABLE (Some cmd) (td_layerNumber rd1) r2 sv1)"
  using assms(1-5) tile_state_keeps [OF assms(6)] assms(6)
  by (auto simp: tile_storage_hook_def ensure_state_def admission_def Let_def split: option.splits)

text \<open>What is decided for a request that may go on.\<close>

lemma render_or_stale_code:
  assumes "render_or_stale he b cmd rd prio r sv = Some (c, r', sv')"
  shows "c = HTTP_OK \<and> (td_tileState rd = tileMissing \<longrightarrow> (\<exists>sv2. ask_daemon he cmd prio sv = Some (True, sv2)))
    \<or> c = HTTP_NOT_FOUND \<and> td_tileState rd \<noteq> tileOld \<and> td_tileState rd \<noteq> tileVeryOld \<and> (\<exists>sv2. ask_daemon he cmd prio sv = Some (False, sv2))"
  using assms
  by (auto simp: render_or_stale_def Let_def split: option.splits bool.splits if_splits prod.splits dest!: respond_code)

lemma decide_tile_code:
  assumes "decide_tile he b cmd rd r sv = Some (c, r', sv')" "td_tileState rd \<noteq> tileUnknown"
  shows "c = HTTP_OK \<and> (td_tileState rd = tileMissing \<longrightarrow> get_load_avg (he_loadavg he) \<le> of_int (sc_max_load_missing (he_scfg he))
           \<and> (\<exists>sv2. ask_daemon he cmd 3 sv = Some (True, sv2)))
    \<or> c = HTTP_NOT_FOUND \<and> td_tileState rd = tileMissing \<and> (get_load_avg (he_loadavg he) > of_int (sc_max_load_missing (he_scfg he))
           \<or> (\<exists>sv2. ask_daemon he cmd 3 sv = Some (False, sv2)))"
proof (cases "td_tileState rd")
  case tileMissing
  with assms show ?thesis
    by (auto simp: decide_tile_def split: if_splits option.splits dest!: respond_code render_or_stale_code)
qed (use assms in \<open>auto simp: decide_tile_def split: if_splits option.splits dest!: render_or_stale_code\<close>)


section \<open>Cache times\<close>

lemma jitter_bounds:
  assumes "0 \<le> rand" "rand < 2147483648" "0 \<le> n" "dbl n = n"
  shows "0 \<le> jitter n rand" "jitter n rand \<le> \<lfloor>n\<rfloor>"
proof -
  define q where "q = ddiv (of_int rand) 2147483648"
  have p: "(2 :: rat) powi (-31) = 1 / 2147483648" by (simp add: power_int_minus)
  have "\<bar>rand\<bar> < 2 ^ 53" using assms(1,2) by simp
  from dbl_exact [OF this, of "-31"] have q: "q = of_int rand / 2147483648" unfolding p q_def ddiv_def by simp
  have "(of_int rand :: rat) \<le> of_int 2147483648" using assms(2) by (subst of_int_le_iff) simp
  then have q01: "0 \<le> q" "q \<le> 1" using assms(1) by (simp_all add: q)
  then have "0 \<le> n * q" "n * q \<le> n" using assms(3) mult_left_mono [OF q01(2) assms(3)] by simp_all
  then have "dbl 0 \<le> dmul n q" "dmul n q \<le> dbl n" unfolding dmul_def by (blast intro: dbl_mono)+
  then have "dtrunc 0 \<le> jitter n rand" "jitter n rand \<le> dtrunc n"
    using assms(4) dtrunc_mono unfolding jitter_def q_def by (metis dbl_0, metis)
  then show "0 \<le> jitter n rand" "jitter n rand \<le> \<lfloor>n\<rfloor>" using assms(3) by (simp_all add: dtrunc_def)
qed

lemma half_exact:
  assumes "\<bar>d\<bar> < 2 ^ 53"
  shows "ddiv (of_int d) 2 = of_int d / 2" "dbl (of_int d / 2) = of_int d / 2"
proof -
  have p: "(2 :: rat) powi (-1) = 1 / 2" by (simp add: power_int_minus)
  from dbl_exact [OF assms, of "-1"] show "dbl (of_int d / 2) = of_int d / 2" unfolding p by simp
  then show "ddiv (of_int d) 2 = of_int d / 2" by (simp only: ddiv_def)
qed

text \<open>
  The time a client may keep a tile is never above the configured maximum. For an outdated tile it
  lies between the configured short time and one and a half times that; for any other tile it is at
  least the minimum of its zoom level and at most three hours above the larger of that minimum and the
  share of the tile's age, whatever \<open>rand\<close> delivers and with every rounding of the floating point numbers.
\<close>

theorem cache_time_bounds:
  assumes "max_age scfg layer rand state cmd r = Some age" "\<not> extended_host scfg r"
    and "0 \<le> rand" "rand < 2147483648" "0 \<le> sc_cache_duration_dirty scfg" "in_int32 (sc_cache_duration_dirty scfg)"
  shows "age \<le> sc_cache_duration_max scfg
    \<and> (if state = tileOld \<or> state = tileVeryOld
       then min (sc_cache_duration_dirty scfg) (sc_cache_duration_max scfg) \<le> age
         \<and> age \<le> sc_cache_duration_dirty scfg + sc_cache_duration_dirty scfg div 2
       else pr_z cmd \<le> tr_maxzoom layer \<longrightarrow>
         min (sc_mincachetime scfg ! nat (pr_z cmd)) (sc_cache_duration_max scfg) \<le> age
         \<and> age \<le> max (sc_mincachetime scfg ! nat (pr_z cmd)) (last_modified_age scfg r) + 3 * 60 * 60)"
proof (cases "state = tileOld \<or> state = tileVeryOld")
  case True
  let ?d = "sc_cache_duration_dirty scfg"
  have d: "\<bar>?d\<bar> < 2 ^ 53" "0 \<le> (of_int ?d :: rat) / 2" using assms(5,6) by (simp_all add: in_int32_def)
  have "\<lfloor>(of_int ?d :: rat) / 2\<rfloor> = ?d div 2" by linarith
  with jitter_bounds [OF assms(3,4) d(2) half_exact(2) [OF d(1)]]
  have "0 \<le> jitter (ddiv (of_int ?d) 2) rand" "jitter (ddiv (of_int ?d) 2) rand \<le> ?d div 2"
    unfolding half_exact(1) [OF d(1)] by simp_all
  with assms(1,2) True show ?thesis by (auto simp: max_age_def)
next
  case False
  have "0 \<le> jitter (of_int 10800) rand" "jitter (of_int 10800) rand \<le> 10800"
    using jitter_bounds [OF assms(3,4), of "of_int 10800"] by (simp_all del: of_int_numeral)
  with assms(1,2) False show ?thesis by (auto simp: max_age_def split: if_splits)
qed

theorem cache_time_bounds_witness:
  "\<exists>age. max_age create_tile_config sample_layer 12345 tileOld sample_tile (sample_rr ''/osm/3/1/1.png'') = Some age
    \<and> age \<le> sc_cache_duration_max create_tile_config"
proof -
  have c: "extended_host create_tile_config (sample_rr u) = False" "0 \<le> sc_cache_duration_dirty create_tile_config"
    "in_int32 (sc_cache_duration_dirty create_tile_config)" for u
    by (simp_all add: extended_host_def create_tile_config_def in_int32_def)
  obtain age where a: "max_age create_tile_config sample_layer 12345 tileOld sample_tile (sample_rr ''/osm/3/1/1.png'') = Some age"
    using c(1) by (simp add: max_age_def)
  from cache_time_bounds [OF a _ _ _ c(2,3)] c(1) a show ?thesis by simp
qed

section \<open>Cross-origin requests\<close>

text \<open>
  A cross-origin request is answered with the origin allowed in exactly two cases: the layer's policy is a
  star, or the origin occurs anywhere within the policy's text, so that a policy naming one site also
  admits every origin that is a part of that name; all others are rejected without any header.
\<close>

theorem cors_admits_substrings:
  assumes "rq_headers_in r ''Origin'' = Some origin" "add_cors cors r = (c, r')"
  shows "if cors = ''*'' then c \<noteq> HTTP_FORBIDDEN \<and> map_of (rq_headers_out r') ''Access-Control-Allow-Origin'' = Some ''*''
    else if strstr cors origin \<noteq> None then c \<noteq> HTTP_FORBIDDEN \<and> map_of (rq_headers_out r') ''Access-Control-Allow-Origin'' = Some origin
    else c = HTTP_FORBIDDEN \<and> r' = r"
proof -
  have m: "map_of (table_set k v t) k' = (if k' = k then Some v else map_of t k')" for k v k' t
    by (induction t) (auto simp: table_set_def)
  have h: "HTTP_OK \<noteq> HTTP_FORBIDDEN" "HTTP_DONE \<noteq> HTTP_FORBIDDEN" by (simp_all add: HTTP_OK_def HTTP_FORBIDDEN_def HTTP_DONE_def)
  show ?thesis
    using assms h by (auto simp: add_cors_def Let_def set_out_def m split: if_splits option.splits)
qed

theorem cors_admits_substrings_witness:
  "map_of (rq_headers_out (snd (add_cors ''https://maps.example.org''
      ((sample_rr ''/osm/3/1/1.png'')\<lparr>rq_headers_in := [''Origin'' \<mapsto> ''https://maps.example'']\<rparr>)))) ''Access-Control-Allow-Origin''
    = Some ''https://maps.example''"
proof -
  have s: "strstr ''https://maps.example.org'' ''https://maps.example'' \<noteq> None" by code_simp
  let ?r = "(sample_rr ''/osm/3/1/1.png'')\<lparr>rq_headers_in := [''Origin'' \<mapsto> ''https://maps.example'']\<rparr>"
  obtain c r' where a: "add_cors ''https://maps.example.org'' ?r = (c, r')" by fastforce
  from cors_admits_substrings [OF _ a, of "''https://maps.example''"] s a show ?thesis by simp
qed

section \<open>From a saved metatile to an answer\<close>

text \<open>The statistics have room for the zoom levels and the layers.\<close>

definition stats_ready :: "int \<Rightarrow> nat \<Rightarrow> stats_data \<Rightarrow> bool" where
  "stats_ready gmax layers st \<longleftrightarrow>
     gmax < int (length (st_noRespZoom st)) \<and> gmax < int (length (st_zoomBufferRetrievalTime st)) \<and> gmax < int (length (st_noZoomBufferRetrieval st))
     \<and> length (st_noResp200Layer st) = layers \<and> length (st_noResp404Layer st) = layers"

lemma fresh_keeps_ready: "stats_ready gmax n (sv_stats (count_fresh he f sv)) = stats_ready gmax n (sv_stats sv)"
  by (auto simp: count_fresh_def incFreshCounter_def stats_ready_def split: freshness.split)

lemma count_fresh_keeps [simp]:
  "sv_world (count_fresh he f sv) = sv_world sv" "sv_stores (count_fresh he f sv) = sv_stores sv" "store_of rd (count_fresh he f sv) = store_of rd sv"
  by (simp_all add: count_fresh_def store_of_def)

lemma timing_ready:
  assumes "stats_ready gmax n st" "0 \<le> z" "z \<le> gmax"
  shows "\<exists>ret st'. incTimingCounter scfg lk d z st = Some (ret, st') \<and> stats_ready gmax n st'"
proof -
  have "\<exists>ts. bump_at z d (st_zoomBufferRetrievalTime st) = Some ts \<and> length ts = length (st_zoomBufferRetrievalTime st)"
    "\<exists>ns. bump_at z 1 (st_noZoomBufferRetrieval st) = Some ns \<and> length ns = length (st_noZoomBufferRetrieval st)"
    using assms by (simp_all add: bump_at_def stats_ready_def)
  with assms(1) show ?thesis by (auto simp: incTimingCounter_def stats_ready_def)
qed

lemma respond_ok_ready:
  assumes "stats_ready gmax n (sv_stats sv)" "0 \<le> pr_z cmd" "pr_z cmd \<le> gmax" "i < n"
  shows "\<exists>sv'. respond he HTTP_OK (Some cmd) (int i) r sv = Some (HTTP_OK, r, sv')"
proof -
  have "\<exists>zs. bump_at (pr_z cmd) 1 (st_noRespZoom st) = Some zs" "\<exists>ls. bump_at (int i) 1 (st_noResp200Layer st) = Some ls"
    if "stats_ready gmax n st" for st
    using that assms(2-4) by (simp_all add: bump_at_def stats_ready_def)
  from this [OF assms(1)] show ?thesis
    by (auto simp: respond_def count_resp_def incRespCounter_def count_response_def count_tile_def)
qed

text \<open>A stored tile that is up to date passes the storage hook.\<close>

lemma hook_passes_current:
  assumes "rq_handler r = Some ''tile_serve''" "rq_rdata r = Some rd" "td_cmd rd = Some cmd" "store_of rd sv = Some b"
    "td_tileState rd = tileUnknown" "tile_state he b sv cmd r = (tileCurrent, r1)" "admission he r tileCurrent sv = Some (True, dl)"
  shows "tile_storage_hook he r sv =
    Some (HTTP_OK, r1\<lparr>rq_rdata := Some (rd\<lparr>td_tileState := tileCurrent\<rparr>)\<rparr>, count_fresh he FRESH (sv\<lparr>sv_pool := dl\<rparr>))"
  using storage_hook_unfold [OF assms(1-6)] assms(7) by (simp add: decide_tile_def)

text \<open>What the serving handler sends of the bytes it has read.\<close>

lemma map_of_table_set: "map_of (table_set k v t) k' = (if k' = k then Some v else map_of t k')"
  by (induction t) (auto simp: table_set_def)

lemma map_of_table_merge_other: "k' \<noteq> k \<Longrightarrow> map_of (table_merge k v t) k' = map_of t k'"
proof -
  assume "k' \<noteq> k"
  then have "map_of (map (\<lambda>(a, b). if a = k then (a, f b) else (a, b)) t) k' = map_of t k'" for f
    by (induction t) auto
  with \<open>k' \<noteq> k\<close> show ?thesis
    by (cases "map_of t k") (auto simp: table_merge_def map_add_def split: option.splits)
qed

lemma add_expiry_some:
  assumes "td_tileState rd \<noteq> tileUnknown" "0 \<le> pr_z cmd" "pr_z cmd < int (length (sc_mincachetime (he_scfg he)))"
  shows "\<exists>age. add_expiry he b sv cmd rd r = Some (expiry_headers he age r)"
proof -
  let ?l = "sc_configs (he_scfg he) ! nat (td_layerNumber rd)"
  have "max_age (he_scfg he) ?l (he_rand he) (td_tileState rd) cmd r \<noteq> None" using assms(2,3) by (simp add: max_age_def)
  then show ?thesis using assms(1) by (auto simp: add_expiry_def ensure_state_def)
qed

lemma expiry_headers_keep [simp]:
  "rq_body (expiry_headers he age r) = rq_body r" "rq_content_type (expiry_headers he age r) = rq_content_type r"
  "rq_content_length (expiry_headers he age r) = rq_content_length r" "rq_content_encoding (expiry_headers he age r) = rq_content_encoding r"
  by (simp_all add: expiry_headers_def set_out_def merge_out_def)

lemma expiry_headers_etag: "map_of (rq_headers_out (expiry_headers he age r)) ''ETag'' = map_of (rq_headers_out r) ''ETag''"
  by (simp add: expiry_headers_def set_out_def merge_out_def map_of_table_set map_of_table_merge_other)

lemma serve_sends:
  assumes "rq_handler r = Some ''tile_serve''" "rq_rdata r = Some rd" "td_cmd rd = Some cmd" "store_of rd sv = Some b"
    "td_layerNumber rd = int i" "tr_cors (sc_configs (he_scfg he) ! i) = None" "he_alloc he" "td_tileState rd \<noteq> tileUnknown"
    "sb_tile_read b (sv_world sv) (pr_xmlname cmd) (pr_options cmd) (pr_x cmd) (pr_y cmd) (pr_z cmd) MAX_SIZE
       = \<lparr>rr_ret = int (length bs), rr_buf = bs, rr_compressed = Some 0\<rparr>" "bs \<noteq> []"
    and ready: "stats_ready gmax n (sv_stats sv)" "0 \<le> pr_z cmd" "pr_z cmd \<le> gmax" "i < n" "gmax < int (length (sc_mincachetime (he_scfg he)))"
    and fresh: "\<forall>r. he_meets he r = HTTP_OK"
  shows "\<exists>r' sv'. tile_handler_serve he r sv = Some (HTTP_OK, r', sv') \<and> rq_body r' = rq_body r @ bs
    \<and> rq_content_type r' = Some (tr_mimeType (sc_configs (he_scfg he) ! i)) \<and> rq_content_length r' = Some (int (length bs))
    \<and> rq_content_encoding r' = rq_content_encoding r \<and> map_of (rq_headers_out r') ''ETag'' = Some (etag he bs)"
proof -
  let ?r2 = "(set_out ''ETag'' (etag he bs) r)\<lparr>rq_content_type := Some (tr_mimeType (sc_configs (he_scfg he) ! i)), rq_content_length := Some (int (length bs))\<rparr>"
  have z: "pr_z cmd < int (length (sc_mincachetime (he_scfg he)))" using ready(3,5) by simp
  obtain age where age: "add_expiry he b sv cmd rd ?r2 = Some (expiry_headers he age ?r2)" using add_expiry_some [OF assms(8) ready(2) z] by blast
  let ?r3 = "expiry_headers he age ?r2"
  obtain ret st where st: "incTimingCounter (he_scfg he) (he_timing_lock he) (word_of_int (he_end he - he_start he)) (pr_z cmd) (sv_stats sv) = Some (ret, st)"
    "stats_ready gmax n st" using timing_ready [OF ready(1,2,3)] by blast
  have "stats_ready gmax n (sv_stats (sv\<lparr>sv_stats := st\<rparr>))" using st(2) by simp
  from respond_ok_ready [OF this ready(2,3,4)] obtain sv' where
    sv': "respond he HTTP_OK (Some cmd) (int i) (?r3\<lparr>rq_body := rq_body ?r3 @ bs\<rparr>) (sv\<lparr>sv_stats := st\<rparr>) = Some (HTTP_OK, ?r3\<lparr>rq_body := rq_body ?r3 @ bs\<rparr>, sv')"
    by blast
  have "send_tile he b cmd rd bs False r sv = Some (HTTP_OK, ?r3\<lparr>rq_body := rq_body ?r3 @ bs\<rparr>, sv')"
    using age st(1) sv' fresh assms(5) by (simp add: send_tile_def Let_def)
  then have "tile_handler_serve he r sv = Some (HTTP_OK, ?r3\<lparr>rq_body := rq_body ?r3 @ bs\<rparr>, sv')"
    using assms(1-7,9,10) by (simp add: tile_handler_serve_def)
  moreover have "map_of (rq_headers_out (?r3\<lparr>rq_body := rq_body ?r3 @ bs\<rparr>)) ''ETag'' = Some (etag he bs)"
    using expiry_headers_etag [of he age ?r2] by (simp add: set_out_def map_of_table_set)
  ultimately show ?thesis by (simp add: set_out_def)
qed

lemma stored_tile_state:
  assumes "sb_tile_stat b = file_tile_stat e td" "path = tile_file td (pr_xmlname cmd) (pr_options cmd) (pr_x cmd) (pr_y cmd) (pr_z cmd)"
    "fs_nodes (sv_world sv) path = Some FFile"
    "get_planet_time (\<lambda>p. map_option fn_mtime (fs_stat (sv_world sv) p)) (fe_now e) td (Some (pr_xmlname cmd)) \<le> fn_mtime (fs_file (sv_world sv) path)"
  shows "\<exists>r1. tile_state he b sv cmd r = (tileCurrent, r1)"
proof -
  have "fs_stat (sv_world sv) path = Some (fs_file (sv_world sv) path)" using assms(3) by (simp add: fs_stat_def)
  then have "si_expired (file_tile_stat e td (sv_world sv) (pr_xmlname cmd) (pr_options cmd) (pr_x cmd) (pr_y cmd) (pr_z cmd)) = 0"
    "0 \<le> si_size (file_tile_stat e td (sv_world sv) (pr_xmlname cmd) (pr_options cmd) (pr_x cmd) (pr_y cmd) (pr_z cmd))"
    using assms(4) unfolding file_tile_stat_def assms(2) [symmetric] by (simp_all add: Let_def)
  then show ?thesis by (simp add: tile_state_def Let_def assms(1))
qed

lemma storage_file_ops:
  assumes "init_storage_file e td = Some b"
  shows "sb_tile_read b = file_tile_read e td" "sb_tile_stat b = file_tile_stat e td" "sb_metatile_write b = file_metatile_write e td"
    "sb_storage_ctx b w" "fe_malloc e"
  using assms by (auto simp: init_storage_file_def split: if_splits)

text \<open>The command the module makes of the address of a tile without parameters.\<close>

abbreviation tile_cmd :: "tile_config_rec \<Rightarrow> int \<Rightarrow> int \<Rightarrow> int \<Rightarrow> protocol" where
  "tile_cmd l x y z \<equiv> \<lparr>pr_ver = 2, pr_cmd = cmdIgnore, pr_x = x, pr_y = y, pr_z = z, pr_xmlname = take 40 (tr_xmlname l),
      pr_mimetype = take 40 (tr_mimeType l), pr_options = []\<rparr>"

text \<open>From the address to the answer, when the storage finds the tile current and delivers it.\<close>

lemma current_tile_served:
  assumes layer: "l = sc_configs (he_scfg he) ! i" "layer_sane gmax l" "tr_enableOptions l = 0" "ext_ok (tr_fileExtension l)" "tr_cors l = None"
    and req: "rq_uri r = tile_uri l x y z" "reaches_layer he i (rq_uri r)" "tile_in_layer l x y z"
    and server: "stores_ok he sv" "get_storage_backend he i sv = (Some b, sv1)" "\<forall>w. sb_storage_ctx b w"
    and calm: "\<not> sc_enable_tile_throttling (he_scfg he)" "he_alloc he" "\<forall>r. he_meets he r = HTTP_OK" "gmax < int (length (sc_mincachetime (he_scfg he)))"
      "stats_ready gmax (length (sc_configs (he_scfg he))) (sv_stats sv)"
    and current: "\<And>r1. \<exists>r2. tile_state he b sv1 (tile_cmd l x y z) r1 = (tileCurrent, r2)"
    and read: "sb_tile_read b (sv_world sv) (take 40 (tr_xmlname l)) [] x y z MAX_SIZE = \<lparr>rr_ret = int (length bs), rr_buf = bs, rr_compressed = Some 0\<rparr>" "bs \<noteq> []"
  shows "\<exists>r' sv'. handle_request he r sv = Some (HTTP_OK, r', sv') \<and> rq_body r' = rq_body r @ bs
    \<and> rq_content_type r' = Some (tr_mimeType l) \<and> rq_content_length r' = Some (int (length bs))
    \<and> map_of (rq_headers_out r') ''ETag'' = Some (etag he bs)"
proof -
  let ?cmd = "tile_cmd l x y z"
  let ?rd = "\<lparr>td_cmd = Some ?cmd, td_layerNumber = int i, td_tileState = tileUnknown\<rparr>"
  let ?r1 = "r\<lparr>rq_handler := Some ''tile_serve'', rq_rdata := Some ?rd\<rparr>"
  have i: "i < length (sc_configs (he_scfg he))" using req(2) by (simp add: reaches_layer_def)
  note gf = get_storage_backend_facts [OF server(2,1) i]
  have tr: "tile_translate he r sv = Some (HTTP_OK, ?r1, sv1)"
    using translate_tile_uri [OF layer(1) req(1,2) layer(2) req(3) layer(3,4) server(2)] server(3) by simp
  obtain r2 where state: "tile_state he b sv1 ?cmd ?r1 = (tileCurrent, r2)" using current by blast
  note keeps = tile_state_keeps [OF state]
  have store: "store_of ?rd sv1 = Some b" using gf(2) [of ?rd] by simp
  have adm: "admission he ?r1 tileCurrent sv1 = Some (True, sv_pool sv1)" using calm(1) by (simp add: admission_def)
  let ?rd2 = "?rd\<lparr>td_tileState := tileCurrent\<rparr>" and ?sv2 = "count_fresh he FRESH (sv1\<lparr>sv_pool := sv_pool sv1\<rparr>)"
  let ?r3 = "r2\<lparr>rq_rdata := Some ?rd2\<rparr>"
  have hook: "tile_storage_hook he ?r1 sv1 = Some (HTTP_OK, ?r3, ?sv2)"
    by (rule hook_passes_current [OF _ _ _ store _ state adm]) simp_all
  have rdb: "sb_tile_read b (sv_world ?sv2) (pr_xmlname ?cmd) (pr_options ?cmd) (pr_x ?cmd) (pr_y ?cmd) (pr_z ?cmd) MAX_SIZE
      = \<lparr>rr_ret = int (length bs), rr_buf = bs, rr_compressed = Some 0\<rparr>"
    using read(1) gf(3) by simp
  have st: "store_of ?rd2 ?sv2 = Some b" using store by (simp add: store_of_def split: option.splits)
  have z: "0 \<le> pr_z ?cmd" "pr_z ?cmd \<le> gmax" using layer(2) req(3) by (auto simp: layer_sane_def tile_in_layer_def)
  have ready: "stats_ready gmax (length (sc_configs (he_scfg he))) (sv_stats ?sv2)" using calm(5) gf(4) by (simp add: fresh_keeps_ready)
  have cors: "tr_cors (sc_configs (he_scfg he) ! i) = None" using layer(1,5) by simp
  obtain r' sv' where "tile_handler_serve he ?r3 ?sv2 = Some (HTTP_OK, r', sv')" "rq_body r' = rq_body ?r3 @ bs"
    "rq_content_type r' = Some (tr_mimeType l)" "rq_content_length r' = Some (int (length bs))" "map_of (rq_headers_out r') ''ETag'' = Some (etag he bs)"
    using serve_sends [OF _ _ _ st _ cors calm(2) _ rdb read(2) ready z i calm(4,3), of ?r3] keeps layer(1) by auto
  then show ?thesis
    using tr hook keeps http_codes by (simp add: handle_request_def module_handlers_def)
qed

text \<open>A metatile that was written completely is current and delivers its tiles.\<close>

lemma saved_metatile_current:
  assumes saved: "init_storage_file ew td = Some sb" "fs = metaTile_save True sb fs0 t"
      "fst (file_metatile_write ew td fs0 (mt_xmlconfig t) (mt_options t) (mt_x t) (mt_y t) (mt_z t) (metatile_buffer t)) = int (length (metatile_buffer t))"
    and tile: "aligned t" "in_int32 (int (length (metatile_buffer t)))" "ox < 8" "oy < 8" "length (mt_tile t ox oy) \<le> MAX_SIZE"
    and layer: "mt_xmlconfig t = tr_xmlname l" "mt_options t = []" "length (tr_xmlname l) \<le> 40"
    and server: "sv_world sv1 = fs" "init_storage_file er td = Some b" "\<forall>k. 0 \<le> fe_chunk er k"
      "fe_openable er (tile_file td (mt_xmlconfig t) (mt_options t) (mt_x t) (mt_y t) (mt_z t))"
    and current: "get_planet_time (\<lambda>p. map_option fn_mtime (fs_stat fs p)) (fe_now er) td (Some (mt_xmlconfig t)) \<le> fe_now ew"
  shows "\<exists>r2. tile_state he b sv1 (tile_cmd l (mt_x t + int ox) (mt_y t + int oy) (mt_z t)) r1 = (tileCurrent, r2)"
    and "sb_tile_read b fs (take 40 (tr_xmlname l)) [] (mt_x t + int ox) (mt_y t + int oy) (mt_z t) MAX_SIZE
      = \<lparr>rr_ret = int (length (mt_tile t ox oy)), rr_buf = mt_tile t ox oy, rr_compressed = Some 0\<rparr>"
proof -
  let ?path = "tile_file td (mt_xmlconfig t) (mt_options t) (mt_x t) (mt_y t) (mt_z t)" and ?cmd = "tile_cmd l (mt_x t + int ox) (mt_y t + int oy) (mt_z t)"
  note ops = storage_file_ops [OF server(2)] and wops = storage_file_ops [OF saved(1)]
  have "file_metatile_write ew td fs0 (mt_xmlconfig t) (mt_options t) (mt_x t) (mt_y t) (mt_z t) (metatile_buffer t) = (int (length (metatile_buffer t)), fs)"
    using saved(2,3) by (simp add: metaTile_save_def wops(3) prod_eq_iff)
  note stored = file_write_success [OF this]
  have "tile_file td (pr_xmlname ?cmd) (pr_options ?cmd) (pr_x ?cmd) (pr_y ?cmd) (pr_z ?cmd) = ?path"
    using tile_file_corner [of "mt_x t" "mt_y t" ox oy td "mt_xmlconfig t" "[]" "mt_z t"] tile(1,3,4) layer
    by (simp add: aligned_def tile_file_def)
  then show "\<exists>r2. tile_state he b sv1 ?cmd r1 = (tileCurrent, r2)"
    using stored_tile_state [OF ops(2), of ?path ?cmd sv1 he r1] stored server(1) current layer(1,3) by auto
  show "sb_tile_read b fs (take 40 (tr_xmlname l)) [] (mt_x t + int ox) (mt_y t + int oy) (mt_z t) MAX_SIZE
      = \<lparr>rr_ret = int (length (mt_tile t ox oy)), rr_buf = mt_tile t ox oy, rr_compressed = Some 0\<rparr>"
    using read_stored_tile [OF tile(1-4) _ ops(5) server(3) refl server(4), of MAX_SIZE fs] stored tile(5) layer
    by (simp add: ops(1))
qed

text \<open>
  C3. The whole way of a tile. When the renderer has saved a metatile to the file storage (a complete write) and the tiles'
  data is not newer than it, a request for the address of any of its 64 tiles that are within the layer is answered with status 200
  and exactly the bytes the renderer stored, with their length, the layer's type and the tag computed from
  them, however the file is divided into partial reads.
\<close>

theorem saved_tile_is_served:
  assumes saved: "init_storage_file ew td = Some sb" "fs = metaTile_save True sb fs0 t"
      "fst (file_metatile_write ew td fs0 (mt_xmlconfig t) (mt_options t) (mt_x t) (mt_y t) (mt_z t) (metatile_buffer t)) = int (length (metatile_buffer t))"
    and tile: "aligned t" "in_int32 (int (length (metatile_buffer t)))" "ox < 8" "oy < 8" "bs = mt_tile t ox oy" "bs \<noteq> []" "length bs \<le> MAX_SIZE"
    and layer: "l = sc_configs (he_scfg he) ! i" "layer_sane gmax l" "tr_enableOptions l = 0" "ext_ok (tr_fileExtension l)" "tr_cors l = None"
      "mt_xmlconfig t = tr_xmlname l" "mt_options t = []" "length (tr_xmlname l) \<le> 40"
    and req: "rq_uri r = tile_uri l (mt_x t + int ox) (mt_y t + int oy) (mt_z t)" "reaches_layer he i (rq_uri r)"
      "tile_in_layer l (mt_x t + int ox) (mt_y t + int oy) (mt_z t)"
    and server: "sv_world sv = fs" "stores_ok he sv" "get_storage_backend he i sv = (Some b, sv1)" "init_storage_file er td = Some b"
      "\<forall>k. 0 \<le> fe_chunk er k" "fe_openable er (tile_file td (mt_xmlconfig t) (mt_options t) (mt_x t) (mt_y t) (mt_z t))"
    and calm: "\<not> sc_enable_tile_throttling (he_scfg he)" "he_alloc he" "\<forall>r. he_meets he r = HTTP_OK" "gmax < int (length (sc_mincachetime (he_scfg he)))"
      "stats_ready gmax (length (sc_configs (he_scfg he))) (sv_stats sv)"
    and current: "get_planet_time (\<lambda>p. map_option fn_mtime (fs_stat fs p)) (fe_now er) td (Some (mt_xmlconfig t)) \<le> fe_now ew"
  shows "\<exists>r' sv'. handle_request he r sv = Some (HTTP_OK, r', sv') \<and> rq_body r' = rq_body r @ bs
    \<and> rq_content_type r' = Some (tr_mimeType l) \<and> rq_content_length r' = Some (int (length bs))
    \<and> map_of (rq_headers_out r') ''ETag'' = Some (etag he bs)"
proof -
  have i: "i < length (sc_configs (he_scfg he))" using req(2) by (simp add: reaches_layer_def)
  have w: "sv_world sv1 = fs" using get_storage_backend_facts(3) [OF server(3,2) i] server(1) by simp
  have s: "length (mt_tile t ox oy) \<le> MAX_SIZE" using tile(5,7) by simp
  note m = saved_metatile_current [OF saved tile(1-4) s layer(6-8) w server(4-6) current]
  show ?thesis
    by (rule current_tile_served [OF layer(1-5) req server(2,3) _ calm m(1)])
      (use storage_file_ops(4) [OF server(4)] m(2) server(1) tile(5,6) in simp_all)
qed

text \<open>The sample metatile on the sample server.\<close>

definition sample_saved :: fsys where
  "sample_saved = metaTile_save True sample_backend sample_fs sample_metatile"

lemma sample_backend_init: "init_storage_file sample_env ''/t'' = Some sample_backend"
  by (simp add: sample_backend_def init_storage_file_def sample_env_def)

lemma sample_saved_nodes:
  "fs_nodes sample_saved p = (if p = ''/t/osm/5/0/0/0/1/128.meta'' then Some FFile else if p = ''/t/osm/5/0/0/0/1'' then Some FDir else None)"
proof -
  have "fs_nodes (snd (file_metatile_write sample_env ''/t'' sample_fs ''osm'' [] 8 16 5 buf)) p =
      (if p = ''/t/osm/5/0/0/0/1/128.meta'' then Some FFile else if p = ''/t/osm/5/0/0/0/1'' then Some FDir else None)" for buf
    unfolding file_metatile_write_def Let_def sample_path sample_self sample_tmp
    by (simp add: sample_mkdirp sample_fs_def fs_put_def fs_unlink_def Let_def) (auto simp: sample_env_def)
  then show ?thesis
    by (simp add: sample_saved_def metaTile_save_def storage_file_ops(3) [OF sample_backend_init] sample_fields)
qed

lemma sample_planet:
  "get_planet_time (\<lambda>p. map_option fn_mtime (fs_stat sample_saved p)) (fe_now sample_env) ''/t'' (Some ''osm'') \<le> fe_now sample_env"
  by (simp add: get_planet_time_def fs_stat_def sample_saved_nodes snprintf_def PLANET_TIMESTAMP_def PATH_MAX_def)

lemma sample_conf:
  "\<not> sc_enable_tile_throttling (he_scfg sample_henv)" "he_alloc sample_henv" "he_meets sample_henv r = HTTP_OK"
  "length (sc_mincachetime (he_scfg sample_henv)) = 31"
  by (simp_all add: sample_henv_def merge_tile_config_def create_tile_config_def Let_def MAX_ZOOM_SERVER_def)

lemma sample_ready: "stats_ready 19 1 (sv_stats (sample_server fs))"
  by (simp add: sample_server_def stats_ready_def init_stats_def sample_raw_stats_def zero_upto_def)

theorem saved_tile_is_served_witness:
  "\<exists>r' sv'. handle_request sample_henv (sample_rr (tile_uri sample_layer (8 + int 1) (16 + int 2) 5)) (sample_server sample_saved) = Some (HTTP_OK, r', sv')
    \<and> rq_body r' = [1, 2, 3] \<and> rq_content_type r' = Some ''image/png'' \<and> rq_content_length r' = Some 3"
proof -
  have w: "fst (file_metatile_write sample_env ''/t'' sample_fs (mt_xmlconfig sample_metatile) (mt_options sample_metatile) (mt_x sample_metatile)
      (mt_y sample_metatile) (mt_z sample_metatile) (metatile_buffer sample_metatile)) = int (length (metatile_buffer sample_metatile))"
    unfolding sample_fields by (rule sample_write)
  have len: "in_int32 (int (length (metatile_buffer sample_metatile)))" by (simp add: sample_length in_int32_def)
  have l: "sample_layer = sc_configs (he_scfg sample_henv) ! 0" by (simp add: sample_configs)
  have sv: "sv_world (sample_server sample_saved) = sample_saved" "stores_ok sample_henv (sample_server sample_saved)"
    by (simp_all add: sample_server_def stores_ok_def)
  have lay: "tr_enableOptions sample_layer = 0" "ext_ok (tr_fileExtension sample_layer)" "tr_cors sample_layer = None"
    "mt_xmlconfig sample_metatile = tr_xmlname sample_layer" "mt_options sample_metatile = []" "length (tr_xmlname sample_layer) \<le> 40"
    "tile_in_layer sample_layer (8 + int 1) (16 + int 2) 5" "tr_mimeType sample_layer = ''image/png''"
    by (simp_all add: sample_layer_def ext_ok_def sample_fields tile_in_layer_def)
  have e: "\<forall>k. 0 \<le> fe_chunk sample_env k" "fe_openable sample_env p" for p by (simp_all add: sample_env_def)
  have b: "[1, 2, 3] = mt_tile sample_metatile 1 2" "[1, 2, 3 :: byte] \<noteq> []" "length [1, 2, 3 :: byte] \<le> MAX_SIZE"
    unfolding sample_fields by (simp_all add: MAX_SIZE_def)
  have u: "rq_uri (sample_rr v) = v" "rq_body (sample_rr v) = []" for v by (simp_all add: sample_rr_def)
  have "\<exists>r' sv'. handle_request sample_henv (sample_rr (tile_uri sample_layer (8 + int 1) (16 + int 2) 5)) (sample_server sample_saved) = Some (HTTP_OK, r', sv')
    \<and> rq_body r' = rq_body (sample_rr (tile_uri sample_layer (8 + int 1) (16 + int 2) 5)) @ [1, 2, 3]
    \<and> rq_content_type r' = Some (tr_mimeType sample_layer) \<and> rq_content_length r' = Some (int (length [1, 2, 3 :: byte]))
    \<and> map_of (rq_headers_out r') ''ETag'' = Some (etag sample_henv [1, 2, 3])"
  proof (rule saved_tile_is_served [OF sample_backend_init sample_saved_def w sample_aligned len _ _ b l sample_layer_sane lay(1-6) _ _ _ sv sample_storage
        sample_backend_init e _ _ _ _ _])
    show "get_planet_time (\<lambda>p. map_option fn_mtime (fs_stat sample_saved p)) (fe_now sample_env) ''/t'' (Some (mt_xmlconfig sample_metatile)) \<le> fe_now sample_env"
      unfolding sample_fields by (rule sample_planet)
  qed (use lay(7) sample_conf sample_ready [of sample_saved] in \<open>simp_all add: u sample_fields sample_reaches sample_configs\<close>)
  then show ?thesis by (auto simp: u lay(8))
qed

definition sample_served :: request_rec where
  "sample_served = (sample_rr ''/osm/5/9/18.png'')\<lparr>rq_handler := Some ''tile_serve'',
     rq_rdata := Some \<lparr>td_cmd = Some (sample_tile\<lparr>pr_x := 8, pr_y := 16, pr_z := 5, pr_xmlname := ''osm''\<rparr>), td_layerNumber = 0, td_tileState = tileUnknown\<rparr>\<rparr>"


end
