(* ===== verification/Cache_Expire.thy ===== *)
theory Cache_Expire
  imports Renderd_Slave Store
begin

text \<open>
  Telling a cache that tiles have changed (\<^verbatim>\<open>src/cache_expire.c\<close>, and \<open>metaTile::expire_tiles\<close> of
  \<^verbatim>\<open>src/metatile.cpp\<close>): the HTCP datagram for an address, the datagrams for the tiles of a metatile and the
  socket they are sent on. A reader of such datagrams, written from the format, shows that the address
  and every length in the datagram are right.
\<close>

section \<open>The datagram\<close>

text \<open>An unsigned 16 or 32 bit value in network byte order; a larger value is cut as the C conversion does.\<close>

definition put_u16 :: "int \<Rightarrow> byte list" where
  "put_u16 v = [word_of_int (v div 256), word_of_int v]"

definition put_u32 :: "int \<Rightarrow> byte list" where
  "put_u32 v = [word_of_int (v div 16777216), word_of_int (v div 65536), word_of_int (v div 256), word_of_int v]"

definition cstr_bytes :: "string \<Rightarrow> byte list" where
  "cstr_bytes s = map char_byte s"

definition htcp_packet :: "string \<Rightarrow> byte list" where
  "htcp_packet url =
     (let url_len = int (length url)
      in put_u16 (12 + 22 + url_len) @ [0, 0]
         @ put_u16 (8 + 22 + url_len) @ [4, 0]
         @ put_u32 255 @ [0, 0]
         @ put_u16 4 @ cstr_bytes ''HEAD''
         @ put_u16 url_len @ cstr_bytes url
         @ put_u16 8 @ cstr_bytes ''HTTP/1.1''
         @ put_u16 0)"

text \<open>What the operating system does: whether an allocation succeeds, and the result of sending a datagram.\<close>

record 's htcp_os =
  ht_malloc :: "'s \<Rightarrow> bool"
  ht_send :: "'s \<Rightarrow> int \<Rightarrow> byte list \<Rightarrow> int \<times> 's"

text \<open>A datagram that could not be sent is only logged.\<close>

definition cache_expire_url :: "'s htcp_os \<Rightarrow> int \<Rightarrow> string \<Rightarrow> 's \<Rightarrow> 's" where
  "cache_expire_url os sock url s =
     (if sock < 0 then s
      else if \<not> ht_malloc os s then s
      else snd (ht_send os s sock (htcp_packet url)))"

definition tile_url :: "string \<Rightarrow> string \<Rightarrow> int \<Rightarrow> int \<Rightarrow> int \<Rightarrow> string" where
  "tile_url host uri x y z =
     snprintf 1024 (''http://'' @ host @ uri @ show_int z @ ''/'' @ show_int x @ ''/'' @ show_int y @ ''.png'')"

text \<open>The buffer for the address is used without a check of its allocation: \<open>None\<close> is the null pointer.\<close>

definition cache_expire :: "'s htcp_os \<Rightarrow> int \<Rightarrow> string \<Rightarrow> string \<Rightarrow> int \<Rightarrow> int \<Rightarrow> int \<Rightarrow> 's \<Rightarrow> 's option" where
  "cache_expire os sock host uri x y z s =
     (if sock < 0 then Some s
      else if \<not> ht_malloc os s then None
      else Some (cache_expire_url os sock (tile_url host uri x y z) s))"

section \<open>The socket\<close>

text \<open>
  The loop over the addresses: the descriptor of the first connection that succeeds, \<open>None\<close> if none does,
  and the descriptors left open.
\<close>

fun expire_addresses :: "'s net_os \<Rightarrow> int list \<Rightarrow> 's \<Rightarrow> nat list \<Rightarrow> int option \<times> int list \<times> 's" where
  "expire_addresses os opened s [] = (None, opened, s)"
| "expire_addresses os opened s (ad # ads) =
     (let (fd, s1) = no_socket os s (Some ad)
      in if fd = -1 then expire_addresses os opened s1 ads
         else let (r, s2) = no_connect os s1 fd (Some ad)
              in if r \<noteq> -1 then (Some fd, fd # opened, s2)
                 else expire_addresses os opened s2 ads)"

text \<open>The result, the descriptors left open, whether the list of addresses was released, and the state.\<close>

definition init_cache_expire :: "'s net_os \<Rightarrow> string \<Rightarrow> int list \<Rightarrow> 's \<Rightarrow> int \<times> int list \<times> bool \<times> 's" where
  "init_cache_expire os htcphost opened s =
     (let ((st, ads), s1) = no_getaddrinfo os s htcphost 4827
      in if st \<noteq> 0 then (-1, opened, True, s1)
         else case expire_addresses os opened s1 ads of
                (None, op, s2) \<Rightarrow> (-1, op, False, s2)
              | (Some fd, op, s2) \<Rightarrow> (fd, op, True, s2))"

section \<open>The tiles of a metatile\<close>

fun expire_all :: "'s htcp_os \<Rightarrow> int \<Rightarrow> string \<Rightarrow> string \<Rightarrow> int \<Rightarrow> (int \<times> int) list \<Rightarrow> 's \<Rightarrow> 's option" where
  "expire_all os sock host uri z [] s = Some s"
| "expire_all os sock host uri z ((x, y) # ps) s =
     (case cache_expire os sock host uri x y z s of None \<Rightarrow> None | Some s1 \<Rightarrow> expire_all os sock host uri z ps s1)"

text \<open>The two nested loops: at the lowest zoom levels a metatile has fewer than 64 tiles.\<close>

definition expire_order :: "metaTile \<Rightarrow> (int \<times> int) list" where
  "expire_order t =
     (let limit = nat (min (wrap32 (2 ^ nat (mt_z t))) METATILE)
      in concat (map (\<lambda>ox. map (\<lambda>oy. (mt_x t + int ox, mt_y t + int oy)) [0..<limit]) [0..<limit]))"

definition metaTile_expire_tiles :: "'s htcp_os \<Rightarrow> int \<Rightarrow> string \<Rightarrow> string \<Rightarrow> metaTile \<Rightarrow> 's \<Rightarrow> 's option" where
  "metaTile_expire_tiles os sock host uri t s =
     (if sock < 0 then Some s else expire_all os sock host uri (mt_z t) (expire_order t) s)"

section \<open>A reader of the datagrams\<close>

definition get_u16 :: "byte list \<Rightarrow> (nat \<times> byte list) option" where
  "get_u16 bs = (case bs of a # b # r \<Rightarrow> Some (256 * unat a + unat b, r) | _ \<Rightarrow> None)"

text \<open>A counted string.\<close>

definition get_counted :: "byte list \<Rightarrow> (string \<times> byte list) option" where
  "get_counted bs =
     (case get_u16 bs of
        None \<Rightarrow> None
      | Some (n, r) \<Rightarrow> if n \<le> length r then Some (map byte_char (take n r), drop n r) else None)"

text \<open>
  The request to clear an address: the two length fields, version 0.0, operation 4, and the four counted strings
  of the specifier, with nothing behind them. The result is the method and the address.
\<close>

definition htcp_clr_url :: "byte list \<Rightarrow> (string \<times> string) option" where
  "htcp_clr_url bs =
     (case (get_u16 bs, get_u16 (drop 4 bs)) of
        (Some (len, _), Some (dlen, _)) \<Rightarrow>
          if len = length bs \<and> dlen + 4 = length bs \<and> take 2 (drop 2 bs) = [0, 0] \<and> take 2 (drop 6 bs) = [4, 0]
          then (case get_counted (drop 14 bs) of
                  None \<Rightarrow> None
                | Some (method, r1) \<Rightarrow>
                    (case get_counted r1 of
                       None \<Rightarrow> None
                     | Some (url, r2) \<Rightarrow>
                         (case get_counted r2 of
                            None \<Rightarrow> None
                          | Some (version, r3) \<Rightarrow>
                              (case get_counted r3 of
                                 None \<Rightarrow> None
                               | Some (hdrs, r4) \<Rightarrow> if r4 = [] then Some (method, url) else None))))
          else None
      | _ \<Rightarrow> None)"

lemma get_u16_put:
  assumes "0 \<le> v" "v < 65536"
  shows "get_u16 (put_u16 v @ r) = Some (nat v, r)"
proof -
  have "unat (word_of_int w :: byte) = nat (w mod 256)" for w by (simp add: unat_eq_nat_uint uint_word_of_int)
  moreover have "v div 256 mod 256 = v div 256" using assms by simp
  moreover have "256 * nat (v div 256) + nat (v mod 256) = nat v" using assms by (simp add: nat_div_distrib nat_mod_distrib)
  ultimately show ?thesis by (simp add: get_u16_def put_u16_def)
qed

lemma length_put [simp]: "length (put_u16 v) = 2" "length (put_u32 v) = 4"
  by (simp_all add: put_u16_def put_u32_def)

lemma get_counted_put: "length s < 65536 \<Longrightarrow> get_counted (put_u16 (int (length s)) @ cstr_bytes s @ r) = Some (s, r)"
  by (simp add: get_counted_def get_u16_put cstr_bytes_def comp_def)

lemma htcp_packet_read:
  assumes "length url < 65502"
  shows "htcp_clr_url (htcp_packet url) = Some (''HEAD'', url)"
proof -
  let ?n = "int (length url)"
  let ?tail = "put_u16 4 @ cstr_bytes ''HEAD'' @ put_u16 ?n @ cstr_bytes url @ put_u16 8 @ cstr_bytes ''HTTP/1.1'' @ put_u16 0"
  have p: "htcp_packet url = put_u16 (34 + ?n) @ [0, 0] @ put_u16 (30 + ?n) @ [4, 0] @ put_u32 255 @ [0, 0] @ ?tail"
    by (simp add: htcp_packet_def Let_def add.commute)
  have "length (htcp_packet url) = 34 + length url" by (simp add: p cstr_bytes_def)
  moreover have "get_u16 (htcp_packet url) = Some (34 + length url, drop 2 (htcp_packet url))"
    using get_u16_put [of "34 + ?n"] assms by (simp add: p nat_add_distrib)
  moreover have "drop 4 (htcp_packet url) = put_u16 (30 + ?n) @ [4, 0] @ put_u32 255 @ [0, 0] @ ?tail" by (simp add: p)
  then have "get_u16 (drop 4 (htcp_packet url)) = Some (30 + length url, [4, 0] @ put_u32 255 @ [0, 0] @ ?tail)"
    using get_u16_put [of "30 + ?n"] assms by (simp add: nat_add_distrib)
  moreover have "take 2 (drop 2 (htcp_packet url)) = [0, 0]" "take 2 (drop 6 (htcp_packet url)) = [4, 0]" "drop 14 (htcp_packet url) = ?tail"
    by (simp_all add: p)
  moreover have "get_counted ?tail = Some (''HEAD'', put_u16 ?n @ cstr_bytes url @ put_u16 8 @ cstr_bytes ''HTTP/1.1'' @ put_u16 0)"
    using get_counted_put [of "''HEAD''"] by simp
  moreover have "get_counted (put_u16 ?n @ cstr_bytes url @ r) = Some (url, r)" for r using get_counted_put [of url r] assms by simp
  moreover have "get_counted (put_u16 8 @ cstr_bytes ''HTTP/1.1'' @ put_u16 0) = Some (''HTTP/1.1'', put_u16 0)"
    using get_counted_put [of "''HTTP/1.1''" "put_u16 0"] by simp
  moreover have "get_counted (put_u16 0) = Some ([], [])" using get_counted_put [of "[]" "[]"] by (simp add: cstr_bytes_def)
  ultimately show ?thesis by (simp add: htcp_clr_url_def)
qed

lemma length_tile_url: "length (tile_url host uri x y z) < 1024"
  by (simp add: tile_url_def snprintf_def)

text \<open>The loop sends one datagram per tile, in order.\<close>

lemma expire_all_sends:
  assumes "\<forall>s. ht_malloc os s" "0 \<le> sock"
  shows "expire_all os sock host uri z ps s =
    Some (foldl (\<lambda>s p. snd (ht_send os s sock (htcp_packet (tile_url host uri (fst p) (snd p) z)))) s ps)"
  using assms by (induction ps arbitrary: s) (auto simp: cache_expire_def cache_expire_url_def)

lemma int_offset: "(\<exists>k\<in>{0..<n}. x = a + int k) \<longleftrightarrow> a \<le> x \<and> x < a + int n"
proof
  assume "a \<le> x \<and> x < a + int n"
  then show "\<exists>k\<in>{0..<n}. x = a + int k" by (intro bexI [of _ "nat (x - a)"]) auto
qed auto

lemma expire_order_set:
  assumes "0 \<le> mt_z t" "mt_z t \<le> 30"
  shows "set (expire_order t) = {(x, y). mt_x t \<le> x \<and> x < mt_x t + min (2 ^ nat (mt_z t)) 8 \<and> mt_y t \<le> y \<and> y < mt_y t + min (2 ^ nat (mt_z t)) 8}"
    "distinct (expire_order t)"
proof -
  have "(2 :: int) ^ nat (mt_z t) \<le> 2 ^ 30" using assms by (intro power_increasing) auto
  then have l: "wrap32 (2 ^ nat (mt_z t)) = 2 ^ nat (mt_z t)"
    using zero_le_power [of "2 :: int" "nat (mt_z t)"] by (intro wrap32_id) (simp add: in_int32_def del: zero_le_power)
  define n where "n = nat (min (2 ^ nat (mt_z t)) 8)"
  have n: "int n = min (2 ^ nat (mt_z t)) 8" by (simp add: n_def)
  have o: "expire_order t = map (\<lambda>(ox, oy). (mt_x t + int ox, mt_y t + int oy)) (List.product [0..<n] [0..<n])"
    by (simp add: expire_order_def l METATILE_def n_def Let_def product_concat_map map_concat comp_def)
  have "(x, y) \<in> set (expire_order t) \<longleftrightarrow> (\<exists>k\<in>{0..<n}. x = mt_x t + int k) \<and> (\<exists>k\<in>{0..<n}. y = mt_y t + int k)" for x y
    by (auto simp: o)
  then show "set (expire_order t) = {(x, y). mt_x t \<le> x \<and> x < mt_x t + min (2 ^ nat (mt_z t)) 8 \<and> mt_y t \<le> y \<and> y < mt_y t + min (2 ^ nat (mt_z t)) 8}"
    unfolding int_offset n by auto
  show "distinct (expire_order t)" unfolding o by (auto simp: distinct_map distinct_product inj_on_def)
qed

section \<open>Properties\<close>

text \<open>
  C34. Expiring a metatile tells the cache about every tile of it, each exactly once and no other (at the lowest zoom levels
  only those of a world that is as wide as high): one datagram per tile on the given socket, and a reader of the format
  finds in it consistent lengths, the method and exactly the address of the tile.
\<close>

theorem expire_tiles_purges_metatile:
  assumes "0 \<le> sock" "\<forall>s. ht_malloc os s" "0 \<le> mt_z t" "mt_z t \<le> 30"
  shows "metaTile_expire_tiles os sock host uri t s =
      Some (foldl (\<lambda>s p. snd (ht_send os s sock (htcp_packet (tile_url host uri (fst p) (snd p) (mt_z t))))) s (expire_order t))
    \<and> (\<forall>x y. htcp_clr_url (htcp_packet (tile_url host uri x y (mt_z t))) = Some (''HEAD'', tile_url host uri x y (mt_z t)))
    \<and> set (expire_order t) = {(x, y). mt_x t \<le> x \<and> x < mt_x t + min (2 ^ nat (mt_z t)) 8 \<and> mt_y t \<le> y \<and> y < mt_y t + min (2 ^ nat (mt_z t)) 8}
    \<and> distinct (expire_order t)"
proof -
  have "length (tile_url host uri x y z) < 65502" for x y z using length_tile_url [of host uri x y z] by simp
  then show ?thesis
    using assms expire_all_sends [OF assms(2,1)] expire_order_set [OF assms(3,4)] htcp_packet_read
    by (simp add: metaTile_expire_tiles_def)
qed

text \<open>An operating system that records what is sent.\<close>

definition recording_os :: "(int \<times> byte list) list htcp_os" where
  "recording_os = \<lparr>ht_malloc = (\<lambda>_. True), ht_send = (\<lambda>log fd bs. (int (length bs), log @ [(fd, bs)]))\<rparr>"

lemma recorded: "foldl (\<lambda>s p. snd (ht_send recording_os s sock (f p))) log ps = log @ map (\<lambda>p. (sock, f p)) ps"
  by (induction ps arbitrary: log) (simp_all add: recording_os_def)

theorem expire_tiles_purges_metatile_witness:
  "metaTile_expire_tiles recording_os 5 ''cache'' ''/osm/'' (metaTile_new ''osm'' [] 0 0 1) [] =
     Some (map (\<lambda>p. (5, htcp_packet (tile_url ''cache'' ''/osm/'' (fst p) (snd p) 1))) [(0, 0), (0, 1), (1, 0), (1, 1)])"
proof -
  have z: "mt_z (metaTile_new ''osm'' [] 0 0 1) = 1" by (simp add: metaTile_new_def)
  have o: "expire_order (metaTile_new ''osm'' [] 0 0 1) = [(0, 0), (0, 1), (1, 0), (1, 1)]"
    by (simp add: expire_order_def metaTile_new_def wrap32_def METATILE_def upt_rec)
  have m: "\<forall>s. ht_malloc recording_os s" by (simp add: recording_os_def)
  from expire_tiles_purges_metatile [OF _ m, of 5 "metaTile_new ''osm'' [] 0 0 1" "''cache''" "''/osm/''" "[]"]
  have "metaTile_expire_tiles recording_os 5 ''cache'' ''/osm/'' (metaTile_new ''osm'' [] 0 0 1) [] =
      Some (foldl (\<lambda>s p. snd (ht_send recording_os s 5 (htcp_packet (tile_url ''cache'' ''/osm/'' (fst p) (snd p) 1)))) [] [(0, 0), (0, 1), (1, 0), (1, 1)])"
    unfolding z o by simp
  then show ?thesis unfolding recorded by simp
qed

end
