(* ===== verification/Render_Submit.thy ===== *)
theory Render_Submit
  imports Renderd_Slave C_Double
begin

text \<open>
  The queue between a command line tool and the daemon (\<^verbatim>\<open>src/render_submit_queue.c\<close>): the tool's main thread
  puts tiles into a bounded linked list, worker threads take them out, each over a connection of its own,
  and account the time the daemon needs. The mutex makes each operation one atomic step; waiting for a
  condition is a result of the operation, after which it is tried again on the queue as it is then.
\<close>

section \<open>The queue\<close>

text \<open>Items are objects of a store, as \<open>struct qItem\<close> is allocated; the two counters are \<open>unsigned int\<close>.\<close>

record qItem =
  qi_mapname :: string
  qi_x :: int
  qi_y :: int
  qi_z :: int
  qi_next :: "nat option"

record submit_queue =
  sq_mem :: "nat \<Rightarrow> qItem"
  sq_alloc :: "nat \<Rightarrow> bool"
  sq_qHead :: "nat option"
  sq_qTail :: "nat option"
  sq_qLen :: "32 word"
  sq_qMaxLen :: "32 word"
  sq_work_complete :: bool

type_synonym tile_name = "string \<times> int \<times> int \<times> int"

datatype fetch_result = FetchWait | FetchNull | FetchExit int | Fetched protocol submit_queue

text \<open>The command for a tile in newly allocated memory that holds \<open>raw\<close>; type and options stay as they were.\<close>

definition bulk_cmd :: "protocol \<Rightarrow> tile_name \<Rightarrow> protocol" where
  "bulk_cmd raw t =
     (case t of (name, x, y, z) \<Rightarrow>
        raw\<lparr>pr_ver := 2, pr_cmd := cmdRenderBulk, pr_z := z, pr_x := x, pr_y := y, pr_xmlname := strncpy_name (pr_xmlname raw) name\<rparr>)"

definition item_tile :: "qItem \<Rightarrow> tile_name" where
  "item_tile i = (qi_mapname i, qi_x i, qi_y i, qi_z i)"

text \<open>An empty queue without work to come ends the worker (\<open>FetchNull\<close>); an empty one with work to come makes it wait.\<close>

definition fetch :: "protocol \<Rightarrow> submit_queue \<Rightarrow> fetch_result" where
  "fetch raw q =
     (if sq_qLen q = 0 then if sq_work_complete q then FetchNull else FetchWait
      else case sq_qHead q of
             None \<Rightarrow> FetchExit 1
           | Some e \<Rightarrow>
               let i = sq_mem q e;
                   n = sq_qLen q - 1;
                   q1 = (if n = 0 then q\<lparr>sq_qHead := None, sq_qTail := None, sq_qLen := n\<rparr>
                         else q\<lparr>sq_qHead := qi_next i, sq_qLen := n\<rparr>)
               in Fetched (bulk_cmd raw (item_tile i)) (q1\<lparr>sq_alloc := (sq_alloc q1)(e := False)\<rparr>))"

datatype enqueue_result = EnqueueWait | EnqueueExit int | Enqueued submit_queue

text \<open>The results of the two allocations are arguments: a new object, or \<open>None\<close>, and whether \<open>strdup\<close> succeeds.\<close>

definition enqueue :: "nat option \<Rightarrow> bool \<Rightarrow> tile_name \<Rightarrow> submit_queue \<Rightarrow> enqueue_result" where
  "enqueue addr dup_ok t q =
     (case addr of
        None \<Rightarrow> EnqueueExit 1
      | Some a \<Rightarrow>
          case t of (name, x, y, z) \<Rightarrow>
            let m = (sq_mem q)(a := \<lparr>qi_mapname = name, qi_x = x, qi_y = y, qi_z = z, qi_next = None\<rparr>)
            in if \<not> dup_ok then EnqueueExit 1
               else if sq_qLen q = sq_qMaxLen q then EnqueueWait
               else Enqueued
                 (q\<lparr>sq_mem := (case sq_qTail q of None \<Rightarrow> m | Some l \<Rightarrow> m(l := (m l)\<lparr>qi_next := Some a\<rparr>)),
                    sq_alloc := (sq_alloc q)(a := True),
                    sq_qHead := (case sq_qTail q of None \<Rightarrow> Some a | Some _ \<Rightarrow> sq_qHead q),
                    sq_qTail := Some a, sq_qLen := sq_qLen q + 1\<rparr>))"

text \<open>The state at the start of the workers; \<open>wait_for_empty_queue\<close> returns in the states given by the test.\<close>

definition spawn_workers :: "nat \<Rightarrow> submit_queue" where
  "spawn_workers num =
     \<lparr>sq_mem = (\<lambda>_. \<lparr>qi_mapname = [], qi_x = 0, qi_y = 0, qi_z = 0, qi_next = None\<rparr>), sq_alloc = (\<lambda>_. False),
      sq_qHead = None, sq_qTail = None, sq_qLen = 0, sq_qMaxLen = of_nat num, sq_work_complete = False\<rparr>"

definition finish_workers :: "submit_queue \<Rightarrow> submit_queue" where
  "finish_workers q = q\<lparr>sq_work_complete := True\<rparr>"

definition wait_for_empty_queue :: "submit_queue \<Rightarrow> bool" where
  "wait_for_empty_queue q \<longleftrightarrow> \<not> sq_qLen q > 0"

section \<open>A worker\<close>

record speed_stat =
  ss_time_min :: int
  ss_time_max :: int
  ss_time_total :: int
  ss_noRendered :: int

definition account :: "int \<Rightarrow> speed_stat \<Rightarrow> speed_stat" where
  "account t st =
     \<lparr>ss_time_min = (if ss_time_min st > t \<or> ss_time_min st = 0 then t else ss_time_min st),
      ss_time_max = (if ss_time_max st < t then t else ss_time_max st),
      ss_time_total = ss_time_total st + t, ss_noRendered = ss_noRendered st + 1\<rparr>"

record 's worker_os =
  wk_sock :: "'s sock_os"
  wk_net :: "'s net_os"
  wk_nameinfo :: "'s \<Rightarrow> nat \<Rightarrow> int"
  wk_protobyname :: "'s \<Rightarrow> bool"
  wk_clock :: "'s \<Rightarrow> int \<times> 's"

text \<open>
  One exchange with the daemon; the clock is in milliseconds. \<open>None\<close>: the table of the zoom levels is left. A tile
  that is not done is not asked for again.
\<close>

definition process :: "'s worker_os \<Rightarrow> protocol \<Rightarrow> int \<Rightarrow> speed_stat list \<Rightarrow> 's \<Rightarrow> (int \<times> speed_stat list \<times> 's) option" where
  "process os cmd fd stats s =
     (let (t1, s1) = wk_clock os s;
          (_, s2) = send_cmd (wk_sock os) s1 cmd fd;
          (ret, rsp, s3) = recv_cmd (wk_sock os) s2 fd True
      in if ret < 1 then Some (0, stats, s3)
         else if pr_cmd rsp \<noteq> cmdDone then Some (ret, stats, s3)
         else let (t2, s4) = wk_clock os s3
              in if 0 \<le> pr_z cmd \<and> pr_z cmd < int (length stats)
                 then Some (ret, stats[nat (pr_z cmd) := account (t2 - t1) (stats ! nat (pr_z cmd))], s4)
                 else None)"

text \<open>Where a socket path leads: a local socket, or a host and a port.\<close>

definition RENDERD_HOST :: string where
  "RENDERD_HOST = ''localhost''"

definition RENDERD_PORT :: int where
  "RENDERD_PORT = 7654"

definition tcp_target :: "string \<Rightarrow> string \<times> int" where
  "tcp_target spath =
     (let host = takeWhile (\<lambda>c. c \<noteq> CHR '':'') spath; rest = dropWhile (\<lambda>c. c \<noteq> CHR '':'') spath;
          port = (case rest of
                    [] \<Rightarrow> RENDERD_PORT
                  | _ # p \<Rightarrow> let n = (case scan_int p of None \<Rightarrow> 0 | Some (v, _) \<Rightarrow> v mod 65536)
                             in if n = 0 then RENDERD_PORT else n)
      in (if host = [] then RENDERD_HOST else host, port))"

text \<open>
  The loop over the addresses of a host: \<open>Inl\<close> is the exit code. A socket whose connection fails is not closed.
\<close>

fun worker_addresses :: "'s worker_os \<Rightarrow> int list \<Rightarrow> 's \<Rightarrow> nat list \<Rightarrow> (int + int) \<times> int list \<times> 's" where
  "worker_addresses os op s [] = (Inl 2, op, s)"
| "worker_addresses os op s (ad # ads) =
     (let (fd, s1) = no_socket (wk_net os) s (Some ad)
      in if fd = -1 then worker_addresses os op s1 ads
         else if wk_nameinfo os s1 ad \<noteq> 0 then (Inl 2, fd # op, s1)
         else let (r, s2) = no_connect (wk_net os) s1 fd (Some ad)
              in if r = 0 then (Inr fd, fd # op, s2) else worker_addresses os (fd # op) s2 ads)"

definition make_connection :: "'s worker_os \<Rightarrow> string \<Rightarrow> int list \<Rightarrow> 's \<Rightarrow> (int + int) \<times> int list \<times> 's" where
  "make_connection os spath op s =
     (if spath \<noteq> [] \<and> hd spath = CHR ''/''
      then let (fd, s1) = no_socket (wk_net os) s None
           in if fd < 0 then (Inl 2, op, s1)
              else let (r, s2) = no_connect (wk_net os) s1 fd None
                   in if r < 0 then (Inr FD_INVALID, op, s2) else (Inr fd, fd # op, s2)
      else let (host, port) = tcp_target spath
           in if \<not> wk_protobyname os s then (Inl 2, op, s)
              else let ((st, ads), s1) = no_getaddrinfo (wk_net os) s host port
                   in if st \<noteq> 0 then (Inl 2, op, s1) else worker_addresses os op s1 ads)"

text \<open>Waiting until the load is low enough: the number of the first sample below the limit, if there is one.\<close>

partial_function (option) check_load :: "(nat \<Rightarrow> rat) \<Rightarrow> int \<Rightarrow> nat \<Rightarrow> nat option" where
  "check_load load maxLoad k = (if load k \<ge> of_int maxLoad then check_load load maxLoad (Suc k) else Some k)"

text \<open>Connecting again until it works.\<close>

partial_function (option) reconnect :: "'s worker_os \<Rightarrow> string \<Rightarrow> int list \<Rightarrow> 's \<Rightarrow> ((int + int) \<times> int list \<times> 's) option" where
  "reconnect os spath op s =
     (case make_connection os spath op s of
        (Inl e, op1, s1) \<Rightarrow> Some (Inl e, op1, s1)
      | (Inr fd, op1, s1) \<Rightarrow> if fd < 0 then reconnect os spath op1 s1 else Some (Inr fd, op1, s1))"

text \<open>One tile: sent again over a new connection as long as there is no answer.\<close>

partial_function (option) deliver ::
    "'s worker_os \<Rightarrow> string \<Rightarrow> protocol \<Rightarrow> int \<Rightarrow> int list \<Rightarrow> speed_stat list \<Rightarrow> 's \<Rightarrow> ((int + int) \<times> int list \<times> speed_stat list \<times> 's) option" where
  "deliver os spath cmd fd op stats s =
     (case process os cmd fd stats s of
        None \<Rightarrow> None
      | Some (ret, stats1, s1) \<Rightarrow>
          if ret \<ge> 1 then Some (Inr fd, op, stats1, s1)
          else (case reconnect os spath (remove1 fd op) s1 of
                  None \<Rightarrow> None
                | Some (Inl e, op1, s2) \<Rightarrow> Some (Inl e, op1, stats1, s2)
                | Some (Inr fd1, op1, s2) \<Rightarrow> deliver os spath cmd fd1 op1 stats1 s2))"

section \<open>The main thread and the workers together\<close>

text \<open>
  The queue, the workers still running, the tiles put in and the tiles taken out. A worker that cannot
  connect at its start ends at once.
\<close>

record submit_sys =
  sy_queue :: submit_queue
  sy_workers :: nat
  sy_in :: "tile_name list"
  sy_out :: "tile_name list"

inductive submit_step :: "submit_sys \<Rightarrow> submit_sys \<Rightarrow> bool" where
  st_enqueue: "\<not> sq_work_complete (sy_queue st) \<Longrightarrow> \<not> sq_alloc (sy_queue st) a \<Longrightarrow> enqueue (Some a) True t (sy_queue st) = Enqueued q
    \<Longrightarrow> submit_step st (st\<lparr>sy_queue := q, sy_in := sy_in st @ [t]\<rparr>)"
| st_fetch: "0 < sy_workers st \<Longrightarrow> fetch raw (sy_queue st) = Fetched (bulk_cmd raw t) q
    \<Longrightarrow> t = item_tile (sq_mem (sy_queue st) (the (sq_qHead (sy_queue st))))
    \<Longrightarrow> submit_step st (st\<lparr>sy_queue := q, sy_out := sy_out st @ [t]\<rparr>)"
| st_no_connection: "0 < sy_workers st \<Longrightarrow> submit_step st (st\<lparr>sy_workers := sy_workers st - 1\<rparr>)"
| st_finish: "submit_step st (st\<lparr>sy_queue := finish_workers (sy_queue st)\<rparr>)"
| st_worker_done: "0 < sy_workers st \<Longrightarrow> fetch raw (sy_queue st) = FetchNull \<Longrightarrow> submit_step st (st\<lparr>sy_workers := sy_workers st - 1\<rparr>)"

definition submit_start :: "nat \<Rightarrow> submit_sys" where
  "submit_start num = \<lparr>sy_queue = spawn_workers num, sy_workers = num, sy_in = [], sy_out = []\<rparr>"

section \<open>The list in memory\<close>

fun sq_chain :: "(nat \<Rightarrow> qItem) \<Rightarrow> nat option \<Rightarrow> nat list \<Rightarrow> bool" where
  "sq_chain m p [] = (p = None)"
| "sq_chain m p (a # as) = (p = Some a \<and> sq_chain m (qi_next (m a)) as)"

definition sq_holds :: "submit_queue \<Rightarrow> nat list \<Rightarrow> bool" where
  "sq_holds q as \<longleftrightarrow>
     sq_chain (sq_mem q) (sq_qHead q) as \<and> distinct as \<and> set as = {a. sq_alloc q a}
     \<and> sq_qTail q = (if as = [] then None else Some (last as))
     \<and> unat (sq_qLen q) = length as \<and> length as \<le> unat (sq_qMaxLen q)"

definition sq_ok :: "submit_queue \<Rightarrow> bool" where
  "sq_ok q \<longleftrightarrow> (\<exists>as. sq_holds q as)"

text \<open>The tiles in the queue: as many as the counter says, from the head on.\<close>

fun sq_walk :: "(nat \<Rightarrow> qItem) \<Rightarrow> nat option \<Rightarrow> nat \<Rightarrow> tile_name list" where
  "sq_walk m p 0 = []"
| "sq_walk m p (Suc n) = (case p of None \<Rightarrow> [] | Some a \<Rightarrow> item_tile (m a) # sq_walk m (qi_next (m a)) n)"

definition sq_view :: "submit_queue \<Rightarrow> tile_name list" where
  "sq_view q = sq_walk (sq_mem q) (sq_qHead q) (unat (sq_qLen q))"

lemma walk_chain: "sq_chain m p as \<Longrightarrow> sq_walk m p (length as) = map (\<lambda>a. item_tile (m a)) as"
  by (induction as arbitrary: p) auto

lemma holds_view: "sq_holds q as \<Longrightarrow> sq_view q = map (\<lambda>a. item_tile (sq_mem q a)) as"
  using walk_chain [of "sq_mem q" "sq_qHead q" as] by (simp add: sq_holds_def sq_view_def)

lemma chain_frame: "sq_chain m p as \<Longrightarrow> \<forall>a\<in>set as. m' a = m a \<Longrightarrow> sq_chain m' p as"
  by (induction as arbitrary: p) auto

text \<open>Hanging a new item behind the last one.\<close>

lemma chain_append:
  assumes "sq_chain m p (as @ [l])" "a \<notin> set (as @ [l])" "l \<notin> set as" "qi_next (m a) = None"
  shows "sq_chain (m(l := (m l)\<lparr>qi_next := Some a\<rparr>)) p (as @ [l, a])"
  using assms by (induction as arbitrary: p) auto

lemma enqueue_holds:
  assumes "sq_holds q as" "\<not> sq_alloc q a" "enqueue (Some a) True t q = Enqueued q'"
  shows "sq_holds q' (as @ [a])" "sq_view q' = sq_view q @ [t]"
proof -
  obtain name x y z where t: "t = (name, x, y, z)" by (metis prod_cases4)
  let ?i = "\<lparr>qi_mapname = name, qi_x = x, qi_y = y, qi_z = z, qi_next = None\<rparr>"
  let ?m = "(sq_mem q)(a := ?i)"
  note h = assms(1) [unfolded sq_holds_def]
  have room: "sq_qLen q \<noteq> sq_qMaxLen q" using assms(3) by (auto simp: enqueue_def t split: if_splits)
  have a: "a \<notin> set as" using h assms(2) by auto
  have "length as \<noteq> unat (sq_qMaxLen q)" using h room by (metis word_unat_eq_iff)
  then have lt: "length as < unat (sq_qMaxLen q)" using h by simp
  then have len: "unat (sq_qLen q + 1) = length as + 1"
    using h unsigned_less [where 'a = nat, of "sq_qMaxLen q"] by (simp add: unat_plus_if')
  have c: "sq_chain ?m (sq_qHead q) as" by (rule chain_frame [OF conjunct1 [OF h]]) (use a in auto)
  define m' where "m' = (case sq_qTail q of None \<Rightarrow> ?m | Some l \<Rightarrow> ?m(l := (?m l)\<lparr>qi_next := Some a\<rparr>))"
  define hd' where "hd' = (case sq_qTail q of None \<Rightarrow> Some a | Some _ \<Rightarrow> sq_qHead q)"
  have q': "q' = q\<lparr>sq_mem := m', sq_alloc := (sq_alloc q)(a := True), sq_qHead := hd', sq_qTail := Some a, sq_qLen := sq_qLen q + 1\<rparr>"
    using assms(3) room by (auto simp: enqueue_def t m'_def hd'_def Let_def)
  have "sq_chain m' hd' (as @ [a]) \<and> (\<forall>b\<in>set as. item_tile (m' b) = item_tile (sq_mem q b)) \<and> item_tile (m' a) = t"
  proof (cases as rule: rev_cases)
    case Nil
    then have "sq_qTail q = None" using h by simp
    then show ?thesis by (simp add: m'_def hd'_def Nil item_tile_def t)
  next
    case (snoc bs l)
    then have tl: "sq_qTail q = Some l" using h by simp
    have "l \<noteq> a" "l \<notin> set bs" using snoc a h by auto
    then show ?thesis
      using chain_append [of ?m "sq_qHead q" bs l a] c snoc a tl by (auto simp: m'_def hd'_def item_tile_def t)
  qed
  with h a lt len show "sq_holds q' (as @ [a])" by (auto simp: sq_holds_def q')
  from holds_view [OF this] holds_view [OF assms(1)] \<open>sq_chain m' hd' (as @ [a]) \<and> _\<close>
  show "sq_view q' = sq_view q @ [t]" by (simp add: q')
qed

lemma fetch_holds:
  assumes "sq_holds q as" "fetch raw q = Fetched cmd q'"
  shows "\<exists>a bs. as = a # bs \<and> sq_qHead q = Some a \<and> sq_holds q' bs \<and> cmd = bulk_cmd raw (item_tile (sq_mem q a))
    \<and> sq_view q = item_tile (sq_mem q a) # sq_view q'"
proof -
  note h = assms(1) [unfolded sq_holds_def]
  have "sq_qLen q \<noteq> 0" using assms(2) by (auto simp: fetch_def split: if_splits)
  then have "as \<noteq> []" using h by (metis list.size(3) unat_eq_zero)
  then obtain a bs where as: "as = a # bs" by (cases as) auto
  then have hd: "sq_qHead q = Some a" "sq_chain (sq_mem q) (qi_next (sq_mem q a)) bs" using h by auto
  have one: "1 \<le> sq_qLen q" using \<open>sq_qLen q \<noteq> 0\<close> by (simp add: word_le_nat_alt unat_gt_0 Suc_le_eq)
  then have n: "unat (sq_qLen q - 1) = length bs" using h as by (simp add: unat_sub)
  have z: "sq_qLen q - 1 = 0 \<longleftrightarrow> bs = []" using n by (metis length_0_conv unat_eq_zero)
  let ?q1 = "if bs = [] then q\<lparr>sq_qHead := None, sq_qTail := None, sq_qLen := sq_qLen q - 1\<rparr> else q\<lparr>sq_qHead := qi_next (sq_mem q a), sq_qLen := sq_qLen q - 1\<rparr>"
  have q': "q' = ?q1\<lparr>sq_alloc := (sq_alloc ?q1)(a := False)\<rparr>" "cmd = bulk_cmd raw (item_tile (sq_mem q a))"
    using assms(2) hd(1) \<open>sq_qLen q \<noteq> 0\<close> z by (auto simp: fetch_def Let_def split: if_splits)
  have holds: "sq_holds q' bs"
    using h as hd n by (auto simp: sq_holds_def q')
  moreover have "sq_mem q' = sq_mem q" by (simp add: q')
  ultimately show ?thesis using as hd(1) q'(2) holds_view [OF assms(1)] holds_view [OF holds] by simp
qed

text \<open>The interface of the queue: nothing is lost, duplicated or overtaken.\<close>

interpretation submit: fifo sq_ok sq_view
  "\<lambda>q t q'. \<exists>a. \<not> sq_alloc q a \<and> enqueue (Some a) True t q = Enqueued q'"
  "\<lambda>q t q'. \<exists>raw. fetch raw q = Fetched (bulk_cmd raw t) q' \<and> t = item_tile (sq_mem q (the (sq_qHead q)))"
proof (unfold_locales, goal_cases)
  case (1 q t q')
  then show ?case using enqueue_holds unfolding sq_ok_def by blast
next
  case (2 q t q')
  then show ?case using fetch_holds unfolding sq_ok_def by fastforce
qed

section \<open>Runs of a tool\<close>

definition submit_inv :: "nat \<Rightarrow> submit_sys \<Rightarrow> bool" where
  "submit_inv num st \<longleftrightarrow>
     sq_ok (sy_queue st) \<and> sy_in st = sy_out st @ sq_view (sy_queue st) \<and> unat (sq_qMaxLen (sy_queue st)) = num"

lemma finish_keeps: "sq_ok (finish_workers q) = sq_ok q" "sq_view (finish_workers q) = sq_view q" "sq_qMaxLen (finish_workers q) = sq_qMaxLen q"
  by (simp_all add: sq_ok_def sq_holds_def sq_view_def finish_workers_def)

lemma max_keeps:
  "enqueue a d t q = Enqueued q' \<Longrightarrow> sq_qMaxLen q' = sq_qMaxLen q" "fetch raw q = Fetched c q' \<Longrightarrow> sq_qMaxLen q' = sq_qMaxLen q"
  by (auto simp: enqueue_def fetch_def Let_def split: option.splits if_splits prod.splits)

lemma submit_inv_step: "submit_step st st' \<Longrightarrow> submit_inv num st \<Longrightarrow> submit_inv num st'"
proof (induction rule: submit_step.induct)
  case (st_enqueue st a t q)
  then have "sq_ok q \<and> sq_view q = sq_view (sy_queue st) @ [t]" by (intro submit.enq_law) (auto simp: submit_inv_def)
  with st_enqueue show ?case by (simp add: submit_inv_def max_keeps(1))
next
  case (st_fetch st raw t q)
  then have "sq_ok q \<and> sq_view (sy_queue st) = t # sq_view q" by (intro submit.deq_law) (auto simp: submit_inv_def)
  with st_fetch show ?case by (simp add: submit_inv_def max_keeps(2))
qed (simp_all add: submit_inv_def finish_keeps)

lemma submit_inv_start: "num < 2 ^ 32 \<Longrightarrow> submit_inv num (submit_start num)"
  by (auto simp: submit_inv_def submit_start_def spawn_workers_def sq_ok_def sq_holds_def sq_view_def unat_of_nat intro!: exI [of _ "[]"])

lemma submit_reach_inv: "submit_step\<^sup>*\<^sup>* (submit_start num) st \<Longrightarrow> num < 2 ^ 32 \<Longrightarrow> submit_inv num st"
  by (induction rule: rtranclp_induct) (auto intro: submit_inv_start submit_inv_step)

lemma ok_fetch:
  assumes "sq_ok q"
  shows "fetch raw q \<noteq> FetchExit e" "fetch raw q = FetchNull \<Longrightarrow> sq_view q = []" "length (sq_view q) \<le> unat (sq_qMaxLen q)"
proof -
  obtain as where h: "sq_holds q as" using assms by (auto simp: sq_ok_def)
  have "sq_qHead q = None \<Longrightarrow> as = []" using h by (cases as) (auto simp: sq_holds_def)
  then have "sq_qHead q = None \<Longrightarrow> sq_qLen q = 0" using h by (auto simp: sq_holds_def unat_eq_zero)
  then show "fetch raw q \<noteq> FetchExit e" by (auto simp: fetch_def Let_def split: option.splits)
  show "sq_view q = []" if "fetch raw q = FetchNull"
    using that by (auto simp: fetch_def sq_view_def Let_def split: if_splits option.splits)
  show "length (sq_view q) \<le> unat (sq_qMaxLen q)" using h holds_view [OF h] by (simp add: sq_holds_def)
qed

text \<open>
  C20. However the main thread and the workers of a tool interleave: every tile put into the queue is taken out at most once and in
  order, the tiles taken out and those waiting are exactly those put in, never more wait than there were workers at the start, a worker
  never finds a list that contradicts its counter, and when a worker learns that the work is complete, every tile has
  been taken out.
\<close>

theorem submitted_tiles_in_order:
  assumes "submit_step\<^sup>*\<^sup>* (submit_start num) st" "num < 2 ^ 32"
  shows "sy_in st = sy_out st @ sq_view (sy_queue st) \<and> length (sq_view (sy_queue st)) \<le> num
    \<and> fetch raw (sy_queue st) \<noteq> FetchExit e \<and> (fetch raw (sy_queue st) = FetchNull \<longrightarrow> sy_out st = sy_in st)"
  using submit_reach_inv [OF assms] ok_fetch(1,2) [of "sy_queue st" raw] ok_fetch(3) [of "sy_queue st"] by (auto simp: submit_inv_def)

definition sample_raw :: protocol where
  "sample_raw = \<lparr>pr_ver = 0, pr_cmd = cmdIgnore, pr_x = 0, pr_y = 0, pr_z = 0, pr_xmlname = [], pr_mimetype = [], pr_options = []\<rparr>"

definition submit_sample :: submit_sys where
  "submit_sample = (submit_start 2)\<lparr>sy_queue := (case enqueue (Some 7) True (''osm'', 8, 16, 5) (spawn_workers 2) of Enqueued q \<Rightarrow> q | _ \<Rightarrow> spawn_workers 2),
     sy_in := [(''osm'', 8, 16, 5)]\<rparr>"

theorem submitted_tiles_in_order_witness:
  "sy_in submit_sample = sy_out submit_sample @ sq_view (sy_queue submit_sample) \<and> length (sq_view (sy_queue submit_sample)) \<le> 2
    \<and> sq_view (sy_queue submit_sample) = [(''osm'', 8, 16, 5)]"
proof -
  have e: "enqueue (Some 7) True (''osm'', 8, 16, 5) (spawn_workers 2) = Enqueued (sy_queue submit_sample)"
    by (simp add: submit_sample_def enqueue_def spawn_workers_def)
  have "submit_step (submit_start 2) ((submit_start 2)\<lparr>sy_queue := sy_queue submit_sample, sy_in := sy_in (submit_start 2) @ [(''osm'', 8, 16, 5)]\<rparr>)"
    by (rule st_enqueue [of _ 7]) (use e in \<open>simp_all add: submit_start_def, simp_all add: spawn_workers_def\<close>)
  moreover have "(submit_start 2)\<lparr>sy_queue := sy_queue submit_sample, sy_in := sy_in (submit_start 2) @ [(''osm'', 8, 16, 5)]\<rparr> = submit_sample"
    by (simp add: submit_sample_def submit_start_def)
  ultimately have r: "submit_step\<^sup>*\<^sup>* (submit_start 2) submit_sample" by simp
  have i: "sy_in submit_sample = [(''osm'', 8, 16, 5)]" "sy_out submit_sample = []" by (simp_all add: submit_sample_def submit_start_def)
  show ?thesis using submitted_tiles_in_order [OF r, of sample_raw 1] unfolding i by simp
qed

text \<open>
  When every worker has ended because its first connection failed, nobody empties the queue: from a full queue on,
  whatever happens, the main thread stays in \<open>enqueue\<close>.
\<close>

theorem lost_workers_block_submission:
  assumes "submit_step\<^sup>*\<^sup>* st st'" "sy_workers st = 0" "sq_qLen (sy_queue st) = sq_qMaxLen (sy_queue st)"
  shows "enqueue (Some a) True t (sy_queue st') = EnqueueWait"
proof -
  have "sy_workers st' = 0 \<and> sq_qLen (sy_queue st') = sq_qMaxLen (sy_queue st')"
    using assms
  proof (induction rule: rtranclp_induct)
    case (step u v)
    from step.hyps(2) step.IH [OF step.prems] show ?case
      by (induction rule: submit_step.induct) (auto simp: enqueue_def finish_workers_def split: prod.splits)
  qed simp
  then show ?thesis by (cases t) (simp add: enqueue_def Let_def)
qed

theorem lost_workers_block_submission_witness:
  "submit_step\<^sup>*\<^sup>* (submit_start 1) (submit_sample\<lparr>sy_workers := 0, sy_queue := (sy_queue submit_sample)\<lparr>sq_qMaxLen := 1\<rparr>\<rparr>)
   \<and> enqueue (Some 9) True (''osm'', 0, 0, 5) (sy_queue (submit_sample\<lparr>sy_workers := 0, sy_queue := (sy_queue submit_sample)\<lparr>sq_qMaxLen := 1\<rparr>\<rparr>)) = EnqueueWait"
proof -
  let ?st = "submit_sample\<lparr>sy_workers := 0, sy_queue := (sy_queue submit_sample)\<lparr>sq_qMaxLen := 1\<rparr>\<rparr>"
  let ?s1 = "(submit_start 1)\<lparr>sy_workers := 0\<rparr>"
  have "submit_step (submit_start 1) ?s1" using st_no_connection [of "submit_start 1"] by (simp add: submit_start_def)
  moreover have "submit_step ?s1 (?s1\<lparr>sy_queue := sy_queue ?st, sy_in := sy_in ?s1 @ [(''osm'', 8, 16, 5)]\<rparr>)"
    by (rule st_enqueue [of _ 7]) (simp_all add: submit_start_def submit_sample_def enqueue_def spawn_workers_def)
  moreover have "?s1\<lparr>sy_queue := sy_queue ?st, sy_in := sy_in ?s1 @ [(''osm'', 8, 16, 5)]\<rparr> = ?st"
    by (simp add: submit_sample_def submit_start_def)
  ultimately have r: "submit_step\<^sup>*\<^sup>* (submit_start 1) ?st" by (metis converse_rtranclp_into_rtranclp r_into_rtranclp)
  have "sq_qLen (sy_queue ?st) = sq_qMaxLen (sy_queue ?st)" by (simp add: submit_sample_def enqueue_def spawn_workers_def)
  from lost_workers_block_submission [OF rtranclp.rtrancl_refl, of ?st 9 "(''osm'', 0, 0, 5)"] this r show ?thesis by simp
qed

end
