(* ===== verification/Renderd_Config.thy ===== *)
theory Renderd_Config
  imports Renderd_Slave Mod_Tile_Config Throttle
begin

text \<open>
  The configuration file of the daemon (\<^verbatim>\<open>src/renderd_config.c\<close>), which the daemon, the tools and, for the
  layers, the Apache module read. The file is parsed by the library iniparser, whose dictionary is a
  parameter: the names of the sections and the four functions that look up a key. A result \<open>Inl e\<close> is the
  end of the process with exit code \<open>e\<close>. Allocations succeed.
\<close>

section \<open>The dictionary\<close>

record ini =
  ini_secnames :: "string list"
  ini_getboolean :: "string \<Rightarrow> bool \<Rightarrow> bool"
  ini_getdouble :: "string \<Rightarrow> rat \<Rightarrow> rat"
  ini_getint :: "string \<Rightarrow> int \<Rightarrow> int"
  ini_getstring :: "string \<Rightarrow> string \<Rightarrow> string"

definition INILINE_MAX :: nat where
  "INILINE_MAX = 256"

definition MAX_SLAVES :: int where
  "MAX_SLAVES = 5"

definition XMLCONFIGS_MAX :: nat where
  "XMLCONFIGS_MAX = 100"

text \<open>The copy of at most \<open>maxlen\<close> characters.\<close>

definition copy_string :: "string \<Rightarrow> nat \<Rightarrow> string" where
  "copy_string src maxlen = take maxlen src"

definition name_with_section :: "string \<Rightarrow> string \<Rightarrow> string" where
  "name_with_section sect name = sect @ '':'' @ name"

definition process_config_bool :: "ini \<Rightarrow> string \<Rightarrow> string \<Rightarrow> bool \<Rightarrow> bool" where
  "process_config_bool i sect name notfound = ini_getboolean i (name_with_section sect name) notfound"

definition process_config_double :: "ini \<Rightarrow> string \<Rightarrow> string \<Rightarrow> rat \<Rightarrow> rat" where
  "process_config_double i sect name notfound = ini_getdouble i (name_with_section sect name) notfound"

definition process_config_int :: "ini \<Rightarrow> string \<Rightarrow> string \<Rightarrow> int \<Rightarrow> int" where
  "process_config_int i sect name notfound = ini_getint i (name_with_section sect name) notfound"

definition process_config_string :: "ini \<Rightarrow> string \<Rightarrow> string \<Rightarrow> string \<Rightarrow> nat \<Rightarrow> string" where
  "process_config_string i sect name notfound maxlen = copy_string (ini_getstring i (name_with_section sect name) notfound) maxlen"

definition process_config_string_with_trailing_slash :: "ini \<Rightarrow> string \<Rightarrow> string \<Rightarrow> string \<Rightarrow> nat \<Rightarrow> string" where
  "process_config_string_with_trailing_slash i sect name notfound maxlen =
     (let src = ini_getstring i (name_with_section sect name) notfound; n = min (length src) maxlen
      in if n = 0 \<or> src ! (n - 1) \<noteq> CHR ''/'' then copy_string (src @ ''/'') maxlen else copy_string src maxlen)"

section \<open>Maps\<close>

record xmlconfigitem =
  xi_attribution :: string
  xi_cors :: string
  xi_description :: string
  xi_file_extension :: string
  xi_host :: string
  xi_htcpip :: string
  xi_mime_type :: string
  xi_output_format :: string
  xi_parameterization :: string
  xi_server_alias :: string
  xi_tile_dir :: string
  xi_xmlfile :: string
  xi_xmlname :: string
  xi_xmluri :: string
  xi_scale_factor :: rat
  xi_aspect_x :: int
  xi_aspect_y :: int
  xi_max_zoom :: int
  xi_min_zoom :: int
  xi_num_threads :: int
  xi_tile_px_size :: int

text \<open>The value \<open>0.1\<close> as a \<open>double\<close>.\<close>

definition MIN_SCALE :: rat where
  "MIN_SCALE = dbl (1 / 10)"

text \<open>The parts of a type: extension, media type and, if there is a third part, the output format.\<close>

definition type_parts :: "string \<Rightarrow> (string \<times> string \<times> string) option" where
  "type_parts ini_type =
     (case apr_tokens '' '' (take INILINE_MAX ini_type) of
        [e, m] \<Rightarrow> Some (copy_string e 64, copy_string m 64, copy_string ''png256'' 64)
      | [e, m, f] \<Rightarrow> Some (copy_string e 64, copy_string m 64, copy_string f 64)
      | _ \<Rightarrow> None)"

definition process_map_section :: "ini \<Rightarrow> string \<Rightarrow> string \<Rightarrow> int \<Rightarrow> int + xmlconfigitem" where
  "process_map_section i sect default_tile_dir num_threads =
     (let str = (\<lambda>name. process_config_string i sect name [] PATH_MAX);
          scale = process_config_double i sect ''scale'' 1;
          maxz = process_config_int i sect ''maxzoom'' MAX_ZOOM;
          minz = process_config_int i sect ''minzoom'' 0
      in if scale < MIN_SCALE \<or> scale > 8 then Inl 7
         else if maxz < 0 \<or> maxz > MAX_ZOOM then Inl 7
         else if minz < 0 \<or> minz > maxz then Inl 7
         else case type_parts (process_config_string i sect ''type'' ''png image/png png256'' INILINE_MAX) of
                None \<Rightarrow> Inl 7
              | Some (ext, mime, fmt) \<Rightarrow>
                  Inr \<lparr>xi_attribution = str ''attribution'', xi_cors = str ''cors'', xi_description = str ''description'',
                       xi_file_extension = ext, xi_host = str ''host'', xi_htcpip = str ''htcphost'', xi_mime_type = mime,
                       xi_output_format = fmt, xi_parameterization = str ''parameterize_style'', xi_server_alias = str ''server_alias'',
                       xi_tile_dir = process_config_string i sect ''tiledir'' default_tile_dir PATH_MAX, xi_xmlfile = str ''xml'',
                       xi_xmlname = copy_string sect XMLCONFIG_MAX,
                       xi_xmluri = process_config_string_with_trailing_slash i sect ''uri'' [] PATH_MAX,
                       xi_scale_factor = scale, xi_aspect_x = process_config_int i sect ''aspectx'' 1,
                       xi_aspect_y = process_config_int i sect ''aspecty'' 1, xi_max_zoom = maxz, xi_min_zoom = minz,
                       xi_num_threads = num_threads, xi_tile_px_size = process_config_int i sect ''tilesize'' 256\<rparr>)"

definition map_section_name :: "string \<Rightarrow> bool" where
  "map_section_name sect \<longleftrightarrow> \<not> starts_with ''renderd'' sect \<and> sect \<noteq> ''mapnik''"

text \<open>The loop over the sections; \<open>n\<close> is the number of maps before.\<close>

fun map_loop :: "ini \<Rightarrow> string \<Rightarrow> int \<Rightarrow> nat \<Rightarrow> string list \<Rightarrow> int + xmlconfigitem list" where
  "map_loop i dir threads n [] = Inr []"
| "map_loop i dir threads n (s # ss) =
     (if \<not> map_section_name s then map_loop i dir threads n ss
      else if n \<ge> XMLCONFIGS_MAX then Inl 7
      else case process_map_section i s dir threads of
             Inl e \<Rightarrow> Inl e
           | Inr m \<Rightarrow> (case map_loop i dir threads (Suc n) ss of Inl e \<Rightarrow> Inl e | Inr ms \<Rightarrow> Inr (m # ms)))"

text \<open>The comparison of the addresses: one that is a prefix of a later one hides that map.\<close>

definition hides :: "xmlconfigitem \<Rightarrow> xmlconfigitem \<Rightarrow> bool" where
  "hides a b \<longleftrightarrow> starts_with (take PATH_MAX (xi_xmluri a)) (xi_xmluri b)"

fun some_hidden :: "xmlconfigitem list \<Rightarrow> bool" where
  "some_hidden [] = False"
| "some_hidden (m # ms) = (list_ex (hides m) ms \<or> some_hidden ms)"

text \<open>\<open>None\<close> as the dictionary: the file could not be loaded. The result are the maps, in order.\<close>

definition process_map_sections :: "ini option \<Rightarrow> string \<Rightarrow> int \<Rightarrow> int + xmlconfigitem list" where
  "process_map_sections io default_tile_dir num_threads =
     (case io of
        None \<Rightarrow> Inl 1
      | Some i \<Rightarrow>
          case map_loop i default_tile_dir num_threads 0 (ini_secnames i) of
            Inl e \<Rightarrow> Inl e
          | Inr ms \<Rightarrow> if ms = [] then Inl 1 else if some_hidden ms then Inl 7 else Inr ms)"

section \<open>The daemons\<close>

definition process_mapnik_section :: "ini option \<Rightarrow> string \<Rightarrow> string \<Rightarrow> bool \<Rightarrow> renderd_config \<Rightarrow> int + renderd_config" where
  "process_mapnik_section io fonts_dir plugins_dir recurse cfg =
     (case io of
        None \<Rightarrow> Inl 1
      | Some i \<Rightarrow>
          if ''mapnik'' \<notin> set (ini_secnames i) then Inl 1
          else Inr (cfg\<lparr>rc_mapnik_font_dir_recurse := process_config_bool i ''mapnik'' ''font_dir_recurse'' recurse,
                        rc_mapnik_font_dir := process_config_string i ''mapnik'' ''font_dir'' fonts_dir PATH_MAX,
                        rc_mapnik_plugins_dir := process_config_string i ''mapnik'' ''plugins_dir'' plugins_dir PATH_MAX\<rparr>))"

text \<open>The number of a daemon's section: zero for the first two names, else the number behind the name.\<close>

definition renderd_number :: "string \<Rightarrow> int option" where
  "renderd_number sect =
     (if sect = ''renderd'' \<or> sect = ''renderd0'' then Some 0
      else map_option (\<lambda>(v, _). wrap32 v) (strtoi64 (drop 7 sect)))"

text \<open>The defaults of the build and the number of processors; \<open>sun_path\<close> has 108 bytes.\<close>

record conf_defaults =
  cd_pidfile :: string
  cd_socket :: string
  cd_tile_dir :: string
  cd_fonts_dir :: string
  cd_plugins_dir :: string
  cd_fonts_recurse :: bool
  cd_processors :: int

definition NUM_THREADS :: int where
  "NUM_THREADS = 4"

definition renderd_section :: "ini \<Rightarrow> conf_defaults \<Rightarrow> string \<Rightarrow> renderd_config \<Rightarrow> int + renderd_config" where
  "renderd_section i cd sect cfg =
     (let threads = process_config_int i sect ''num_threads'' NUM_THREADS;
          cfg1 = cfg\<lparr>rc_name := Some (copy_string sect 9),
                     rc_ipport := process_config_int i sect ''ipport'' 0,
                     rc_num_threads := (if threads = -1 then cd_processors cd else threads),
                     rc_iphostname := process_config_string i sect ''iphostname'' [] INILINE_MAX,
                     rc_pid_filename := process_config_string i sect ''pid_file'' (cd_pidfile cd) PATH_MAX,
                     rc_socketname := process_config_string i sect ''socketname'' (cd_socket cd) PATH_MAX,
                     rc_stats_filename := process_config_string i sect ''stats_file'' [] PATH_MAX,
                     rc_tile_dir := process_config_string i sect ''tile_dir'' (cd_tile_dir cd) PATH_MAX\<rparr>
      in if length (rc_socketname cfg1) \<ge> 108 then Inl 7 else Inr cfg1)"

text \<open>
  The loop over the sections: the last number seen and the table. \<open>None\<close>: an access outside of the
  table, since a negative number is not refused.
\<close>

fun renderd_loop :: "ini \<Rightarrow> conf_defaults \<Rightarrow> int \<Rightarrow> renderd_config list \<Rightarrow> string list \<Rightarrow> (int + int \<times> renderd_config list) option" where
  "renderd_loop i cd k cs [] = Some (Inr (k, cs))"
| "renderd_loop i cd k cs (s # ss) =
     (if \<not> starts_with ''renderd'' s then renderd_loop i cd k cs ss
      else case renderd_number s of
             None \<Rightarrow> Some (Inl 7)
           | Some n \<Rightarrow>
               if n \<ge> MAX_SLAVES then Some (Inl 7)
               else if n < 0 then None
               else if rc_name (cs ! nat n) \<noteq> None then Some (Inl 7)
               else (case renderd_section i cd s (cs ! nat n) of
                       Inl e \<Rightarrow> Some (Inl e)
                     | Inr c \<Rightarrow> renderd_loop i cd n (cs[nat n := c]) ss))"

definition process_renderd_sections :: "ini option \<Rightarrow> conf_defaults \<Rightarrow> (int + renderd_config list) option" where
  "process_renderd_sections io cd =
     (case io of
        None \<Rightarrow> Some (Inl 1)
      | Some i \<Rightarrow>
          (case renderd_loop i cd (-1) (replicate (nat MAX_SLAVES) zero_config) (ini_secnames i) of
             None \<Rightarrow> None
           | Some (Inl e) \<Rightarrow> Some (Inl e)
           | Some (Inr (k, cs)) \<Rightarrow> if k < 0 then Some (Inl 1) else Some (Inr cs)))"

section \<open>The whole file\<close>

record daemon_conf =
  dc_slaves :: "renderd_config list"
  dc_active :: nat
  dc_maps :: "xmlconfigitem list"
  dc_num_slave_threads :: int

definition slave_threads :: "int \<Rightarrow> renderd_config list \<Rightarrow> int" where
  "slave_threads active cs = sum_list (map (\<lambda>k. if int k = active then 0 else rc_num_threads (cs ! k)) [0..<length cs])"

definition process_config_file :: "ini option \<Rightarrow> conf_defaults \<Rightarrow> int \<Rightarrow> (int + daemon_conf) option" where
  "process_config_file io cd active =
     (if active < 0 \<or> active \<ge> MAX_SLAVES then Some (Inl 1)
      else case io of
             None \<Rightarrow> Some (Inl 1)
           | Some i \<Rightarrow>
               (case process_renderd_sections (Some i) cd of
                  None \<Rightarrow> None
                | Some (Inl e) \<Rightarrow> Some (Inl e)
                | Some (Inr cs) \<Rightarrow>
                    if rc_num_threads (cs ! nat active) = 0 then Some (Inl 1)
                    else (case process_mapnik_section (Some i) (cd_fonts_dir cd) (cd_plugins_dir cd) (cd_fonts_recurse cd) (cs ! nat active) of
                            Inl e \<Rightarrow> Some (Inl e)
                          | Inr c \<Rightarrow>
                              (case process_map_sections (Some i) (rc_tile_dir c) (rc_num_threads c) of
                                 Inl e \<Rightarrow> Some (Inl e)
                               | Inr ms \<Rightarrow>
                                   let cs1 = cs[nat active := c]
                                   in Some (Inr \<lparr>dc_slaves = cs1, dc_active = nat active, dc_maps = ms,
                                                 dc_num_slave_threads = slave_threads active cs1\<rparr>)))))"

text \<open>The parameters the Apache module passes on for a map of such a file.\<close>

definition map_layer_args :: "xmlconfigitem \<Rightarrow> layer_args" where
  "map_layer_args m =
     \<lparr>la_baseuri = xi_xmluri m, la_name = xi_xmlname m, la_minzoom = xi_min_zoom m, la_maxzoom = xi_max_zoom m,
      la_aspect_x = xi_aspect_x m, la_aspect_y = xi_aspect_y m, la_fileExtension = xi_file_extension m,
      la_mimeType = xi_mime_type m, la_description = xi_description m, la_attribution = xi_attribution m,
      la_server_alias = xi_server_alias m, la_cors = xi_cors m, la_tile_dir = xi_tile_dir m,
      la_enableOptions = int (length (xi_parameterization m))\<rparr>"

section \<open>What an accepted file holds\<close>

text \<open>A map as the rest of the program relies on it.\<close>

definition map_ok :: "xmlconfigitem \<Rightarrow> bool" where
  "map_ok m \<longleftrightarrow>
     0 \<le> xi_min_zoom m \<and> xi_min_zoom m \<le> xi_max_zoom m \<and> xi_max_zoom m \<le> MAX_ZOOM
     \<and> MIN_SCALE \<le> xi_scale_factor m \<and> xi_scale_factor m \<le> 8
     \<and> xi_file_extension m \<noteq> [] \<and> xi_mime_type m \<noteq> [] \<and> xi_output_format m \<noteq> []
     \<and> length (xi_xmlname m) \<le> XMLCONFIG_MAX \<and> length (xi_xmluri m) \<le> PATH_MAX"

lemma strtok_nonempty: "t \<in> set (strtok_go seps acc s) \<Longrightarrow> t \<noteq> []"
  by (induction seps acc s rule: strtok_go.induct) (auto split: if_splits)

lemma type_parts_nonempty:
  assumes "type_parts s = Some (e, m, f)"
  shows "e \<noteq> []" "m \<noteq> []" "f \<noteq> []"
proof -
  obtain ts where ts: "apr_tokens '' '' (take INILINE_MAX s) = ts" by simp
  have "t \<noteq> []" if "t \<in> set ts" for t using that strtok_nonempty ts by (metis apr_tokens_def)
  then have "\<forall>t\<in>set ts. take 64 t \<noteq> []" by auto
  with assms show "e \<noteq> []" "m \<noteq> []" "f \<noteq> []"
    unfolding type_parts_def ts by (auto simp: copy_string_def split: list.splits)
qed

lemma process_map_section_ok:
  assumes "process_map_section i s dir threads = Inr m"
  shows "map_ok m"
  using assms type_parts_nonempty
  by (auto simp: process_map_section_def Let_def map_ok_def copy_string_def process_config_string_with_trailing_slash_def
      split: if_splits option.splits)

lemma map_loop_ok:
  assumes "map_loop i dir threads n ss = Inr ms" "n \<le> XMLCONFIGS_MAX"
  shows "list_all map_ok ms \<and> n + length ms \<le> XMLCONFIGS_MAX"
  using assms
proof (induction i dir threads n ss arbitrary: ms rule: map_loop.induct)
  case (2 i dir threads n s ss)
  show ?case
  proof (cases "map_section_name s")
    case False
    with 2 show ?thesis by simp
  next
    case True
    with 2(3) obtain m ms' where "n < XMLCONFIGS_MAX" "process_map_section i s dir threads = Inr m"
      "map_loop i dir threads (Suc n) ss = Inr ms'" "ms = m # ms'"
      by (auto split: if_splits sum.splits)
    with 2(2) True process_map_section_ok show ?thesis by fastforce
  qed
qed simp

lemma not_hidden: "\<not> some_hidden ms \<Longrightarrow> j < length ms \<Longrightarrow> i < j \<Longrightarrow> \<not> hides (ms ! i) (ms ! j)"
proof (induction ms arbitrary: i j)
  case (Cons m ms)
  then obtain j' where j: "j = Suc j'" by (cases j) auto
  with Cons show ?case by (cases i) (auto simp: list_ex_iff)
qed simp

text \<open>
  Whatever the file, if it is accepted there are between one and a hundred maps, each with zoom
  levels in order and within the daemon's tables, a scale within its limits and a complete type, and no
  map's address is hidden by the address of an earlier map.
\<close>

theorem accepted_maps_are_sane:
  assumes "process_map_sections io dir threads = Inr ms"
  shows "0 < length ms \<and> length ms \<le> XMLCONFIGS_MAX \<and> list_all map_ok ms
    \<and> (\<forall>i j. i < j \<and> j < length ms \<longrightarrow> \<not> starts_with (xi_xmluri (ms ! i)) (xi_xmluri (ms ! j)))"
proof -
  obtain i where "io = Some i" "map_loop i dir threads 0 (ini_secnames i) = Inr ms" "ms \<noteq> []" "\<not> some_hidden ms"
    using assms by (auto simp: process_map_sections_def split: option.splits sum.splits if_splits)
  with map_loop_ok [of i dir threads 0 "ini_secnames i" ms] have ok: "list_all map_ok ms" "length ms \<le> XMLCONFIGS_MAX" by simp_all
  have "take PATH_MAX (xi_xmluri (ms ! k)) = xi_xmluri (ms ! k)" if "k < length ms" for k
    using ok(1) that by (simp add: list_all_length map_ok_def)
  then have "\<forall>i j. i < j \<and> j < length ms \<longrightarrow> \<not> starts_with (xi_xmluri (ms ! i)) (xi_xmluri (ms ! j))"
    using not_hidden [OF \<open>\<not> some_hidden ms\<close>] by (auto simp: hides_def)
  with ok \<open>ms \<noteq> []\<close> show ?thesis by simp
qed

text \<open>A file with one map and the daemon's two sections.\<close>

definition sample_ini :: ini where
  "sample_ini =
     \<lparr>ini_secnames = [''renderd'', ''mapnik'', ''osm''], ini_getboolean = (\<lambda>k d. d), ini_getdouble = (\<lambda>k d. d), ini_getint = (\<lambda>k d. d),
      ini_getstring = (\<lambda>k d. if k = ''osm:uri'' then ''/osm'' else d)\<rparr>"

lemma sample_scale: "MIN_SCALE \<le> 1"
proof -
  have "dbl (1 / 10) \<le> dbl (of_int 1)" by (rule dbl_mono) simp
  then show ?thesis using dbl_of_int [of 1] by (simp add: MIN_SCALE_def)
qed

lemma sample_maps: "\<exists>m. process_map_sections (Some sample_ini) dir threads = Inr [m]"
proof -
  have "type_parts ''png image/png png256'' = Some (''png'', ''image/png'', ''png256'')"
    by (simp add: type_parts_def copy_string_def INILINE_MAX_def apr_tokens_def)
  then show ?thesis
    using sample_scale
    by (simp add: process_map_sections_def sample_ini_def map_section_name_def XMLCONFIGS_MAX_def process_map_section_def Let_def
        process_config_double_def process_config_int_def process_config_string_def copy_string_def MAX_ZOOM_def INILINE_MAX_def name_with_section_def)
qed

theorem accepted_maps_are_sane_witness:
  "\<exists>m. process_map_sections (Some sample_ini) ''/t'' 4 = Inr [m] \<and> map_ok m"
proof -
  obtain m where m: "process_map_sections (Some sample_ini) ''/t'' 4 = Inr [m]" using sample_maps by blast
  from accepted_maps_are_sane [OF m] m show ?thesis by simp
qed

section \<open>The module reads the same file\<close>

text \<open>The map sections the module gets are those read from the files; \<open>load\<close> is the library's reader.\<close>

definition reads_sections :: "conf_env \<Rightarrow> (string \<Rightarrow> ini option) \<Rightarrow> bool" where
  "reads_sections ce load \<longleftrightarrow>
     (\<forall>f las. ce_sections ce f = Some las \<longrightarrow> (\<exists>ms. process_map_sections (load f) [] 0 = Inr ms \<and> las = map map_layer_args ms))"

lemma read_sections_ok:
  assumes "reads_sections ce load"
  shows "sections_ok ce"
  unfolding sections_ok_def
proof (intro allI impI)
  fix f las
  assume "ce_sections ce f = Some las"
  then obtain ms where ms: "process_map_sections (load f) [] 0 = Inr ms" "las = map map_layer_args ms"
    using assms by (auto simp: reads_sections_def)
  then have "list_all map_ok ms"
    using map_loop_ok [of _ "[]" 0 0 _ ms] by (auto simp: process_map_sections_def split: option.splits sum.splits if_splits)
  then show "list_all section_ok las"
    by (auto simp: ms(2) list_all_iff map_ok_def section_ok_def map_layer_args_def MAX_ZOOM_def MAX_ZOOM_SERVER_def)
qed


definition sample_load :: "string \<Rightarrow> ini option" where
  "sample_load f = (if f = ''renderd.conf'' then Some sample_ini else None)"

definition sample_file_env :: conf_env where
  "sample_file_env = sample_conf_env\<lparr>ce_sections := (\<lambda>f. case process_map_sections (sample_load f) [] 0 of
     Inl _ \<Rightarrow> None | Inr ms \<Rightarrow> Some (map map_layer_args ms))\<rparr>"


text \<open>
  The number in the name of a daemon's section is compared with the size of the table only from above: a
  file whose first daemon section has a negative number is not rejected but makes the reader leave the table.
\<close>

theorem negative_section_leaves_table:
  assumes "ini_secnames i = s # ss" "starts_with ''renderd'' s" "renderd_number s = Some n" "n < 0" "0 \<le> active" "active < MAX_SLAVES"
  shows "process_config_file (Some i) cd active = None"
  using assms by (simp add: process_config_file_def process_renderd_sections_def MAX_SLAVES_def)

theorem negative_section_leaves_table_witness:
  "process_config_file (Some (sample_ini\<lparr>ini_secnames := [''renderd-1'', ''mapnik'', ''osm'']\<rparr>)) cd 0 = None"
proof (rule negative_section_leaves_table)
  show "renderd_number ''renderd-1'' = Some (-1)" by code_simp
qed (simp_all add: MAX_SLAVES_def)

end
