(* ===== verification/Render_Expired.thy ===== *)
theory Render_Expired
  imports Render_Submit Renderd_Config Store
begin

text \<open>
  The tool that expires tiles (\<^verbatim>\<open>src/render_expired.c\<close>): it reads a list of changed tiles, brings each to the
  largest zoom level and walks up to the smallest one; the metatile of every tile on the way is deleted,
  marked as expired or given to the queue of the daemon. A table of the metatiles already seen ends a walk
  early. The reading of options and of tile lists is shared with \<^verbatim>\<open>src/render_list.c\<close>. Messages and the pause
  of the process are left out.
\<close>

section \<open>Settings\<close>

text \<open>
  The options given on the command line (\<open>None\<close>: not given). The configuration file is given by its dictionary,
  \<open>Some None\<close> when it cannot be loaded.
\<close>

record tool_args =
  ta_config :: "ini option option"
  ta_mapname :: string
  ta_max_zoom :: "int option"
  ta_min_zoom :: "int option"
  ta_num_threads :: "int option"
  ta_socketname :: "string option"
  ta_tile_dir :: "string option"

record tool_settings =
  ts_mapname :: string
  ts_max_zoom :: int
  ts_min_zoom :: int
  ts_num_threads :: int
  ts_socketname :: string
  ts_tile_dir :: string

text \<open>The map of that name; the last one if there are several.\<close>

definition find_map :: "string \<Rightarrow> xmlconfigitem list \<Rightarrow> xmlconfigitem option" where
  "find_map name ms = (case filter (\<lambda>m. xi_xmlname m = name) ms of [] \<Rightarrow> None | fs \<Rightarrow> Some (last fs))"

definition or_default :: "'a option \<Rightarrow> 'a \<Rightarrow> 'a" where
  "or_default v0 d = (case v0 of None \<Rightarrow> d | Some v \<Rightarrow> v)"

text \<open>
  The order of the zoom levels is checked before the file is read. \<open>None\<close>: the reader of the file leaves its
  table; \<open>Inl\<close>: the process ends with this code.
\<close>

definition tool_setup :: "conf_defaults \<Rightarrow> tool_args \<Rightarrow> (int + tool_settings) option" where
  "tool_setup cd a =
     (let maxz = or_default (ta_max_zoom a) MAX_ZOOM;
          minz = or_default (ta_min_zoom a) 0
      in if maxz < minz then Some (Inl 1)
         else case ta_config a of
                None \<Rightarrow>
                  Some (Inr \<lparr>ts_mapname = ta_mapname a, ts_max_zoom = maxz, ts_min_zoom = minz,
                             ts_num_threads = or_default (ta_num_threads a) 1,
                             ts_socketname = or_default (ta_socketname a) (cd_socket cd),
                             ts_tile_dir = or_default (ta_tile_dir a) (cd_tile_dir cd)\<rparr>)
              | Some io \<Rightarrow>
                  (case process_config_file io cd 0 of
                     None \<Rightarrow> None
                   | Some (Inl e) \<Rightarrow> Some (Inl e)
                   | Some (Inr dc) \<Rightarrow>
                       (case find_map (ta_mapname a) (dc_maps dc) of
                          None \<Rightarrow> Some (Inl 1)
                        | Some m \<Rightarrow>
                            Some (Inr \<lparr>ts_mapname = ta_mapname a,
                                       ts_max_zoom = or_default (ta_max_zoom a) (xi_max_zoom m),
                                       ts_min_zoom = or_default (ta_min_zoom a) (xi_min_zoom m),
                                       ts_num_threads = or_default (ta_num_threads a) (xi_num_threads m),
                                       ts_socketname = or_default (ta_socketname a) (take PATH_MAX (rc_socketname (dc_slaves dc ! dc_active dc))),
                                       ts_tile_dir = or_default (ta_tile_dir a) (take PATH_MAX (xi_tile_dir m))\<rparr>))))"

section \<open>Lists of tiles on the standard input\<close>

text \<open>The input behind white space and a sign.\<close>

definition after_sign :: "string \<Rightarrow> string" where
  "after_sign s =
     (let t = dropWhile is_space s in if t \<noteq> [] \<and> (hd t = CHR ''-'' \<or> hd t = CHR ''+'') then tl t else t)"

text \<open>
  The directive \<open>%d\<close> of \<open>fscanf\<close>: the value if there is one, the characters that remain, and whether the end
  of the input was met. A sign without digits stays consumed.
\<close>

definition fscan_int :: "string \<Rightarrow> int option \<times> string \<times> bool" where
  "fscan_int s =
     (case scan_int s of
        None \<Rightarrow> (None, after_sign s, after_sign s = [])
      | Some (v, r) \<Rightarrow> (Some v, r, r = []))"

text \<open>A separator of the format: nothing, or a literal character.\<close>

definition fscan_sep :: "char option \<Rightarrow> string \<Rightarrow> bool \<times> string \<times> bool" where
  "fscan_sep c s =
     (case c of
        None \<Rightarrow> (True, s, False)
      | Some d \<Rightarrow> (case s of [] \<Rightarrow> (False, [], True) | e # r \<Rightarrow> if e = d then (True, r, False) else (False, s, False)))"

definition fscan3 :: "char option \<Rightarrow> string \<Rightarrow> (int \<times> int \<times> int) option \<times> string \<times> bool" where
  "fscan3 c s =
     (case fscan_int s of
        (None, r, e) \<Rightarrow> (None, r, e)
      | (Some a, r, e) \<Rightarrow>
     (case fscan_sep c r of
        (False, r, e) \<Rightarrow> (None, r, e)
      | (True, r, e) \<Rightarrow>
     (case fscan_int r of
        (None, r, e) \<Rightarrow> (None, r, e)
      | (Some b, r, e) \<Rightarrow>
     (case fscan_sep c r of
        (False, r, e) \<Rightarrow> (None, r, e)
      | (True, r, e) \<Rightarrow>
     (case fscan_int r of
        (None, r, e) \<Rightarrow> (None, r, e)
      | (Some d, r, e) \<Rightarrow> (Some (a, b, d), r, e))))))"

text \<open>\<open>fgets\<close> into a buffer of \<open>n\<close> bytes: what remains of the input, and whether its end was met.\<close>

definition fgets_rest :: "nat \<Rightarrow> string \<Rightarrow> string \<times> bool" where
  "fgets_rest n s =
     (let line = takeWhile (\<lambda>c. c \<noteq> CHR 0x0A) s;
          ended = length line < length s;
          k = min (n - 1) (length line + (if ended then 1 else 0))
      in (drop k s, \<not> ended \<and> length line < n - 1))"

lemma after_sign_shorter: "length (after_sign s) \<le> length s"
  using length_dropWhile_le [of is_space s] by (auto simp: after_sign_def Let_def)

lemma scan_int_after_sign:
  "\<exists>v. scan_int s = (if takeWhile is_digit (after_sign s) = [] then None else Some (v, dropWhile is_digit (after_sign s)))"
  unfolding scan_int_def after_sign_def Let_def by (rule exI) (rule refl)

lemma scan_int_rest: "scan_int s = Some (v, r) \<Longrightarrow> length r < length (after_sign s)"
  using scan_int_after_sign [of s] arg_cong [OF takeWhile_dropWhile_id [of is_digit "after_sign s"], of length]
  by (cases "takeWhile is_digit (after_sign s)") auto

lemma fscan_int_shorter: "fscan_int s = (v, r, e) \<Longrightarrow> length r \<le> length s \<and> (v \<noteq> None \<longrightarrow> length r < length s)"
  using after_sign_shorter [of s] scan_int_rest [of s]
  by (auto simp: fscan_int_def split: option.splits)

lemma fscan_sep_shorter: "fscan_sep c s = (v, r, e) \<Longrightarrow> length r \<le> length s"
  by (auto simp: fscan_sep_def split: option.splits list.splits if_splits)

lemma fscan3_shorter: "fscan3 c s = (v, r, e) \<Longrightarrow> length r \<le> length s \<and> (v \<noteq> None \<longrightarrow> length r < length s)"
  by (auto simp: fscan3_def split: prod.splits option.splits bool.splits
      dest!: fscan_int_shorter fscan_sep_shorter)

lemma fgets_shorter: "fgets_rest 1024 s = (r, e) \<Longrightarrow> length r \<le> length s \<and> (e \<or> length r < length s)"
  using length_takeWhile_le [of "\<lambda>c. c \<noteq> CHR 0x0A" s] by (auto simp: fgets_rest_def Let_def split: if_splits)

text \<open>
  The loop over the input: the three numbers of each entry; where there are none the rest of the line is
  dropped. Nothing else in the body of the loops touches the input.
\<close>

function read_tiles :: "char option \<Rightarrow> string \<Rightarrow> bool \<Rightarrow> (int \<times> int \<times> int) list" where
  "read_tiles c s eof =
     (if eof then []
      else case fscan3 c s of
             (Some t, r, e) \<Rightarrow> t # read_tiles c r e
           | (None, r, e) \<Rightarrow> (case fgets_rest 1024 r of (r', e') \<Rightarrow> read_tiles c r' (e \<or> e')))"
  by pat_completeness auto

termination
  by (relation "measure (\<lambda>(c, s, eof). length s + (if eof then 0 else 1))")
    (auto dest!: fscan3_shorter fgets_shorter dest: sym simp: eq_commute [of "(_, _)"])

declare read_tiles.simps [simp del]

section \<open>Walking up the zoom levels\<close>

text \<open>How many zoom levels a metatile spans: the loop over the size of a metatile.\<close>

fun zoomlevels_of :: "nat \<Rightarrow> int" where
  "zoomlevels_of mt = (if mt > 1 then 1 + zoomlevels_of (mt div 2) else 0)"

declare zoomlevels_of.simps [simp del]

definition excess_zoomlevels :: int where
  "excess_zoomlevels = zoomlevels_of (nat METATILE)"

definition tile_key :: "int \<Rightarrow> int \<Rightarrow> int \<Rightarrow> int" where
  "tile_key z x y = push_bit 48 z OR push_bit 24 (x AND 0xFFFFFF) OR (y AND 0xFFFFFF)"

text \<open>The table of the metatiles already seen, by their keys.\<close>

definition tile_is_requested :: "int \<Rightarrow> int \<Rightarrow> int \<Rightarrow> int set \<Rightarrow> bool" where
  "tile_is_requested z x y tile_requested \<longleftrightarrow> tile_key z x y \<in> tile_requested"

definition set_tile_requested :: "int \<Rightarrow> int \<Rightarrow> int \<Rightarrow> int set \<Rightarrow> int set" where
  "set_tile_requested z x y tile_requested = insert (tile_key z x y) tile_requested"

declare tile_is_requested_def [simp] set_tile_requested_def [simp]

text \<open>The options of the tool; the zoom levels from which on metatiles are deleted or touched, if any.\<close>

record expire_opts =
  eo_mapname :: string
  eo_min_zoom :: int
  eo_max_zoom :: int
  eo_delete_from :: "int option"
  eo_touch_from :: "int option"
  eo_doRender :: bool

text \<open>
  The state of the loop: the storage, the table of the metatiles already seen, the tiles looked up in the
  storage and those given to \<open>enqueue\<close>, in this order, and the counters.
\<close>

record 'st expire_state =
  es_store :: 'st
  es_requested :: "int set"
  es_visited :: "(int \<times> int \<times> int) list"
  es_enqueued :: "tile_name list"
  es_num_render :: int
  es_num_all :: int
  es_num_read :: int
  es_num_ignore :: int
  es_num_unlink :: int
  es_num_touch :: int

definition from_zoom :: "int option \<Rightarrow> int \<Rightarrow> bool" where
  "from_zoom f z = (case f of None \<Rightarrow> False | Some k \<Rightarrow> z \<ge> k)"

definition expire_tile :: "'st storage_backend \<Rightarrow> expire_opts \<Rightarrow> int \<Rightarrow> int \<Rightarrow> int \<Rightarrow> 'st expire_state \<Rightarrow> 'st expire_state" where
  "expire_tile b o' z x y es =
     (let es = es\<lparr>es_requested := set_tile_requested (z - excess_zoomlevels) (drop_bit (nat excess_zoomlevels) x) (drop_bit (nat excess_zoomlevels) y) (es_requested es),
                  es_num_all := es_num_all es + 1, es_visited := es_visited es @ [(z, x, y)]\<rparr>;
          name = eo_mapname o';
          s = sb_tile_stat b (es_store es) name [] x y z
      in if si_size s > 0
         then if from_zoom (eo_delete_from o') z
              then es\<lparr>es_store := snd (sb_metatile_delete b (es_store es) name x y z), es_num_unlink := es_num_unlink es + 1\<rparr>
              else if from_zoom (eo_touch_from o') z
              then es\<lparr>es_store := snd (sb_metatile_expire b (es_store es) name x y z), es_num_touch := es_num_touch es + 1\<rparr>
              else if eo_doRender o'
              then es\<lparr>es_enqueued := es_enqueued es @ [(name, x, y, z)], es_num_render := es_num_render es + 1\<rparr>
              else es
         else es\<lparr>es_num_ignore := es_num_ignore es + 1\<rparr>)"

function expire_up :: "'st storage_backend \<Rightarrow> expire_opts \<Rightarrow> int \<Rightarrow> int \<Rightarrow> int \<Rightarrow> 'st expire_state \<Rightarrow> 'st expire_state" where
  "expire_up b o' z x y es =
     (if z < eo_min_zoom o' then es
      else if tile_is_requested (z - excess_zoomlevels) (drop_bit (nat excess_zoomlevels) x) (drop_bit (nat excess_zoomlevels) y) (es_requested es) then es
      else expire_up b o' (z - 1) (drop_bit 1 x) (drop_bit 1 y) (expire_tile b o' z x y es))"
  by pat_completeness auto

termination
  by (relation "measure (\<lambda>(b, o', z, x, y, es). nat (z + 1 - eo_min_zoom o'))") auto

declare expire_up.simps [simp del]

text \<open>Bringing a tile to the largest zoom level: the two loops in front of the walk.\<close>

function zoom_out :: "int \<Rightarrow> int \<times> int \<times> int \<Rightarrow> int \<times> int \<times> int" where
  "zoom_out maxz (z, x, y) = (if z > maxz then zoom_out maxz (z - 1, drop_bit 1 x, drop_bit 1 y) else (z, x, y))"
  by pat_completeness auto

termination
  by (relation "measure (\<lambda>(maxz, z, x, y). nat (z - maxz))") auto

function zoom_in :: "int \<Rightarrow> int \<times> int \<times> int \<Rightarrow> int \<times> int \<times> int" where
  "zoom_in maxz (z, x, y) =
     (if z < maxz then zoom_in maxz (z + 1, wrap32 (push_bit 1 x), wrap32 (push_bit 1 y)) else (z, x, y))"
  by pat_completeness auto

termination
  by (relation "measure (\<lambda>(maxz, z, x, y). nat (maxz - z))") auto

declare zoom_out.simps [simp del] zoom_in.simps [simp del]

definition expire_line :: "'st storage_backend \<Rightarrow> expire_opts \<Rightarrow> int \<times> int \<times> int \<Rightarrow> 'st expire_state \<Rightarrow> 'st expire_state" where
  "expire_line b o' t es =
     (case zoom_in (eo_max_zoom o') (zoom_out (eo_max_zoom o') t) of
        (z, x, y) \<Rightarrow> expire_up b o' z x y (es\<lparr>es_num_read := es_num_read es + 1\<rparr>))"

definition expire_start :: "'st \<Rightarrow> 'st expire_state" where
  "expire_start st =
     \<lparr>es_store = st, es_requested = {}, es_visited = [], es_enqueued = [], es_num_render = 0, es_num_all = 0,
      es_num_read = 0, es_num_ignore = 0, es_num_unlink = 0, es_num_touch = 0\<rparr>"

text \<open>
  The smallest zoom level is raised to the span of a metatile. Workers are started only when some zoom level
  is neither deleted nor touched.
\<close>

definition expire_options :: "tool_settings \<Rightarrow> int option \<Rightarrow> int option \<Rightarrow> expire_opts" where
  "expire_options ts del tch =
     (let minz = max (ts_min_zoom ts) excess_zoomlevels
      in \<lparr>eo_mapname = ts_mapname ts, eo_min_zoom = minz, eo_max_zoom = ts_max_zoom ts, eo_delete_from = del, eo_touch_from = tch,
          eo_doRender = ((case tch of None \<Rightarrow> False | Some k \<Rightarrow> minz < k) \<or> (case del of None \<Rightarrow> False | Some k \<Rightarrow> minz < k)
                         \<or> (tch = None \<and> del = None))\<rparr>)"

text \<open>The tool: the exit code, or the state after the whole input. The storage is opened by the function given.\<close>

definition render_expired ::
    "conf_defaults \<Rightarrow> (string \<Rightarrow> ('st storage_backend \<times> 'st) option) \<Rightarrow> tool_args \<Rightarrow> int option \<Rightarrow> int option \<Rightarrow> string
      \<Rightarrow> (int + 'st expire_state) option" where
  "render_expired cd init a del tch input =
     (case tool_setup cd a of
        None \<Rightarrow> None
      | Some (Inl e) \<Rightarrow> Some (Inl e)
      | Some (Inr ts) \<Rightarrow>
          (case init (ts_tile_dir ts) of
             None \<Rightarrow> Some (Inl 1)
           | Some (b, st) \<Rightarrow>
               Some (Inr (fold (expire_line b (expire_options ts del tch)) (read_tiles (Some (CHR ''/'')) input False) (expire_start st)))))"

section \<open>Every metatile above a tile is visited once\<close>

lemma excess_zoomlevels_3: "excess_zoomlevels = 3"
  by (simp add: excess_zoomlevels_def METATILE_def zoomlevels_of.simps)
lemma tile_key_parts:
  assumes "0 \<le> x" "x < 2 ^ 24" "0 \<le> y" "y < 2 ^ 24"
  shows "drop_bit 48 (tile_key z x y) = z" "take_bit 24 (drop_bit 24 (tile_key z x y)) = x" "take_bit 24 (tile_key z x y) = y"
proof -
  have m: "(0xFFFFFF :: int) = mask 24" by (simp add: mask_eq_exp_minus_1)
  have k: "x AND 0xFFFFFF = x" "y AND 0xFFFFFF = y"
    using assms by (simp_all add: m take_bit_eq_mask [symmetric] take_bit_int_eq_self)
  have d: "drop_bit 24 x = 0" "drop_bit 24 y = 0" "drop_bit 48 y = 0" using assms by (simp_all add: drop_bit_eq_div)
  show "drop_bit 48 (tile_key z x y) = z" "take_bit 24 (drop_bit 24 (tile_key z x y)) = x" "take_bit 24 (tile_key z x y) = y"
    unfolding tile_key_def k
    using assms d by (simp_all add: drop_bit_push_bit take_bit_push_bit drop_bit_take_bit take_bit_int_eq_self)
qed

lemma tile_key_inj:
  assumes "tile_key z x y = tile_key z' x' y'" "0 \<le> x" "x < 2 ^ 24" "0 \<le> y" "y < 2 ^ 24" "0 \<le> x'" "x' < 2 ^ 24" "0 \<le> y'" "y' < 2 ^ 24"
  shows "z = z' \<and> x = x' \<and> y = y'"
  using tile_key_parts [OF assms(2-5), of z] tile_key_parts [OF assms(6-9), of z'] assms(1) by simp

text \<open>The metatile of a tile, and the walk without the table: every tile above a tile, down to the smallest zoom level.\<close>

definition metatile_of :: "int \<times> int \<times> int \<Rightarrow> int \<times> int \<times> int" where
  "metatile_of t = (case t of (z, x, y) \<Rightarrow> (z, x div METATILE, y div METATILE))"

function tiles_above :: "int \<Rightarrow> int \<times> int \<times> int \<Rightarrow> (int \<times> int \<times> int) list" where
  "tiles_above minz (z, x, y) = (if z < minz then [] else (z, x, y) # tiles_above minz (z - 1, x div 2, y div 2))"
  by pat_completeness auto

termination
  by (relation "measure (\<lambda>(minz, z, x, y). nat (z + 1 - minz))") auto

declare tiles_above.simps [simp del]

definition in_zoom :: "int \<times> int \<times> int \<Rightarrow> bool" where
  "in_zoom t \<longleftrightarrow> (case t of (z, x, y) \<Rightarrow> 0 \<le> z \<and> 0 \<le> x \<and> x < 2 ^ nat z \<and> 0 \<le> y \<and> y < 2 ^ nat z)"

text \<open>The tile at the largest zoom level that stands for a tile of the input.\<close>

definition at_zoom :: "int \<Rightarrow> int \<times> int \<times> int \<Rightarrow> int \<times> int \<times> int" where
  "at_zoom maxz t =
     (case t of (z, x, y) \<Rightarrow>
        if z > maxz then (maxz, x div 2 ^ nat (z - maxz), y div 2 ^ nat (z - maxz))
        else (maxz, x * 2 ^ nat (maxz - z), y * 2 ^ nat (maxz - z)))"

definition small :: "int \<times> int \<times> int \<Rightarrow> bool" where
  "small t \<longleftrightarrow> (case t of (z, x, y) \<Rightarrow> 0 \<le> x \<and> x < 2 ^ 20 \<and> 0 \<le> y \<and> y < 2 ^ 20)"

definition meta_key :: "int \<times> int \<times> int \<Rightarrow> int" where
  "meta_key t = (case t of (z, x, y) \<Rightarrow> tile_key (z - excess_zoomlevels) (drop_bit (nat excess_zoomlevels) x) (drop_bit (nat excess_zoomlevels) y))"

lemma meta_key_eq:
  assumes "small t" "small u"
  shows "meta_key t = meta_key u \<longleftrightarrow> metatile_of t = metatile_of u"
proof -
  obtain z x y z' x' y' where t: "t = (z, x, y)" "u = (z', x', y')" by (metis prod_cases3)
  have k: "meta_key (z, x, y) = tile_key (z - 3) (x div 8) (y div 8)" for z x y
    by (simp add: meta_key_def excess_zoomlevels_3 drop_bit_eq_div)
  have q: "0 \<le> v div 8 \<and> v div 8 < 2 ^ 24" if "0 \<le> v" "v < 2 ^ 20" for v :: int
    using that zdiv_mono2 [of v 1 8] by simp
  have b: "0 \<le> x div 8" "x div 8 < 2 ^ 24" "0 \<le> y div 8" "y div 8 < 2 ^ 24" "0 \<le> x' div 8" "x' div 8 < 2 ^ 24" "0 \<le> y' div 8" "y' div 8 < 2 ^ 24"
    using assms q [of x] q [of y] q [of x'] q [of y'] by (simp_all add: t small_def)
  have "tile_key (z - 3) (x div 8) (y div 8) = tile_key (z' - 3) (x' div 8) (y' div 8) \<longleftrightarrow> z - 3 = z' - 3 \<and> x div 8 = x' div 8 \<and> y div 8 = y' div 8"
    using tile_key_inj [OF _ b] by metis
  then show ?thesis by (simp add: t k metatile_of_def METATILE_def)
qed

lemma expire_tile_fields:
  "es_requested (expire_tile b o' z x y es) = insert (meta_key (z, x, y)) (es_requested es)"
  "es_visited (expire_tile b o' z x y es) = es_visited es @ [(z, x, y)]"
  "es_num_all (expire_tile b o' z x y es) = es_num_all es + 1"
  "es_num_read (expire_tile b o' z x y es) = es_num_read es"
  by (simp_all add: expire_tile_def meta_key_def Let_def)

definition seen :: "'st expire_state \<Rightarrow> (int \<times> int \<times> int) set" where
  "seen es = metatile_of ` set (es_visited es)"

text \<open>The table holds the metatiles visited, each of which was visited once.\<close>

definition table_ok :: "'st expire_state \<Rightarrow> bool" where
  "table_ok es \<longleftrightarrow> es_requested es = meta_key ` set (es_visited es) \<and> distinct (map metatile_of (es_visited es))
     \<and> (\<forall>t\<in>set (es_visited es). small t) \<and> es_num_all es = int (length (es_visited es))"

text \<open>With a metatile every metatile above it is there, except for those still to come.\<close>

definition closed_but :: "int \<Rightarrow> (int \<times> int \<times> int) set \<Rightarrow> (int \<times> int \<times> int) set \<Rightarrow> bool" where
  "closed_but minz M P \<longleftrightarrow> (\<forall>(z, x, y)\<in>M. minz < z \<longrightarrow> (z - 1, x div 2, y div 2) \<in> M \<union> P)"

lemma closed_walk:
  assumes "closed_but minz M {}" "metatile_of t \<in> M"
  shows "metatile_of ` set (tiles_above minz t) \<subseteq> M"
  using assms
proof (induction minz t rule: tiles_above.induct)
  case (1 minz z x y)
  have "x div 2 div METATILE = x div METATILE div 2" "y div 2 div METATILE = y div METATILE div 2"
    by (simp_all add: METATILE_def zdiv_zmult2_eq [symmetric])
  moreover have "(z - 1, x div METATILE div 2, y div METATILE div 2) \<in> M" if "minz < z"
    using bspec [OF 1(2) [unfolded closed_but_def], of "(z, x div METATILE, y div METATILE)"] 1(3) that by (simp add: metatile_of_def)
  ultimately have "metatile_of (z - 1, x div 2, y div 2) \<in> M" if "minz < z"
    using that by (simp add: metatile_of_def)
  then have "metatile_of ` set (tiles_above minz (z - 1, x div 2, y div 2)) \<subseteq> M" if "\<not> z < minz"
    using 1 that by (cases "minz < z") (simp_all add: tiles_above.simps [of minz "minz - 1"])
  then show ?case using 1(3) by (simp add: tiles_above.simps [of minz z])
qed

lemma walk_step:
  assumes "closed_but minz M {metatile_of (z, x, y)}"
  shows "closed_but minz (insert (metatile_of (z, x, y)) M) {metatile_of (z - 1, x div 2, y div 2)}"
proof -
  have "x div 2 div METATILE = x div METATILE div 2" "y div 2 div METATILE = y div METATILE div 2"
    by (simp_all add: METATILE_def zdiv_zmult2_eq [symmetric])
  then show ?thesis using assms by (auto simp: closed_but_def metatile_of_def)
qed

definition walked :: "int \<Rightarrow> 'st expire_state \<Rightarrow> bool" where
  "walked minz es \<longleftrightarrow> table_ok es \<and> closed_but minz (seen es) {}"

lemma expire_up_visits:
  assumes "table_ok es" "small (z, x, y)" "closed_but (eo_min_zoom o') (seen es) {metatile_of (z, x, y)}"
  shows "walked (eo_min_zoom o') (expire_up b o' z x y es)
    \<and> seen (expire_up b o' z x y es) = seen es \<union> metatile_of ` set (tiles_above (eo_min_zoom o') (z, x, y))"
  using assms
proof (induction b o' z x y es rule: expire_up.induct)
  case (1 b o' z x y es)
  let ?m = "eo_min_zoom o'" and ?k = "meta_key (z, x, y)"
  have known: "?k \<in> es_requested es \<longleftrightarrow> metatile_of (z, x, y) \<in> seen es"
  proof -
    have "es_requested es = meta_key ` set (es_visited es)" and sm: "\<forall>t\<in>set (es_visited es). small t"
      using 1(2) by (simp_all add: table_ok_def)
    then have "?k \<in> es_requested es \<longleftrightarrow> (\<exists>t\<in>set (es_visited es). meta_key (z, x, y) = meta_key t)" by auto
    also have "\<dots> \<longleftrightarrow> (\<exists>t\<in>set (es_visited es). metatile_of (z, x, y) = metatile_of t)"
      using sm meta_key_eq [OF 1(3)] by blast
    finally show ?thesis by (auto simp: seen_def)
  qed
  consider "z < ?m" | "\<not> z < ?m" "?k \<in> es_requested es" | "\<not> z < ?m" "?k \<notin> es_requested es" by blast
  then show ?case
  proof cases
    case 1
    then have "closed_but ?m (seen es) {}" using "1.prems"(3) by (fastforce simp: closed_but_def metatile_of_def)
    then show ?thesis using 1 "1.prems" by (simp add: expire_up.simps tiles_above.simps walked_def)
  next
    case 2
    then have in_seen: "metatile_of (z, x, y) \<in> seen es" using known by simp
    then have c: "closed_but ?m (seen es) {}" using "1.prems"(3) by (simp add: closed_but_def insert_absorb)
    have "expire_up b o' z x y es = es" using 2 by (subst expire_up.simps) (simp add: meta_key_def)
    then show ?thesis using c closed_walk [OF c in_seen] "1.prems"(1) by (auto simp: walked_def)
  next
    case 3
    let ?e = "expire_tile b o' z x y es"
    have s: "seen ?e = insert (metatile_of (z, x, y)) (seen es)" by (simp add: seen_def expire_tile_fields)
    have "metatile_of (z, x, y) \<notin> seen es" using 3 known by simp
    then have t: "table_ok ?e"
      using "1.prems"(1,2) by (auto simp: table_ok_def expire_tile_fields seen_def)
    have sm: "small (z - 1, drop_bit 1 x, drop_bit 1 y)"
      using "1.prems"(2) by (auto simp: small_def drop_bit_eq_div)
    have e: "expire_up b o' z x y es = expire_up b o' (z - 1) (drop_bit 1 x) (drop_bit 1 y) ?e"
      using 3 by (subst expire_up.simps) (simp add: meta_key_def)
    let ?r = "expire_up b o' (z - 1) (drop_bit 1 x) (drop_bit 1 y) ?e"
    have n: "\<not> z < ?m" "\<not> tile_is_requested (z - excess_zoomlevels) (drop_bit (nat excess_zoomlevels) x) (drop_bit (nat excess_zoomlevels) y) (es_requested es)"
      using 3 by (simp_all add: meta_key_def)
    have "closed_but ?m (seen ?e) {metatile_of (z - 1, drop_bit 1 x, drop_bit 1 y)}"
      using walk_step [OF "1.prems"(3)] s by (simp add: drop_bit_eq_div)
    from "1.IH" [OF n t sm this]
    have "walked ?m ?r" "seen ?r = seen ?e \<union> metatile_of ` set (tiles_above ?m (z - 1, drop_bit 1 x, drop_bit 1 y))"
      by blast+
    moreover have "tiles_above ?m (z, x, y) = (z, x, y) # tiles_above ?m (z - 1, drop_bit 1 x, drop_bit 1 y)"
      using 3(1) by (simp add: tiles_above.simps [of ?m z] drop_bit_eq_div)
    ultimately show ?thesis unfolding e by (simp add: s)
  qed
qed

lemma zoom_out_eq: "zoom_out maxz (z, x, y) = (if z > maxz then at_zoom maxz (z, x, y) else (z, x, y))"
proof (induction maxz "(z, x, y)" arbitrary: z x y rule: zoom_out.induct)
  case (1 maxz z x y)
  have e: "nat (z - maxz) = Suc (nat (z - 1 - maxz))" if "z > maxz" using that by (simp add: Suc_nat_eq_nat_zadd1)
  have "v div 2 div 2 ^ nat (z - 1 - maxz) = v div 2 ^ nat (z - maxz)" if "z > maxz" for v :: int
    using e [OF that] by (simp add: zdiv_zmult2_eq)
  moreover have "z - 1 = maxz \<Longrightarrow> nat (z - maxz) = 1" by simp
  ultimately show ?case
    using 1 by (subst zoom_out.simps) (auto simp: at_zoom_def drop_bit_eq_div)
qed

lemma div_less_mult: "(0 :: int) < d \<Longrightarrow> v < m * d \<Longrightarrow> v div d < m"
proof (rule ccontr)
  assume d: "0 < d" "v < m * d" "\<not> v div d < m"
  then have "m * d \<le> v div d * d" by (simp add: mult_right_mono)
  moreover have "v div d * d \<le> v" using pos_mod_sign [OF d(1), of v] minus_div_mult_eq_mod [of v d] by linarith
  ultimately show False using d(2) by linarith
qed

lemma zoom_in_eq:
  assumes "0 \<le> z" "z \<le> maxz" "maxz \<le> 20" "in_zoom (z, x, y)"
  shows "zoom_in maxz (z, x, y) = at_zoom maxz (z, x, y) \<and> in_zoom (at_zoom maxz (z, x, y))"
  using assms
proof (induction maxz "(z, x, y)" arbitrary: z x y rule: zoom_in.induct)
  case (1 maxz z x y)
  show ?case
  proof (cases "z < maxz")
    case True
    have p: "(2 :: int) ^ nat (z + 1) = 2 * 2 ^ nat z" using 1(2) by (simp add: nat_add_distrib)
    have le: "(2 :: int) ^ nat (z + 1) \<le> 2 ^ 20" using True 1(4) by (intro power_increasing) auto
    have d: "0 \<le> 2 * x" "2 * x < 2 ^ nat (z + 1)" "0 \<le> 2 * y" "2 * y < 2 ^ nat (z + 1)"
      using 1(5) p by (simp_all add: in_zoom_def)
    then have w: "wrap32 (push_bit 1 x) = 2 * x" "wrap32 (push_bit 1 y) = 2 * y"
      using le by (simp_all add: push_bit_eq_mult in_int32_def)
    have v: "in_zoom (z + 1, 2 * x, 2 * y)" using d 1(2) by (simp add: in_zoom_def)
    have e: "nat (maxz - z) = Suc (nat (maxz - (z + 1)))" using True by simp
    then have "at_zoom maxz (z + 1, 2 * x, 2 * y) = at_zoom maxz (z, x, y)" using True by (simp add: at_zoom_def)
    then show ?thesis
      using 1(1) [OF True] True 1(2,4) v w by (simp add: zoom_in.simps [of maxz z])
  next
    case False
    then have "z = maxz" using 1(3) by simp
    then show ?thesis using 1(5) by (simp add: zoom_in.simps [of maxz maxz] at_zoom_def)
  qed
qed

lemma expand_eq:
  assumes "0 \<le> maxz" "maxz \<le> 20" "in_zoom t"
  shows "zoom_in maxz (zoom_out maxz t) = at_zoom maxz t" and "in_zoom (at_zoom maxz t)" and "small (at_zoom maxz t)"
proof -
  obtain z x y where t: "t = (z, x, y)" by (metis prod_cases3)
  have v: "in_zoom (at_zoom maxz t) \<and> zoom_in maxz (zoom_out maxz t) = at_zoom maxz t"
  proof (cases "z > maxz")
    case True
    have "(2 :: int) ^ nat z = 2 ^ nat maxz * 2 ^ nat (z - maxz)"
      using True assms(1) by (simp add: power_add [symmetric] nat_add_distrib [symmetric])
    then have "v div 2 ^ nat (z - maxz) < 2 ^ nat maxz" if "v < 2 ^ nat z" for v :: int
      using that div_less_mult [of "2 ^ nat (z - maxz)" v "2 ^ nat maxz"] by simp
    then have "in_zoom (at_zoom maxz t)" using assms True by (auto simp: t in_zoom_def at_zoom_def pos_imp_zdiv_nonneg_iff)
    moreover obtain x' y' where a: "at_zoom maxz t = (maxz, x', y')" using True by (simp add: t at_zoom_def)
    moreover have "zoom_out maxz t = at_zoom maxz t" using True by (simp add: t zoom_out_eq)
    ultimately show ?thesis by (simp add: zoom_in.simps [of maxz maxz])
  next
    case False
    then show ?thesis using zoom_in_eq [of z maxz x y] assms by (simp add: t zoom_out_eq in_zoom_def)
  qed
  then show "zoom_in maxz (zoom_out maxz t) = at_zoom maxz t" "in_zoom (at_zoom maxz t)" by blast+
  have "fst (at_zoom maxz t) = maxz" by (simp add: t at_zoom_def)
  moreover have "(2 :: int) ^ nat maxz \<le> 2 ^ 20" using assms(2) by (intro power_increasing) auto
  ultimately show "small (at_zoom maxz t)" using v by (auto simp: in_zoom_def small_def)
qed

lemma expire_line_visits:
  assumes "walked (eo_min_zoom o') es" "in_zoom t" "0 \<le> eo_max_zoom o'" "eo_max_zoom o' \<le> 20"
  shows "walked (eo_min_zoom o') (expire_line b o' t es)
    \<and> seen (expire_line b o' t es) = seen es \<union> metatile_of ` set (tiles_above (eo_min_zoom o') (at_zoom (eo_max_zoom o') t))"
proof -
  obtain z x y where a: "at_zoom (eo_max_zoom o') t = (z, x, y)" by (metis prod_cases3)
  let ?es = "es\<lparr>es_num_read := es_num_read es + 1\<rparr>"
  have "table_ok ?es" "seen ?es = seen es" using assms(1) by (simp_all add: walked_def table_ok_def seen_def)
  moreover have "closed_but (eo_min_zoom o') (seen es) P" for P using assms(1) unfolding walked_def closed_but_def by fastforce
  moreover have "small (z, x, y)" using expand_eq(3) [OF assms(3,4,2)] a by simp
  ultimately show ?thesis
    using expire_up_visits [of ?es z x y o' b] by (simp add: expire_line_def expand_eq(1) [OF assms(3,4,2)] a)
qed

lemma expire_fold_visits:
  assumes "\<forall>t\<in>set ts. in_zoom t" "0 \<le> eo_max_zoom o'" "eo_max_zoom o' \<le> 20"
    and "walked (eo_min_zoom o') es"
  shows "walked (eo_min_zoom o') (fold (expire_line b o') ts es)
    \<and> seen (fold (expire_line b o') ts es)
      = seen es \<union> (\<Union>t\<in>set ts. metatile_of ` set (tiles_above (eo_min_zoom o') (at_zoom (eo_max_zoom o') t)))"
  using assms(1,4)
proof (induction ts arbitrary: es)
  case (Cons t ts)
  from expire_line_visits [OF Cons.prems(2) _ assms(2,3), of t b] Cons
  show ?case by (simp add: Un_assoc)
qed simp

text \<open>The settings a tool arrives at have zoom levels within the limits if the options on the command line do.\<close>

lemma find_map_in:
  assumes "find_map name ms = Some m"
  shows "m \<in> set ms"
proof -
  let ?f = "filter (\<lambda>m. xi_xmlname m = name) ms"
  have "?f \<noteq> []" "m = last ?f" using assms by (cases ?f; simp add: find_map_def)+
  then show ?thesis using last_in_set [of ?f] by simp
qed

lemma config_maps_ok:
  assumes "process_config_file io cd active = Some (Inr dc)"
  shows "list_all map_ok (dc_maps dc)"
proof -
  obtain i dir threads where "process_map_sections (Some i) dir threads = Inr (dc_maps dc)"
    using assms by (auto simp: process_config_file_def Let_def split: if_splits option.splits sum.splits)
  then show ?thesis using map_loop_ok by (fastforce simp: process_map_sections_def split: sum.splits if_splits)
qed

lemma tool_zoom_range:
  assumes "tool_setup cd a = Some (Inr ts)" "\<forall>k. ta_max_zoom a = Some k \<longrightarrow> 0 \<le> k \<and> k \<le> MAX_ZOOM"
  shows "0 \<le> ts_max_zoom ts \<and> ts_max_zoom ts \<le> MAX_ZOOM"
proof (cases "ta_config a")
  case None
  then show ?thesis using assms by (auto simp: tool_setup_def or_default_def Let_def MAX_ZOOM_def split: if_splits option.splits)
next
  case (Some io)
  then obtain dc m where c: "process_config_file io cd 0 = Some (Inr dc)" "find_map (ta_mapname a) (dc_maps dc) = Some m"
      and m: "ts_max_zoom ts = or_default (ta_max_zoom a) (xi_max_zoom m)"
    using assms(1) by (auto simp: tool_setup_def Let_def split: if_splits option.splits sum.splits)
  then have "map_ok m" using config_maps_ok find_map_in by (metis list_all_iff)
  then show ?thesis using m assms(2) by (auto simp: map_ok_def or_default_def split: option.splits)
qed

lemma expire_options_range: "excess_zoomlevels \<le> eo_min_zoom (expire_options ts del tch)" "eo_max_zoom (expire_options ts del tch) = ts_max_zoom ts"
  by (simp_all add: expire_options_def Let_def)

lemma expire_start_ok: "walked minz (expire_start st)" "seen (expire_start st) = {}"
  by (simp_all add: expire_start_def walked_def table_ok_def closed_but_def seen_def)

text \<open>
  C19. If the tiles of the input are tiles of their zoom level, the tool looks at every metatile above them, from the
  largest zoom level down to the smallest, and at each of them exactly once: ending a walk at the first metatile seen
  before loses nothing, and no two metatiles share a key of the table.
\<close>

theorem expired_metatiles_visited_once:
  assumes "render_expired cd init a del tch input = Some (Inr es)" "tool_setup cd a = Some (Inr ts)"
    and "\<forall>k. ta_max_zoom a = Some k \<longrightarrow> 0 \<le> k \<and> k \<le> MAX_ZOOM"
    and "\<forall>t\<in>set (read_tiles (Some (CHR ''/'')) input False). in_zoom t"
  shows "distinct (map metatile_of (es_visited es))
    \<and> metatile_of ` set (es_visited es)
      = (\<Union>t\<in>set (read_tiles (Some (CHR ''/'')) input False).
          metatile_of ` set (tiles_above (max (ts_min_zoom ts) 3) (at_zoom (ts_max_zoom ts) t)))
    \<and> es_num_all es = int (length (es_visited es))"
proof -
  obtain b st where es: "es = fold (expire_line b (expire_options ts del tch)) (read_tiles (Some (CHR ''/'')) input False) (expire_start st)"
    using assms(1,2) by (auto simp: render_expired_def split: option.splits)
  have "0 \<le> ts_max_zoom ts" "ts_max_zoom ts \<le> 20" using tool_zoom_range [OF assms(2,3)] by (simp_all add: MAX_ZOOM_def)
  then have f: "walked (max (ts_min_zoom ts) 3) es"
      "seen es = (\<Union>t\<in>set (read_tiles (Some (CHR ''/'')) input False). metatile_of ` set (tiles_above (max (ts_min_zoom ts) 3) (at_zoom (ts_max_zoom ts) t)))"
    using expire_fold_visits [OF assms(4) _ _ expire_start_ok(1), of "expire_options ts del tch" b st]
    by (simp_all add: es expire_options_def Let_def excess_zoomlevels_3 expire_start_ok(2))
  then show ?thesis by (simp add: walked_def table_ok_def seen_def)
qed

section \<open>Every existing metatile is dealt with\<close>

text \<open>What the counters and the calls of \<open>enqueue\<close> say.\<close>

definition expire_balance :: "expire_opts \<Rightarrow> 'st expire_state \<Rightarrow> bool" where
  "expire_balance o' es \<longleftrightarrow>
     es_num_all es = es_num_unlink es + es_num_touch es + es_num_render es + es_num_ignore es
     \<and> es_num_render es = int (length (es_enqueued es))
     \<and> (\<forall>(name, x, y, z)\<in>set (es_enqueued es). name = eo_mapname o' \<and> (z, x, y) \<in> set (es_visited es) \<and> eo_min_zoom o' \<le> z
          \<and> \<not> from_zoom (eo_delete_from o') z \<and> \<not> from_zoom (eo_touch_from o') z)"

text \<open>Without workers every zoom level that is visited is deleted or touched.\<close>

lemma no_render_no_gap:
  assumes "\<not> eo_doRender (expire_options ts del tch)" "eo_min_zoom (expire_options ts del tch) \<le> z"
  shows "from_zoom del z \<or> from_zoom tch z"
  using assms by (auto simp: expire_options_def Let_def from_zoom_def split: option.splits)

lemma expire_tile_balance:
  assumes "o' = expire_options ts del tch" "expire_balance o' es" "eo_min_zoom o' \<le> z"
  shows "expire_balance o' (expire_tile b o' z x y es)"
proof -
  have "eo_delete_from o' = del" "eo_touch_from o' = tch" by (simp_all add: assms(1) expire_options_def Let_def)
  then have "from_zoom (eo_delete_from o') z \<or> from_zoom (eo_touch_from o') z \<or> eo_doRender o'"
    using no_render_no_gap [of ts del tch z] assms(1,3) by auto
  with assms(2,3) show ?thesis
    unfolding expire_balance_def expire_tile_def by (auto simp: Let_def)
qed

lemma expire_up_balance:
  assumes "o' = expire_options ts del tch" "expire_balance o' es"
  shows "expire_balance o' (expire_up b o' z x y es)"
  using assms
proof (induction b o' z x y es rule: expire_up.induct)
  case (1 b o' z x y es)
  then show ?case
    using expire_tile_balance [OF 1(2,3), of z b x y] by (subst expire_up.simps) simp
qed

lemma expire_fold_balance:
  assumes "o' = expire_options ts del tch" "expire_balance o' es"
  shows "expire_balance o' (fold (expire_line b o') tiles es)"
  using assms(2)
proof (induction tiles arbitrary: es)
  case (Cons t tiles)
  have "expire_balance o' (es\<lparr>es_num_read := n\<rparr>)" for n using Cons.prems by (simp add: expire_balance_def)
  then have "expire_balance o' (expire_line b o' t es)"
    using expire_up_balance [OF assms(1), of "es\<lparr>es_num_read := es_num_read es + 1\<rparr>" b]
    by (cases "zoom_in (eo_max_zoom o') (zoom_out (eo_max_zoom o') t)") (auto simp: expire_line_def)
  then show ?case using Cons.IH by simp
qed simp

text \<open>
  Every metatile the tool looks at is deleted, touched, given to the daemon or found missing, and exactly one of
  these: no zoom level falls between the options, also when no workers are started. What is given to the daemon lies
  below the zoom levels to delete or touch.
\<close>

theorem expired_metatiles_accounted:
  assumes "render_expired cd init a del tch input = Some (Inr es)" "tool_setup cd a = Some (Inr ts)"
  shows "es_num_all es = es_num_unlink es + es_num_touch es + es_num_render es + es_num_ignore es
    \<and> es_num_render es = int (length (es_enqueued es))
    \<and> (\<forall>(name, x, y, z)\<in>set (es_enqueued es). name = ta_mapname a \<and> (z, x, y) \<in> set (es_visited es) \<and> max (ts_min_zoom ts) 3 \<le> z
          \<and> \<not> from_zoom del z \<and> \<not> from_zoom tch z)"
proof -
  obtain b st where es: "es = fold (expire_line b (expire_options ts del tch)) (read_tiles (Some (CHR ''/'')) input False) (expire_start st)"
    using assms by (auto simp: render_expired_def split: option.splits)
  have "expire_balance (expire_options ts del tch) (expire_start st)" by (simp add: expire_balance_def expire_start_def)
  then have "expire_balance (expire_options ts del tch) es" unfolding es by (rule expire_fold_balance [OF refl])
  moreover have "ts_mapname ts = ta_mapname a"
    using assms(2) by (auto simp: tool_setup_def Let_def split: if_splits option.splits sum.splits)
  ultimately show ?thesis
    by (simp add: expire_balance_def expire_options_def Let_def excess_zoomlevels_3)
qed

text \<open>A storage that holds every metatile, and two neighbouring tiles of zoom level 13.\<close>

definition full_storage :: "unit storage_backend" where
  "full_storage =
     \<lparr>sb_tile_read = null_tile_read,
      sb_tile_stat = (\<lambda>_ _ _ _ _ _. \<lparr>si_size = 100, si_atime = 0, si_mtime = 0, si_ctime = 0, si_expired = 0\<rparr>),
      sb_metatile_write = null_metatile_write, sb_metatile_delete = null_metatile_delete,
      sb_metatile_expire = null_metatile_expire, sb_tile_storage_id = null_tile_storage_id,
      sb_close_storage = null_close_storage, sb_storage_ctx = (\<lambda>_. True)\<rparr>"

definition sample_defaults :: conf_defaults where
  "sample_defaults =
     \<lparr>cd_pidfile = ''/run/renderd.pid'', cd_socket = ''/run/renderd.sock'', cd_tile_dir = ''/tiles'', cd_fonts_dir = ''/fonts'',
      cd_plugins_dir = ''/plugins'', cd_fonts_recurse = True, cd_processors = 4\<rparr>"

definition sample_args :: tool_args where
  "sample_args =
     \<lparr>ta_config = None, ta_mapname = ''osm'', ta_max_zoom = Some 13, ta_min_zoom = Some 11, ta_num_threads = None,
      ta_socketname = None, ta_tile_dir = None\<rparr>"

definition sample_input :: string where
  "sample_input = ''13/4300/2700 x'' @ [CHR 0x0A] @ ''13/4301/2700'' @ [CHR 0x0A]"

lemma sample_input_tiles: "read_tiles (Some (CHR ''/'')) sample_input False = [(13, 4300, 2700), (13, 4301, 2700)]"
  by code_simp

lemma sample_setup:
  "tool_setup sample_defaults sample_args
    = Some (Inr \<lparr>ts_mapname = ''osm'', ts_max_zoom = 13, ts_min_zoom = 11, ts_num_threads = 1, ts_socketname = ''/run/renderd.sock'', ts_tile_dir = ''/tiles''\<rparr>)"
  by (simp add: tool_setup_def sample_args_def sample_defaults_def or_default_def)

lemma sample_run:
  "\<exists>es. render_expired sample_defaults (\<lambda>_. Some (full_storage, ())) sample_args (Some 13) None sample_input = Some (Inr es)"
  by (simp add: render_expired_def sample_setup)

theorem expired_metatiles_visited_once_witness:
  "\<exists>es. render_expired sample_defaults (\<lambda>_. Some (full_storage, ())) sample_args (Some 13) None sample_input = Some (Inr es)
    \<and> distinct (map metatile_of (es_visited es))
    \<and> metatile_of ` set (es_visited es) = {(13, 537, 337), (12, 268, 168), (11, 134, 84)}"
proof -
  obtain es where es: "render_expired sample_defaults (\<lambda>_. Some (full_storage, ())) sample_args (Some 13) None sample_input = Some (Inr es)"
    using sample_run by blast
  have "(\<Union>t\<in>{(13, 4300, 2700), (13, 4301, 2700)}. metatile_of ` set (tiles_above 11 (at_zoom 13 t))) = {(13, 537, 337), (12, 268, 168), (11, 134, 84)}"
    by (auto simp: at_zoom_def tiles_above.simps metatile_of_def METATILE_def)
  then show ?thesis
    using expired_metatiles_visited_once [OF es sample_setup] es
    by (simp add: sample_input_tiles sample_args_def in_zoom_def MAX_ZOOM_def)
qed

theorem expired_metatiles_accounted_witness:
  "\<exists>es. render_expired sample_defaults (\<lambda>_. Some (full_storage, ())) sample_args (Some 13) None sample_input = Some (Inr es)
    \<and> es_num_all es = es_num_unlink es + es_num_touch es + es_num_render es + es_num_ignore es
    \<and> es_num_render es = int (length (es_enqueued es))"
proof -
  obtain es where es: "render_expired sample_defaults (\<lambda>_. Some (full_storage, ())) sample_args (Some 13) None sample_input = Some (Inr es)"
    using sample_run by blast
  then show ?thesis using expired_metatiles_accounted [OF es sample_setup] by blast
qed

end
