(* ===== verification/Render_List.thy ===== *)
theory Render_List
  imports Render_Expired
begin

text \<open>
  The tool that renders a range or a list of tiles (\<^verbatim>\<open>src/render_list.c\<close>). With \<open>--all\<close> it runs over a
  rectangle of every zoom level in steps of a metatile, otherwise over the tiles of the standard input; what is missing
  or expired, or everything if forced, goes to the queue of the daemon. The rectangle is given by tile numbers or by
  degrees; the projection of a latitude is a parameter here and defined in \<open>Tool_Options\<close>.
\<close>

section \<open>Ranges\<close>

text \<open>The longitude of a point as the number of a column of tiles.\<close>

definition lon2tilex :: "rat \<Rightarrow> int \<Rightarrow> int" where
  "lon2tilex lon z = \<lfloor>dmul (ddiv (dbl (lon + 180)) 360) (2 ^ nat z)\<rfloor>"

record list_args =
  ll_all :: bool
  ll_force :: bool
  ll_min_x :: "int option"
  ll_max_x :: "int option"
  ll_min_y :: "int option"
  ll_max_y :: "int option"
  ll_min_lat :: "rat option"
  ll_min_lon :: "rat option"
  ll_max_lat :: "rat option"
  ll_max_lon :: "rat option"

text \<open>The bounding box counts only if all of its four sides are given: south, west, north, east.\<close>

definition list_bbox :: "list_args \<Rightarrow> (rat \<times> rat \<times> rat \<times> rat) option" where
  "list_bbox a =
     (case (ll_min_lat a, ll_min_lon a, ll_max_lat a, ll_max_lon a) of
        (Some s, Some w, Some n, Some e) \<Rightarrow> Some (s, w, n, e)
      | _ \<Rightarrow> None)"

definition by_numbers :: "list_args \<Rightarrow> bool" where
  "by_numbers a \<longleftrightarrow> ll_min_x a \<noteq> None \<or> ll_min_y a \<noteq> None \<or> ll_max_x a \<noteq> None \<or> ll_max_y a \<noteq> None"

definition reversed :: "int option \<Rightarrow> int option \<Rightarrow> bool" where
  "reversed lo hi = (case (lo, hi) of (Some l, Some h) \<Rightarrow> h < l | _ \<Rightarrow> False)"

text \<open>The checks in front of \<open>--all\<close>: whether the tool refuses the range.\<close>

definition bad_range :: "tool_settings \<Rightarrow> list_args \<Rightarrow> bool" where
  "bad_range ts a =
     (let lz = wrap32 (2 ^ nat (ts_min_zoom ts)) - 1
      in (case list_bbox a of None \<Rightarrow> False | Some (s, w, n, e) \<Rightarrow> by_numbers a \<or> n < s \<or> e < w)
         \<or> (by_numbers a \<and> (ts_min_zoom ts \<noteq> ts_max_zoom ts \<or> reversed (ll_min_x a) (ll_max_x a) \<or> reversed (ll_min_y a) (ll_max_y a)))
         \<or> (ts_min_zoom ts = ts_max_zoom ts
            \<and> (or_default (ll_min_x a) 0 > lz \<or> or_default (ll_min_y a) 0 > lz \<or> or_default (ll_max_x a) lz > lz \<or> or_default (ll_max_y a) lz > lz)))"

text \<open>
  The rectangle of a zoom level: first column and row, last column and row. Only the bounding box is moved to the
  corner of a metatile; C's remainder of a negative number is negative.
\<close>

definition list_range :: "(rat \<Rightarrow> int \<Rightarrow> int) \<Rightarrow> list_args \<Rightarrow> int \<Rightarrow> int \<times> int \<times> int \<times> int" where
  "list_range lat2tiley a z =
     (case list_bbox a of
        None \<Rightarrow>
          (or_default (ll_min_x a) 0, or_default (ll_min_y a) 0, or_default (ll_max_x a) (2 ^ nat z - 1), or_default (ll_max_y a) (2 ^ nat z - 1))
      | Some (s, w, n, e) \<Rightarrow>
          let max_x_tmp = lon2tilex e z; max_y_tmp = lat2tiley s z; min_x_tmp = lon2tilex w z; min_y_tmp = lat2tiley n z
          in (cdiv min_x_tmp METATILE * METATILE, cdiv min_y_tmp METATILE * METATILE,
              min max_x_tmp (2 ^ nat z - 1), min max_y_tmp (2 ^ nat z - 1)))"

section \<open>The loops\<close>

text \<open>\<open>for (x = from; x <= to; x += METATILE)\<close>\<close>

function stride :: "int \<Rightarrow> int \<Rightarrow> int list" where
  "stride from to = (if from \<le> to then from # stride (from + METATILE) to else [])"
  by pat_completeness auto

termination
  by (relation "measure (\<lambda>(from, to). nat (to + 1 - from))") (auto simp: METATILE_def)

declare stride.simps [simp del]

definition range_tiles :: "int \<Rightarrow> int \<times> int \<times> int \<times> int \<Rightarrow> (int \<times> int \<times> int) list" where
  "range_tiles z r = (case r of (x0, y0, x1, y1) \<Rightarrow> concat (map (\<lambda>x. map (\<lambda>y. (x, y, z)) (stride y0 y1)) (stride x0 x1)))"

record list_state =
  lt_seen :: "(int \<times> int \<times> int) list"
  lt_enqueued :: "tile_name list"
  lt_num_render :: int
  lt_num_all :: int

text \<open>Whether a tile is asked for; the storage is only consulted if nothing is forced.\<close>

definition wants_tile :: "'st storage_backend \<Rightarrow> 'st \<Rightarrow> string \<Rightarrow> bool \<Rightarrow> int \<times> int \<times> int \<Rightarrow> bool" where
  "wants_tile b st name force t =
     (case t of (x, y, z) \<Rightarrow>
        force \<or> (let s = sb_tile_stat b st name [] x y z in si_size s < 0 \<or> si_expired s \<noteq> 0))"

definition list_tile :: "'st storage_backend \<Rightarrow> 'st \<Rightarrow> string \<Rightarrow> bool \<Rightarrow> int \<times> int \<times> int \<Rightarrow> list_state \<Rightarrow> list_state" where
  "list_tile b st name force t ls =
     (let ls = ls\<lparr>lt_seen := lt_seen ls @ [t], lt_num_all := lt_num_all ls + 1\<rparr>
      in if wants_tile b st name force t
         then ls\<lparr>lt_enqueued := lt_enqueued ls @ [(name, t)], lt_num_render := lt_num_render ls + 1\<rparr>
         else ls)"

text \<open>The tiles of the run: those of the rectangles, zoom level by zoom level, or those of the input in the range of zoom levels.\<close>

definition list_tiles :: "(rat \<Rightarrow> int \<Rightarrow> int) \<Rightarrow> tool_settings \<Rightarrow> list_args \<Rightarrow> string \<Rightarrow> (int \<times> int \<times> int) list" where
  "list_tiles lat2tiley ts a input =
     (if ll_all a
      then concat (map (\<lambda>z. range_tiles z (list_range lat2tiley a z)) [ts_min_zoom ts..ts_max_zoom ts])
      else filter (\<lambda>(x, y, z). \<not> (z < ts_min_zoom ts \<or> z > ts_max_zoom ts)) (read_tiles None input False))"

definition render_list ::
    "conf_defaults \<Rightarrow> (rat \<Rightarrow> int \<Rightarrow> int) \<Rightarrow> (string \<Rightarrow> ('st storage_backend \<times> 'st) option) \<Rightarrow> tool_args \<Rightarrow> list_args \<Rightarrow> string
      \<Rightarrow> (int + list_state) option" where
  "render_list cd lat2tiley init ta a input =
     (case tool_setup cd ta of
        None \<Rightarrow> None
      | Some (Inl e) \<Rightarrow> Some (Inl e)
      | Some (Inr ts) \<Rightarrow>
          if ll_all a \<and> bad_range ts a then Some (Inl 1)
          else (case init (ts_tile_dir ts) of
                  None \<Rightarrow> Some (Inl 1)
                | Some (b, st) \<Rightarrow>
                    Some (Inr (fold (list_tile b st (ts_mapname ts) (ll_force a)) (list_tiles lat2tiley ts a input)
                      \<lparr>lt_seen = [], lt_enqueued = [], lt_num_render = 0, lt_num_all = 0\<rparr>))))"

section \<open>Which metatiles a range reaches\<close>

lemma stride_set: "x \<in> set (stride from to) \<longleftrightarrow> from \<le> x \<and> x \<le> to \<and> (x - from) mod METATILE = 0"
proof (induction "from" to rule: stride.induct)
  case (1 "from" to)
  have "(x - (from + METATILE)) mod METATILE = (x - from) mod METATILE"
    using minus_mod_self2 [of "x - from" METATILE] by (simp add: algebra_simps)
  moreover have "x = from \<or> from + METATILE \<le> x" if "from \<le> x" "(x - from) mod METATILE = 0"
    using that zdvd_imp_le [of METATILE "x - from"] mod_0_imp_dvd [of "x - from" METATILE] by (cases "x = from") (simp_all add: METATILE_def)
  ultimately show ?case using 1 by (subst stride.simps) (auto simp: METATILE_def)
qed

lemma stride_distinct: "distinct (stride from to)"
proof (induction "from" to rule: stride.induct)
  case (1 "from" to)
  then show ?case by (subst stride.simps) (auto simp: stride_set METATILE_def)
qed

lemma range_tiles_set: "(x, y, k) \<in> set (range_tiles z (x0, y0, x1, y1)) \<longleftrightarrow> k = z \<and> x \<in> set (stride x0 x1) \<and> y \<in> set (stride y0 y1)"
  by (auto simp: range_tiles_def)

lemma range_tiles_distinct: "distinct (range_tiles z r)"
proof -
  obtain x0 y0 x1 y1 where r: "r = (x0, y0, x1, y1)" by (metis prod_cases4)
  have "distinct (concat (map (\<lambda>x. map (\<lambda>y. (x, y, z)) ys) xs))" if "distinct xs" "distinct ys" for xs ys :: "int list"
    using that by (induction xs) (auto simp: distinct_map inj_on_def)
  then show ?thesis by (simp add: r range_tiles_def stride_distinct)
qed

lemma all_tiles_distinct: "distinct zs \<Longrightarrow> distinct (concat (map (\<lambda>z. range_tiles z (f z)) zs))"
proof (induction zs)
  case (Cons z zs)
  have k: "snd (snd t) = z'" if "t \<in> set (range_tiles z' (f z'))" for t z'
    using that by (auto simp: range_tiles_def split: prod.splits)
  have "set (range_tiles z (f z)) \<inter> set (concat (map (\<lambda>z. range_tiles z (f z)) zs)) = {}"
  proof (rule ccontr)
    assume "\<not> ?thesis"
    then obtain t z' where "t \<in> set (range_tiles z (f z))" "z' \<in> set zs" "t \<in> set (range_tiles z' (f z'))" by auto
    then have "z = z'" using k [of t z] k [of t z'] by simp
    then show False using \<open>z' \<in> set zs\<close> Cons.prems by simp
  qed
  with Cons show ?case by (simp add: range_tiles_distinct)
qed simp

lemma list_fold:
  "fold (list_tile b st name force) ts ls =
    ls\<lparr>lt_seen := lt_seen ls @ ts, lt_enqueued := lt_enqueued ls @ map (Pair name) (filter (wants_tile b st name force) ts),
       lt_num_render := lt_num_render ls + int (length (filter (wants_tile b st name force) ts)), lt_num_all := lt_num_all ls + int (length ts)\<rparr>"
  by (induction ts arbitrary: ls) (simp_all add: list_tile_def Let_def)

lemma render_list_result:
  assumes "render_list cd lat init ta a input = Some (Inr ls)" "tool_setup cd ta = Some (Inr ts)"
  obtains b st where "init (ts_tile_dir ts) = Some (b, st)" "lt_seen ls = list_tiles lat ts a input"
    "lt_enqueued ls = map (Pair (ts_mapname ts)) (filter (wants_tile b st (ts_mapname ts) (ll_force a)) (lt_seen ls))"
    "lt_num_all ls = int (length (lt_seen ls))"
  using assms by (auto simp: render_list_def list_fold split: option.splits if_splits)

lemma aligned_start:
  assumes "x0 mod METATILE = 0" "x0 \<le> x" "x \<le> x1"
  shows "x - x mod METATILE \<in> set (stride x0 x1)"
proof -
  have "METATILE dvd x - x mod METATILE" "METATILE dvd x0" using assms(1) by (simp_all add: mod_0_imp_dvd dvd_minus_mod)
  then have d: "METATILE dvd x - x mod METATILE - x0" by (rule dvd_diff)
  have "x - x mod METATILE - x0 > - METATILE" "x mod METATILE \<ge> 0" using assms(2) by (simp_all add: METATILE_def)
  then show ?thesis using d assms(3) by (auto simp: stride_set METATILE_def dvd_def)
qed


definition sample_range :: list_args where
  "sample_range =
     \<lparr>ll_all = True, ll_force = True, ll_min_x = Some 8, ll_max_x = Some 17, ll_min_y = None, ll_max_y = Some 3,
      ll_min_lat = None, ll_min_lon = None, ll_max_lat = None, ll_max_lon = None\<rparr>"

definition sample_list_args :: tool_args where
  "sample_list_args = sample_args\<lparr>ta_max_zoom := Some 5, ta_min_zoom := Some 5\<rparr>"

lemma sample_list_setup:
  "tool_setup sample_defaults sample_list_args
    = Some (Inr \<lparr>ts_mapname = ''osm'', ts_max_zoom = 5, ts_min_zoom = 5, ts_num_threads = 1, ts_socketname = ''/run/renderd.sock'', ts_tile_dir = ''/tiles''\<rparr>)"
  by (simp add: tool_setup_def sample_list_args_def sample_args_def sample_defaults_def or_default_def)

lemma sample_list_run:
  assumes "list_bbox a = None" "ll_max_x a = Some 17" "ll_min_x a = Some m" "m \<le> 17" "ll_min_y a = None" "ll_max_y a = Some 3"
  shows "\<exists>ls. render_list sample_defaults (\<lambda>_ _. 0) (\<lambda>_. Some (full_storage, ())) sample_list_args a [] = Some (Inr ls)"
  using assms by (simp add: render_list_def sample_list_setup bad_range_def by_numbers_def reversed_def or_default_def wrap32_def)


text \<open>
  A start that is not the corner of a metatile is not moved there: when the last column lies further left in
  its metatile than the first column in its own, no tile of the last metatile is ever looked at.
\<close>

theorem unaligned_range_misses_metatile:
  assumes "render_list cd lat init ta a input = Some (Inr ls)" "tool_setup cd ta = Some (Inr ts)" "ll_all a"
    and "ll_min_x a = Some m" "ll_max_x a = Some M" "M mod METATILE < m mod METATILE" "list_bbox a = None"
  shows "\<forall>(x, y, z)\<in>set (lt_seen ls). x div METATILE \<noteq> M div METATILE"
proof -
  obtain b st where "lt_seen ls = list_tiles lat ts a input" using assms(1,2) by (rule render_list_result)
  then have seen: "lt_seen ls = concat (map (\<lambda>z. range_tiles z (list_range lat a z)) [ts_min_zoom ts..ts_max_zoom ts])"
    using assms(3) by (simp add: list_tiles_def)
  have "x div METATILE \<noteq> M div METATILE" if "x \<in> set (stride m M)" for x
  proof
    assume e: "x div METATILE = M div METATILE"
    have "x mod METATILE = m mod METATILE" "x \<le> M" using that by (simp_all add: stride_set mod_eq_dvd_iff mod_0_imp_dvd dvd_imp_mod_0)
    then show False using e assms(6) div_mult_mod_eq [of x METATILE] div_mult_mod_eq [of M METATILE] by (metis add_le_cancel_left not_less)
  qed
  then show ?thesis using assms(4,5,7) by (auto simp: seen list_range_def or_default_def range_tiles_set)
qed

theorem unaligned_range_misses_metatile_witness:
  "\<exists>ls. render_list sample_defaults (\<lambda>_ _. 0) (\<lambda>_. Some (full_storage, ())) sample_list_args (sample_range\<lparr>ll_min_x := Some 5\<rparr>) [] = Some (Inr ls)
    \<and> (\<forall>(x, y, z)\<in>set (lt_seen ls). x div METATILE \<noteq> 2)"
proof -
  obtain ls where ls: "render_list sample_defaults (\<lambda>_ _. 0) (\<lambda>_. Some (full_storage, ())) sample_list_args (sample_range\<lparr>ll_min_x := Some 5\<rparr>) [] = Some (Inr ls)"
    using sample_list_run [of "sample_range\<lparr>ll_min_x := Some 5\<rparr>" 5] by (auto simp: sample_range_def list_bbox_def)
  have "\<forall>(x, y, z)\<in>set (lt_seen ls). x div METATILE \<noteq> 17 div METATILE"
    by (rule unaligned_range_misses_metatile [OF ls sample_list_setup, where m = 5])
      (simp_all add: sample_range_def METATILE_def list_bbox_def)
  then show ?thesis using ls by (simp add: METATILE_def)
qed

end
