(* ===== verification/Render_Old.thy ===== *)
theory Render_Old
  imports Render_Expired
begin

text \<open>
  The tool that renders tiles older than the data (\<^verbatim>\<open>src/render_old.c\<close>): it walks the directories of a map's zoom
  levels and gives every metatile file older than the planet's import to the queue of the daemon. The file system
  is given by what \<open>readdir\<close> and \<open>stat\<close> return for a path; it does not change during the walk. Pauses for the load
  are left out.
\<close>

section \<open>The walk\<close>

text \<open>The entries of a directory (\<open>None\<close>: it cannot be opened); whether a path is a directory, and its time.\<close>

record old_fs =
  of_readdir :: "string \<Rightarrow> string list option"
  of_stat :: "string \<Rightarrow> (bool \<times> int) option"

text \<open>
  The local variables that \<open>path_to_xyz\<close> fills; \<open>None\<close> is a variable that was never assigned. They keep their values
  from one entry to the next.
\<close>

record old_vars =
  ov_mapname :: "string option"
  ov_x :: "int option"
  ov_y :: "int option"
  ov_z :: "int option"

record old_state =
  os_enqueued :: "old_vars list"
  os_num_render :: int
  os_num_all :: int

definition no_vars :: old_vars where
  "no_vars = \<lparr>ov_mapname = None, ov_x = None, ov_y = None, ov_z = None\<rparr>"

definition newer :: "'a option \<Rightarrow> 'a option \<Rightarrow> 'a option" where
  "newer n old = (case n of None \<Rightarrow> old | Some v \<Rightarrow> Some v)"

text \<open>The result of \<open>path_to_xyz\<close> is not looked at.\<close>

definition take_path :: "string \<Rightarrow> string \<Rightarrow> old_vars \<Rightarrow> old_vars" where
  "take_path tile_dir path v =
     (let r = path_to_xyz tile_dir path
      in \<lparr>ov_mapname = newer (pt_xmlconfig r) (ov_mapname v), ov_x = newer (pt_x r) (ov_x v), ov_y = newer (pt_y r) (ov_y v),
          ov_z = newer (pt_z r) (ov_z v)\<rparr>)"

definition is_meta :: "string \<Rightarrow> bool" where
  "is_meta path = (case strrchr path (CHR ''.'') of None \<Rightarrow> False | Some (_, ext) \<Rightarrow> ext = ''meta'')"

definition old_file :: "string \<Rightarrow> int \<Rightarrow> string \<Rightarrow> int \<Rightarrow> old_vars \<Rightarrow> old_state \<Rightarrow> old_vars \<times> old_state" where
  "old_file tile_dir planet_timestamp path mtime v st =
     (if \<not> is_meta path then (v, st)
      else if planet_timestamp > mtime
      then let v' = take_path tile_dir path v
           in (v', st\<lparr>os_enqueued := os_enqueued st @ [v'], os_num_render := os_num_render st + 1, os_num_all := os_num_all st + 1\<rparr>)
      else (v, st\<lparr>os_num_all := os_num_all st + 1\<rparr>))"

definition child :: "string \<Rightarrow> string \<Rightarrow> string" where
  "child search e = snprintf PATH_MAX (search @ ''/'' @ e)"

text \<open>
  The recursion over directories follows links, so it need not end; the first argument bounds its depth and \<open>None\<close>
  says that the bound was reached.
\<close>

fun descend :: "nat \<Rightarrow> old_fs \<Rightarrow> string \<Rightarrow> int \<Rightarrow> string \<Rightarrow> old_state \<Rightarrow> old_state option"
  and entries :: "nat \<Rightarrow> old_fs \<Rightarrow> string \<Rightarrow> int \<Rightarrow> string \<Rightarrow> string list \<Rightarrow> old_vars \<Rightarrow> old_state \<Rightarrow> old_state option" where
  "descend 0 fs tile_dir pt search st = None"
| "descend (Suc n) fs tile_dir pt search st =
     (case of_readdir fs search of None \<Rightarrow> Some st | Some es \<Rightarrow> entries n fs tile_dir pt search es no_vars st)"
| "entries n fs tile_dir pt search [] v st = Some st"
| "entries n fs tile_dir pt search (e # es) v st =
     (if e = ''.'' \<or> e = ''..'' then entries n fs tile_dir pt search es v st
      else let path = child search e
           in case of_stat fs path of
                None \<Rightarrow> entries n fs tile_dir pt search es v st
              | Some (True, _) \<Rightarrow>
                  (case descend n fs tile_dir pt path st of None \<Rightarrow> None | Some st' \<Rightarrow> entries n fs tile_dir pt search es v st')
              | Some (False, mtime) \<Rightarrow>
                  (case old_file tile_dir pt path mtime v st of (v', st') \<Rightarrow> entries n fs tile_dir pt search es v' st'))"

section \<open>Layers\<close>

fun layer_zooms :: "nat \<Rightarrow> old_fs \<Rightarrow> string \<Rightarrow> string \<Rightarrow> int \<Rightarrow> int list \<Rightarrow> old_state \<Rightarrow> old_state option" where
  "layer_zooms n fs tile_dir mapname pt [] st = Some st"
| "layer_zooms n fs tile_dir mapname pt (z # zs) st =
     (case descend n fs tile_dir pt (snprintf PATH_MAX (tile_dir @ ''/'' @ mapname @ ''/'' @ show_int z)) st of
        None \<Rightarrow> None
      | Some st' \<Rightarrow> layer_zooms n fs tile_dir mapname pt zs st')"

definition render_layer :: "nat \<Rightarrow> old_fs \<Rightarrow> string \<Rightarrow> string \<Rightarrow> int \<Rightarrow> int \<Rightarrow> int \<Rightarrow> old_state \<Rightarrow> old_state option" where
  "render_layer n fs tile_dir mapname min_zoom max_zoom pt st = layer_zooms n fs tile_dir mapname pt [min_zoom..max_zoom] st"

text \<open>The loop over the maps of the file; with a name only that map.\<close>

fun old_maps :: "nat \<Rightarrow> old_fs \<Rightarrow> tool_args \<Rightarrow> bool \<Rightarrow> int \<Rightarrow> xmlconfigitem list \<Rightarrow> old_state \<Rightarrow> old_state option" where
  "old_maps n fs a named pt [] st = Some st"
| "old_maps n fs a named pt (m # ms) st =
     (if named \<and> xi_xmlname m \<noteq> ta_mapname a then old_maps n fs a named pt ms st
      else case render_layer n fs (or_default (ta_tile_dir a) (take PATH_MAX (xi_tile_dir m))) (xi_xmlname m)
                  (or_default (ta_min_zoom a) (xi_min_zoom m)) (or_default (ta_max_zoom a) (xi_max_zoom m)) pt st of
             None \<Rightarrow> None
           | Some st' \<Rightarrow> old_maps n fs a named pt ms st')"

text \<open>
  The tool: here the file is always read and the name of a map is optional. A time of zero means that none
  was given; the time of the planet is then that of the directory and the map of the command line or the default.
  The outer \<open>None\<close> is the reader of the file leaving its table, the inner one the bound on the depth.
\<close>

definition render_old ::
    "nat \<Rightarrow> conf_defaults \<Rightarrow> (string \<Rightarrow> int option) \<Rightarrow> int \<Rightarrow> old_fs \<Rightarrow> ini option \<Rightarrow> tool_args \<Rightarrow> bool \<Rightarrow> int
      \<Rightarrow> (int + old_state option) option" where
  "render_old n cd stat now fs io a named timestamp =
     (if or_default (ta_max_zoom a) MAX_ZOOM < or_default (ta_min_zoom a) 0 then Some (Inl 1)
      else case process_config_file io cd 0 of
             None \<Rightarrow> None
           | Some (Inl e) \<Rightarrow> Some (Inl e)
           | Some (Inr dc) \<Rightarrow>
               if named \<and> find_map (ta_mapname a) (dc_maps dc) = None then Some (Inl 1)
               else let pt = (if timestamp = 0
                              then get_planet_time stat now (or_default (ta_tile_dir a) (cd_tile_dir cd)) (Some (ta_mapname a))
                              else timestamp)
                    in Some (Inr (old_maps n fs a named pt (dc_maps dc) \<lparr>os_enqueued = [], os_num_render = 0, os_num_all = 0\<rparr>)))"

section \<open>What the walk finds\<close>

text \<open>A file reached from a directory, with its time.\<close>

inductive below :: "old_fs \<Rightarrow> string \<Rightarrow> string \<Rightarrow> int \<Rightarrow> bool" for fs where
  below_file: "of_readdir fs d = Some es \<Longrightarrow> e \<in> set es \<Longrightarrow> e \<noteq> ''.'' \<Longrightarrow> e \<noteq> ''..''
    \<Longrightarrow> of_stat fs (child d e) = Some (False, t) \<Longrightarrow> below fs d (child d e) t"
| below_dir: "of_readdir fs d = Some es \<Longrightarrow> e \<in> set es \<Longrightarrow> e \<noteq> ''.'' \<Longrightarrow> e \<noteq> ''..''
    \<Longrightarrow> of_stat fs (child d e) = Some (True, u) \<Longrightarrow> below fs (child d e) p t
    \<Longrightarrow> below fs d p t"

text \<open>The cases of an entry.\<close>

lemma entries_cases:
  obtains (skipped) "e = ''.'' \<or> e = ''..'' \<or> of_stat fs (child d e) = None"
      "\<And>n td pt es v st. entries n fs td pt d (e # es) v st = entries n fs td pt d es v st"
  | (directory) u where "e \<noteq> ''.''" "e \<noteq> ''..''" "of_stat fs (child d e) = Some (True, u)"
      "\<And>n td pt es v st. entries n fs td pt d (e # es) v st =
        (case descend n fs td pt (child d e) st of None \<Rightarrow> None | Some st' \<Rightarrow> entries n fs td pt d es v st')"
  | (regular) t where "e \<noteq> ''.''" "e \<noteq> ''..''" "of_stat fs (child d e) = Some (False, t)"
      "\<And>n td pt es v st. entries n fs td pt d (e # es) v st =
        (case old_file td pt (child d e) t v st of (v', st') \<Rightarrow> entries n fs td pt d es v' st')"
proof (cases "e = ''.'' \<or> e = ''..''")
  case True
  then show ?thesis by (intro that(1)) (auto simp: Let_def)
next
  case False
  show ?thesis
  proof (cases "of_stat fs (child d e)")
    case None
    then show ?thesis using False by (intro that(1)) (auto simp: Let_def)
  next
    case (Some p)
    obtain dir u where p: "p = (dir, u)" by fastforce
    show ?thesis
    proof (cases dir)
      case True
      then show ?thesis using False Some p by (intro that(2)) (auto simp: Let_def)
    next
      case dir: False
      then show ?thesis using False Some p by (intro that(3)) (auto simp: Let_def)
    qed
  qed
qed

declare entries.simps(2) [simp del]

text \<open>Calls of \<open>enqueue\<close> are only added.\<close>

definition grows :: "old_state \<Rightarrow> old_state \<Rightarrow> bool" where
  "grows st st' \<longleftrightarrow> set (os_enqueued st) \<subseteq> set (os_enqueued st')"

lemma grows_refl [simp]: "grows st st" and grows_trans: "grows a b \<Longrightarrow> grows b c \<Longrightarrow> grows a c"
  by (auto simp: grows_def)

lemma old_file_grows: "old_file td pt path m v st = (v', st') \<Longrightarrow> grows st st'"
  by (auto simp: old_file_def grows_def Let_def split: if_splits)

lemma entries_grows:
  assumes "\<And>d st st'. descend n fs td pt d st = Some st' \<Longrightarrow> grows st st'" "entries n fs td pt d es v st = Some st'"
  shows "grows st st'"
  using assms(2)
proof (induction es arbitrary: v st)
  case (Cons e es)
  show ?case
  proof (cases rule: entries_cases [of e fs d])
    case skipped
    then show ?thesis using Cons by simp
  next
    case (directory u)
    then obtain st1 where "descend n fs td pt (child d e) st = Some st1" "entries n fs td pt d es v st1 = Some st'"
      using Cons.prems by (cases "descend n fs td pt (child d e) st") simp_all
    then show ?thesis using Cons.IH assms(1) grows_trans by blast
  next
    case (regular t)
    obtain v1 st1 where f: "old_file td pt (child d e) t v st = (v1, st1)" by fastforce
    then have "entries n fs td pt d es v1 st1 = Some st'" using regular Cons.prems by simp
    then show ?thesis using Cons.IH old_file_grows [OF f] grows_trans by blast
  qed
qed simp

lemma descend_grows: "descend n fs td pt d st = Some st' \<Longrightarrow> grows st st'"
proof (induction n arbitrary: d st st')
  case (Suc n)
  then show ?case using entries_grows [of n fs td pt] by (auto split: option.splits)
qed simp

lemma entries_reach:
  assumes "entries n fs td pt d es v st = Some st'" "e \<in> set es" "e \<noteq> ''.''" "e \<noteq> ''..''"
    and "of_stat fs (child d e) = Some (dir, u)"
  shows "\<exists>v1 st1 v2 st2. grows st2 st' \<and>
    (if dir then descend n fs td pt (child d e) st1 = Some st2
     else old_file td pt (child d e) u v1 st1 = (v2, st2))"
  using assms(1,2)
proof (induction es arbitrary: v st)
  case (Cons f es)
  have g: "grows a st'" if "entries n fs td pt d es w a = Some st'" for w a
    using that descend_grows by (rule entries_grows [rotated])
  show ?case
  proof (cases rule: entries_cases [of f fs d])
    case skipped
    then have "f \<noteq> e" using assms(3-5) by auto
    then show ?thesis using Cons skipped by simp
  next
    case (directory w)
    then obtain st1 where s1: "descend n fs td pt (child d f) st = Some st1" "entries n fs td pt d es v st1 = Some st'"
      using Cons.prems by (cases "descend n fs td pt (child d f) st") simp_all
    then show ?thesis
      using Cons g [OF s1(2)] directory assms(5) by (cases "f = e") auto
  next
    case (regular w)
    obtain v1 st1 where f: "old_file td pt (child d f) w v st = (v1, st1)" by fastforce
    then have s1: "entries n fs td pt d es v1 st1 = Some st'" using regular Cons.prems by simp
    then show ?thesis
      using Cons g [OF s1] f regular assms(5) by (cases "f = e") auto
  qed
qed simp

lemma descend_finds:
  assumes "below fs d p t" "descend n fs td pt d st = Some st'" "is_meta p" "t < pt"
    and "path_to_xyz td p = \<lparr>pt_ret = r, pt_xmlconfig = Some name, pt_x = Some x, pt_y = Some y, pt_z = Some z\<rparr>"
  shows "\<lparr>ov_mapname = Some name, ov_x = Some x, ov_y = Some y, ov_z = Some z\<rparr> \<in> set (os_enqueued st')"
  using assms
proof (induction arbitrary: n st st' rule: below.induct)
  case (below_file d es e t)
  then obtain m where "entries m fs td pt d es no_vars st = Some st'" by (cases n) simp_all
  from entries_reach [OF this below_file(2-5)]
  obtain v1 st1 v2 st2 where "grows st2 st'" "old_file td pt (child d e) t v1 st1 = (v2, st2)" by auto
  then show ?case using below_file by (auto simp: old_file_def take_path_def newer_def grows_def Let_def)
next
  case (below_dir d es e u p t)
  then obtain m where "entries m fs td pt d es no_vars st = Some st'" by (cases n) simp_all
  from entries_reach [OF this below_dir(2-5)]
  obtain st1 st2 where "grows st2 st'" "descend m fs td pt (child d e) st1 = Some st2" by auto
  then show ?case using below_dir by (auto simp: grows_def)
qed

text \<open>The walk ends when no directory has a path that fills the buffer.\<close>

lemma descend_ends:
  assumes "\<forall>p u. of_stat fs p = Some (True, u) \<longrightarrow> length p < PATH_MAX - 1" "0 < n" "PATH_MAX \<le> n + length d"
  shows "\<exists>st'. descend n fs td pt d st = Some st'"
  using assms(2,3)
proof (induction n arbitrary: d st)
  case (Suc n)
  have "\<exists>st'. entries n fs td pt d es v st = Some st'" for es v st
  proof (induction es arbitrary: v st)
    case (Cons e es)
    show ?case
    proof (cases rule: entries_cases [of e fs d])
      case (directory u)
      let ?p = "child d e"
      have "length ?p < PATH_MAX - 1" using assms(1) directory by blast
      then have "length d < length ?p" by (simp add: child_def snprintf_def)
      then have "0 < n" "PATH_MAX \<le> n + length ?p" using Suc.prems \<open>length ?p < PATH_MAX - 1\<close> by linarith+
      then obtain st1 where "descend n fs td pt ?p st = Some st1" using Suc.IH by blast
      then show ?thesis using directory Cons by simp
    qed (use Cons in \<open>simp_all split: prod.splits\<close>)
  qed simp
  then show ?case by (simp split: option.splits)
qed simp

lemma is_meta_path: "is_meta (meta_path td name opts x y z)"
proof -
  have "is_meta (p @ ''.meta'')" for p
    by (simp add: is_meta_def strrchr_def)
  from this [of "td @ ''/'' @ name @ concat (map (\<lambda>v. CHR ''/'' # show_int v) (z # rev (xy_hash 5 (x AND NOT (METATILE - 1)) (y AND NOT (METATILE - 1)))))"]
    this [of "td @ ''/'' @ name @ concat (map (\<lambda>v. CHR ''/'' # show_int v) (z # rev (xy_hash 5 (x AND NOT (METATILE - 1)) (y AND NOT (METATILE - 1))))) @ ''.'' @ opts"]
  show ?thesis by (simp add: meta_path_def leaf_of_def)
qed

text \<open>
  C35. If no directory has a path that fills the buffer, the walk over a zoom level ends, and every metatile file below it
  that is older than the planet's import is given to the daemon: with its map, its zoom level and the corner of
  the metatile. So rendering old tiles finds what the file storage has written.
\<close>

theorem old_metatiles_are_queued:
  assumes "\<forall>p u. of_stat fs p = Some (True, u) \<longrightarrow> length p < PATH_MAX - 1"
  shows "\<exists>st'. descend PATH_MAX fs td pt search st = Some st'
    \<and> (\<forall>name opts x y z t. below fs search (meta_path td name opts x y z) t \<and> t < pt
          \<and> \<not> check_xyz x y z \<and> name \<noteq> [] \<and> length name \<le> XMLNAME_MAX \<and> CHR ''/'' \<notin> set name
          \<and> length (meta_path td name opts x y z) < PATH_MAX
        \<longrightarrow> \<lparr>ov_mapname = Some name, ov_x = Some (x - x mod METATILE), ov_y = Some (y - y mod METATILE), ov_z = Some z\<rparr>
              \<in> set (os_enqueued st'))"
proof -
  obtain st' where st': "descend PATH_MAX fs td pt search st = Some st'"
    using descend_ends [OF assms, of PATH_MAX search td pt st] by (auto simp: PATH_MAX_def)
  have "\<lparr>ov_mapname = Some name, ov_x = Some (x - x mod METATILE), ov_y = Some (y - y mod METATILE), ov_z = Some z\<rparr> \<in> set (os_enqueued st')"
    if b: "below fs search (meta_path td name opts x y z) t" "t < pt" and v: "\<not> check_xyz x y z" "name \<noteq> []" "length name \<le> XMLNAME_MAX" "CHR ''/'' \<notin> set name"
      and l: "length (meta_path td name opts x y z) < PATH_MAX" for name opts x y z t
  proof -
    have "fst (xyzo_to_meta PATH_MAX td name opts x y z) = meta_path td name opts x y z"
      using l by (simp add: xyzo_to_meta_path snprintf_def)
    then have "path_to_xyz td (meta_path td name opts x y z) =
        \<lparr>pt_ret = 0, pt_xmlconfig = Some name, pt_x = Some (x - x mod METATILE), pt_y = Some (y - y mod METATILE), pt_z = Some z\<rparr>"
      using path_roundtrip_lemma [OF v l] by simp
    from descend_finds [OF b(1) st' is_meta_path b(2) this] show ?thesis .
  qed
  then show ?thesis using st' by blast
qed

text \<open>One metatile of zoom level 3 in the directories of its path.\<close>

definition old_tree :: old_fs where
  "old_tree =
     \<lparr>of_readdir = [''/t/osm/3'' \<mapsto> [''.'', ''..'', ''0''], ''/t/osm/3/0'' \<mapsto> [''0''], ''/t/osm/3/0/0'' \<mapsto> [''0''],
        ''/t/osm/3/0/0/0'' \<mapsto> [''0''], ''/t/osm/3/0/0/0/0'' \<mapsto> [''0.meta'']],
      of_stat = [''/t/osm/3/0'' \<mapsto> (True, 0), ''/t/osm/3/0/0'' \<mapsto> (True, 0), ''/t/osm/3/0/0/0'' \<mapsto> (True, 0),
        ''/t/osm/3/0/0/0/0'' \<mapsto> (True, 0), ''/t/osm/3/0/0/0/0/0.meta'' \<mapsto> (False, 5)]\<rparr>"

lemma old_tree_below: "below old_tree ''/t/osm/3'' ''/t/osm/3/0/0/0/0/0.meta'' 5"
proof -
  have c: "child d e = d @ ''/'' @ e" if "length d + length e < 100" for d e using that by (simp add: child_def snprintf_def PATH_MAX_def)
  have "below old_tree ''/t/osm/3/0/0/0/0'' ''/t/osm/3/0/0/0/0/0.meta'' 5"
    using below_file [of old_tree "''/t/osm/3/0/0/0/0''" "[''0.meta'']" "''0.meta''" 5] by (simp add: old_tree_def c)
  then have "below old_tree ''/t/osm/3/0/0/0'' ''/t/osm/3/0/0/0/0/0.meta'' 5"
    using below_dir [of old_tree "''/t/osm/3/0/0/0''" "[''0'']" "''0''" 0] by (simp add: old_tree_def c)
  then have "below old_tree ''/t/osm/3/0/0'' ''/t/osm/3/0/0/0/0/0.meta'' 5"
    using below_dir [of old_tree "''/t/osm/3/0/0''" "[''0'']" "''0''" 0] by (simp add: old_tree_def c)
  then have "below old_tree ''/t/osm/3/0'' ''/t/osm/3/0/0/0/0/0.meta'' 5"
    using below_dir [of old_tree "''/t/osm/3/0''" "[''0'']" "''0''" 0] by (simp add: old_tree_def c)
  then show ?thesis
    using below_dir [of old_tree "''/t/osm/3''" "[''.'', ''..'', ''0'']" "''0''" 0] by (simp add: old_tree_def c)
qed

theorem old_metatiles_are_queued_witness:
  "\<exists>st'. descend PATH_MAX old_tree ''/t'' 9 ''/t/osm/3'' \<lparr>os_enqueued = [], os_num_render = 0, os_num_all = 0\<rparr> = Some st'
    \<and> \<lparr>ov_mapname = Some ''osm'', ov_x = Some 0, ov_y = Some 0, ov_z = Some 3\<rparr> \<in> set (os_enqueued st')"
proof -
  have "\<forall>p u. of_stat old_tree p = Some (True, u) \<longrightarrow> length p < PATH_MAX - 1"
    by (auto simp: old_tree_def PATH_MAX_def split: if_splits)
  note w = old_metatiles_are_queued [OF this, of "''/t''" 9 "''/t/osm/3''" "\<lparr>os_enqueued = [], os_num_render = 0, os_num_all = 0\<rparr>"]
  have p: "meta_path ''/t'' ''osm'' [] 5 2 3 = ''/t/osm/3/0/0/0/0/0.meta''" by code_simp
  obtain st' where st': "descend PATH_MAX old_tree ''/t'' 9 ''/t/osm/3'' \<lparr>os_enqueued = [], os_num_render = 0, os_num_all = 0\<rparr> = Some st'"
      and q: "below old_tree ''/t/osm/3'' (meta_path ''/t'' ''osm'' [] 5 2 3) 5 \<and> (5 :: int) < 9 \<and> \<not> check_xyz 5 2 3 \<and> ''osm'' \<noteq> []
        \<and> length ''osm'' \<le> XMLNAME_MAX \<and> CHR ''/'' \<notin> set ''osm'' \<and> length (meta_path ''/t'' ''osm'' [] 5 2 3) < PATH_MAX
        \<longrightarrow> \<lparr>ov_mapname = Some ''osm'', ov_x = Some (5 - 5 mod METATILE), ov_y = Some (2 - 2 mod METATILE), ov_z = Some 3\<rparr> \<in> set (os_enqueued st')"
    using w by blast
  have "\<lparr>ov_mapname = Some ''osm'', ov_x = Some 0, ov_y = Some 0, ov_z = Some 3\<rparr> \<in> set (os_enqueued st')"
    using q old_tree_below by (simp add: p check_xyz_def MAX_ZOOM_def XMLNAME_MAX_def PATH_MAX_def METATILE_def)
  then show ?thesis using st' by blast
qed

end
