(* ===== verification/Store_Object.thy ===== *)
theory Store_Object
  imports Store
begin

text \<open>
  The storages in a memcached server (\<^verbatim>\<open>src/store_memcached.c\<close>) and in a Ceph object store
  (\<^verbatim>\<open>src/store_rados.c\<close>). Both keep a metatile as one object, a \<open>struct stat_info\<close> in front of the metatile
  file's bytes. The client libraries are parameters: records of the calls the sources make, over a state \<open>'m\<close> of the
  servers. Reading outside of an object's bytes is the result \<open>None\<close>.
\<close>

section \<open>Objects\<close>

definition le64 :: "int \<Rightarrow> byte list" where
  "le64 i = le32 i @ le32 (i div 4294967296)"

definition rd64 :: "byte list \<Rightarrow> int" where
  "rd64 bs = rd32 bs mod 4294967296 + 4294967296 * rd32 (drop 4 bs)"

text \<open>The structure in memory; the last four bytes are padding.\<close>

definition sizeof_stat_info :: nat where
  "sizeof_stat_info = 40"

definition stat_bytes :: "byte list \<Rightarrow> stat_info \<Rightarrow> byte list" where
  "stat_bytes pad s = le64 (si_size s) @ le64 (si_atime s) @ le64 (si_mtime s) @ le64 (si_ctime s) @ le32 (si_expired s) @ pad"

definition bytes_stat :: "byte list \<Rightarrow> stat_info" where
  "bytes_stat bs =
     \<lparr>si_size = rd64 bs, si_atime = rd64 (drop 8 bs), si_mtime = rd64 (drop 16 bs), si_ctime = rd64 (drop 24 bs), si_expired = rd32 (drop 32 bs)\<rparr>"

definition no_stat :: stat_info where
  "no_stat = \<lparr>si_size = -1, si_atime = 0, si_mtime = 0, si_ctime = 0, si_expired = 0\<rparr>"

text \<open>A new object: size and times, not expired, and the metatile.\<close>

definition new_object :: "byte list \<Rightarrow> int \<Rightarrow> byte list \<Rightarrow> byte list" where
  "new_object pad now buf =
     stat_bytes pad \<lparr>si_size = int (length buf), si_atime = now, si_mtime = now, si_ctime = now, si_expired = 0\<rparr> @ buf"

text \<open>
  The checks of a metatile's header: the return value and the flag \<open>compressed\<close>, if it was set, or the flag
  and the entry of the tile.
\<close>

definition meta_lookup :: "byte list \<Rightarrow> nat \<Rightarrow> (int \<times> int option) + (int \<times> entry)" where
  "meta_lookup hdr off =
     (if take 4 hdr \<noteq> META_MAGIC \<and> take 4 hdr \<noteq> META_MAGIC_COMPRESSED then Inl (-4, None)
      else let c = (if take 4 hdr = META_MAGIC then 0 else 1)
           in if ml_count (bytes_layout hdr) \<noteq> int META_COUNT then Inl (-5, Some c) else Inr (c, bytes_entry hdr off))"

section \<open>Memcached\<close>

record 'm memcached_ops =
  mc_get :: "'m \<Rightarrow> string \<Rightarrow> byte list option"
  mc_set :: "'m \<Rightarrow> string \<Rightarrow> byte list \<Rightarrow> bool \<times> 'm"
  mc_replace :: "'m \<Rightarrow> string \<Rightarrow> byte list \<Rightarrow> bool \<times> 'm"
  mc_delete :: "'m \<Rightarrow> string \<Rightarrow> bool \<times> 'm"
  mc_malloc :: bool
  mc_now :: int
  mc_pad :: "byte list"

definition memcached_xyzo_to_storagekey :: "string \<Rightarrow> string \<Rightarrow> int \<Rightarrow> int \<Rightarrow> int \<Rightarrow> string" where
  "memcached_xyzo_to_storagekey xmlconfig options x y z =
     (let x = x AND NOT (METATILE - 1); y = y AND NOT (METATILE - 1);
          stem = xmlconfig @ ''/'' @ show_int x @ ''/'' @ show_int y @ ''/'' @ show_int z
      in snprintf (PATH_MAX - 1) (if options \<noteq> [] then stem @ ''.'' @ options @ ''.meta'' else stem @ ''.meta''))"

definition memcached_xyz_to_storagekey :: "string \<Rightarrow> int \<Rightarrow> int \<Rightarrow> int \<Rightarrow> string" where
  "memcached_xyz_to_storagekey xmlconfig x y z = memcached_xyzo_to_storagekey xmlconfig [] x y z"

definition memcached_tile_read :: "'m memcached_ops \<Rightarrow> 'm \<Rightarrow> string \<Rightarrow> string \<Rightarrow> int \<Rightarrow> int \<Rightarrow> int \<Rightarrow> nat \<Rightarrow> read_result option" where
  "memcached_tile_read ops m xmlconfig options x y z sz =
     (if \<not> mc_malloc ops then Some (read_error (-1))
      else case mc_get ops m (memcached_xyzo_to_storagekey xmlconfig options x y z) of
             None \<Rightarrow> Some (read_error (-1))
           | Some raw \<Rightarrow>
               if length raw < sizeof_stat_info + header_size then None
               else (case meta_lookup (take header_size (drop sizeof_stat_info raw)) (meta_offset x y) of
                       Inl (r, c) \<Rightarrow> Some ((read_error r)\<lparr>rr_compressed := c\<rparr>)
                     | Inr (c, en) \<Rightarrow>
                         let off = nat ((en_offset en + int sizeof_stat_info) mod 2 ^ 64); n = nat (en_size en mod 2 ^ 64)
                         in if n > sz then Some ((read_error (-6))\<lparr>rr_compressed := Some c\<rparr>)
                            else if length raw < off + n then None
                            else Some \<lparr>rr_ret = int n, rr_buf = take n (drop off raw), rr_compressed = Some c\<rparr>))"

definition memcached_tile_stat :: "'m memcached_ops \<Rightarrow> 'm \<Rightarrow> string \<Rightarrow> string \<Rightarrow> int \<Rightarrow> int \<Rightarrow> int \<Rightarrow> stat_info option" where
  "memcached_tile_stat ops m xmlconfig options x y z =
     (case mc_get ops m (memcached_xyzo_to_storagekey xmlconfig options x y z) of
        None \<Rightarrow> Some no_stat
      | Some raw \<Rightarrow>
          if \<not> mc_malloc ops \<or> length raw < sizeof_stat_info + header_size then None
          else Some ((bytes_stat raw)\<lparr>si_size := en_size (bytes_entry (take header_size (drop sizeof_stat_info raw)) (meta_offset x y))\<rparr>))"

definition memcached_tile_storage_id :: "string \<Rightarrow> string \<Rightarrow> int \<Rightarrow> int \<Rightarrow> int \<Rightarrow> string" where
  "memcached_tile_storage_id xmlconfig options x y z =
     snprintf (PATH_MAX - 1) (''memcached:///'' @ xmlconfig @ ''/'' @ show_int x @ ''/'' @ show_int y @ ''/'' @ show_int z @ ''.meta'')"

text \<open>The key of a write is made of the coordinates alone; the parameterisation is not part of it.\<close>

definition memcached_metatile_write ::
    "'m memcached_ops \<Rightarrow> 'm \<Rightarrow> string \<Rightarrow> string \<Rightarrow> int \<Rightarrow> int \<Rightarrow> int \<Rightarrow> byte list \<Rightarrow> int \<times> 'm" where
  "memcached_metatile_write ops m xmlconfig options x y z buf =
     (if \<not> mc_malloc ops then (-2, m)
      else let key = snprintf (PATH_MAX - 1) (xmlconfig @ ''/'' @ show_int x @ ''/'' @ show_int y @ ''/'' @ show_int z @ ''.meta'');
               (ok, m') = mc_set ops m key (new_object (mc_pad ops) (mc_now ops) buf)
           in (if ok then int (length buf) else -1, m'))"

definition memcached_metatile_delete :: "'m memcached_ops \<Rightarrow> 'm \<Rightarrow> string \<Rightarrow> int \<Rightarrow> int \<Rightarrow> int \<Rightarrow> int \<times> 'm" where
  "memcached_metatile_delete ops m xmlconfig x y z =
     (let (ok, m') = mc_delete ops m (memcached_xyz_to_storagekey xmlconfig x y z) in (if ok then 0 else -1, m'))"

text \<open>Only the field \<open>expired\<close> of the object changes. A value too short for it is the result \<open>None\<close>.\<close>

definition memcached_metatile_expire :: "'m memcached_ops \<Rightarrow> 'm \<Rightarrow> string \<Rightarrow> int \<Rightarrow> int \<Rightarrow> int \<Rightarrow> (int \<times> 'm) option" where
  "memcached_metatile_expire ops m xmlconfig x y z =
     (let key = memcached_xyz_to_storagekey xmlconfig x y z
      in case mc_get ops m key of
           None \<Rightarrow> Some (-1, m)
         | Some raw \<Rightarrow>
             if length raw < 36 then None
             else let (ok, m') = mc_replace ops m key (store_at 32 (le32 1) raw) in Some (if ok then 0 else -1, m'))"

text \<open>
  The options for the client library: the servers behind the scheme, or the local one, also when there is no memory
  for the text.
\<close>

definition memcached_options :: "bool \<Rightarrow> string \<Rightarrow> string" where
  "memcached_options malloc_ok connection_string =
     (if connection_string = ''memcached://'' \<or> \<not> malloc_ok then ''--server=localhost''
      else let n = min (length connection_string) PATH_MAX
           in snprintf (n - 2) (''--server='' @ take (n - 12) (drop 12 connection_string)))"

text \<open>Opening and closing; \<open>memcached\<close> is the library's function, a context of \<open>None\<close> the null pointer.\<close>

definition init_storage_memcached :: "bool \<Rightarrow> bool \<Rightarrow> (string \<Rightarrow> 'm option) \<Rightarrow> string \<Rightarrow> 'm option" where
  "init_storage_memcached malloc_ok malloc_ok' memcached connection_string =
     (if \<not> malloc_ok then None else memcached (memcached_options malloc_ok' connection_string))"

definition memcached_close_storage :: "'m option \<Rightarrow> int \<times> 'm option" where
  "memcached_close_storage ctx = (0, None)"

section \<open>Ceph\<close>

text \<open>\<open>Inl\<close> of a read is a negative error number; it may deliver fewer bytes than asked for.\<close>

record 'm rados_ops =
  ra_read :: "'m \<Rightarrow> string \<Rightarrow> nat \<Rightarrow> nat \<Rightarrow> int + byte list"
  ra_write_full :: "'m \<Rightarrow> string \<Rightarrow> byte list \<Rightarrow> int \<times> 'm"
  ra_write :: "'m \<Rightarrow> string \<Rightarrow> byte list \<Rightarrow> nat \<Rightarrow> int \<times> 'm"
  ra_remove :: "'m \<Rightarrow> string \<Rightarrow> int \<times> 'm"
  ra_malloc :: bool
  ra_now :: int
  ra_pad :: "byte list"

record metadata_cache =
  ca_data :: "byte list"
  ca_x :: int
  ca_y :: int
  ca_z :: int
  ca_xmlname :: string

record 'm rados_ctx =
  rx_pool :: string
  rx_io :: 'm
  rx_cache :: metadata_cache

definition rados_xyzo_to_storagekey :: "string \<Rightarrow> string \<Rightarrow> int \<Rightarrow> int \<Rightarrow> int \<Rightarrow> string" where
  "rados_xyzo_to_storagekey xmlconfig options x y z =
     (let x = x AND NOT (METATILE - 1); y = y AND NOT (METATILE - 1);
          stem = xmlconfig @ ''/'' @ show_int z @ ''/'' @ show_int x @ ''/'' @ show_int y
      in snprintf (PATH_MAX - 1) (if options \<noteq> [] then stem @ ''.'' @ options @ ''.meta'' else stem @ ''.meta''))"

text \<open>The header of the metatile, from the context if it was the last one read; the parameterisation is not compared.\<close>

definition read_meta_data :: "'m rados_ops \<Rightarrow> 'm rados_ctx \<Rightarrow> string \<Rightarrow> string \<Rightarrow> int \<Rightarrow> int \<Rightarrow> int \<Rightarrow> byte list option \<times> 'm rados_ctx" where
  "read_meta_data ops ctx xmlconfig options x y z =
     (let x = x AND NOT (METATILE - 1); y = y AND NOT (METATILE - 1); c = rx_cache ctx
      in if ca_x c = x \<and> ca_y c = y \<and> ca_z c = z \<and> ca_xmlname c = xmlconfig then (Some (ca_data c), ctx)
         else case ra_read ops (rx_io ctx) (rados_xyzo_to_storagekey xmlconfig options x y z) (sizeof_stat_info + header_size) 0 of
                Inl err \<Rightarrow> (None, ctx\<lparr>rx_cache := c\<lparr>ca_x := -1, ca_y := -1, ca_z := -1\<rparr>\<rparr>)
              | Inr bs \<Rightarrow>
                  let d = store_at 0 bs (ca_data c)
                  in (Some d, ctx\<lparr>rx_cache := \<lparr>ca_data = d, ca_x = x, ca_y = y, ca_z = z, ca_xmlname = strncpy_name (ca_xmlname c) xmlconfig\<rparr>\<rparr>))"

text \<open>The number of bytes the last read delivered is not looked at: the result is the size from the index.\<close>

definition rados_tile_read :: "'m rados_ops \<Rightarrow> 'm rados_ctx \<Rightarrow> string \<Rightarrow> string \<Rightarrow> int \<Rightarrow> int \<Rightarrow> int \<Rightarrow> nat \<Rightarrow> read_result \<times> 'm rados_ctx" where
  "rados_tile_read ops ctx xmlconfig options x y z sz =
     (if \<not> ra_malloc ops then (read_error (-1), ctx)
      else case read_meta_data ops ctx xmlconfig options x y z of
             (None, ctx') \<Rightarrow> (read_error (-3), ctx')
           | (Some raw, ctx') \<Rightarrow>
               (case meta_lookup (take header_size (drop sizeof_stat_info raw)) (meta_offset x y) of
                  Inl (r, c) \<Rightarrow> ((read_error r)\<lparr>rr_compressed := c\<rparr>, ctx')
                | Inr (c, en) \<Rightarrow>
                    let off = nat ((en_offset en + int sizeof_stat_info) mod 2 ^ 64); n = nat (en_size en mod 2 ^ 64)
                    in if n > sz then ((read_error (-6))\<lparr>rr_compressed := Some c\<rparr>, ctx')
                       else case ra_read ops (rx_io ctx') (rados_xyzo_to_storagekey xmlconfig options x y z) n off of
                              Inl err \<Rightarrow> ((read_error (-1))\<lparr>rr_compressed := Some c\<rparr>, ctx')
                            | Inr bs \<Rightarrow> (\<lparr>rr_ret = int n, rr_buf = bs, rr_compressed = Some c\<rparr>, ctx')))"

definition rados_tile_stat :: "'m rados_ops \<Rightarrow> 'm rados_ctx \<Rightarrow> string \<Rightarrow> string \<Rightarrow> int \<Rightarrow> int \<Rightarrow> int \<Rightarrow> stat_info \<times> 'm rados_ctx" where
  "rados_tile_stat ops ctx xmlconfig options x y z =
     (case read_meta_data ops ctx xmlconfig options x y z of
        (None, ctx') \<Rightarrow> (no_stat, ctx')
      | (Some raw, ctx') \<Rightarrow>
          ((bytes_stat raw)\<lparr>si_size := en_size (bytes_entry (take header_size (drop sizeof_stat_info raw)) (meta_offset x y))\<rparr>, ctx'))"

definition rados_tile_storage_id :: "'m rados_ctx \<Rightarrow> string \<Rightarrow> string \<Rightarrow> int \<Rightarrow> int \<Rightarrow> int \<Rightarrow> string" where
  "rados_tile_storage_id ctx xmlconfig options x y z =
     snprintf (PATH_MAX - 1) (''rados://'' @ rx_pool ctx @ ''/'' @ rados_xyzo_to_storagekey xmlconfig options x y z)"

text \<open>The cached header stays as it is in the operations that change an object.\<close>

definition rados_metatile_write ::
    "'m rados_ops \<Rightarrow> 'm rados_ctx \<Rightarrow> string \<Rightarrow> string \<Rightarrow> int \<Rightarrow> int \<Rightarrow> int \<Rightarrow> byte list \<Rightarrow> int \<times> 'm rados_ctx" where
  "rados_metatile_write ops ctx xmlconfig options x y z buf =
     (if \<not> ra_malloc ops then (-1, ctx)
      else let (err, m) = ra_write_full ops (rx_io ctx) (rados_xyzo_to_storagekey xmlconfig options x y z) (new_object (ra_pad ops) (ra_now ops) buf)
           in (if err < 0 then -1 else int (length buf), ctx\<lparr>rx_io := m\<rparr>))"

definition rados_metatile_delete :: "'m rados_ops \<Rightarrow> 'm rados_ctx \<Rightarrow> string \<Rightarrow> int \<Rightarrow> int \<Rightarrow> int \<Rightarrow> int \<times> 'm rados_ctx" where
  "rados_metatile_delete ops ctx xmlconfig x y z =
     (let (err, m) = ra_remove ops (rx_io ctx) (rados_xyzo_to_storagekey xmlconfig [] x y z)
      in (if err < 0 then -1 else 0, ctx\<lparr>rx_io := m\<rparr>))"

text \<open>A read that delivers fewer bytes leaves the rest of the structure unset; \<open>raw\<close> are its former bytes.\<close>

definition rados_metatile_expire ::
    "'m rados_ops \<Rightarrow> byte list \<Rightarrow> int \<Rightarrow> 'm rados_ctx \<Rightarrow> string \<Rightarrow> int \<Rightarrow> int \<Rightarrow> int \<Rightarrow> int \<times> 'm rados_ctx" where
  "rados_metatile_expire ops raw ENOENT ctx xmlconfig x y z =
     (let key = rados_xyzo_to_storagekey xmlconfig [] x y z
      in case ra_read ops (rx_io ctx) key sizeof_stat_info 0 of
           Inl err \<Rightarrow> (if - err = ENOENT then -1 else -2, ctx)
         | Inr bs \<Rightarrow>
             let (err, m) = ra_write ops (rx_io ctx) key (store_at 32 (le32 1) (store_at 0 bs raw)) 0
             in (if err < 0 then -3 else 0, ctx\<lparr>rx_io := m\<rparr>))"

text \<open>The pool and the configuration file from the connection string.\<close>

definition rados_target :: "string \<Rightarrow> string \<times> string" where
  "rados_target connection_string =
     (let tmp = drop 8 connection_string in (takeWhile (\<lambda>c. c \<noteq> CHR ''/'') tmp, dropWhile (\<lambda>c. c \<noteq> CHR ''/'') tmp))"

text \<open>
  Opening: the results of creating the handle, reading the file, connecting and creating the context for the pool are
  parameters, and so are the bytes of the new buffer (\<open>None\<close>: it cannot be allocated).
\<close>

definition init_storage_rados ::
    "bool \<Rightarrow> int \<Rightarrow> (string \<Rightarrow> int) \<Rightarrow> int \<Rightarrow> (string \<Rightarrow> int \<times> 'm) \<Rightarrow> byte list option \<Rightarrow> string \<Rightarrow> 'm rados_ctx option" where
  "init_storage_rados malloc_ok create conf_read connect ioctx data connection_string =
     (let (pool, conf) = rados_target connection_string
      in if \<not> malloc_ok \<or> create < 0 \<or> conf_read conf < 0 \<or> connect < 0 then None
         else let (err, io) = ioctx pool
              in if err < 0 then None
                 else case data of
                        None \<Rightarrow> None
                      | Some d \<Rightarrow>
                          Some \<lparr>rx_pool = pool, rx_io = io, rx_cache = \<lparr>ca_data = d, ca_x = -1, ca_y = -1, ca_z = -1, ca_xmlname = []\<rparr>\<rparr>)"

definition rados_close_storage :: "'m rados_ctx option \<Rightarrow> int \<times> 'm rados_ctx option" where
  "rados_close_storage ctx = (case ctx of None \<Rightarrow> (-1, None) | Some _ \<Rightarrow> (0, None))"

section \<open>Encodings\<close>

lemma rd32_le32_wrap: "rd32 (le32 i @ r) = wrap32 i"
proof -
  have "i = wrap32 i + ((i + 2147483648) div 4294967296) * 4294967296"
    unfolding wrap32_def using div_mult_mod_eq [of "i + 2147483648" 4294967296] by linarith
  then obtain q where q: "i = wrap32 i + q * 4294967296" by blast
  have k: "(word_of_int ((w + q * 4294967296) div 256 ^ k) :: byte) = word_of_int (w div 256 ^ k)" if "k < 4" for k and w :: int
  proof -
    have p: "(4294967296 :: int) = 256 * 256 ^ (3 - k) * 256 ^ k" using that by (auto simp: less_Suc_eq numeral_eq_Suc)
    have "(w + q * 4294967296) div 256 ^ k = w div 256 ^ k + 256 * (q * 256 ^ (3 - k))"
      unfolding p using div_mult_self1 [of "256 ^ k :: int" w "q * (256 * 256 ^ (3 - k))"] by (simp add: mult_ac)
    moreover have "(word_of_int (a + 256 * r) :: byte) = word_of_int a" for a r
      unfolding word_of_int_eq_iff take_bit_eq_mod by simp
    ultimately show ?thesis by (simp only:)
  qed
  have "le32 i = le32 (wrap32 i)"
    using k [of 0 "wrap32 i"] k [of 1 "wrap32 i"] k [of 2 "wrap32 i"] k [of 3 "wrap32 i"] q by (simp add: le32_def)
  then show ?thesis using rd32_le32 [OF wrap32_range [of i]] by simp
qed

lemma length_le64 [simp]: "length (le64 i) = 8"
  by (simp add: le64_def)

lemma rd64_le64:
  assumes "in_long64 i"
  shows "rd64 (le64 i @ r) = i"
proof -
  have "drop 4 (le64 i @ r) = le32 (i div 4294967296) @ r" by (simp add: le64_def)
  then have "rd32 (drop 4 (le64 i @ r)) = wrap32 (i div 4294967296)" by (simp add: rd32_le32_wrap)
  also have "\<dots> = i div 4294967296" using assms by (intro wrap32_id) (auto simp: in_int32_def in_long64_def)
  finally have h: "rd32 (drop 4 (le64 i @ r)) = i div 4294967296" .
  have "rd32 (le64 i @ r) mod 4294967296 = i mod 4294967296"
    by (simp add: le64_def rd32_le32_wrap wrap32_def mod_simps)
  then show ?thesis using h by (simp add: rd64_def)
qed

lemma bytes_stat_bytes:
  assumes "in_long64 (si_size s)" "in_long64 (si_atime s)" "in_long64 (si_mtime s)" "in_long64 (si_ctime s)" "in_int32 (si_expired s)"
  shows "bytes_stat (stat_bytes pad s @ r) = s"
  using assms by (simp add: bytes_stat_def stat_bytes_def rd64_le64 rd32_le32)

lemma length_stat_bytes [simp]: "length (stat_bytes pad s) = 36 + length pad"
  by (simp add: stat_bytes_def)

section \<open>A metatile in an object\<close>

lemma key_corner:
  assumes "x mod 8 = 0" "n < 8"
  shows "(x + int n) AND NOT (METATILE - 1) = x"
  unfolding metatile_corner using add_mod_aligned [OF assms] by (simp add: METATILE_def)

text \<open>The header and a tile of a metatile inside of a new object.\<close>

lemma object_parts:
  fixes now :: int
  assumes "aligned t" "in_int32 (int (length (metatile_buffer t)))" "length pad = 4" "ox < 8" "oy < 8"
  defines "obj \<equiv> new_object pad now (metatile_buffer t)" and "i \<equiv> 8 * ox + oy"
  shows "take header_size (drop sizeof_stat_info obj) = meta_header t"
    and "meta_lookup (meta_header t) (meta_offset (mt_x t + int ox) (mt_y t + int oy)) = Inr (0, entries_of t ! i)"
    and "take (length (mt_tile t ox oy)) (drop (sizeof_stat_info + header_size + before t tile_order i) obj) = mt_tile t ox oy"
    and "entries_of t ! i = \<lparr>en_offset = int (header_size + before t tile_order i), en_size = int (length (mt_tile t ox oy))\<rparr>"
    and "sizeof_stat_info + header_size + before t tile_order i + length (mt_tile t ox oy) \<le> length obj"
proof -
  have i: "i < 64" using assms(4,5) by (simp add: i_def)
  have tile: "tdata t (tile_order ! i) = mt_tile t ox oy" using assms(4,5) by (simp add: i_def tile_order_nth tdata_def)
  have b: "metatile_buffer t = meta_header t @ concat (map (tdata t) tile_order)" by (rule buffer_header [OF assms(1)])
  have obj: "drop sizeof_stat_info obj = metatile_buffer t" "length obj = sizeof_stat_info + length (metatile_buffer t)"
    using assms(3) by (simp_all add: obj_def new_object_def sizeof_stat_info_def)
  show "take header_size (drop sizeof_stat_info obj) = meta_header t" using obj b by (simp add: meta_sizes)
  show e: "entries_of t ! i = \<lparr>en_offset = int (header_size + before t tile_order i), en_size = int (length (mt_tile t ox oy))\<rparr>"
    using i tile by (simp add: entries_of_def)
  have "meta_offset (mt_x t + int ox) (mt_y t + int oy) = i"
    using offset_aligned [of "mt_x t" "mt_y t" ox oy] assms(1,4,5) by (simp add: aligned_def i_def)
  then show "meta_lookup (meta_header t) (meta_offset (mt_x t + int ox) (mt_y t + int oy)) = Inr (0, entries_of t ! i)"
    using header_entry [OF i assms(2,1)] header_layout [of t] by (simp add: meta_lookup_def bytes_layout_def META_COUNT_def)
  show "take (length (mt_tile t ox oy)) (drop (sizeof_stat_info + header_size + before t tile_order i) obj) = mt_tile t ox oy"
    using tile_bytes [OF i assms(1)] tile obj(1) by (metis (no_types, lifting) add.assoc add.commute drop_drop)
  have "before t tile_order i + length (mt_tile t ox oy) \<le> before t tile_order 64" using before_Suc_le [OF i, of t] tile by simp
  moreover have "length (metatile_buffer t) = header_size + before t tile_order 64" by (simp add: b before_def meta_sizes)
  ultimately show "sizeof_stat_info + header_size + before t tile_order i + length (mt_tile t ox oy) \<le> length obj" using obj(2) by simp
qed

text \<open>The conversions of the index entry to \<open>size_t\<close> do not change the values of a metatile that was saved.\<close>

lemma object_offsets:
  assumes "aligned t" "in_int32 (int (length (metatile_buffer t)))" "ox < 8" "oy < 8"
  defines "en \<equiv> entries_of t ! (8 * ox + oy)"
  shows "nat ((en_offset en + int sizeof_stat_info) mod 2 ^ 64) = sizeof_stat_info + header_size + before t tile_order (8 * ox + oy)"
    and "nat (en_size en mod 2 ^ 64) = length (mt_tile t ox oy)"
proof -
  let ?obj = "new_object [0, 0, 0, 0] 0 (metatile_buffer t)"
  note p4 = object_parts(4) [OF assms(1,2) _ assms(3,4), where pad = "[0, 0, 0, 0]", simplified]
  note p5 = object_parts(5) [OF assms(1,2) _ assms(3,4), where pad = "[0, 0, 0, 0]" and now = 0, simplified]
  have l: "length ?obj = 40 + length (metatile_buffer t)" by (simp add: new_object_def)
  have e: "en = \<lparr>en_offset = int (header_size + before t tile_order (8 * ox + oy)), en_size = int (length (mt_tile t ox oy))\<rparr>"
    unfolding en_def using p4 by simp
  have b: "int (sizeof_stat_info + header_size + before t tile_order (8 * ox + oy) + length (mt_tile t ox oy)) < 2 ^ 64"
    using p5 l assms(2) by (simp add: in_int32_def)
  then show "nat ((en_offset en + int sizeof_stat_info) mod 2 ^ 64) = sizeof_stat_info + header_size + before t tile_order (8 * ox + oy)"
    by (simp add: e nat_eq_iff)
  show "nat (en_size en mod 2 ^ 64) = length (mt_tile t ox oy)" using b by (simp add: e nat_eq_iff)
qed

section \<open>Saved tiles in memcached\<close>

text \<open>What the client library documents of a successful \<open>memcached_set\<close>, as long as the server keeps the item.\<close>

definition memcached_keeps :: "'m memcached_ops \<Rightarrow> bool" where
  "memcached_keeps ops \<longleftrightarrow> (\<forall>m k v m'. mc_set ops m k v = (True, m') \<longrightarrow> mc_get ops m' k = Some v)"

lemma memcached_key_written:
  assumes "aligned t" "ox < 8" "oy < 8"
  shows "memcached_xyzo_to_storagekey (mt_xmlconfig t) [] (mt_x t + int ox) (mt_y t + int oy) (mt_z t)
    = snprintf (PATH_MAX - 1) (mt_xmlconfig t @ ''/'' @ show_int (mt_x t) @ ''/'' @ show_int (mt_y t) @ ''/'' @ show_int (mt_z t) @ ''.meta'')"
  using key_corner [of "mt_x t" ox] key_corner [of "mt_y t" oy] assms by (simp add: memcached_xyzo_to_storagekey_def aligned_def)

text \<open>
  C32. Whatever the parameterisation with which a metatile was saved in memcached, it is found by a reader that asks for
  the tiles without parameterisation, tile by tile and byte for byte. For a metatile without parameterisation this is
  the round trip of the storage; for one with, it replaces the default tiles, since the key of a write leaves the
  parameterisation out.
\<close>

theorem memcached_saved_tile_reads_back:
  assumes "memcached_keeps ops" "mc_malloc ops" "length (mc_pad ops) = 4" "aligned t" "in_int32 (int (length (metatile_buffer t)))"
    and "memcached_metatile_write ops m (mt_xmlconfig t) (mt_options t) (mt_x t) (mt_y t) (mt_z t) (metatile_buffer t) = (r, m')" "0 \<le> r"
    and "ox < 8" "oy < 8" "length (mt_tile t ox oy) \<le> sz"
  shows "memcached_tile_read ops m' (mt_xmlconfig t) [] (mt_x t + int ox) (mt_y t + int oy) (mt_z t) sz
    = Some \<lparr>rr_ret = int (length (mt_tile t ox oy)), rr_buf = mt_tile t ox oy, rr_compressed = Some 0\<rparr>"
proof -
  let ?obj = "new_object (mc_pad ops) (mc_now ops) (metatile_buffer t)"
  let ?key = "memcached_xyzo_to_storagekey (mt_xmlconfig t) [] (mt_x t + int ox) (mt_y t + int oy) (mt_z t)"
  have "mc_set ops m ?key ?obj = (True, m')"
    using assms(2,6,7) unfolding memcached_key_written [OF assms(4,8,9)]
    by (auto simp: memcached_metatile_write_def Let_def split: prod.splits if_splits)
  then have g: "mc_get ops m' ?key = Some ?obj" using assms(1) by (simp add: memcached_keeps_def)
  note p = object_parts [OF assms(4,5,3,8,9)] and o = object_offsets [OF assms(4,5,8,9)]
  have "\<not> length ?obj < sizeof_stat_info + header_size" using p(5) [of "mc_now ops"] by simp
  then show ?thesis
    using assms(2,10) g p(1,3,5) [of "mc_now ops"] p(2) o by (simp add: memcached_tile_read_def Let_def)
qed

text \<open>A server that keeps everything, and a metatile of the German parameterisation.\<close>

definition mc_map :: "(string \<rightharpoonup> byte list) memcached_ops" where
  "mc_map =
     \<lparr>mc_get = (\<lambda>m. m), mc_set = (\<lambda>m k v. (True, m(k \<mapsto> v))), mc_replace = (\<lambda>m k v. (m k \<noteq> None, if m k = None then m else m(k \<mapsto> v))),
      mc_delete = (\<lambda>m k. (m k \<noteq> None, m(k := None))), mc_malloc = True, mc_now = 1700000000, mc_pad = [0, 0, 0, 0]\<rparr>"

definition german_metatile :: metaTile where
  "german_metatile = metaTile_set 2 3 [7, 8, 9] (metaTile_new ''osm'' ''de'' 8 16 10)"

lemma german_ok: "aligned german_metatile" "in_int32 (int (length (metatile_buffer german_metatile)))"
    "mt_tile german_metatile 2 3 = [7, 8, 9]"
    "mt_xmlconfig german_metatile = ''osm''" "mt_x german_metatile = 8" "mt_y german_metatile = 16" "mt_z german_metatile = 10"
proof -
  show a: "aligned german_metatile" by (simp add: german_metatile_def aligned_def metaTile_set_def metaTile_new_def)
  have "length (concat (map (tdata german_metatile) tile_order)) = 3"
    by (simp add: tile_order_def upt_rec tdata_def german_metatile_def metaTile_set_def metaTile_new_def)
  then show "in_int32 (int (length (metatile_buffer german_metatile)))"
    by (simp add: buffer_header [OF a] in_int32_def)
qed (simp_all add: german_metatile_def metaTile_set_def metaTile_new_def)

theorem memcached_saved_tile_reads_back_witness:
  "memcached_tile_read mc_map
      (snd (memcached_metatile_write mc_map Map.empty ''osm'' ''de'' 8 16 10 (metatile_buffer german_metatile))) ''osm'' [] 10 19 10 100
    = Some \<lparr>rr_ret = 3, rr_buf = [7, 8, 9], rr_compressed = Some 0\<rparr>"
proof -
  have o: "mt_options german_metatile = ''de''" by (simp add: german_metatile_def metaTile_set_def metaTile_new_def)
  have "memcached_metatile_write mc_map Map.empty (mt_xmlconfig german_metatile) (mt_options german_metatile) (mt_x german_metatile) (mt_y german_metatile) (mt_z german_metatile) (metatile_buffer german_metatile)
      = (int (length (metatile_buffer german_metatile)), snd (memcached_metatile_write mc_map Map.empty ''osm'' ''de'' 8 16 10 (metatile_buffer german_metatile)))"
    by (simp add: memcached_metatile_write_def mc_map_def german_ok o)
  from memcached_saved_tile_reads_back [OF _ _ _ german_ok(1,2) this, where ox = 2 and oy = 3 and sz = 100]
  show ?thesis by (simp add: memcached_keeps_def mc_map_def german_ok)
qed

section \<open>Saved tiles in Ceph\<close>

text \<open>What the client library documents of a successful \<open>rados_write_full\<close>.\<close>

definition rados_keeps :: "'m rados_ops \<Rightarrow> bool" where
  "rados_keeps ops \<longleftrightarrow> (\<forall>m k v r m' len off. ra_write_full ops m k v = (r, m') \<and> 0 \<le> r \<longrightarrow> ra_read ops m' k len off = Inr (take len (drop off v)))"

definition caches :: "'m rados_ctx \<Rightarrow> string \<Rightarrow> int \<Rightarrow> int \<Rightarrow> int \<Rightarrow> bool" where
  "caches ctx xmlconfig x y z \<longleftrightarrow>
     ca_x (rx_cache ctx) = x AND NOT (METATILE - 1) \<and> ca_y (rx_cache ctx) = y AND NOT (METATILE - 1) \<and> ca_z (rx_cache ctx) = z
     \<and> ca_xmlname (rx_cache ctx) = xmlconfig"

lemma corner_idem: "(x AND NOT (METATILE - 1)) AND NOT (METATILE - 1) = x AND NOT (METATILE - 1)" for x :: int
  by (simp add: and.assoc)

lemma rados_key_corner:
  "rados_xyzo_to_storagekey xmlconfig options (x AND NOT (METATILE - 1)) (y AND NOT (METATILE - 1)) z = rados_xyzo_to_storagekey xmlconfig options x y z"
  unfolding rados_xyzo_to_storagekey_def corner_idem by simp

text \<open>
  A metatile saved in Ceph is read back tile by tile and byte for byte by a context whose cached header is not that of
  the same metatile.
\<close>

theorem rados_saved_tile_reads_back:
  assumes "rados_keeps ops" "ra_malloc ops" "length (ra_pad ops) = 4" "aligned t" "in_int32 (int (length (metatile_buffer t)))"
    and "length (ca_data (rx_cache ctx)) = sizeof_stat_info + header_size"
    and "rados_metatile_write ops ctx (mt_xmlconfig t) (mt_options t) (mt_x t) (mt_y t) (mt_z t) (metatile_buffer t) = (r, ctx')" "0 \<le> r"
    and "ox < 8" "oy < 8" "length (mt_tile t ox oy) \<le> sz" "\<not> caches ctx (mt_xmlconfig t) (mt_x t) (mt_y t) (mt_z t)"
  shows "fst (rados_tile_read ops ctx' (mt_xmlconfig t) (mt_options t) (mt_x t + int ox) (mt_y t + int oy) (mt_z t) sz)
    = \<lparr>rr_ret = int (length (mt_tile t ox oy)), rr_buf = mt_tile t ox oy, rr_compressed = Some 0\<rparr>"
proof -
  let ?obj = "new_object (ra_pad ops) (ra_now ops) (metatile_buffer t)"
  let ?x = "mt_x t + int ox" and ?y = "mt_y t + int oy" and ?z = "mt_z t"
  let ?key = "rados_xyzo_to_storagekey (mt_xmlconfig t) (mt_options t) ?x ?y ?z"
  have al: "mt_x t mod 8 = 0" "mt_y t mod 8 = 0" using assms(4) by (simp_all add: aligned_def)
  note c = key_corner [OF al(1) assms(9)] key_corner [OF al(2) assms(10)] key_corner [OF al(1), of 0, simplified] key_corner [OF al(2), of 0, simplified]
  have k: "?key = rados_xyzo_to_storagekey (mt_xmlconfig t) (mt_options t) (mt_x t) (mt_y t) ?z"
    using c unfolding rados_xyzo_to_storagekey_def by simp
  obtain e m where w: "ra_write_full ops (rx_io ctx) ?key ?obj = (e, m)" by fastforce
  then have ctx': "ctx' = ctx\<lparr>rx_io := m\<rparr>" "0 \<le> e"
    using assms(2,7,8) unfolding k by (auto simp: rados_metatile_write_def split: if_splits)
  then have g: "ra_read ops m ?key len off = Inr (take len (drop off ?obj))" for len off
    using assms(1) w unfolding rados_keeps_def by blast
  note p = object_parts [OF assms(4,5,3,9,10)] and o = object_offsets [OF assms(4,5,9,10)]
  have l: "sizeof_stat_info + header_size \<le> length ?obj" using p(5) [of "ra_now ops"] by simp
  have d: "store_at 0 (take (sizeof_stat_info + header_size) ?obj) (ca_data (rx_cache ctx)) = take (sizeof_stat_info + header_size) ?obj"
    using l assms(6) by (simp add: store_at_def)
  have "fst (read_meta_data ops ctx' (mt_xmlconfig t) (mt_options t) ?x ?y ?z) = Some (take (sizeof_stat_info + header_size) ?obj)"
      "rx_io (snd (read_meta_data ops ctx' (mt_xmlconfig t) (mt_options t) ?x ?y ?z)) = m"
    using assms(12) g [of "sizeof_stat_info + header_size" 0, unfolded k] d c
    by (auto simp: read_meta_data_def ctx' caches_def Let_def)
  then obtain ctx2 where rm: "read_meta_data ops ctx' (mt_xmlconfig t) (mt_options t) ?x ?y ?z = (Some (take (sizeof_stat_info + header_size) ?obj), ctx2)"
    and io: "rx_io ctx2 = m" by (metis prod.collapse)
  have h: "take header_size (drop sizeof_stat_info (take (sizeof_stat_info + header_size) ?obj)) = meta_header t"
    using p(1) [of "ra_now ops"] by (simp add: drop_take meta_sizes)
  show ?thesis
    using assms(2,11) p(2) p(3) [of "ra_now ops"] o by (simp add: rados_tile_read_def rm h io g Let_def)
qed

text \<open>
  C33. The cached header outlives every change of the object through the same context: after a metatile was written again,
  deleted or marked as expired, and whatever parameterisation is asked for, the tile is reported as it was before.
\<close>

theorem rados_cache_hides_changes:
  assumes "read_meta_data ops ctx xmlconfig options x y z = (Some d, ctx1)" "\<not> caches ctx xmlconfig x y z"
    and "length xmlconfig < XMLCONFIG_MAX - 1" "CHR 0x00 \<notin> set xmlconfig"
    and "ctx2 \<in> {snd (rados_metatile_write ops ctx1 xmlconfig options x y z buf), snd (rados_metatile_delete ops ctx1 xmlconfig x y z),
               snd (rados_metatile_expire ops raw enoent ctx1 xmlconfig x y z)}"
  shows "fst (rados_tile_stat ops ctx2 xmlconfig options' x y z) = fst (rados_tile_stat ops ctx xmlconfig options x y z)"
proof -
  have n: "strncpy_name old xmlconfig = xmlconfig" for old
  proof -
    have "takeWhile (\<lambda>c. c \<noteq> CHR 0x00) (xmlconfig @ replicate k (CHR 0x00) @ r) = xmlconfig" if "0 < k" for k r
    proof -
      have "\<forall>c\<in>set xmlconfig. c \<noteq> CHR 0x00" using assms(4) by metis
      then show ?thesis using that by (cases k) (simp_all add: takeWhile_append2)
    qed
    from this [of "XMLCONFIG_MAX - 1 - length xmlconfig"] show ?thesis using assms(3) by (simp add: strncpy_name_def XMLCONFIG_MAX_def)
  qed
  have c1: "caches ctx1 xmlconfig x y z" "ca_data (rx_cache ctx1) = d"
    using assms(1,2) by (auto simp: read_meta_data_def caches_def n Let_def split: if_splits sum.splits)
  have "rx_cache ctx2 = rx_cache ctx1"
    using assms(5) by (auto simp: rados_metatile_write_def rados_metatile_delete_def rados_metatile_expire_def Let_def split: prod.splits sum.splits)
  then have "read_meta_data ops ctx2 xmlconfig options' x y z = (Some d, ctx2)"
    using c1 by (simp add: read_meta_data_def caches_def)
  then show ?thesis using assms(1) by (simp add: rados_tile_stat_def)
qed

text \<open>An object store as a map.\<close>

definition ra_map :: "(string \<rightharpoonup> byte list) rados_ops" where
  "ra_map =
     \<lparr>ra_read = (\<lambda>m k len off. case m k of None \<Rightarrow> Inl (-2) | Some v \<Rightarrow> Inr (take len (drop off v))),
      ra_write_full = (\<lambda>m k v. (0, m(k \<mapsto> v))),
      ra_write = (\<lambda>m k v off. (0, m(k \<mapsto> store_at off v (case m k of None \<Rightarrow> [] | Some w \<Rightarrow> w)))),
      ra_remove = (\<lambda>m k. (if m k = None then -2 else 0, m(k := None))), ra_malloc = True, ra_now = 1700000000, ra_pad = [0, 0, 0, 0]\<rparr>"

definition ra_ctx :: "(string \<rightharpoonup> byte list) rados_ctx" where
  "ra_ctx = \<lparr>rx_pool = ''tiles'', rx_io = Map.empty,
     rx_cache = \<lparr>ca_data = replicate (sizeof_stat_info + header_size) 0, ca_x = -1, ca_y = -1, ca_z = -1, ca_xmlname = []\<rparr>\<rparr>"

lemma ra_map_keeps: "rados_keeps ra_map"
  by (simp add: rados_keeps_def ra_map_def)

lemma ra_ctx_empty: "\<not> caches ra_ctx name x y 10"
  by (simp add: caches_def ra_ctx_def)

theorem rados_saved_tile_reads_back_witness:
  "fst (rados_tile_read ra_map
      (snd (rados_metatile_write ra_map ra_ctx ''osm'' ''de'' 8 16 10 (metatile_buffer german_metatile))) ''osm'' ''de'' 10 19 10 100)
    = \<lparr>rr_ret = 3, rr_buf = [7, 8, 9], rr_compressed = Some 0\<rparr>"
proof -
  have o: "mt_options german_metatile = ''de''" by (simp add: german_metatile_def metaTile_set_def metaTile_new_def)
  have "rados_metatile_write ra_map ra_ctx (mt_xmlconfig german_metatile) (mt_options german_metatile) (mt_x german_metatile) (mt_y german_metatile) (mt_z german_metatile) (metatile_buffer german_metatile)
      = (int (length (metatile_buffer german_metatile)), snd (rados_metatile_write ra_map ra_ctx ''osm'' ''de'' 8 16 10 (metatile_buffer german_metatile)))"
    by (simp add: rados_metatile_write_def ra_map_def german_ok o)
  from rados_saved_tile_reads_back [OF ra_map_keeps _ _ german_ok(1,2) _ this, where ox = 2 and oy = 3 and sz = 100]
  show ?thesis by (simp add: ra_ctx_empty german_ok o) (simp add: ra_map_def ra_ctx_def)
qed

theorem rados_cache_hides_changes_witness:
  "\<exists>ctx d ctx1. read_meta_data ra_map ctx ''osm'' [] 8 16 10 = (Some d, ctx1)
    \<and> fst (rados_tile_stat ra_map (snd (rados_metatile_expire ra_map [] 2 ctx1 ''osm'' 8 16 10)) ''osm'' ''de'' 8 16 10)
      = fst (rados_tile_stat ra_map ctx ''osm'' [] 8 16 10)"
proof -
  let ?ctx = "ra_ctx\<lparr>rx_io := (\<lambda>_. Some [])\<rparr>"
  obtain d ctx1 where r: "read_meta_data ra_map ?ctx ''osm'' [] 8 16 10 = (Some d, ctx1)"
    by (simp add: read_meta_data_def ra_map_def ra_ctx_def Let_def)
  have "\<not> caches ?ctx ''osm'' 8 16 10" by (simp add: caches_def ra_ctx_def)
  from rados_cache_hides_changes [OF r this, of "snd (rados_metatile_expire ra_map [] 2 ctx1 ''osm'' 8 16 10)" undefined "[]" 2 "''de''"]
  show ?thesis using r by (auto simp: XMLCONFIG_MAX_def)
qed

end
