(* ===== verification/Store_Readonly.thy ===== *)
theory Store_Readonly
  imports Store_File
begin

text \<open>
  The two storages that are only read: tiles of another server (\<^verbatim>\<open>src/store_ro_http_proxy.c\<close>) and two storages laid
  over each other (\<^verbatim>\<open>src/store_ro_composite.c\<close>). The transfer library and the image library are parameters. The
  composite storage is a storage if its two parts are: the locale \<open>composite_storage\<close>.
\<close>

section \<open>Tiles of another server\<close>

text \<open>
  One transfer: whether it succeeded, the body as the callback collected it, whether the code of the answer could be
  asked for, the code, and the file's time (\<open>None\<close>: it could not be asked for; negative: not known).
\<close>

record curl_result =
  cu_ok :: bool
  cu_body :: "byte list"
  cu_info :: bool
  cu_code :: int
  cu_filetime :: "int option"

record ro_http_proxy_tile_cache =
  hp_stat :: stat_info
  hp_tile :: "byte list"
  hp_x :: int
  hp_y :: int
  hp_z :: int
  hp_xmlname :: string

record ro_http_proxy_ctx =
  hp_baseurl :: string
  hp_cache :: ro_http_proxy_tile_cache

type_synonym 'w curl = "'w \<Rightarrow> string \<Rightarrow> curl_result \<times> 'w"

definition ro_http_proxy_xyz_to_storagekey :: "ro_http_proxy_ctx \<Rightarrow> int \<Rightarrow> int \<Rightarrow> int \<Rightarrow> string" where
  "ro_http_proxy_xyz_to_storagekey ctx x y z =
     snprintf (PATH_MAX - 1) (''http://'' @ hp_baseurl ctx @ ''/'' @ show_int z @ ''/'' @ show_int x @ ''/'' @ show_int y @ ''.png'')"

definition forget :: "ro_http_proxy_ctx \<Rightarrow> ro_http_proxy_ctx" where
  "forget ctx = ctx\<lparr>hp_cache := (hp_cache ctx)\<lparr>hp_x := -1, hp_y := -1, hp_z := -1\<rparr>\<rparr>"

text \<open>
  Bringing a tile into the cache: \<open>1\<close> if it is there, a missing one (404) included, else \<open>-1\<close>. The time of a tile
  that has none stays that of the tile before.
\<close>

definition ro_http_proxy_tile_retrieve ::
    "'w curl \<Rightarrow> bool \<Rightarrow> ro_http_proxy_ctx \<Rightarrow> string \<Rightarrow> string \<Rightarrow> int \<Rightarrow> int \<Rightarrow> int \<Rightarrow> 'w \<Rightarrow> int \<times> ro_http_proxy_ctx \<times> 'w" where
  "ro_http_proxy_tile_retrieve curl malloc_ok ctx xmlconfig options x y z w =
     (let c = hp_cache ctx
      in if hp_x c = x \<and> hp_y c = y \<and> hp_z c = z \<and> hp_xmlname c = xmlconfig then (1, ctx, w)
         else if \<not> malloc_ok then (-1, ctx, w)
         else let (r, w1) = curl w (ro_http_proxy_xyz_to_storagekey ctx x y z);
                  kept = (\<lambda>t st. ctx\<lparr>hp_cache := \<lparr>hp_stat = st, hp_tile = t, hp_x = x, hp_y = y, hp_z = z,
                                                  hp_xmlname = snprintf XMLCONFIG_MAX xmlconfig\<rparr>\<rparr>)
              in if \<not> cu_ok r \<or> \<not> cu_info r then (-1, forget ctx, w1)
                 else if cu_code r = 200
                 then (1, kept (cu_body r)
                            ((hp_stat c)\<lparr>si_size := int (length (cu_body r)), si_expired := 0, si_atime := 0,
                               si_mtime := (case cu_filetime r of Some t \<Rightarrow> if t \<ge> 0 then t else si_mtime (hp_stat c) | None \<Rightarrow> si_mtime (hp_stat c))\<rparr>), w1)
                 else if cu_code r = 404 then (1, kept [] ((hp_stat c)\<lparr>si_size := -1, si_expired := 0\<rparr>), w1)
                 else (-1, forget ctx, w1))"

text \<open>The flag \<open>compressed\<close> is not assigned.\<close>

definition ro_http_proxy_tile_read ::
    "'w curl \<Rightarrow> bool \<Rightarrow> ro_http_proxy_ctx \<Rightarrow> string \<Rightarrow> string \<Rightarrow> int \<Rightarrow> int \<Rightarrow> int \<Rightarrow> nat \<Rightarrow> 'w \<Rightarrow> read_result \<times> ro_http_proxy_ctx \<times> 'w" where
  "ro_http_proxy_tile_read curl malloc_ok ctx xmlconfig options x y z sz w =
     (let (r, ctx', w') = ro_http_proxy_tile_retrieve curl malloc_ok ctx xmlconfig options x y z w;
          size = si_size (hp_stat (hp_cache ctx'))
      in if r > 0
         then if size < 0 \<or> size > int sz then (read_error (-1), ctx', w')
              else (\<lparr>rr_ret = size, rr_buf = hp_tile (hp_cache ctx'), rr_compressed = None\<rparr>, ctx', w')
         else (read_error (-1), ctx', w'))"

definition ro_http_proxy_tile_stat ::
    "'w curl \<Rightarrow> bool \<Rightarrow> ro_http_proxy_ctx \<Rightarrow> string \<Rightarrow> string \<Rightarrow> int \<Rightarrow> int \<Rightarrow> int \<Rightarrow> 'w \<Rightarrow> stat_info \<times> ro_http_proxy_ctx \<times> 'w" where
  "ro_http_proxy_tile_stat curl malloc_ok ctx xmlconfig options x y z w =
     (let (r, ctx', w') = ro_http_proxy_tile_retrieve curl malloc_ok ctx xmlconfig options x y z w
      in (if r > 0 then hp_stat (hp_cache ctx') else \<lparr>si_size = -1, si_atime = 0, si_mtime = 0, si_ctime = 0, si_expired = 0\<rparr>, ctx', w'))"

definition ro_http_proxy_tile_storage_id :: "ro_http_proxy_ctx \<Rightarrow> string \<Rightarrow> string \<Rightarrow> int \<Rightarrow> int \<Rightarrow> int \<Rightarrow> string" where
  "ro_http_proxy_tile_storage_id ctx xmlconfig options x y z = ro_http_proxy_xyz_to_storagekey ctx x y z"

definition ro_http_proxy_close_storage :: "ro_http_proxy_ctx option \<Rightarrow> int \<times> ro_http_proxy_ctx option" where
  "ro_http_proxy_close_storage ctx = (0, None)"

definition ro_http_proxy_metatile_write :: "'st \<Rightarrow> string \<Rightarrow> string \<Rightarrow> int \<Rightarrow> int \<Rightarrow> int \<Rightarrow> byte list \<Rightarrow> int \<times> 'st" where
  "ro_http_proxy_metatile_write st xmlconfig options x y z buf = (-1, st)"

definition ro_http_proxy_metatile_delete :: "'st \<Rightarrow> string \<Rightarrow> int \<Rightarrow> int \<Rightarrow> int \<Rightarrow> int \<times> 'st" where
  "ro_http_proxy_metatile_delete st xmlconfig x y z = (-1, st)"

definition ro_http_proxy_metatile_expire :: "'st \<Rightarrow> string \<Rightarrow> int \<Rightarrow> int \<Rightarrow> int \<Rightarrow> int \<times> 'st" where
  "ro_http_proxy_metatile_expire st xmlconfig x y z = (-1, st)"

text \<open>The new context; \<open>raw\<close> is what its memory held. The results of the library's initialisations are parameters.\<close>

definition init_storage_ro_http_proxy :: "bool \<Rightarrow> bool \<Rightarrow> bool \<Rightarrow> stat_info \<Rightarrow> string \<Rightarrow> ro_http_proxy_ctx option" where
  "init_storage_ro_http_proxy malloc_ok global_ok easy_ok raw connection_string =
     (if \<not> malloc_ok \<or> \<not> global_ok \<or> \<not> easy_ok then None
      else Some \<lparr>hp_baseurl = drop 16 connection_string,
                 hp_cache = \<lparr>hp_stat = raw, hp_tile = [], hp_x = -1, hp_y = -1, hp_z = -1, hp_xmlname = []\<rparr>\<rparr>)"

section \<open>Two storages over each other\<close>

text \<open>The library decodes an image from a buffer, paints the second over the first and encodes the result in pieces.\<close>

record 'img cairo =
  ci_decode :: "byte list \<Rightarrow> 'img option"
  ci_surface :: bool
  ci_encode :: "'img \<Rightarrow> 'img \<Rightarrow> byte list list"

text \<open>The callback of the encoder: a piece that does not fit ends the encoding.\<close>

fun write_png_stream_to_byte_array :: "nat \<Rightarrow> byte list \<Rightarrow> byte list list \<Rightarrow> byte list" where
  "write_png_stream_to_byte_array max_size done [] = done"
| "write_png_stream_to_byte_array max_size done (p # ps) =
     (if length done + length p > max_size then done else write_png_stream_to_byte_array max_size (done @ p) ps)"

text \<open>
  Both tiles are decoded from the caller's buffer, which is as long as the callback may read: behind the bytes of a tile it
  still holds what was there before. A failure of the encoder is not looked at.
\<close>

definition ro_composite_tile_read ::
    "('a \<Rightarrow> string \<Rightarrow> string \<Rightarrow> int \<Rightarrow> int \<Rightarrow> int \<Rightarrow> nat \<Rightarrow> read_result) \<Rightarrow> ('b \<Rightarrow> string \<Rightarrow> string \<Rightarrow> int \<Rightarrow> int \<Rightarrow> int \<Rightarrow> nat \<Rightarrow> read_result)
      \<Rightarrow> 'img cairo \<Rightarrow> (nat \<Rightarrow> byte list) \<Rightarrow> string \<Rightarrow> string \<Rightarrow> 'a \<times> 'b \<Rightarrow> string \<Rightarrow> string \<Rightarrow> int \<Rightarrow> int \<Rightarrow> int \<Rightarrow> nat \<Rightarrow> read_result" where
  "ro_composite_tile_read read_primary read_secondary ci raw xml_primary xml_secondary st xmlconfig options x y z sz =
     (let a = read_primary (fst st) xml_primary options x y z sz
      in if rr_ret a < 0 then (read_error (-1))\<lparr>rr_compressed := rr_compressed a\<rparr>
         else let buf1 = rr_buf a @ drop (length (rr_buf a)) (raw sz)
              in case ci_decode ci buf1 of
                   None \<Rightarrow> (read_error (-1))\<lparr>rr_compressed := rr_compressed a\<rparr>
                 | Some imageA \<Rightarrow>
                     let b = read_secondary (snd st) xml_secondary options x y z sz
                     in if rr_ret b < 0 then (read_error (-1))\<lparr>rr_compressed := rr_compressed b\<rparr>
                        else (case ci_decode ci (rr_buf b @ drop (length (rr_buf b)) buf1) of
                                None \<Rightarrow> (read_error (-1))\<lparr>rr_compressed := rr_compressed b\<rparr>
                              | Some imageB \<Rightarrow>
                                  if \<not> ci_surface ci then (read_error (-1))\<lparr>rr_compressed := rr_compressed b\<rparr>
                                  else let out = write_png_stream_to_byte_array sz [] (ci_encode ci imageA imageB)
                                       in \<lparr>rr_ret = int (length out), rr_buf = out, rr_compressed = rr_compressed b\<rparr>))"

definition ro_composite_tile_stat ::
    "('a \<Rightarrow> string \<Rightarrow> string \<Rightarrow> int \<Rightarrow> int \<Rightarrow> int \<Rightarrow> stat_info) \<Rightarrow> string \<Rightarrow> 'a \<times> 'b \<Rightarrow> string \<Rightarrow> string \<Rightarrow> int \<Rightarrow> int \<Rightarrow> int \<Rightarrow> stat_info" where
  "ro_composite_tile_stat stat_primary xml_primary st xmlconfig options x y z = stat_primary (fst st) xml_primary options x y z"

definition ro_composite_tile_storage_id :: "'st \<Rightarrow> string \<Rightarrow> string \<Rightarrow> int \<Rightarrow> int \<Rightarrow> int \<Rightarrow> string" where
  "ro_composite_tile_storage_id st xmlconfig options x y z = ''Composite tile''"

text \<open>Closing closes both parts, whatever they answer.\<close>

definition ro_composite_close_storage :: "('a \<Rightarrow> int \<times> 'a) \<Rightarrow> ('b \<Rightarrow> int \<times> 'b) \<Rightarrow> 'a \<times> 'b \<Rightarrow> int \<times> 'a \<times> 'b" where
  "ro_composite_close_storage close_primary close_secondary st = (0, snd (close_primary (fst st)), snd (close_secondary (snd st)))"

definition ro_composite_metatile_write :: "'st \<Rightarrow> string \<Rightarrow> string \<Rightarrow> int \<Rightarrow> int \<Rightarrow> int \<Rightarrow> byte list \<Rightarrow> int \<times> 'st" where
  "ro_composite_metatile_write st xmlconfig options x y z buf = (-1, st)"

definition ro_composite_metatile_delete :: "'st \<Rightarrow> string \<Rightarrow> int \<Rightarrow> int \<Rightarrow> int \<Rightarrow> int \<times> 'st" where
  "ro_composite_metatile_delete st xmlconfig x y z = (-1, st)"

definition ro_composite_metatile_expire :: "'st \<Rightarrow> string \<Rightarrow> int \<Rightarrow> int \<Rightarrow> int \<Rightarrow> int \<times> 'st" where
  "ro_composite_metatile_expire st xmlconfig x y z = (-1, st)"

text \<open>The text in front of and behind the first occurrence of a separator.\<close>

definition split_at :: "string \<Rightarrow> string \<Rightarrow> (string \<times> string) option" where
  "split_at sep s =
     (case strstr s sep of None \<Rightarrow> None | Some rest \<Rightarrow> Some (take (length s - length rest) s, drop (length sep) rest))"

text \<open>
  A part of the connection string: the name of the map and the options of the storage. A name too long for its
  array is the result \<open>Inr None\<close>.
\<close>

definition composite_part :: "string \<Rightarrow> unit + (string \<times> string) option" where
  "composite_part s =
     (case split_at '','' s of
        None \<Rightarrow> Inl ()
      | Some (name, options) \<Rightarrow> if length name < XMLCONFIG_MAX then Inr (Some (name, options)) else Inr None)"

text \<open>
  The connection string \<open>composite:{name,options}{name,options}\<close>: the two names with their storages, \<open>None\<close> if it is
  malformed or a storage cannot be opened. The outer \<open>None\<close> is a write behind an array. The last character is cut
  off whatever it is.
\<close>

definition init_storage_ro_composite :: "(string \<Rightarrow> 's option) \<Rightarrow> string \<Rightarrow> ((string \<times> 's) \<times> string \<times> 's) option option" where
  "init_storage_ro_composite init connection_string =
     (case split_at ''}{'' connection_string of
        None \<Rightarrow> Some None
      | Some (front, back) \<Rightarrow>
          (case composite_part (drop 11 front) of
             Inl _ \<Rightarrow> Some None
           | Inr None \<Rightarrow> None
           | Inr (Some (n1, o1)) \<Rightarrow>
               (case init o1 of
                  None \<Rightarrow> Some None
                | Some s1 \<Rightarrow>
                    (case composite_part (butlast back) of
                       Inl _ \<Rightarrow> Some None
                     | Inr None \<Rightarrow> None
                     | Inr (Some (n2, o2)) \<Rightarrow>
                         (case init o2 of None \<Rightarrow> Some None | Some s2 \<Rightarrow> Some (Some ((n1, s1), n2, s2)))))))"

section \<open>A composite storage is a storage\<close>

lemma png_stream_fits: "length done \<le> max_size \<Longrightarrow> length (write_png_stream_to_byte_array max_size done ps) \<le> max_size"
  by (induction max_size "done" ps rule: write_png_stream_to_byte_array.induct) simp_all

locale composite_storage = primary: tile_storage rdA stA + secondary: tile_storage rdB stB
  for rdA :: "'a \<Rightarrow> string \<Rightarrow> string \<Rightarrow> int \<Rightarrow> int \<Rightarrow> int \<Rightarrow> nat \<Rightarrow> read_result" and stA
    and rdB :: "'b \<Rightarrow> string \<Rightarrow> string \<Rightarrow> int \<Rightarrow> int \<Rightarrow> int \<Rightarrow> nat \<Rightarrow> read_result" and stB
begin

lemma composite_missing:
  "si_size (ro_composite_tile_stat stA n1 st xml opts x y z) < 0 \<Longrightarrow> rr_ret (ro_composite_tile_read rdA rdB ci raw n1 n2 st xml opts x y z sz) < 0"
  using primary.missing [of "fst st" n1 opts x y z sz]
  by (simp add: ro_composite_tile_stat_def ro_composite_tile_read_def Let_def read_error_def)

lemma composite_fits:
  assumes "0 \<le> rr_ret (ro_composite_tile_read rdA rdB ci raw n1 n2 st xml opts x y z sz)"
  shows "rr_ret (ro_composite_tile_read rdA rdB ci raw n1 n2 st xml opts x y z sz)
      = int (length (rr_buf (ro_composite_tile_read rdA rdB ci raw n1 n2 st xml opts x y z sz)))
    \<and> length (rr_buf (ro_composite_tile_read rdA rdB ci raw n1 n2 st xml opts x y z sz)) \<le> sz
    \<and> rr_compressed (ro_composite_tile_read rdA rdB ci raw n1 n2 st xml opts x y z sz) \<in> {Some 0, Some 1}"
proof -
  let ?a = "rdA (fst st) n1 opts x y z sz" and ?b = "rdB (snd st) n2 opts x y z sz"
  obtain ps where b: "0 \<le> rr_ret ?b" and r: "ro_composite_tile_read rdA rdB ci raw n1 n2 st xml opts x y z sz =
      \<lparr>rr_ret = int (length (write_png_stream_to_byte_array sz [] ps)), rr_buf = write_png_stream_to_byte_array sz [] ps, rr_compressed = rr_compressed ?b\<rparr>"
    using assms by (auto simp: ro_composite_tile_read_def Let_def read_error_def split: if_splits option.splits)
  then show ?thesis using secondary.fits [of "snd st" n2 opts x y z sz] png_stream_fits [of "[]" sz ps] by simp
qed

end

sublocale composite_storage \<subseteq> composite: tile_storage "ro_composite_tile_read rdA rdB ci raw n1 n2" "ro_composite_tile_stat stA n1"
  using composite_missing composite_fits by unfold_locales blast+

interpretation composed_files: composite_storage "file_tile_read e tile_dir" "file_tile_stat e tile_dir" "file_tile_read e' tile_dir'" "file_tile_stat e' tile_dir'"
  by unfold_locales

section \<open>A proxied tile is the one that was asked for\<close>

text \<open>A run of reads through one context, with the log of the transfers.\<close>

record proxy_request =
  pq_xmlconfig :: string
  pq_options :: string
  pq_x :: int
  pq_y :: int
  pq_z :: int
  pq_size :: nat
  pq_malloc :: bool

definition logged :: "'w curl \<Rightarrow> ('w \<times> (string \<times> curl_result) list) curl" where
  "logged curl w url = (case curl (fst w) url of (r, w') \<Rightarrow> (r, (w', snd w @ [(url, r)])))"

fun proxy_run :: "'w curl \<Rightarrow> ro_http_proxy_ctx \<Rightarrow> proxy_request list \<Rightarrow> 'w \<times> (string \<times> curl_result) list
    \<Rightarrow> read_result list \<times> ro_http_proxy_ctx \<times> 'w \<times> (string \<times> curl_result) list" where
  "proxy_run curl ctx [] w = ([], ctx, w)"
| "proxy_run curl ctx (q # qs) w =
     (case ro_http_proxy_tile_read (logged curl) (pq_malloc q) ctx (pq_xmlconfig q) (pq_options q) (pq_x q) (pq_y q) (pq_z q) (pq_size q) w of
        (r, ctx', w') \<Rightarrow> (case proxy_run curl ctx' qs w' of (rs, ctx'', w'') \<Rightarrow> (r # rs, ctx'', w'')))"

text \<open>The body of an answer 200 for an address.\<close>

definition delivered :: "(string \<times> curl_result) list \<Rightarrow> string \<Rightarrow> byte list \<Rightarrow> bool" where
  "delivered log url body \<longleftrightarrow> (\<exists>r. (url, r) \<in> set log \<and> cu_ok r \<and> cu_code r = 200 \<and> cu_body r = body)"

text \<open>What the cache holds was delivered for the address of the cached tile, or is the note that it is missing.\<close>

definition cache_ok :: "(string \<times> curl_result) list \<Rightarrow> ro_http_proxy_ctx \<Rightarrow> bool" where
  "cache_ok log ctx \<longleftrightarrow>
     (let c = hp_cache ctx
      in 0 \<le> hp_z c \<longrightarrow> si_size (hp_stat c) < 0
           \<or> (si_size (hp_stat c) = int (length (hp_tile c)) \<and> delivered log (ro_http_proxy_xyz_to_storagekey ctx (hp_x c) (hp_y c) (hp_z c)) (hp_tile c)))"

lemma delivered_mono: "delivered log url b \<Longrightarrow> delivered (log @ l2) url b"
  by (auto simp: delivered_def)

lemma key_base: "hp_baseurl ctx' = hp_baseurl ctx \<Longrightarrow> ro_http_proxy_xyz_to_storagekey ctx' = ro_http_proxy_xyz_to_storagekey ctx"
  by (simp add: ro_http_proxy_xyz_to_storagekey_def fun_eq_iff)

lemma retrieve_ok:
  assumes "ro_http_proxy_tile_retrieve (logged curl) mok ctx xml opts x y z w = (r, ctx', w')" "cache_ok (snd w) ctx" "0 \<le> z"
  shows "cache_ok (snd w') ctx' \<and> hp_baseurl ctx' = hp_baseurl ctx \<and> (\<exists>l2. snd w' = snd w @ l2)
    \<and> (0 < r \<longrightarrow> hp_x (hp_cache ctx') = x \<and> hp_y (hp_cache ctx') = y \<and> hp_z (hp_cache ctx') = z)"
proof (cases "hp_x (hp_cache ctx) = x \<and> hp_y (hp_cache ctx) = y \<and> hp_z (hp_cache ctx) = z \<and> hp_xmlname (hp_cache ctx) = xml \<or> \<not> mok")
  case True
  then show ?thesis using assms by (auto simp: ro_http_proxy_tile_retrieve_def Let_def split: if_splits)
next
  case False
  obtain cr w1 where c: "curl (fst w) (ro_http_proxy_xyz_to_storagekey ctx x y z) = (cr, w1)" by fastforce
  then have l: "logged curl w (ro_http_proxy_xyz_to_storagekey ctx x y z) = (cr, (w1, snd w @ [(ro_http_proxy_xyz_to_storagekey ctx x y z, cr)]))"
    by (simp add: logged_def)
  have d: "delivered (snd w @ [(ro_http_proxy_xyz_to_storagekey ctx x y z, cr)]) (ro_http_proxy_xyz_to_storagekey ctx x y z) (cu_body cr)"
    if "cu_ok cr" "cu_code cr = 200" using that by (auto simp: delivered_def)
  show ?thesis
    using assms(1,3) False l d
    by (auto simp: ro_http_proxy_tile_retrieve_def Let_def cache_ok_def forget_def ro_http_proxy_xyz_to_storagekey_def split: if_splits)
qed

lemma proxy_read_ok:
  assumes "ro_http_proxy_tile_read (logged curl) mok ctx xml opts x y z sz w = (r, ctx', w')" "cache_ok (snd w) ctx" "0 \<le> z"
  shows "cache_ok (snd w') ctx' \<and> hp_baseurl ctx' = hp_baseurl ctx \<and> (\<exists>l2. snd w' = snd w @ l2)
    \<and> (0 \<le> rr_ret r \<longrightarrow> delivered (snd w') (ro_http_proxy_xyz_to_storagekey ctx x y z) (rr_buf r)
         \<and> rr_ret r = int (length (rr_buf r)) \<and> length (rr_buf r) \<le> sz)"
proof -
  obtain q where q: "ro_http_proxy_tile_retrieve (logged curl) mok ctx xml opts x y z w = (q, ctx', w')"
    and r: "r = (if q > 0 then if si_size (hp_stat (hp_cache ctx')) < 0 \<or> si_size (hp_stat (hp_cache ctx')) > int sz then read_error (-1)
        else \<lparr>rr_ret = si_size (hp_stat (hp_cache ctx')), rr_buf = hp_tile (hp_cache ctx'), rr_compressed = None\<rparr> else read_error (-1))"
    using assms(1) by (auto simp: ro_http_proxy_tile_read_def Let_def split: prod.splits if_splits)
  note o = retrieve_ok [OF q assms(2,3)]
  then show ?thesis
    using assms(3) key_base [of ctx' ctx] by (auto simp: r cache_ok_def Let_def read_error_def)
qed

lemma proxy_run_ok:
  assumes "proxy_run curl ctx qs w = (rs, ctx', w')" "cache_ok (snd w) ctx" "\<forall>q\<in>set qs. 0 \<le> pq_z q"
  shows "length rs = length qs \<and> (\<exists>l2. snd w' = snd w @ l2)
    \<and> (\<forall>i<length qs. 0 \<le> rr_ret (rs ! i) \<longrightarrow>
         delivered (snd w') (ro_http_proxy_xyz_to_storagekey ctx (pq_x (qs ! i)) (pq_y (qs ! i)) (pq_z (qs ! i))) (rr_buf (rs ! i))
         \<and> rr_ret (rs ! i) = int (length (rr_buf (rs ! i))) \<and> length (rr_buf (rs ! i)) \<le> pq_size (qs ! i))"
  using assms
proof (induction qs arbitrary: ctx w rs)
  case (Cons q qs)
  obtain r ctx1 w1 where f: "ro_http_proxy_tile_read (logged curl) (pq_malloc q) ctx (pq_xmlconfig q) (pq_options q) (pq_x q) (pq_y q) (pq_z q) (pq_size q) w = (r, ctx1, w1)"
    by (metis prod_cases3)
  obtain rs1 where g: "proxy_run curl ctx1 qs w1 = (rs1, ctx', w')" and rs: "rs = r # rs1"
    using Cons.prems(1) f by (auto split: prod.splits)
  note a = proxy_read_ok [OF f Cons.prems(2)]
  have z: "0 \<le> pq_z q" "\<forall>q\<in>set qs. 0 \<le> pq_z q" using Cons.prems(3) by simp_all
  note b = Cons.IH [OF g conjunct1 [OF a [OF z(1)]] z(2)]
  have k: "ro_http_proxy_xyz_to_storagekey ctx1 = ro_http_proxy_xyz_to_storagekey ctx" using a z(1) by (intro key_base) blast
  obtain l2 l3 where m: "snd w1 = snd w @ l2" "snd w' = snd w1 @ l3" using a z(1) b by blast
  show ?case
    using a z(1) b delivered_mono [of "snd w1"] by (auto simp: rs k m nth_Cons split: nat.splits)
qed simp

text \<open>
  C31. Through a proxy storage, whatever was read before and whatever failed in between, a tile that is read is the body of
  a successful answer to a request for the address of just that tile, complete and within the buffer: the
  cache of the last tile is never taken for another one, and an unexpected answer leaves nothing in it.
\<close>

theorem proxied_tile_is_its_own:
  assumes "init_storage_ro_http_proxy True True True raw connection = Some ctx" "proxy_run curl ctx qs (w, []) = (rs, ctx', (w', log))"
    and "\<forall>q\<in>set qs. 0 \<le> pq_z q" "i < length qs" "0 \<le> rr_ret (rs ! i)"
  shows "\<exists>r. (ro_http_proxy_xyz_to_storagekey ctx (pq_x (qs ! i)) (pq_y (qs ! i)) (pq_z (qs ! i)), r) \<in> set log
    \<and> cu_ok r \<and> cu_code r = 200 \<and> rr_buf (rs ! i) = cu_body r \<and> rr_ret (rs ! i) = int (length (cu_body r)) \<and> length (cu_body r) \<le> pq_size (qs ! i)"
proof -
  have "cache_ok (snd (w, [])) ctx" using assms(1) by (auto simp: init_storage_ro_http_proxy_def cache_ok_def)
  from proxy_run_ok [OF assms(2) this assms(3)] have "delivered log (ro_http_proxy_xyz_to_storagekey ctx (pq_x (qs ! i)) (pq_y (qs ! i)) (pq_z (qs ! i))) (rr_buf (rs ! i))"
    "rr_ret (rs ! i) = int (length (rr_buf (rs ! i)))" "length (rr_buf (rs ! i)) \<le> pq_size (qs ! i)"
    using assms(4,5) by simp_all
  then show ?thesis unfolding delivered_def by metis
qed

text \<open>A server with one tile, which is asked for twice with another tile in between.\<close>

definition one_tile :: "unit curl" where
  "one_tile w url =
     (\<lparr>cu_ok = True, cu_body = [1, 2], cu_info = True, cu_code = (if url = ''http://a/3/1/2.png'' then 200 else 500), cu_filetime = None\<rparr>, w)"

definition ask :: "int \<Rightarrow> proxy_request" where
  "ask x = \<lparr>pq_xmlconfig = ''osm'', pq_options = [], pq_x = x, pq_y = 2, pq_z = 3, pq_size = 10, pq_malloc = True\<rparr>"

theorem proxied_tile_is_its_own_witness:
  "\<exists>rs ctx' w' log r. proxy_run one_tile \<lparr>hp_baseurl = ''a'', hp_cache = \<lparr>hp_stat = null_tile_stat () [] [] 0 0 0, hp_tile = [], hp_x = -1, hp_y = -1, hp_z = -1, hp_xmlname = []\<rparr>\<rparr>
      [ask 1, ask 4, ask 1] ((), []) = (rs, ctx', (w', log))
    \<and> (''http://a/3/1/2.png'', r) \<in> set log \<and> cu_code r = 200 \<and> rr_buf (rs ! 2) = cu_body r"
proof -
  let ?ctx = "\<lparr>hp_baseurl = ''a'', hp_cache = \<lparr>hp_stat = null_tile_stat () [] [] 0 0 0, hp_tile = [], hp_x = -1, hp_y = -1, hp_z = -1, hp_xmlname = []\<rparr>\<rparr>"
  have i: "init_storage_ro_http_proxy True True True (null_tile_stat () [] [] 0 0 0) ''ro_http_proxy://a'' = Some ?ctx" by (simp add: init_storage_ro_http_proxy_def)
  obtain rs ctx' w' log where r: "proxy_run one_tile ?ctx [ask 1, ask 4, ask 1] ((), []) = (rs, ctx', (w', log))" by (metis prod_cases4)
  have k: "ro_http_proxy_xyz_to_storagekey c 1 2 3 = ''http://a/3/1/2.png''" "ro_http_proxy_xyz_to_storagekey c 4 2 3 = ''http://a/3/4/2.png''"
    if "hp_baseurl c = ''a''" for c
  proof -
    have "show_int 1 = ''1''" "show_int 2 = ''2''" "show_int 3 = ''3''" "show_int 4 = ''4''" by code_simp+
    then show "ro_http_proxy_xyz_to_storagekey c 1 2 3 = ''http://a/3/1/2.png''" "ro_http_proxy_xyz_to_storagekey c 4 2 3 = ''http://a/3/4/2.png''"
      using that by (simp_all add: ro_http_proxy_xyz_to_storagekey_def snprintf_def PATH_MAX_def)
  qed
  have ok: "rr_ret (rs ! 2) = 2"
    using r by (auto simp: ask_def ro_http_proxy_tile_read_def ro_http_proxy_tile_retrieve_def logged_def one_tile_def k forget_def snprintf_def XMLCONFIG_MAX_def Let_def)
  from proxied_tile_is_its_own [OF i r, of 2] show ?thesis using r ok k [of ?ctx] by (fastforce simp: ask_def)
qed

end
