(* ===== verification/Tool_Options.thy ===== *)
theory Tool_Options
  imports Render_List Render_Old
begin

text \<open>
  The command lines of the tools (\<^verbatim>\<open>src/render_list.c\<close>, \<^verbatim>\<open>src/render_expired.c\<close>, \<^verbatim>\<open>src/render_old.c\<close>,
  \<^verbatim>\<open>src/render_speedtest.cpp\<close>) and the numbers on them (\<^verbatim>\<open>src/renderd_config.c\<close>), the four programs from their options
  on, and the tiles of the speed test. The options are those \<open>getopt_long\<close> delivers: a letter and, if it has one, its argument.
\<close>

section \<open>Floating point numbers in strings\<close>

text \<open>A finite number, an infinity (\<open>True\<close>: the negative one), or not a number.\<close>

datatype fnum = Fin rat | Inf bool | NaN

definition to_lower :: "char \<Rightarrow> char" where
  "to_lower c = (if 65 \<le> char_code c \<and> char_code c \<le> 90 then char_of (char_code c + 32) else c)"

definition hex_digit :: "char \<Rightarrow> nat option" where
  "hex_digit c =
     (if is_digit c then Some (digit_val c)
      else let k = char_code (to_lower c) in if 97 \<le> k \<and> k \<le> 102 then Some (k - 87) else None)"

definition is_hex :: "char \<Rightarrow> bool" where
  "is_hex c \<longleftrightarrow> hex_digit c \<noteq> None"

definition hex_val :: "string \<Rightarrow> nat" where
  "hex_val s = foldl (\<lambda>n c. 16 * n + (case hex_digit c of None \<Rightarrow> 0 | Some d \<Rightarrow> d)) 0 s"

text \<open>An exponent behind the given letter, zero if there is none.\<close>

definition scan_exponent :: "char \<Rightarrow> string \<Rightarrow> int" where
  "scan_exponent letter s =
     (case s of
        [] \<Rightarrow> 0
      | c # t \<Rightarrow>
          if to_lower c \<noteq> letter then 0
          else let neg = (t \<noteq> [] \<and> hd t = CHR ''-'');
                   u = (if t \<noteq> [] \<and> (hd t = CHR ''-'' \<or> hd t = CHR ''+'') then tl t else t);
                   ds = takeWhile is_digit u
               in if neg then - int (digits_val ds) else int (digits_val ds))"

text \<open>The digits before and behind the point, and the rest.\<close>

definition scan_mantissa :: "(char \<Rightarrow> bool) \<Rightarrow> string \<Rightarrow> string \<times> string \<times> string" where
  "scan_mantissa digit s =
     (let r = dropWhile digit s
      in if r \<noteq> [] \<and> hd r = CHR ''.'' then (takeWhile digit s, takeWhile digit (tl r), dropWhile digit (tl r))
         else (takeWhile digit s, [], r))"

text \<open>What \<open>strtod\<close> and \<open>strtof\<close> read, before rounding; \<open>None\<close>: nothing.\<close>

definition scan_number :: "string \<Rightarrow> fnum option" where
  "scan_number s =
     (let t = dropWhile is_space s;
          neg = (t \<noteq> [] \<and> hd t = CHR ''-'');
          u = (if t \<noteq> [] \<and> (hd t = CHR ''-'' \<or> hd t = CHR ''+'') then tl t else t);
          l = map to_lower u;
          sgn = (\<lambda>q :: rat. if neg then - q else q);
          (hi, hf, hr) = scan_mantissa is_hex (drop 2 u);
          (di, df, dr) = scan_mantissa is_digit u
      in if starts_with ''inf'' l then Some (Inf neg)
         else if starts_with ''nan'' l then Some NaN
         else if starts_with ''0x'' l \<and> hi @ hf \<noteq> []
         then Some (Fin (sgn (of_nat (hex_val (hi @ hf)) * 2 powi (scan_exponent (CHR ''p'') hr - 4 * int (length hf)))))
         else if di @ df = [] then None
         else Some (Fin (sgn (of_nat (digits_val (di @ df)) * 10 powi (scan_exponent (CHR ''e'') dr - int (length df))))))"

text \<open>
  Rounding to \<open>p\<close> bits, with the unit \<open>2 ^ emin\<close> for the smallest numbers and infinity from \<open>2 ^ emax\<close> on.
\<close>

definition ieee :: "int \<Rightarrow> int \<Rightarrow> int \<Rightarrow> rat \<Rightarrow> fnum" where
  "ieee p emin emax q =
     (if q = 0 then Fin 0
      else let u = 2 powi (max (expo \<bar>q\<bar> - (p - 1)) emin); r = of_int (round_even (\<bar>q\<bar> / u)) * u
           in if r \<ge> 2 powi emax then Inf (q < 0) else Fin (if q < 0 then - r else r))"

definition round_number :: "(rat \<Rightarrow> fnum) \<Rightarrow> fnum \<Rightarrow> fnum" where
  "round_number rnd v = (case v of Fin q \<Rightarrow> rnd q | w \<Rightarrow> w)"

definition float32 :: "rat \<Rightarrow> fnum" where
  "float32 = ieee 24 (-149) 128"

definition float64 :: "rat \<Rightarrow> fnum" where
  "float64 = ieee 53 (-1074) 1024"

text \<open>The comparison of two numbers; with a not-a-number it is false.\<close>

fun fless :: "fnum \<Rightarrow> fnum \<Rightarrow> bool" where
  "fless (Fin a) (Fin b) = (a < b)"
| "fless (Fin a) (Inf neg) = (\<not> neg)"
| "fless (Inf neg) (Fin b) = neg"
| "fless (Inf neg) (Inf neg') = (neg \<and> \<not> neg')"
| "fless NaN b = False"
| "fless a NaN = False"

section \<open>Numbers in options\<close>

text \<open>The bound \<open>-1\<close> means that there is none; \<open>Inl\<close> is the exit code.\<close>

definition min_max_double_opt :: "string \<Rightarrow> rat \<Rightarrow> rat \<Rightarrow> int + fnum" where
  "min_max_double_opt opt_arg minimum maximum =
     (case scan_number opt_arg of
        None \<Rightarrow> Inl 1
      | Some v \<Rightarrow>
          let opt = round_number float64 v
          in if minimum \<noteq> -1 \<and> fless opt (Fin minimum) then Inl 1
             else if maximum \<noteq> -1 \<and> fless (Fin maximum) opt then Inl 1
             else Inr opt)"

definition min_max_int_opt :: "string \<Rightarrow> int \<Rightarrow> int \<Rightarrow> int + int" where
  "min_max_int_opt opt_arg minimum maximum =
     (case (strtoi64 opt_arg, scan_number opt_arg) of
        (Some (v, _), Some f) \<Rightarrow>
          let opt = wrap32 v
          in if float32 (of_int opt) \<noteq> round_number float32 f then Inl 1
             else if minimum \<noteq> -1 \<and> opt < minimum then Inl 1
             else if maximum \<noteq> -1 \<and> opt > maximum then Inl 1
             else Inr opt
      | _ \<Rightarrow> Inl 1)"

section \<open>Options\<close>

text \<open>
  What the options shared by the tools leave behind; \<open>None\<close>: the option was not passed. An option function gives the
  exit code of the process (\<open>Inl\<close>) or the variables behind the option.
\<close>

record cli =
  cl_config :: "string option"
  cl_mapname :: "string option"
  cl_max_load :: "int option"
  cl_max_zoom :: "int option"
  cl_min_zoom :: "int option"
  cl_num_threads :: "int option"
  cl_socketname :: "string option"
  cl_tile_dir :: "string option"

definition then_set :: "int + 'v \<Rightarrow> ('v \<Rightarrow> 'a) \<Rightarrow> int + 'a" where
  "then_set r f = (case r of Inl e \<Rightarrow> Inl e | Inr v \<Rightarrow> Inr (f v))"

text \<open>\<open>None\<close>: none of the shared options. Help and version end the process with success.\<close>

definition common_option :: "(string \<Rightarrow> bool) \<Rightarrow> char \<Rightarrow> string \<Rightarrow> 'a cli_scheme \<Rightarrow> (int + 'a cli_scheme) option" where
  "common_option exists c arg cl =
     (if c = CHR ''c''
      then let name = take PATH_MAX arg in Some (if exists name then Inr (cl\<lparr>cl_config := Some name\<rparr>) else Inl 1)
      else if c = CHR ''m'' then Some (Inr (cl\<lparr>cl_mapname := Some (take XMLCONFIG_MAX arg)\<rparr>))
      else if c = CHR ''l'' then Some (then_set (min_max_int_opt arg 0 (-1)) (\<lambda>v. cl\<lparr>cl_max_load := Some v\<rparr>))
      else if c = CHR ''Z'' then Some (then_set (min_max_int_opt arg 0 MAX_ZOOM) (\<lambda>v. cl\<lparr>cl_max_zoom := Some v\<rparr>))
      else if c = CHR ''z'' then Some (then_set (min_max_int_opt arg 0 MAX_ZOOM) (\<lambda>v. cl\<lparr>cl_min_zoom := Some v\<rparr>))
      else if c = CHR ''n'' then Some (then_set (min_max_int_opt arg 1 (-1)) (\<lambda>v. cl\<lparr>cl_num_threads := Some v\<rparr>))
      else if c = CHR ''s'' then Some (Inr (cl\<lparr>cl_socketname := Some (take PATH_MAX arg)\<rparr>))
      else if c = CHR ''t'' then Some (Inr (cl\<lparr>cl_tile_dir := Some (take PATH_MAX arg)\<rparr>))
      else if c = CHR ''h'' \<or> c = CHR ''V'' then Some (Inl 0)
      else None)"

text \<open>The loop over the options.\<close>

fun run_options :: "(char \<Rightarrow> string \<Rightarrow> 'a \<Rightarrow> int + 'a) \<Rightarrow> (char \<times> string) list \<Rightarrow> 'a \<Rightarrow> int + 'a" where
  "run_options f [] a = Inr a"
| "run_options f ((c, arg) # opts) a = (case f c arg a of Inl e \<Rightarrow> Inl e | Inr a' \<Rightarrow> run_options f opts a')"

definition no_options :: cli where
  "no_options =
     \<lparr>cl_config = None, cl_mapname = None, cl_max_load = None, cl_max_zoom = None, cl_min_zoom = None, cl_num_threads = None,
      cl_socketname = None, cl_tile_dir = None\<rparr>"

text \<open>The largest latitude, as the compiler reads the literal.\<close>

definition max_latitude :: rat where
  "max_latitude = dbl (850511 / 10000)"

record list_cli = cli +
  lc_all :: bool
  lc_force :: bool
  lc_max_lat :: "fnum option"
  lc_max_lon :: "fnum option"
  lc_max_x :: "int option"
  lc_max_y :: "int option"
  lc_min_lat :: "fnum option"
  lc_min_lon :: "fnum option"
  lc_min_x :: "int option"
  lc_min_y :: "int option"

definition list_option :: "(string \<Rightarrow> bool) \<Rightarrow> char \<Rightarrow> string \<Rightarrow> list_cli \<Rightarrow> int + list_cli" where
  "list_option exists c arg cl =
     (case common_option exists c arg cl of
        Some r \<Rightarrow> r
      | None \<Rightarrow>
          if c = CHR ''a'' then Inr (cl\<lparr>lc_all := True\<rparr>)
          else if c = CHR ''f'' then Inr (cl\<lparr>lc_force := True\<rparr>)
          else if c = CHR ''G'' then then_set (min_max_double_opt arg (- max_latitude) max_latitude) (\<lambda>v. cl\<lparr>lc_max_lat := Some v\<rparr>)
          else if c = CHR ''W'' then then_set (min_max_double_opt arg (-180) 180) (\<lambda>v. cl\<lparr>lc_max_lon := Some v\<rparr>)
          else if c = CHR ''X'' then then_set (min_max_int_opt arg 0 (-1)) (\<lambda>v. cl\<lparr>lc_max_x := Some v\<rparr>)
          else if c = CHR ''Y'' then then_set (min_max_int_opt arg 0 (-1)) (\<lambda>v. cl\<lparr>lc_max_y := Some v\<rparr>)
          else if c = CHR ''g'' then then_set (min_max_double_opt arg (- max_latitude) max_latitude) (\<lambda>v. cl\<lparr>lc_min_lat := Some v\<rparr>)
          else if c = CHR ''w'' then then_set (min_max_double_opt arg (-180) 180) (\<lambda>v. cl\<lparr>lc_min_lon := Some v\<rparr>)
          else if c = CHR ''x'' then then_set (min_max_int_opt arg 0 (-1)) (\<lambda>v. cl\<lparr>lc_min_x := Some v\<rparr>)
          else if c = CHR ''y'' then then_set (min_max_int_opt arg 0 (-1)) (\<lambda>v. cl\<lparr>lc_min_y := Some v\<rparr>)
          else if c = CHR ''v'' then Inr cl
          else Inl 1)"

definition list_start :: list_cli where
  "list_start =
     cli.extend no_options
       (list_cli.fields False False None None None None None None None None)"

record expired_cli = cli +
  ec_delete_from :: "int option"
  ec_touch_from :: "int option"

definition expired_option :: "(string \<Rightarrow> bool) \<Rightarrow> char \<Rightarrow> string \<Rightarrow> expired_cli \<Rightarrow> int + expired_cli" where
  "expired_option exists c arg cl =
     (case common_option exists c arg cl of
        Some r \<Rightarrow> r
      | None \<Rightarrow>
          if c = CHR ''d'' then then_set (min_max_int_opt arg 0 MAX_ZOOM) (\<lambda>v. cl\<lparr>ec_delete_from := Some v\<rparr>)
          else if c = CHR ''T'' then then_set (min_max_int_opt arg 0 MAX_ZOOM) (\<lambda>v. cl\<lparr>ec_touch_from := Some v\<rparr>)
          else if c = CHR ''N'' \<or> c = CHR ''v'' then Inr cl
          else Inl 1)"

definition expired_start :: expired_cli where
  "expired_start = cli.extend no_options (expired_cli.fields None None)"

record old_cli = cli +
  oc_timestamp :: int

text \<open>
  The time of the planet: a day, month and year, counted by \<open>mktime\<close> in the zone of the process, or seconds. Years of two
  digits below seventy are those of this century.
\<close>

definition tm_year :: "int \<Rightarrow> int" where
  "tm_year yy = (let yy = (if yy > 100 then yy - 1900 else yy) in if yy < 70 then yy + 100 else yy)"

definition planet_timestamp_opt :: "(int \<Rightarrow> int \<Rightarrow> int \<Rightarrow> int) \<Rightarrow> string \<Rightarrow> int + int" where
  "planet_timestamp_opt mktime arg =
     (case fst (fscan3 (Some (CHR ''/'')) arg) of
        Some (dd, mm, yy) \<Rightarrow> Inr (mktime dd (mm - 1) (tm_year yy))
      | None \<Rightarrow> (case fst (fscan_int arg) of Some dd \<Rightarrow> Inr dd | None \<Rightarrow> Inl 1))"

definition old_option :: "(string \<Rightarrow> bool) \<Rightarrow> (int \<Rightarrow> int \<Rightarrow> int \<Rightarrow> int) \<Rightarrow> char \<Rightarrow> string \<Rightarrow> old_cli \<Rightarrow> int + old_cli" where
  "old_option exists mktime c arg cl =
     (case common_option exists c arg cl of
        Some r \<Rightarrow> r
      | None \<Rightarrow>
          if c = CHR ''T'' then then_set (planet_timestamp_opt mktime arg) (\<lambda>v. cl\<lparr>oc_timestamp := v\<rparr>)
          else if c = CHR ''v'' then Inr cl
          else Inl 1)"

definition old_start :: old_cli where
  "old_start = cli.extend no_options (old_cli.fields 0)"

text \<open>The speed test has neither a load nor a directory.\<close>

definition speedtest_option :: "(string \<Rightarrow> bool) \<Rightarrow> char \<Rightarrow> string \<Rightarrow> cli \<Rightarrow> int + cli" where
  "speedtest_option exists c arg cl =
     (if c = CHR ''l'' \<or> c = CHR ''t'' then Inl 1
      else case common_option exists c arg cl of Some r \<Rightarrow> r | None \<Rightarrow> Inl 1)"

section \<open>The programs\<close>

text \<open>The arguments of a program: the configuration file is read through \<open>load\<close>, which is \<open>None\<close> if it has no dictionary.\<close>

definition tool_args_of :: "(string \<Rightarrow> ini option) \<Rightarrow> 'a cli_scheme \<Rightarrow> tool_args" where
  "tool_args_of load cl =
     \<lparr>ta_config = map_option load (cl_config cl), ta_mapname = or_default (cl_mapname cl) XMLCONFIG_DEFAULT,
      ta_max_zoom = cl_max_zoom cl, ta_min_zoom = cl_min_zoom cl, ta_num_threads = cl_num_threads cl,
      ta_socketname = cl_socketname cl, ta_tile_dir = cl_tile_dir cl\<rparr>"

definition expired_main ::
    "(string \<Rightarrow> bool) \<Rightarrow> (string \<Rightarrow> ini option) \<Rightarrow> conf_defaults \<Rightarrow> (string \<Rightarrow> ('st storage_backend \<times> 'st) option)
      \<Rightarrow> (char \<times> string) list \<Rightarrow> string \<Rightarrow> (int + 'st expire_state) option" where
  "expired_main exists load cd init opts input =
     (case run_options (expired_option exists) opts expired_start of
        Inl e \<Rightarrow> Some (Inl e)
      | Inr cl \<Rightarrow> render_expired cd init (tool_args_of load cl) (ec_delete_from cl) (ec_touch_from cl) input)"

definition old_main ::
    "nat \<Rightarrow> (string \<Rightarrow> bool) \<Rightarrow> (int \<Rightarrow> int \<Rightarrow> int \<Rightarrow> int) \<Rightarrow> (string \<Rightarrow> ini option) \<Rightarrow> string \<Rightarrow> conf_defaults \<Rightarrow> (string \<Rightarrow> int option)
      \<Rightarrow> int \<Rightarrow> old_fs \<Rightarrow> (char \<times> string) list \<Rightarrow> (int + old_state option) option" where
  "old_main n exists mktime load config_default cd stat now fs opts =
     (case run_options (old_option exists mktime) opts old_start of
        Inl e \<Rightarrow> Some (Inl e)
      | Inr cl \<Rightarrow>
          render_old n cd stat now fs (load (or_default (cl_config cl) config_default)) (tool_args_of load cl) (cl_mapname cl \<noteq> None)
            (oc_timestamp cl))"

text \<open>
  A side of the bounding box that is not a number: both comparisons with it are false, as they are for two equal sides.
  \<open>None\<close> for the run then stands for the conversion of a not-a-number to a column, which C leaves undefined.
\<close>

definition sides :: "fnum option \<Rightarrow> fnum option \<Rightarrow> rat option \<times> rat option" where
  "sides lo hi =
     (case (lo, hi) of
        (Some (Fin a), Some (Fin b)) \<Rightarrow> (Some a, Some b)
      | _ \<Rightarrow> (map_option (\<lambda>_. 0) lo, map_option (\<lambda>_. 0) hi))"

definition list_args_of :: "list_cli \<Rightarrow> list_args" where
  "list_args_of cl =
     \<lparr>ll_all = lc_all cl, ll_force = lc_force cl, ll_min_x = lc_min_x cl, ll_max_x = lc_max_x cl, ll_min_y = lc_min_y cl,
      ll_max_y = lc_max_y cl, ll_min_lat = fst (sides (lc_min_lat cl) (lc_max_lat cl)), ll_min_lon = fst (sides (lc_min_lon cl) (lc_max_lon cl)),
      ll_max_lat = snd (sides (lc_min_lat cl) (lc_max_lat cl)), ll_max_lon = snd (sides (lc_min_lon cl) (lc_max_lon cl))\<rparr>"

definition box_undefined :: "list_cli \<Rightarrow> bool" where
  "box_undefined cl \<longleftrightarrow>
     lc_all cl \<and> list_bbox (list_args_of cl) \<noteq> None
       \<and> NaN \<in> the ` {lc_min_lat cl, lc_min_lon cl, lc_max_lat cl, lc_max_lon cl}"

text \<open>The functions of the C library on angles, and the row of a latitude.\<close>

record c_math =
  cm_sin :: "rat \<Rightarrow> rat"
  cm_cos :: "rat \<Rightarrow> rat"
  cm_tan :: "rat \<Rightarrow> rat"
  cm_log :: "rat \<Rightarrow> rat"

definition M_PI :: rat where
  "M_PI = dbl (314159265358979323846 / 100000000000000000000)"

definition lat2tiley :: "c_math \<Rightarrow> rat \<Rightarrow> int \<Rightarrow> int" where
  "lat2tiley cm lat z =
     (let latrad = ddiv (dmul lat M_PI) 180;
          l = cm_log cm (dadd (cm_tan cm latrad) (ddiv 1 (cm_cos cm latrad)))
      in \<lfloor>dmul (ddiv (dsub 1 (ddiv l M_PI)) 2) (2 ^ nat z)\<rfloor>)"

definition list_main ::
    "(string \<Rightarrow> bool) \<Rightarrow> (string \<Rightarrow> ini option) \<Rightarrow> conf_defaults \<Rightarrow> c_math \<Rightarrow> (string \<Rightarrow> ('st storage_backend \<times> 'st) option)
      \<Rightarrow> (char \<times> string) list \<Rightarrow> string \<Rightarrow> (int + list_state) option" where
  "list_main exists load cd cm init opts input =
     (case run_options (list_option exists) opts list_start of
        Inl e \<Rightarrow> Some (Inl e)
      | Inr cl \<Rightarrow>
          (case render_list cd (lat2tiley cm) init (tool_args_of load cl) (list_args_of cl) input of
             Some (Inr ls) \<Rightarrow> if box_undefined cl then None else Some (Inr ls)
           | r \<Rightarrow> r))"

section \<open>The speed test\<close>

text \<open>
  The tables of \<open>GoogleProjection\<close> at one zoom level: \<open>c\<close> is an \<open>int\<close> doubled at every level.
\<close>

definition pixels :: "int \<Rightarrow> int" where
  "pixels z = wrap32 (256 * 2 ^ nat z)"

definition minmax :: "rat \<Rightarrow> rat \<Rightarrow> rat \<Rightarrow> rat" where
  "minmax a b c = min (max a b) c"

text \<open>\<open>round\<close>: halves go away from zero.\<close>

definition round_away :: "rat \<Rightarrow> int" where
  "round_away q = (if q < 0 then - \<lfloor>1 / 2 - q\<rfloor> else \<lfloor>q + 1 / 2\<rfloor>)"

definition fromLLtoPixel :: "c_math \<Rightarrow> rat \<times> rat \<Rightarrow> int \<Rightarrow> rat \<times> rat" where
  "fromLLtoPixel cm p z =
     (case p of (x, y) \<Rightarrow>
        let d = of_int (cdiv (pixels z) 2);
            Bc = ddiv (of_int (pixels z)) 360;
            Cc = ddiv (of_int (pixels z)) (dmul 2 M_PI);
            lim = dbl (9999 / 10000);
            f = minmax (cm_sin cm (dmul (ddiv M_PI 180) y)) (- lim) lim;
            l = cm_log cm (ddiv (dadd 1 f) (dsub 1 f))
        in (of_int (round_away (dadd d (dmul x Bc))), of_int (round_away (dadd d (dmul (dmul (1 / 2) l) (- Cc))))))"

definition to_tile :: "rat \<Rightarrow> int" where
  "to_tile p = wrap32 (dtrunc (ddiv p 256))"

text \<open>The tiles of a zoom level over London, and their number as the messages count it.\<close>

definition speedtest_range :: "c_math \<Rightarrow> int \<Rightarrow> int \<times> int \<times> int \<times> int" where
  "speedtest_range cm z =
     (let (px0, py0) = fromLLtoPixel cm (- 1 / 2, 207 / 4) z;
          (px1, py1) = fromLLtoPixel cm (1 / 2, 205 / 4) z
      in (to_tile px0, to_tile px1, to_tile py0, to_tile py1))"

definition speedtest_zoom :: "c_math \<Rightarrow> int \<Rightarrow> (int \<times> int \<times> int) list \<times> int" where
  "speedtest_zoom cm z =
     (case speedtest_range cm z of (xmin, xmax, ymin, ymax) \<Rightarrow>
        (concat (map (\<lambda>x. map (\<lambda>y. (x, y, z)) [ymin..ymax]) [xmin..xmax]), (xmax - xmin + 1) * (ymax - ymin + 1)))"

text \<open>The calls of \<open>enqueue\<close>, starting with the one that warms up the daemon, and the total reported.\<close>

definition render_speedtest :: "c_math \<Rightarrow> tool_settings \<Rightarrow> tile_name list \<times> int" where
  "render_speedtest cm ts =
     (let runs = map (speedtest_zoom cm) [ts_min_zoom ts..ts_max_zoom ts]
      in (map (Pair (ts_mapname ts)) ((0, 0, 0) # concat (map fst runs)), sum_list (map snd runs)))"

definition speedtest_main ::
    "(string \<Rightarrow> bool) \<Rightarrow> (string \<Rightarrow> ini option) \<Rightarrow> conf_defaults \<Rightarrow> c_math \<Rightarrow> (char \<times> string) list
      \<Rightarrow> (int + tile_name list \<times> int) option" where
  "speedtest_main exists load cd cm opts =
     (case run_options (speedtest_option exists) opts no_options of
        Inl e \<Rightarrow> Some (Inl e)
      | Inr cl \<Rightarrow>
          (case tool_setup cd (tool_args_of load cl) of
             None \<Rightarrow> None
           | Some (Inl e) \<Rightarrow> Some (Inl e)
           | Some (Inr ts) \<Rightarrow> Some (Inr (render_speedtest cm ts))))"

section \<open>Accepted command lines\<close>

lemma min_max_int_opt_range:
  "min_max_int_opt arg lo hi = Inr v \<Longrightarrow> in_int32 v \<and> (lo \<noteq> -1 \<longrightarrow> lo \<le> v) \<and> (hi \<noteq> -1 \<longrightarrow> v \<le> hi)"
  by (auto simp: min_max_int_opt_def Let_def wrap32_range split: option.splits if_splits)

lemma min_max_int_opt_code: "min_max_int_opt arg lo hi = Inl e \<Longrightarrow> e = 1"
  by (auto simp: min_max_int_opt_def Let_def split: option.splits if_splits)

lemma min_max_double_opt_code: "min_max_double_opt arg lo hi = Inl e \<Longrightarrow> e = 1"
  by (auto simp: min_max_double_opt_def Let_def split: option.splits if_splits)

text \<open>A side of the bounding box within its limits, or not a number.\<close>

definition side_ok :: "rat \<Rightarrow> fnum \<Rightarrow> bool" where
  "side_ok m v = (case v of Fin q \<Rightarrow> - m \<le> q \<and> q \<le> m | Inf _ \<Rightarrow> False | NaN \<Rightarrow> True)"

lemma min_max_double_opt_range:
  assumes "min_max_double_opt arg (- m) m = Inr v" "m > 1"
  shows "side_ok m v"
proof -
  have "\<not> fless v (Fin (- m))" "\<not> fless (Fin m) v"
    using assms by (auto simp: min_max_double_opt_def Let_def split: option.splits if_splits)
  then show ?thesis by (cases v) (auto simp: side_ok_def)
qed

definition zoom_ok :: "int \<Rightarrow> bool" where
  "zoom_ok z \<longleftrightarrow> 0 \<le> z \<and> z \<le> MAX_ZOOM"

definition count_ok :: "int \<Rightarrow> int \<Rightarrow> bool" where
  "count_ok lo v \<longleftrightarrow> lo \<le> v \<and> v < 2 ^ 31"

definition cli_ok :: "(string \<Rightarrow> bool) \<Rightarrow> 'a cli_scheme \<Rightarrow> bool" where
  "cli_ok exists cl \<longleftrightarrow>
     pred_option (\<lambda>n. exists n \<and> length n \<le> PATH_MAX) (cl_config cl) \<and> pred_option (\<lambda>n. length n \<le> XMLCONFIG_MAX) (cl_mapname cl)
     \<and> pred_option (count_ok 0) (cl_max_load cl) \<and> pred_option zoom_ok (cl_max_zoom cl) \<and> pred_option zoom_ok (cl_min_zoom cl)
     \<and> pred_option (count_ok 1) (cl_num_threads cl)
     \<and> pred_option (\<lambda>n. length n \<le> PATH_MAX) (cl_socketname cl) \<and> pred_option (\<lambda>n. length n \<le> PATH_MAX) (cl_tile_dir cl)"

definition list_cli_ok :: "(string \<Rightarrow> bool) \<Rightarrow> list_cli \<Rightarrow> bool" where
  "list_cli_ok exists cl \<longleftrightarrow>
     cli_ok exists cl
     \<and> pred_option (count_ok 0) (lc_min_x cl) \<and> pred_option (count_ok 0) (lc_max_x cl)
     \<and> pred_option (count_ok 0) (lc_min_y cl) \<and> pred_option (count_ok 0) (lc_max_y cl)
     \<and> pred_option (side_ok max_latitude) (lc_min_lat cl) \<and> pred_option (side_ok max_latitude) (lc_max_lat cl)
     \<and> pred_option (side_ok 180) (lc_min_lon cl) \<and> pred_option (side_ok 180) (lc_max_lon cl)"

definition expired_cli_ok :: "(string \<Rightarrow> bool) \<Rightarrow> expired_cli \<Rightarrow> bool" where
  "expired_cli_ok exists cl \<longleftrightarrow> cli_ok exists cl \<and> pred_option zoom_ok (ec_delete_from cl) \<and> pred_option zoom_ok (ec_touch_from cl)"

text \<open>The option_outcome of an option: an exit code or well-formed variables.\<close>

definition option_outcome :: "('a \<Rightarrow> bool) \<Rightarrow> int + 'a \<Rightarrow> bool" where
  "option_outcome ok r = (case r of Inl e \<Rightarrow> e = 0 \<or> e = 1 | Inr a \<Rightarrow> ok a)"

lemma outcome_simps [simp]: "option_outcome ok (Inl e) \<longleftrightarrow> e = 0 \<or> e = 1" "option_outcome ok (Inr a) = ok a"
  by (simp_all add: option_outcome_def)

lemma outcome_int:
  assumes "\<And>v. in_int32 v \<Longrightarrow> (lo \<noteq> -1 \<longrightarrow> lo \<le> v) \<Longrightarrow> (hi \<noteq> -1 \<longrightarrow> v \<le> hi) \<Longrightarrow> ok (f v)"
  shows "option_outcome ok (then_set (min_max_int_opt arg lo hi) f)"
  using assms min_max_int_opt_range [of arg lo hi] min_max_int_opt_code [of arg lo hi]
  by (cases "min_max_int_opt arg lo hi") (auto simp: then_set_def)

lemma outcome_count: "(\<And>v. count_ok lo v \<Longrightarrow> ok (f v)) \<Longrightarrow> lo \<ge> 0 \<Longrightarrow> option_outcome ok (then_set (min_max_int_opt arg lo (-1)) f)"
  by (rule outcome_int) (simp add: count_ok_def in_int32_def)

lemma outcome_zoom: "(\<And>v. zoom_ok v \<Longrightarrow> ok (f v)) \<Longrightarrow> option_outcome ok (then_set (min_max_int_opt arg 0 MAX_ZOOM) f)"
  by (rule outcome_int) (simp add: zoom_ok_def MAX_ZOOM_def)

lemma outcome_side:
  assumes "m > 1" "\<And>v. side_ok m v \<Longrightarrow> ok (f v)"
  shows "option_outcome ok (then_set (min_max_double_opt arg (- m) m) f)"
  using assms min_max_double_opt_range [of arg m] min_max_double_opt_code [of arg "- m" m]
  by (cases "min_max_double_opt arg (- m) m") (auto simp: then_set_def)

lemma max_latitude_above: "max_latitude > 1"
proof -
  have "dbl (of_int 2) \<le> max_latitude" unfolding max_latitude_def by (rule dbl_mono) simp
  then show ?thesis using dbl_of_int [of 2] by simp
qed

lemmas outcome_rules = outcome_count outcome_zoom outcome_side outcome_side [of 180, simplified] max_latitude_above

text \<open>
  What an option function promises: from well-formed variables it comes to well-formed variables or to one of the
  exit codes.
\<close>

locale option_function =
  fixes ok :: "'a \<Rightarrow> bool" and option :: "char \<Rightarrow> string \<Rightarrow> 'a \<Rightarrow> int + 'a"
  assumes option_step: "ok a \<Longrightarrow> option_outcome ok (option c arg a)"
begin

lemma options_ok: "ok a \<Longrightarrow> option_outcome ok (run_options option opts a)"
proof (induction opts arbitrary: a)
  case (Cons o1 opts)
  obtain c arg where "o1 = (c, arg)" by fastforce
  then show ?case using Cons option_step [OF Cons.prems, of c arg] by (cases "option c arg a") auto
qed simp

end

lemma outcome_if: "option_outcome ok a \<Longrightarrow> option_outcome ok b \<Longrightarrow> option_outcome ok (if p then a else b)"
  by simp

lemma pred_option_if: "pred_option q a \<Longrightarrow> pred_option q b \<Longrightarrow> pred_option q (if p then a else b)"
  by simp

lemma pred_option_outcome: "option_outcome ok r \<Longrightarrow> pred_option (option_outcome ok) (Some r)"
  by simp

lemma common_option_pred:
  assumes "cli_ok exists cl"
  shows "pred_option (option_outcome (\<lambda>cl'. cli_ok exists cl' \<and> cli.more cl' = cli.more cl)) (common_option exists c arg cl)"
  unfolding common_option_def Let_def
  by (intro pred_option_if pred_option_outcome outcome_count outcome_zoom) (use assms in \<open>simp_all add: cli_ok_def\<close>)

lemma common_option_ok:
  "common_option exists c arg cl = Some r \<Longrightarrow> cli_ok exists cl \<Longrightarrow> option_outcome (\<lambda>cl'. cli_ok exists cl' \<and> cli.more cl' = cli.more cl) r"
  using common_option_pred [of exists cl c arg] by simp

lemma expired_more_eq: "cli.more (a :: expired_cli) = cli.more b \<longleftrightarrow> ec_delete_from a = ec_delete_from b \<and> ec_touch_from a = ec_touch_from b"
  by (cases a; cases b) auto

lemma cli_more_eq:
  "cli.more (a :: list_cli) = cli.more b \<longleftrightarrow>
     lc_all a = lc_all b \<and> lc_force a = lc_force b \<and> lc_max_lat a = lc_max_lat b \<and> lc_max_lon a = lc_max_lon b \<and> lc_max_x a = lc_max_x b
     \<and> lc_max_y a = lc_max_y b \<and> lc_min_lat a = lc_min_lat b \<and> lc_min_lon a = lc_min_lon b \<and> lc_min_x a = lc_min_x b \<and> lc_min_y a = lc_min_y b"
  by (cases a; cases b) auto

lemma outcome_mono: "option_outcome P r \<Longrightarrow> (\<And>a. P a \<Longrightarrow> Q a) \<Longrightarrow> option_outcome Q r"
  by (cases r) auto

interpretation list_options: option_function "list_cli_ok exists" "list_option exists" for exists
proof
  fix cl :: list_cli and c arg
  assume ok: "list_cli_ok exists cl"
  show "option_outcome (list_cli_ok exists) (list_option exists c arg cl)"
  proof (cases "common_option exists c arg cl")
    case None
    show ?thesis unfolding list_option_def None option.case
      by (intro outcome_if outcome_rules) (use ok in \<open>simp_all add: list_cli_ok_def cli_ok_def\<close>)
  next
    case (Some r)
    have "option_outcome (\<lambda>cl'. cli_ok exists cl' \<and> cli.more cl' = cli.more cl) r"
      using Some ok by (intro common_option_ok) (auto simp: list_cli_ok_def)
    then have "option_outcome (list_cli_ok exists) r"
      using ok by (elim outcome_mono) (auto simp: list_cli_ok_def cli_more_eq)
    then show ?thesis using Some by (simp add: list_option_def)
  qed
qed

interpretation expired_options: option_function "expired_cli_ok exists" "expired_option exists" for exists
proof
  fix cl :: expired_cli and c arg
  assume ok: "expired_cli_ok exists cl"
  show "option_outcome (expired_cli_ok exists) (expired_option exists c arg cl)"
  proof (cases "common_option exists c arg cl")
    case None
    show ?thesis unfolding expired_option_def None option.case
      by (intro outcome_if outcome_rules) (use ok in \<open>simp_all add: expired_cli_ok_def cli_ok_def\<close>)
  next
    case (Some r)
    have "option_outcome (\<lambda>cl'. cli_ok exists cl' \<and> cli.more cl' = cli.more cl) r"
      using Some ok by (intro common_option_ok) (auto simp: expired_cli_ok_def)
    then have "option_outcome (expired_cli_ok exists) r"
      using ok by (elim outcome_mono) (auto simp: expired_cli_ok_def expired_more_eq)
    then show ?thesis using Some by (simp add: expired_option_def)
  qed
qed

lemma common_option_outcome: "common_option exists c arg cl = Some r \<Longrightarrow> cli_ok exists cl \<Longrightarrow> option_outcome (cli_ok exists) r"
  by (drule common_option_ok) (auto elim: outcome_mono)

interpretation old_options: option_function "cli_ok exists" "old_option exists mktime" for exists mktime
proof
  fix cl :: old_cli and c arg
  assume ok: "cli_ok exists cl"
  have "option_outcome (cli_ok exists) (then_set (planet_timestamp_opt mktime arg) (\<lambda>v. cl\<lparr>oc_timestamp := v\<rparr>))"
    using ok by (auto simp: planet_timestamp_opt_def then_set_def cli_ok_def split: option.splits)
  then show "option_outcome (cli_ok exists) (old_option exists mktime c arg cl)"
    using ok common_option_outcome [of exists c arg cl] by (auto simp: old_option_def split: option.splits)
qed

interpretation speedtest_options: option_function "cli_ok exists" "speedtest_option exists" for exists
proof
  fix cl :: cli and c arg
  assume "cli_ok exists cl"
  then show "option_outcome (cli_ok exists) (speedtest_option exists c arg cl)"
    using common_option_outcome [of exists c arg cl] by (auto simp: speedtest_option_def split: option.splits)
qed

lemma starts_ok:
  "list_cli_ok exists list_start" "expired_cli_ok exists expired_start" "cli_ok exists old_start" "cli_ok exists no_options"
  by (simp_all add: list_cli_ok_def expired_cli_ok_def cli_ok_def list_start_def expired_start_def old_start_def no_options_def
      cli.extend_def list_cli.fields_def expired_cli.fields_def old_cli.fields_def)



section \<open>Decimal numerals\<close>

text \<open>A rounded number stays between the powers of two around it.\<close>

lemma ieee_binade:
  assumes "1 \<le> q" "0 < p" "emin \<le> 1 - int p"
  obtains r where "2 powi expo q \<le> r" "r \<le> 2 powi (expo q + 1)" "ieee (int p) emin emax q = (if r \<ge> 2 powi emax then Inf False else Fin r)"
proof -
  define u where "u = (2 :: rat) powi (expo q - (int p - 1))"
  define r where "r = of_int (round_even (q / u)) * u"
  have "expo q \<ge> 0" using assms(1) by (simp add: expo_def)
  then have "max (expo q - (int p - 1)) emin = expo q - (int p - 1)" using assms(3) by simp
  then have i: "ieee (int p) emin emax q = (if r \<ge> 2 powi emax then Inf False else Fin r)"
    using assms(1) by (simp add: ieee_def r_def u_def Let_def)
  have u: "0 < u" by (simp add: u_def)
  have e: "int (p - 1) + (expo q - (int p - 1)) = expo q" "int p + (expo q - (int p - 1)) = expo q + 1"
    using assms(2) by (simp_all add: of_nat_diff)
  have "(2 :: rat) powi (int m + (expo q - (int p - 1))) = of_int (2 ^ m) * u" for m
    by (subst power_int_add) (simp_all add: u_def)
  from this [of "p - 1"] this [of p] have b: "(2 :: rat) powi expo q = of_int (2 ^ (p - 1)) * u" "(2 :: rat) powi (expo q + 1) = of_int (2 ^ p) * u"
    unfolding e by auto
  have "of_int (2 ^ (p - 1)) \<le> q / u" "q / u \<le> of_int (2 ^ p)"
    using expo_bounds [of q] assms(1) u unfolding b by (simp_all add: field_simps)
  then have "(2 :: int) ^ (p - 1) \<le> round_even (q / u)" "round_even (q / u) \<le> 2 ^ p"
    using round_even_mono round_even_int by metis+
  then have "of_int (2 ^ (p - 1)) \<le> (of_int (round_even (q / u)) :: rat)" "(of_int (round_even (q / u)) :: rat) \<le> of_int (2 ^ p)"
    unfolding of_int_le_iff by auto
  then have "2 powi expo q \<le> r" "r \<le> 2 powi (expo q + 1)" unfolding b r_def using u mult_right_mono less_imp_le by blast+
  then show thesis using i by (rule that)
qed

lemma float32_binade:
  assumes "1 \<le> n"
  obtains r where "2 powi expo (of_int n) \<le> r" "r \<le> 2 powi (expo (of_int n) + 1)"
    "float32 (of_int n) = (if r \<ge> 2 powi 128 then Inf False else Fin r)"
  using ieee_binade [of "of_int n" 24 "-149" 128] assms by (auto simp: float32_def)

text \<open>The sign of a number, and its size behind rounding.\<close>

fun fneg :: "fnum \<Rightarrow> fnum" where
  "fneg (Fin q) = Fin (- q)"
| "fneg (Inf neg) = Inf (\<not> neg)"
| "fneg NaN = NaN"

lemma float32_minus: "float32 (- q) = fneg (float32 q)"
  by (simp add: float32_def ieee_def Let_def)

fun fabove :: "rat \<Rightarrow> fnum \<Rightarrow> bool" where
  "fabove b (Fin q) = (b \<le> q)"
| "fabove b (Inf neg) = (\<not> neg)"
| "fabove b NaN = False"

lemma float32_above:
  assumes "2 ^ k \<le> n"
  shows "fabove (2 ^ k) (float32 (of_int n))"
proof -
  have "(1 :: int) \<le> 2 ^ k" by simp
  then have n: "1 \<le> n" using assms by (rule order_trans)
  have "(2 :: rat) ^ k \<le> of_int n" using assms by (metis of_int_le_iff of_int_numeral of_int_power)
  then have "(2 :: rat) powi int k < 2 powi (expo (of_int n) + 1)"
    unfolding power_int_of_nat using expo_bounds(2) [of "of_int n"] n by linarith
  then have "int k \<le> expo (of_int n)" using powi_less_imp by fastforce
  then have "(2 :: rat) powi int k \<le> 2 powi expo (of_int n)" by (rule powi_mono2)
  then show ?thesis using float32_binade [OF n] by (metis fabove.simps(1,2) order_trans power_int_of_nat)
qed

lemma float32_small:
  assumes "0 \<le> n" "n \<le> 2 ^ 31"
  obtains r where "float32 (of_int n) = Fin r" "0 \<le> r" "r < 2 ^ 32"
proof -
  consider "n = 0" | "n = 2 ^ 31" | "1 \<le> n" "n < 2 ^ 31" using assms by linarith
  then show thesis
  proof cases
    case 1
    then show ?thesis by (intro that [of 0]) (simp_all add: float32_def ieee_def)
  next
    case 2
    have "expo (2 ^ 31) = 31" by (simp add: expo_def log2_up.simps)
    then have "float32 (2 ^ 31) = Fin (2 ^ 31)"
      using round_even_int [of "2 ^ 23"] by (simp add: float32_def ieee_def)
    then show ?thesis using 2 by (intro that [of "2 ^ 31"]) simp_all
  next
    case 3
    have "(of_int n :: rat) < 2 ^ 31" using 3(2) by (metis of_int_less_iff of_int_numeral of_int_power)
    then have "(2 :: rat) powi expo (of_int n) < 2 powi 31" using expo_bounds(1) [of "of_int n"] 3(1) by simp
    then have "expo (of_int n) + 1 \<le> 31" using powi_less_imp [of "expo (of_int n)" 31] by simp
    then have "(2 :: rat) powi (expo (of_int n) + 1) \<le> 2 powi 31" by (rule powi_mono2)
    then obtain r where r: "2 powi expo (of_int n) \<le> r" "r \<le> 2 powi 31" "float32 (of_int n) = (if r \<ge> 2 powi 128 then Inf False else Fin r)"
      using float32_binade [OF 3(1)] order_trans by metis
    moreover have "(2 :: rat) powi 31 < 2 powi 128" by simp
    ultimately have "float32 (of_int n) = Fin r" by auto
    moreover have "0 \<le> r" using r(1) zero_le_power_int [of "2 :: rat" "expo (of_int n)"] by linarith
    ultimately show ?thesis using r(2) by (intro that [of r]) auto
  qed
qed

lemma float32_far:
  assumes "- (2 ^ 31) \<le> i" "i \<le> 2 ^ 31" "2 ^ 31 \<le> j" "j < 2 ^ 32 \<longrightarrow> i \<le> 0"
  shows "float32 (of_int i) \<noteq> float32 (of_int j)"
proof (cases "i \<le> 0")
  case True
  then have "0 \<le> - i" "- i \<le> 2 ^ 31" using assms(1) by auto
  then obtain r where "float32 (of_int (- i)) = Fin r" "0 \<le> r" by (rule float32_small)
  then have "float32 (of_int i) = Fin (- r)" using float32_minus [of "of_int (- i)"] by simp
  then show ?thesis using float32_above [OF assms(3)] \<open>0 \<le> r\<close> by (cases "float32 (of_int j)") auto
next
  case False
  then have "2 ^ 32 \<le> j" "0 \<le> i" using assms(4) by auto
  then show ?thesis using float32_above [of 32 j] float32_small [OF _ assms(2)] by (metis fabove.simps(1) leD)
qed

lemma float32_separates:
  assumes "\<not> in_int32 n" "wrap32 (clamp64 n) = m"
  shows "float32 (of_int m) \<noteq> float32 (of_int n)"
proof -
  have m: "- (2 ^ 31) \<le> m" "m < 2 ^ 31" using wrap32_range [of "clamp64 n"] assms(2) by (simp_all add: in_int32_def)
  have "wrap32 n = n - 2 ^ 32" if "2 ^ 31 \<le> n" "n < 2 ^ 32"
    using that by (simp add: wrap32_def) (smt (verit) mod_add_self1 mod_pos_pos_trivial minus_mod_self2)
  moreover have "wrap32 n = n + 2 ^ 32" if "2 ^ 31 < - n" "- n < 2 ^ 32"
    using that by (simp add: wrap32_def) (smt (verit) mod_add_self2 mod_pos_pos_trivial)
  ultimately have w: "n < 2 ^ 32 \<Longrightarrow> 2 ^ 31 \<le> n \<Longrightarrow> m \<le> 0" "- n < 2 ^ 32 \<Longrightarrow> 2 ^ 31 < - n \<Longrightarrow> - m \<le> 0"
    using assms(2) by (auto simp: clamp64_def)
  consider "2 ^ 31 \<le> n" | "2 ^ 31 < - n" using assms(1) by (auto simp: in_int32_def)
  then show ?thesis
  proof cases
    case 1
    then show ?thesis using float32_far [of m n] w(1) m by simp
  next
    case 2
    then have "float32 (of_int (- m)) \<noteq> float32 (of_int (- n))" using w(2) m by (intro float32_far) auto
    then show ?thesis by (auto simp: float32_minus)
  qed
qed

lemma starts_with_set: "starts_with p s \<Longrightarrow> set p \<subseteq> set s"
  by (induction p s rule: starts_with.induct) auto

lemma digits_no_letter: "\<forall>c\<in>set ds. is_digit c \<Longrightarrow> \<not> is_digit d \<Longrightarrow> d \<notin> set (map to_lower ds)"
  by (auto simp: to_lower_def is_digit_def)

text \<open>A numeral: digits, with a minus sign or without a sign.\<close>

definition decimal :: "bool \<Rightarrow> string \<Rightarrow> string" where
  "decimal neg ds = (if neg then CHR ''-'' # ds else ds)"

definition decimal_value :: "bool \<Rightarrow> string \<Rightarrow> int" where
  "decimal_value neg ds = (if neg then - int (digits_val ds) else int (digits_val ds))"

lemma decimal_scanned:
  assumes "ds \<noteq> []" "\<forall>c\<in>set ds. is_digit c"
  shows "strtoi64 (decimal neg ds) = Some (clamp64 (decimal_value neg ds), [])" "scan_number (decimal neg ds) = Some (Fin (of_int (decimal_value neg ds)))"
proof -
  obtain d rest where ds: "ds = d # rest" "is_digit d" using assms by (cases ds) auto
  have d: "\<not> is_space d" "d \<noteq> CHR ''-''" "d \<noteq> CHR ''+''" "to_lower d = d"
    using ds(2) digit_not_space not_digit_minus by (auto simp: to_lower_def is_digit_def)
  have w: "takeWhile is_digit ds = ds" "dropWhile is_digit ds = []" using assms(2) by (auto simp: takeWhile_eq_all_conv)
  have "\<not> is_space (CHR ''-'')" by (simp add: is_space_def char_code_def)
  then have t: "dropWhile is_space (decimal neg ds) = decimal neg ds" using d(1) by (simp add: decimal_def ds(1))
  have u: "(if decimal neg ds \<noteq> [] \<and> (hd (decimal neg ds) = CHR ''-'' \<or> hd (decimal neg ds) = CHR ''+'') then tl (decimal neg ds) else decimal neg ds) = ds"
    "(decimal neg ds \<noteq> [] \<and> hd (decimal neg ds) = CHR ''-'') = neg"
    using d(2,3) by (auto simp: decimal_def ds(1))
  show "strtoi64 (decimal neg ds) = Some (clamp64 (decimal_value neg ds), [])"
    unfolding strtoi64_def Let_def t u w using assms(1) by (simp add: decimal_value_def)
  have l: "\<not> starts_with ''inf'' (map to_lower ds)" "\<not> starts_with ''nan'' (map to_lower ds)" "\<not> starts_with ''0x'' (map to_lower ds)"
  proof -
    have "CHR ''n'' \<notin> set (map to_lower ds)" "CHR ''x'' \<notin> set (map to_lower ds)"
      by (rule digits_no_letter [OF assms(2)]; simp add: is_digit_def char_code_def)+
    then show "\<not> starts_with ''inf'' (map to_lower ds)" "\<not> starts_with ''nan'' (map to_lower ds)" "\<not> starts_with ''0x'' (map to_lower ds)"
      using starts_with_set [of "''inf''" "map to_lower ds"] starts_with_set [of "''nan''" "map to_lower ds"]
        starts_with_set [of "''0x''" "map to_lower ds"] by auto
  qed
  have m: "scan_mantissa is_digit ds = (ds, [], [])" by (simp add: scan_mantissa_def w Let_def)
  show "scan_number (decimal neg ds) = Some (Fin (of_int (decimal_value neg ds)))"
    unfolding scan_number_def Let_def t u m using assms(1) l
    by (simp add: decimal_value_def scan_exponent_def split: prod.split)
qed

text \<open>
  An integer option given as a decimal numeral of any length is the number it denotes, or the process ends with code one; the latter
  exactly if the number does not fit an \<open>int\<close> or lies outside the limits of the option. The value \<open>strtol\<close> cuts off when it is
  stored into an \<open>int\<close> is always noticed by the comparison of the two \<open>float\<close>s, although a \<open>float\<close> has only 24 bits.
\<close>

theorem integer_option_reads_numeral:
  assumes "ds \<noteq> []" "\<forall>c\<in>set ds. is_digit c"
  shows "min_max_int_opt (decimal neg ds) lo hi =
    (let v = decimal_value neg ds
     in if in_int32 v \<and> (lo \<noteq> -1 \<longrightarrow> lo \<le> v) \<and> (hi \<noteq> -1 \<longrightarrow> v \<le> hi) then Inr v else Inl 1)"
proof (cases "in_int32 (decimal_value neg ds)")
  case True
  then have "clamp64 (decimal_value neg ds) = decimal_value neg ds" by (simp add: clamp64_def in_int32_def)
  then show ?thesis using True by (auto simp: min_max_int_opt_def decimal_scanned [OF assms] round_number_def Let_def)
next
  case False
  then show ?thesis
    using float32_separates [OF False refl] by (simp add: min_max_int_opt_def decimal_scanned [OF assms] round_number_def Let_def)
qed

theorem integer_option_reads_numeral_witness:
  "min_max_int_opt ''18'' 0 MAX_ZOOM = Inr 18 \<and> min_max_int_opt ''4294967298'' 0 (-1) = Inl 1 \<and> min_max_int_opt ''-1'' 1 (-1) = Inl 1"
proof -
  have v: "decimal_value False ''18'' = 18" "decimal_value False ''4294967298'' = 4294967298" "decimal_value True ''1'' = -1"
    by (simp_all add: decimal_value_def digits_val_def digit_val_def char_code_def)
  have n: "decimal False ''18'' = ''18''" "decimal False ''4294967298'' = ''4294967298''" "decimal True ''1'' = ''-1''"
    by (simp_all add: decimal_def)
  show ?thesis
    using integer_option_reads_numeral [of "''18''" False 0 MAX_ZOOM] integer_option_reads_numeral [of "''4294967298''" False 0 "-1"]
      integer_option_reads_numeral [of "''1''" True 1 "-1"]
    unfolding n v by (simp add: is_digit_def char_code_def in_int32_def MAX_ZOOM_def)
qed


section \<open>The tiles of a command line\<close>

lemma or_default_pred: "pred_option P v \<Longrightarrow> P d \<Longrightarrow> P (or_default v d)"
  by (cases v) (simp_all add: or_default_def)

lemma settings_zoom_ok:
  assumes "cli_ok exists cl" "tool_setup cd (tool_args_of load cl) = Some (Inr ts)"
  shows "zoom_ok (ts_min_zoom ts) \<and> zoom_ok (ts_max_zoom ts)"
proof -
  have z: "pred_option zoom_ok (cl_min_zoom cl)" "pred_option zoom_ok (cl_max_zoom cl)" using assms(1) by (simp_all add: cli_ok_def)
  have d: "zoom_ok 0" "zoom_ok MAX_ZOOM" by (simp_all add: zoom_ok_def MAX_ZOOM_def)
  show ?thesis
  proof (cases "cl_config cl")
    case None
    then have "ts_min_zoom ts = or_default (cl_min_zoom cl) 0" "ts_max_zoom ts = or_default (cl_max_zoom cl) MAX_ZOOM"
      using assms(2) by (auto simp: tool_setup_def tool_args_of_def Let_def split: if_splits)
    then show ?thesis using or_default_pred [OF z(1) d(1)] or_default_pred [OF z(2) d(2)] by simp
  next
    case (Some c)
    then obtain dc m where c: "process_config_file (load c) cd 0 = Some (Inr dc)" "find_map (ta_mapname (tool_args_of load cl)) (dc_maps dc) = Some m"
        and m: "ts_min_zoom ts = or_default (cl_min_zoom cl) (xi_min_zoom m)" "ts_max_zoom ts = or_default (cl_max_zoom cl) (xi_max_zoom m)"
      using assms(2) by (auto simp: tool_setup_def tool_args_of_def Let_def split: if_splits option.splits sum.splits)
    then have "map_ok m" using config_maps_ok find_map_in by (metis list_all_iff)
    then have "zoom_ok (xi_min_zoom m)" "zoom_ok (xi_max_zoom m)" by (auto simp: map_ok_def zoom_ok_def)
    then show ?thesis unfolding m using or_default_pred [OF z(1)] or_default_pred [OF z(2)] by blast
  qed
qed

lemma lon2tilex_nonneg: "- 180 \<le> lon \<Longrightarrow> 0 \<le> lon2tilex lon z"
proof -
  assume "- 180 \<le> lon"
  then have "dbl 0 \<le> dbl (lon + 180)" by (intro dbl_mono) simp
  then have "dbl 0 \<le> ddiv (dbl (lon + 180)) 360" unfolding ddiv_def by (intro dbl_mono) simp
  then have "dbl 0 \<le> dmul (ddiv (dbl (lon + 180)) 360) (2 ^ nat z)" unfolding dmul_def by (intro dbl_mono) simp
  then show ?thesis by (simp add: lon2tilex_def)
qed

lemma sides_within:
  assumes "pred_option (side_ok m) lo" "pred_option (side_ok m) hi" "0 \<le> m"
  shows "pred_option (\<lambda>q. - m \<le> q \<and> q \<le> m) (fst (sides lo hi))" "pred_option (\<lambda>q. - m \<le> q \<and> q \<le> m) (snd (sides lo hi))"
  using assms by (cases lo; cases hi; auto simp: sides_def side_ok_def split: fnum.splits)+

text \<open>A tile of its zoom level.\<close>

definition tile_ok :: "int \<times> int \<times> int \<Rightarrow> bool" where
  "tile_ok t = (case t of (x, y, z) \<Rightarrow> zoom_ok z \<and> 0 \<le> x \<and> x < 2 ^ nat z \<and> 0 \<le> y \<and> y < 2 ^ nat z)"

lemma range_tiles_ok:
  assumes "zoom_ok z" "0 \<le> x0" "0 \<le> y0" "x1 < 2 ^ nat z" "y1 < 2 ^ nat z"
  shows "\<forall>t\<in>set (range_tiles z (x0, y0, x1, y1)). tile_ok t"
  using assms by (auto simp: range_tiles_set stride_set tile_ok_def)

lemma cdiv_aligned_nonneg: "0 \<le> a \<Longrightarrow> 0 \<le> cdiv a METATILE * METATILE"
  by (simp add: cdiv_def METATILE_def sgn_if)

lemma list_range_within:
  assumes ok: "list_cli_ok exists cl" and z: "zoom_ok z" "ts_min_zoom ts \<le> z" "z \<le> ts_max_zoom ts"
    and good: "\<not> bad_range ts (list_args_of cl)"
    and lat: "\<forall>lat z. - max_latitude \<le> lat \<and> lat \<le> max_latitude \<and> zoom_ok z \<longrightarrow> 0 \<le> row lat z"
    and r: "list_range row (list_args_of cl) z = (x0, y0, x1, y1)"
  shows "0 \<le> x0 \<and> 0 \<le> y0 \<and> x1 < 2 ^ nat z \<and> y1 < 2 ^ nat z"
proof (cases "list_bbox (list_args_of cl)")
  case None
  have n: "pred_option (count_ok 0) (lc_min_x cl)" "pred_option (count_ok 0) (lc_min_y cl)" using ok by (simp_all add: list_cli_ok_def)
  have r': "x0 = or_default (lc_min_x cl) 0" "y0 = or_default (lc_min_y cl) 0" "x1 = or_default (lc_max_x cl) (2 ^ nat z - 1)"
      "y1 = or_default (lc_max_y cl) (2 ^ nat z - 1)"
    using r None by (simp_all add: list_range_def list_args_of_def)
  have zero: "count_ok 0 0" by (simp add: count_ok_def)
  have lower: "0 \<le> x0" "0 \<le> y0"
    unfolding r' using or_default_pred [OF n(1) zero] or_default_pred [OF n(2) zero] by (simp_all add: count_ok_def)
  have "v < 2 ^ nat z" if "lc_max_x cl = Some v \<or> lc_max_y cl = Some v" for v
  proof -
    have "by_numbers (list_args_of cl)" using that by (auto simp: by_numbers_def list_args_of_def)
    then have e: "ts_min_zoom ts = ts_max_zoom ts" using good by (auto simp: bad_range_def Let_def)
    then have ze: "ts_min_zoom ts = z" using z by simp
    have "(2 :: int) ^ nat z \<le> 2 ^ 20" using z(1) by (intro power_increasing) (auto simp: zoom_ok_def MAX_ZOOM_def)
    then have "in_int32 (2 ^ nat z)" by (simp add: in_int32_def) (metis (no_types) order_trans neg_le_0_iff_le zero_le_numeral zero_le_power)
    then have "v \<le> 2 ^ nat z - 1"
      using good e that unfolding ze bad_range_def Let_def by (auto simp: list_args_of_def or_default_def)
    then show ?thesis by simp
  qed
  then have "x1 < 2 ^ nat z" "y1 < 2 ^ nat z" unfolding r' by (auto simp: or_default_def split: option.splits)
  then show ?thesis using lower by simp
next
  case (Some b)
  obtain s w n e where b: "b = (s, w, n, e)" by (metis prod_cases4)
  have bl: "ll_min_lon (list_args_of cl) = Some w" "ll_max_lat (list_args_of cl) = Some n"
    using Some b by (auto simp: list_bbox_def split: option.splits)
  have o: "pred_option (side_ok 180) (lc_min_lon cl)" "pred_option (side_ok 180) (lc_max_lon cl)"
      "pred_option (side_ok max_latitude) (lc_min_lat cl)" "pred_option (side_ok max_latitude) (lc_max_lat cl)"
    using ok by (simp_all add: list_cli_ok_def)
  have side: "fst (sides (lc_min_lon cl) (lc_max_lon cl)) = Some w" "snd (sides (lc_min_lat cl) (lc_max_lat cl)) = Some n"
    using bl by (simp_all add: list_args_of_def)
  have "pred_option (\<lambda>q. - 180 \<le> q \<and> q \<le> 180) (Some w)" using sides_within(1) [OF o(1,2)] unfolding side by simp
  moreover have "0 \<le> max_latitude" using max_latitude_above by linarith
  then have "pred_option (\<lambda>q. - max_latitude \<le> q \<and> q \<le> max_latitude) (Some n)" using sides_within(2) [OF o(3,4)] unfolding side by blast
  ultimately have "- 180 \<le> w" "- max_latitude \<le> n \<and> n \<le> max_latitude" by simp_all
  then have "0 \<le> lon2tilex w z" "0 \<le> row n z" using lon2tilex_nonneg lat z(1) by blast+
  moreover have "x0 = cdiv (lon2tilex w z) METATILE * METATILE" "y0 = cdiv (row n z) METATILE * METATILE"
      "x1 = min (lon2tilex e z) (2 ^ nat z - 1)" "y1 = min (row s z) (2 ^ nat z - 1)"
    using r Some b by (simp_all add: list_range_def Let_def)
  ultimately show ?thesis using cdiv_aligned_nonneg by (metis min_less_iff_disj zle_diff1_eq order_refl)
qed

text \<open>
  What the tool relies on: the logarithm of a latitude within the limits is at most \<open>M_PI\<close>.
\<close>

definition mercator_within :: "c_math \<Rightarrow> bool" where
  "mercator_within cm \<longleftrightarrow>
     (\<forall>lat. - max_latitude \<le> lat \<and> lat \<le> max_latitude
        \<longrightarrow> (let r = ddiv (dmul lat M_PI) 180 in cm_log cm (dadd (cm_tan cm r) (ddiv 1 (cm_cos cm r))) \<le> M_PI))"

lemma M_PI_pos: "0 < M_PI"
proof -
  have "dbl (of_int 1) \<le> M_PI" unfolding M_PI_def by (rule dbl_mono) simp
  then show ?thesis using dbl_of_int [of 1] by simp
qed

lemma lat2tiley_nonneg:
  assumes "mercator_within cm" "- max_latitude \<le> lat" "lat \<le> max_latitude"
  shows "0 \<le> lat2tiley cm lat z"
proof -
  define l where "l = (let r = ddiv (dmul lat M_PI) 180 in cm_log cm (dadd (cm_tan cm r) (ddiv 1 (cm_cos cm r))))"
  have "l \<le> M_PI" using assms by (auto simp: mercator_within_def l_def Let_def)
  then have "ddiv l M_PI \<le> dbl (of_int 1)" unfolding ddiv_def using M_PI_pos by (intro dbl_mono) simp
  then have "ddiv l M_PI \<le> 1" using dbl_of_int [of 1] by simp
  then have "dbl 0 \<le> dsub 1 (ddiv l M_PI)" unfolding dsub_def by (intro dbl_mono) simp
  then have "dbl 0 \<le> ddiv (dsub 1 (ddiv l M_PI)) 2" unfolding ddiv_def [of "dsub 1 (ddiv l M_PI)"] by (intro dbl_mono) simp
  then have "dbl 0 \<le> dmul (ddiv (dsub 1 (ddiv l M_PI)) 2) (2 ^ nat z)" unfolding dmul_def by (intro dbl_mono) simp
  then show ?thesis by (simp add: lat2tiley_def l_def Let_def)
qed



definition sample_options :: "(char \<times> string) list" where
  "sample_options = [(CHR ''a'', []), (CHR ''f'', []), (CHR ''m'', ''osm'')]"

lemma sample_options_run:
  "run_options (list_option (\<lambda>_. True)) sample_options list_start
    = Inr (list_start\<lparr>lc_all := True, lc_force := True, cl_mapname := Some ''osm''\<rparr>)"
  by (simp add: sample_options_def list_option_def common_option_def XMLCONFIG_MAX_def)

lemma list_tiles_all:
  "ll_all a \<Longrightarrow> ts_min_zoom ts \<le> z \<Longrightarrow> z \<le> ts_max_zoom ts \<Longrightarrow> t \<in> set (range_tiles z (list_range lat a z)) \<Longrightarrow> t \<in> set (list_tiles lat ts a input)"
  by (auto simp: list_tiles_def)

definition sample_math :: c_math where
  "sample_math = \<lparr>cm_sin = (\<lambda>_. 0), cm_cos = (\<lambda>_. 1), cm_tan = (\<lambda>_. 0), cm_log = (\<lambda>_. 0)\<rparr>"


section \<open>The tiles of the speed test\<close>

lemma zoom_power: "zoom_ok z \<Longrightarrow> (2 :: int) ^ nat z \<le> 2 ^ 20"
  by (intro power_increasing) (auto simp: zoom_ok_def MAX_ZOOM_def)

lemma pixels_eq:
  assumes "zoom_ok z"
  shows "pixels z = 256 * 2 ^ nat z" "cdiv (pixels z) 2 = 128 * 2 ^ nat z"
proof -
  have "0 < 256 * (2 :: int) ^ nat z" "256 * (2 :: int) ^ nat z < 2147483648" using zoom_power [OF assms] by simp_all
  then have "in_int32 (256 * 2 ^ nat z)" unfolding in_int32_def by linarith
  then show p: "pixels z = 256 * 2 ^ nat z" by (simp add: pixels_def)
  show "cdiv (pixels z) 2 = 128 * 2 ^ nat z" by (simp add: p cdiv_def)
qed

text \<open>The total the speed test reports is the number of its requests behind the first one.\<close>

lemma speedtest_zoom_count:
  assumes "speedtest_range cm z = (xmin, xmax, ymin, ymax)" "xmin \<le> xmax + 1" "ymin \<le> ymax + 1"
  shows "snd (speedtest_zoom cm z) = int (length (fst (speedtest_zoom cm z)))"
proof -
  have "length (concat (map (\<lambda>x. map (\<lambda>y. (x, y, z)) ys) xs)) = length xs * length ys" for xs ys :: "int list"
    by (induction xs) simp_all
  then show ?thesis using assms(2,3) by (simp add: speedtest_zoom_def assms(1))
qed

lemma speedtest_total:
  assumes "\<forall>z\<in>{ts_min_zoom ts..ts_max_zoom ts}. case speedtest_range cm z of (xmin, xmax, ymin, ymax) \<Rightarrow> xmin \<le> xmax + 1 \<and> ymin \<le> ymax + 1"
    and "render_speedtest cm ts = (calls, num_all)"
  shows "num_all = int (length calls) - 1"
proof -
  have "snd (speedtest_zoom cm z) = int (length (fst (speedtest_zoom cm z)))" if "z \<in> set [ts_min_zoom ts..ts_max_zoom ts]" for z
  proof -
    obtain xmin xmax ymin ymax where "speedtest_range cm z = (xmin, xmax, ymin, ymax)" by (metis prod_cases4)
    then show ?thesis using assms(1) that speedtest_zoom_count by fastforce
  qed
  then have "sum_list (map snd (map (speedtest_zoom cm) zs)) = int (length (concat (map fst (map (speedtest_zoom cm) zs))))"
    if "set zs \<subseteq> set [ts_min_zoom ts..ts_max_zoom ts]" for zs
    using that by (induction zs) simp_all
  then show ?thesis using assms(2) by (auto simp: render_speedtest_def Let_def)
qed


text \<open>The text \<open>nan\<close> passes the limits of every option: the comparisons with it are false.\<close>

lemma nan_passes_limits: "min_max_double_opt ''nan'' lo hi = Inr NaN"
  by (simp add: min_max_double_opt_def scan_number_def scan_mantissa_def to_lower_def is_space_def char_code_def round_number_def Let_def
      split: prod.split)

end
