(* ===== verification/Archived_Tools.thy ===== *)
theory Archived_Tools
  imports Tool_Options
begin

text \<open>
  The tools kept under \<^verbatim>\<open>src/archived\<close>: the conversion of tiles between single files and metatiles (\<^verbatim>\<open>convert_meta.c\<close>) and the export of
  tiles from a table of a data base into files (\<^verbatim>\<open>mysql2file.c\<close>). The functions that convert one file are not part of the sources,
  nor is the data base: they are parameters, as is what \<open>mktime\<close> makes of a date.
\<close>

section \<open>Conversion of metatiles\<close>

text \<open>
  The operating system and the two conversions over a state \<open>'w\<close> of the file system, which the conversions change while
  the walk goes on: \<open>cv_readdir w dir k\<close> is what the call number \<open>k\<close> of \<open>readdir\<close> on a directory delivers in state \<open>w\<close>.
\<close>

record 'w convert_os =
  cv_opendir :: "'w \<Rightarrow> string \<Rightarrow> bool"
  cv_readdir :: "'w \<Rightarrow> string \<Rightarrow> nat \<Rightarrow> string option"
  cv_stat :: "'w \<Rightarrow> string \<Rightarrow> bool option"
  cv_unpack :: "string \<Rightarrow> string \<Rightarrow> 'w \<Rightarrow> 'w"
  cv_pack :: "string \<Rightarrow> string \<Rightarrow> 'w \<Rightarrow> 'w"

record convert_cli =
  cc_minZoom :: int
  cc_maxZoom :: int
  cc_map :: string
  cc_tile_dir :: string
  cc_unpack :: bool
  cc_verbose :: bool

definition convert_file :: "'w convert_os \<Rightarrow> bool \<Rightarrow> string \<Rightarrow> string \<Rightarrow> 'w \<Rightarrow> 'w" where
  "convert_file os unpack tile_dir path w =
     (case strrchr path (CHR ''.'') of
        None \<Rightarrow> w
      | Some (_, ext) \<Rightarrow>
          if unpack then if ext = ''meta'' then cv_unpack os tile_dir path w else w
          else if ext = ''png'' then cv_pack os tile_dir path w else w)"

text \<open>The recursion over directories, with a bound on the number of calls and entries; \<open>None\<close>: the bound was reached.\<close>

fun convert_descend :: "nat \<Rightarrow> 'w convert_os \<Rightarrow> bool \<Rightarrow> string \<Rightarrow> string \<Rightarrow> 'w \<Rightarrow> 'w option"
  and convert_entries :: "nat \<Rightarrow> 'w convert_os \<Rightarrow> bool \<Rightarrow> string \<Rightarrow> string \<Rightarrow> nat \<Rightarrow> 'w \<Rightarrow> 'w option" where
  "convert_descend 0 os unpack tile_dir search w = None"
| "convert_descend (Suc n) os unpack tile_dir search w =
     (if \<not> cv_opendir os w search then Some w else convert_entries n os unpack tile_dir search 0 w)"
| "convert_entries 0 os unpack tile_dir search k w = None"
| "convert_entries (Suc n) os unpack tile_dir search k w =
     (case cv_readdir os w search k of
        None \<Rightarrow> Some w
      | Some e \<Rightarrow>
          if e = ''.'' \<or> e = ''..'' then convert_entries n os unpack tile_dir search (Suc k) w
          else let path = child search e
               in case cv_stat os w path of
                    None \<Rightarrow> convert_entries n os unpack tile_dir search (Suc k) w
                  | Some True \<Rightarrow>
                      (case convert_descend n os unpack tile_dir path w of
                         None \<Rightarrow> None
                       | Some w' \<Rightarrow> convert_entries n os unpack tile_dir search (Suc k) w')
                  | Some False \<Rightarrow> convert_entries n os unpack tile_dir search (Suc k) (convert_file os unpack tile_dir path w))"

text \<open>\<open>atoi\<close>: a text that is not a number counts as zero.\<close>

definition atoi :: "string \<Rightarrow> int" where
  "atoi s = (case scan_int s of None \<Rightarrow> 0 | Some (v, _) \<Rightarrow> v)"

text \<open>An option; \<open>Inl\<close> is an exit code. The character of an unknown option is only reported.\<close>

definition convert_option :: "char \<Rightarrow> string \<Rightarrow> convert_cli \<Rightarrow> int + convert_cli" where
  "convert_option c optarg cl =
     (if c = CHR ''z''
      then let v = atoi optarg in if v < 0 \<or> v > MAX_ZOOM then Inl 1 else Inr (cl\<lparr>cc_minZoom := v\<rparr>)
      else if c = CHR ''Z''
      then let v = atoi optarg in if v < 0 \<or> v > MAX_ZOOM then Inl 1 else Inr (cl\<lparr>cc_maxZoom := v\<rparr>)
      else if c = CHR ''m'' then Inr (cl\<lparr>cc_map := optarg\<rparr>)
      else if c = CHR ''t'' then Inr (cl\<lparr>cc_tile_dir := optarg\<rparr>)
      else if c = CHR ''u'' then Inr (cl\<lparr>cc_unpack := True\<rparr>)
      else if c = CHR ''v'' then Inr (cl\<lparr>cc_verbose := True\<rparr>)
      else if c = CHR ''h'' then Inl (-1)
      else Inr cl)"

definition convert_start :: "string \<Rightarrow> convert_cli" where
  "convert_start tile_dir =
     \<lparr>cc_minZoom = 0, cc_maxZoom = MAX_ZOOM, cc_map = XMLCONFIG_DEFAULT, cc_tile_dir = tile_dir, cc_unpack = False, cc_verbose = False\<rparr>"

fun convert_zooms :: "nat \<Rightarrow> 'w convert_os \<Rightarrow> convert_cli \<Rightarrow> int list \<Rightarrow> 'w \<Rightarrow> 'w option" where
  "convert_zooms n os cl [] w = Some w"
| "convert_zooms n os cl (z # zs) w =
     (case convert_descend n os (cc_unpack cl) (cc_tile_dir cl)
             (snprintf PATH_MAX (cc_tile_dir cl @ ''/'' @ cc_map cl @ ''/'' @ show_int z)) w of
        None \<Rightarrow> None
      | Some w' \<Rightarrow> convert_zooms n os cl zs w')"

text \<open>
  The program: an exit code, and the state of the file system if the loop over the zoom levels was entered; \<open>None\<close>: the bound was
  reached. The three lines of its report come from two counters that no statement changes.
\<close>

record convert_result =
  cr_exit :: int
  cr_report :: "int list"

definition convert_main :: "nat \<Rightarrow> 'w convert_os \<Rightarrow> string \<Rightarrow> (char \<times> string) list \<Rightarrow> 'w \<Rightarrow> (convert_result \<times> 'w) option" where
  "convert_main n os tile_dir opts w =
     (case run_options convert_option opts (convert_start tile_dir) of
        Inl e \<Rightarrow> Some (\<lparr>cr_exit = e, cr_report = []\<rparr>, w)
      | Inr cl \<Rightarrow>
          if cc_maxZoom cl < cc_minZoom cl then Some (\<lparr>cr_exit = 1, cr_report = []\<rparr>, w)
          else let num_render = 0; num_all = 0
               in case convert_zooms n os cl [cc_minZoom cl..cc_maxZoom cl] w of
                    None \<Rightarrow> None
                  | Some w' \<Rightarrow> Some (\<lparr>cr_exit = 0, cr_report = [num_render, num_render * METATILE * METATILE, num_all]\<rparr>, w'))"

section \<open>What the conversion visits\<close>

text \<open>A directory tree as the walk may meet it; \<open>Gone\<close> is an entry that cannot be examined.\<close>

datatype fs_tree = Gone | Regular | Directory "(string \<times> fs_tree) list"

text \<open>The regular files in the order of the entries.\<close>

fun tree_files :: "string \<Rightarrow> fs_tree \<Rightarrow> string list" where
  "tree_files path Gone = []"
| "tree_files path Regular = [path]"
| "tree_files path (Directory es) = concat (map (\<lambda>(e, t). if e = ''.'' \<or> e = ''..'' then [] else tree_files (child path e) t) es)"

text \<open>The operating system shows the tree under a path, in every state: the conversions do not change the directories that are walked.\<close>

fun presents :: "'w convert_os \<Rightarrow> string \<Rightarrow> fs_tree \<Rightarrow> bool" where
  "presents os path Gone \<longleftrightarrow> (\<forall>w. cv_stat os w path = None)"
| "presents os path Regular \<longleftrightarrow> (\<forall>w. cv_stat os w path = Some False)"
| "presents os path (Directory es) \<longleftrightarrow>
     (\<forall>w. cv_stat os w path = Some True \<and> cv_opendir os w path
        \<and> (\<forall>k. cv_readdir os w path k = (if k < length es then Some (fst (es ! k)) else None)))
     \<and> (\<forall>(e, t) \<in> set es. e = ''.'' \<or> e = ''..'' \<or> presents os (child path e) t)"

text \<open>A bound for the calls of the walk.\<close>

fun walk_bound :: "fs_tree \<Rightarrow> nat" where
  "walk_bound Gone = 0"
| "walk_bound Regular = 0"
| "walk_bound (Directory es) = Suc (Suc (sum_list (map (\<lambda>(e, t). Suc (walk_bound t)) es)))"

abbreviation entries_bound :: "(string \<times> fs_tree) list \<Rightarrow> nat" where
  "entries_bound es \<equiv> Suc (sum_list (map (\<lambda>(e, t). Suc (walk_bound t)) es))"

abbreviation entries_files :: "string \<Rightarrow> (string \<times> fs_tree) list \<Rightarrow> string list" where
  "entries_files path es \<equiv> concat (map (\<lambda>(e, t). if e = ''.'' \<or> e = ''..'' then [] else tree_files (child path e) t) es)"

text \<open>The entries of one directory, when the walk is right for the directories below it.\<close>

lemma convert_entries_files:
  assumes walk: "\<And>e t n w. (e, t) \<in> set es \<Longrightarrow> \<not> (e = ''.'' \<or> e = ''..'') \<Longrightarrow> (\<exists>fs. t = Directory fs) \<Longrightarrow> walk_bound t \<le> n
      \<Longrightarrow> convert_descend n os unpack td (child path e) w = Some (fold (convert_file os unpack td) (tree_files (child path e) t) w)"
    and seen: "\<forall>w k. cv_readdir os w path k = (if k < length es then Some (fst (es ! k)) else None)"
      "\<forall>(e, t) \<in> set es. e = ''.'' \<or> e = ''..'' \<or> presents os (child path e) t"
    and bound: "entries_bound (drop k es) \<le> n" "k \<le> length es"
  shows "convert_entries n os unpack td path k w = Some (fold (convert_file os unpack td) (entries_files path (drop k es)) w)"
  using bound
proof (induction "length es - k" arbitrary: k n w)
  case 0
  then obtain m where "n = Suc m" by (cases n) simp_all
  then show ?case using 0 seen(1) by simp
next
  case (Suc d)
  then have k: "k < length es" by simp
  obtain m where n: "n = Suc m" using Suc.prems by (cases n) simp_all
  obtain e t where et: "es ! k = (e, t)" by fastforce
  then have mem: "(e, t) \<in> set es" using k by (metis nth_mem)
  have dr: "drop k es = (e, t) # drop (Suc k) es" using k et by (metis Cons_nth_drop_Suc)
  have b: "entries_bound (drop (Suc k) es) + walk_bound t \<le> m" using Suc.prems n dr by simp
  have IH: "convert_entries m os unpack td path (Suc k) w' = Some (fold (convert_file os unpack td) (entries_files path (drop (Suc k) es)) w')" for w'
    using Suc.hyps b k by (intro Suc.hyps(1)) simp_all
  have rd: "cv_readdir os w path k = Some e" using seen(1) k et by simp
  show ?case
  proof (cases "e = ''.'' \<or> e = ''..''")
    case True
    then show ?thesis using rd IH dr n by auto
  next
    case False
    then have sh: "presents os (child path e) t" using seen(2) mem by blast
    show ?thesis
    proof (cases t)
      case (Directory fs)
      then have "convert_descend m os unpack td (child path e) w = Some (fold (convert_file os unpack td) (tree_files (child path e) t) w)"
        using walk [OF mem False] b by simp
      then show ?thesis using rd IH dr n False sh Directory by (simp add: Let_def)
    qed (use rd IH dr n False sh in \<open>simp_all add: Let_def\<close>)
  qed
qed

lemma convert_descend_files:
  "presents os path t \<Longrightarrow> t = Directory es \<Longrightarrow> walk_bound t \<le> n
    \<Longrightarrow> convert_descend n os unpack td path w = Some (fold (convert_file os unpack td) (tree_files path t) w)"
proof (induction t arbitrary: path es n w)
  case (Directory ds)
  then have es: "ds = es" by simp
  obtain m where n: "n = Suc m" using Directory.prems(3) by (cases n) simp_all
  have "convert_entries m os unpack td path 0 w = Some (fold (convert_file os unpack td) (entries_files path (drop 0 ds)) w)"
  proof (rule convert_entries_files)
    fix e t n w
    assume "(e, t) \<in> set ds" "\<not> (e = ''.'' \<or> e = ''..'')" "\<exists>fs. t = Directory fs" "walk_bound t \<le> n"
    moreover from this have "presents os (child path e) t" using Directory.prems(1) by auto
    ultimately show "convert_descend n os unpack td (child path e) w = Some (fold (convert_file os unpack td) (tree_files (child path e) t) w)"
      using Directory.IH [of "(e, t)" t] by auto
  qed (use Directory.prems n in \<open>auto simp: es\<close>)
  then show ?case using Directory.prems(1) n by simp
qed simp_all
definition has_ext :: "string \<Rightarrow> string \<Rightarrow> bool" where
  "has_ext ext path = (case strrchr path (CHR ''.'') of None \<Rightarrow> False | Some (_, e) \<Rightarrow> e = ext)"

text \<open>The conversion applied to a list of files.\<close>

lemma fold_convert_file:
  "fold (convert_file os unpack td) ps w =
     (if unpack then fold (cv_unpack os td) (filter (has_ext ''meta'') ps) w else fold (cv_pack os td) (filter (has_ext ''png'') ps) w)"
  by (induction ps arbitrary: w) (auto simp: convert_file_def has_ext_def split: option.splits)

definition zoom_dir :: "convert_cli \<Rightarrow> int \<Rightarrow> string" where
  "zoom_dir cl z = snprintf PATH_MAX (cc_tile_dir cl @ ''/'' @ cc_map cl @ ''/'' @ show_int z)"

text \<open>A zoom level is shown as a tree, or its directory cannot be opened.\<close>

definition zoom_shown :: "'w convert_os \<Rightarrow> string \<Rightarrow> fs_tree \<Rightarrow> bool" where
  "zoom_shown os dir t \<longleftrightarrow> (case t of Gone \<Rightarrow> \<forall>w. \<not> cv_opendir os w dir | Regular \<Rightarrow> False | Directory es \<Rightarrow> presents os dir t)"

lemma convert_zooms_files:
  assumes "\<forall>z \<in> set zs. zoom_shown os (zoom_dir cl z) (T z)" "\<forall>z \<in> set zs. walk_bound (T z) \<le> n" "0 < n"
  shows "convert_zooms n os cl zs w
    = Some (fold (convert_file os (cc_unpack cl) (cc_tile_dir cl)) (concat (map (\<lambda>z. tree_files (zoom_dir cl z) (T z)) zs)) w)"
  using assms(1,2)
proof (induction zs arbitrary: w)
  case (Cons z zs)
  have "convert_descend n os (cc_unpack cl) (cc_tile_dir cl) (zoom_dir cl z) w
      = Some (fold (convert_file os (cc_unpack cl) (cc_tile_dir cl)) (tree_files (zoom_dir cl z) (T z)) w)"
  proof (cases "T z")
    case Gone
    then show ?thesis using Cons.prems(1) assms(3) by (cases n) (auto simp: zoom_shown_def)
  next
    case Regular
    then show ?thesis using Cons.prems(1) by (auto simp: zoom_shown_def)
  next
    case (Directory es)
    then have "presents os (zoom_dir cl z) (T z)" using Cons.prems(1) by (auto simp: zoom_shown_def)
    from convert_descend_files [OF this Directory] show ?thesis using Cons.prems(2) by simp
  qed
  then show ?case using Cons by (simp add: zoom_dir_def)
qed simp

text \<open>
  The conversion of a map. If the options are accepted with a minimum not above the maximum, and every zoom level in between either cannot
  be opened or shows a finite tree that the conversions leave alone, then the program ends with code zero, and it has applied its
  conversion exactly once to every file with its ending (metatiles when unpacking, single tiles otherwise), zoom level by zoom level and in the
  order of the directories' entries. Its report says nevertheless that no tile was converted.
\<close>

theorem convert_meta_converts_every_file:
  assumes "run_options convert_option opts (convert_start tile_dir) = Inr cl" "cc_minZoom cl \<le> cc_maxZoom cl"
    and "\<forall>z. cc_minZoom cl \<le> z \<and> z \<le> cc_maxZoom cl \<longrightarrow> zoom_shown os (zoom_dir cl z) (T z)"
    and "files = concat (map (\<lambda>z. tree_files (zoom_dir cl z) (T z)) [cc_minZoom cl..cc_maxZoom cl])"
  shows "\<exists>n. \<forall>m \<ge> n. convert_main m os tile_dir opts w = Some (\<lparr>cr_exit = 0, cr_report = [0, 0, 0]\<rparr>,
    if cc_unpack cl then fold (cv_unpack os (cc_tile_dir cl)) (filter (has_ext ''meta'') files) w
    else fold (cv_pack os (cc_tile_dir cl)) (filter (has_ext ''png'') files) w)"
proof -
  let ?zs = "[cc_minZoom cl..cc_maxZoom cl]"
  let ?n = "Suc (sum_list (map (\<lambda>z. walk_bound (T z)) ?zs))"
  have "convert_zooms m os cl ?zs w = Some (fold (convert_file os (cc_unpack cl) (cc_tile_dir cl)) files w)" if "?n \<le> m" for m
  proof -
    have "\<forall>z \<in> set ?zs. walk_bound (T z) \<le> m"
    proof
      fix z assume "z \<in> set ?zs"
      then have "walk_bound (T z) \<le> sum_list (map (\<lambda>z. walk_bound (T z)) ?zs)" by (intro member_le_sum_list) auto
      then show "walk_bound (T z) \<le> m" using that by simp
    qed
    moreover have "\<forall>z \<in> set ?zs. zoom_shown os (zoom_dir cl z) (T z)" using assms(3) by simp
    ultimately show ?thesis using convert_zooms_files [of ?zs os cl T m w] that assms(4) by simp
  qed
  then have "convert_main m os tile_dir opts w = Some (\<lparr>cr_exit = 0, cr_report = [0, 0, 0]\<rparr>, fold (convert_file os (cc_unpack cl) (cc_tile_dir cl)) files w)"
    if "?n \<le> m" for m
    using that assms(1,2) by (simp add: convert_main_def)
  then show ?thesis unfolding fold_convert_file by blast
qed

text \<open>A zoom level with one directory of two tiles; the state collects the converted files.\<close>

definition sample_tree :: fs_tree where
  "sample_tree = Directory [(''.'', Gone), (''7'', Directory [(''1.png'', Regular), (''0.meta'', Regular)]), (''x'', Gone)]"

definition sample_convert_os :: "string list convert_os" where
  "sample_convert_os =
     \<lparr>cv_opendir = (\<lambda>w d. d = ''/t/osm/3'' \<or> d = ''/t/osm/3/7''),
      cv_readdir = (\<lambda>w d k. if d = ''/t/osm/3'' then (if k < 3 then Some ([''.'', ''7'', ''x''] ! k) else None)
                            else if k < 2 then Some ([''1.png'', ''0.meta''] ! k) else None),
      cv_stat = (\<lambda>w p. if p = ''/t/osm/3/x'' then None else Some (p = ''/t/osm/3'' \<or> p = ''/t/osm/3/7'')),
      cv_unpack = (\<lambda>d p w. w), cv_pack = (\<lambda>d p w. w @ [p])\<rparr>"

theorem convert_meta_converts_every_file_witness:
  "\<exists>n. \<forall>m \<ge> n. convert_main m sample_convert_os ''/t'' [(CHR ''z'', ''3''), (CHR ''Z'', ''3''), (CHR ''m'', ''osm'')] []
     = Some (\<lparr>cr_exit = 0, cr_report = [0, 0, 0]\<rparr>, [''/t/osm/3/7/1.png''])"
proof -
  let ?opts = "[(CHR ''z'', ''3''), (CHR ''Z'', ''3''), (CHR ''m'', ''osm'')]"
  let ?cl = "\<lparr>cc_minZoom = 3, cc_maxZoom = 3, cc_map = ''osm'', cc_tile_dir = ''/t'', cc_unpack = False, cc_verbose = False\<rparr>"
  have o: "run_options convert_option ?opts (convert_start ''/t'') = Inr ?cl"
    by code_simp
  have d: "zoom_dir ?cl 3 = ''/t/osm/3''" by code_simp
  have c: "child ''/t/osm/3'' ''7'' = ''/t/osm/3/7''" "child ''/t/osm/3'' ''x'' = ''/t/osm/3/x''" "child ''/t/osm/3/7'' ''1.png'' = ''/t/osm/3/7/1.png''"
    "child ''/t/osm/3/7'' ''0.meta'' = ''/t/osm/3/7/0.meta''" by code_simp+
  have "presents sample_convert_os ''/t/osm/3'' sample_tree"
    by (auto simp: sample_tree_def sample_convert_os_def c less_Suc_eq numeral_eq_Suc)
  then have "\<forall>z. cc_minZoom ?cl \<le> z \<and> z \<le> cc_maxZoom ?cl \<longrightarrow> zoom_shown sample_convert_os (zoom_dir ?cl z) sample_tree"
    using d by (auto simp: zoom_shown_def sample_tree_def dest!: antisym)
  moreover have "concat (map (\<lambda>z. tree_files (zoom_dir ?cl z) sample_tree) [cc_minZoom ?cl..cc_maxZoom ?cl]) = [''/t/osm/3/7/1.png'', ''/t/osm/3/7/0.meta'']"
    by (simp add: d sample_tree_def c)
  moreover have "filter (has_ext ''png'') [''/t/osm/3/7/1.png'', ''/t/osm/3/7/0.meta''] = [''/t/osm/3/7/1.png'']" by code_simp
  ultimately show ?thesis
    using convert_meta_converts_every_file [OF o, of sample_convert_os "\<lambda>_. sample_tree" "[''/t/osm/3/7/1.png'', ''/t/osm/3/7/0.meta'']" "[]"]
    by (simp add: sample_convert_os_def)
qed

end
