(* ===== verification/Table_Export.thy ===== *)
theory Table_Export
  imports Store_File
begin

text \<open>
  The export of tiles from a table of a data base into files (\<^verbatim>\<open>src/archived/mysql2file.c\<close>). The rows the data base delivers are
  given, as is what \<open>mktime\<close> makes of a date; the file system is that of the file storage.
\<close>

section \<open>Export from a table\<close>

text \<open>The parts of a date that \<open>parseDate\<close> fills; the other parts are zero.\<close>

record date_tm =
  dt_year :: int
  dt_mon :: int
  dt_mday :: int
  dt_hour :: int
  dt_min :: int
  dt_sec :: int

text \<open>Numbers separated by the given characters, until a directive does not match; a blank of the format stands for any white space.\<close>

fun scan_fields :: "char list \<Rightarrow> string \<Rightarrow> int list" where
  "scan_fields cs s =
     (case scan_int s of
        None \<Rightarrow> []
      | Some (v, r) \<Rightarrow>
          v # (case cs of
                 [] \<Rightarrow> []
               | c # cs' \<Rightarrow>
                   (case (if c = CHR '' '' then Some (dropWhile is_space r) else scan_char c r) of
                      None \<Rightarrow> []
                    | Some r' \<Rightarrow> scan_fields cs' r')))"

declare scan_fields.simps [simp del]

definition parseDate :: "string \<Rightarrow> date_tm" where
  "parseDate str =
     (let vs = scan_fields ''-- ::'' str; f = (\<lambda>k. if k < length vs then vs ! k else 0)
      in \<lparr>dt_year = wrap32 (f 0 - 1900), dt_mon = f 1, dt_mday = f 2, dt_hour = f 3, dt_min = f 4, dt_sec = f 5\<rparr>)"

definition strtoul :: "string \<Rightarrow> nat" where
  "strtoul s =
     (let t = dropWhile is_space s;
          neg = (t \<noteq> [] \<and> hd t = CHR ''-'');
          u = (if t \<noteq> [] \<and> (hd t = CHR ''-'' \<or> hd t = CHR ''+'') then tl t else t);
          v = digits_val (takeWhile is_digit u)
      in if v \<ge> 2 ^ 64 then 2 ^ 64 - 1 else if neg then (2 ^ 64 - v) mod 2 ^ 64 else v)"

text \<open>
  The parents of a file. The copy into the buffer has no terminator if the name fills it (\<open>None\<close>); an error of \<open>mkdir\<close> is one
  for every reason.
\<close>

definition export_mkdirp :: "(string \<Rightarrow> bool) \<Rightarrow> dirs \<Rightarrow> string \<Rightarrow> (int \<times> dirs) option" where
  "export_mkdirp deny fs path =
     (if PATH_MAX \<le> length path then None
      else Some (case strrchr path (CHR ''/'') of
             None \<Rightarrow> (0, fs)
           | Some (par, _) \<Rightarrow>
               (case fs par of
                  Some n \<Rightarrow> (if n = FDir then 0 else 1, fs)
                | None \<Rightarrow> (case path of [] \<Rightarrow> (0, fs) | c # rest \<Rightarrow> mkdir_walk deny fs [c] rest))))"

text \<open>A row of the result; \<open>None\<close> is the null of the data base, for the data it has no bytes.\<close>

record tile_row =
  tw_x :: "string option"
  tw_y :: "string option"
  tw_z :: "string option"
  tw_data :: "byte list"
  tw_created_at :: "string option"

text \<open>The end of the program: a null that is read, the assertion on the columns, an exit code.\<close>

datatype export_end = ExportFault | ExportAbort | ExportExit int

record export_os =
  eo_env :: file_env
  eo_utime :: "string \<Rightarrow> bool"
  eo_mktime :: "date_tm \<Rightarrow> int"
  eo_num_fields :: nat

definition export_name :: "nat \<Rightarrow> nat \<Rightarrow> nat \<Rightarrow> string" where
  "export_name x y z =
     snprintf PATH_MAX (''/var/www/html'' @ ''/osm_tiles2'' @ ''/'' @ show_nat z @ ''/'' @ show_nat x @ ''/'' @ show_nat y @ ''.png'')"

definition parent_exists :: "dirs \<Rightarrow> string \<Rightarrow> bool" where
  "parent_exists fs path = (case strrchr path (CHR ''/'') of None \<Rightarrow> True | Some (par, _) \<Rightarrow> fs par = Some FDir)"

text \<open>
  One tile: the result of \<open>mkdirp\<close> is not looked at; the file is opened without being truncated, written from its start and given
  the time of the row.
\<close>

definition export_file :: "export_os \<Rightarrow> string \<Rightarrow> byte list \<Rightarrow> int \<Rightarrow> fsys \<Rightarrow> export_end option \<times> fsys" where
  "export_file os path data created_at fs =
     (case export_mkdirp (fe_deny (eo_env os)) (fs_nodes fs) path of
        None \<Rightarrow> (Some ExportFault, fs)
      | Some (_, nodes) \<Rightarrow>
          let fs1 = fs\<lparr>fs_nodes := nodes\<rparr>;
              old = (if fs_nodes fs1 path = Some FFile then fn_data (fs_file fs1 path) else []);
              now = fe_now (eo_env os)
          in if fs_nodes fs1 path = Some FDir \<or> \<not> fe_openable (eo_env os) path \<or> (fs_nodes fs1 path = None \<and> \<not> parent_exists nodes path)
             then (Some (ExportExit 1), fs1)
             else let n = fe_write (eo_env os) data;
                      fs2 = fs_put path \<lparr>fn_data = take (nat n) data @ drop (nat n) old, fn_mtime = now, fn_atime = now, fn_ctime = now\<rparr> fs1
                  in if n \<noteq> int (length data) then (Some (ExportExit 2), fs2)
                     else if \<not> eo_utime os path then (Some (ExportExit 3), fs2)
                     else (None, fs_put path ((fs_file fs2 path)\<lparr>fn_mtime := created_at, fn_atime := created_at\<rparr>) fs2))"

definition export_row :: "export_os \<Rightarrow> tile_row \<Rightarrow> fsys \<Rightarrow> export_end option \<times> fsys" where
  "export_row os r fs =
     (if eo_num_fields os \<noteq> 5 then (Some ExportAbort, fs)
      else case (tw_x r, tw_y r, tw_z r, tw_created_at r) of
             (Some x, Some y, Some z, Some c) \<Rightarrow>
               let created_at = eo_mktime os (parseDate c)
               in if tw_data r = [] then (None, fs)
                  else export_file os (export_name (strtoul x) (strtoul y) (strtoul z)) (tw_data r) created_at fs
           | _ \<Rightarrow> (Some ExportFault, fs))"

fun export_rows :: "export_os \<Rightarrow> tile_row list \<Rightarrow> fsys \<Rightarrow> export_end \<times> fsys" where
  "export_rows os [] fs = (ExportExit 0, fs)"
| "export_rows os (r # rs) fs =
     (case export_row os r fs of
        (Some e, fs') \<Rightarrow> (e, fs')
      | (None, fs') \<Rightarrow> export_rows os rs fs')"

text \<open>The program; \<open>rows\<close> are those \<open>mysql_fetch_row\<close> delivers until it returns null, at the end or after an error.\<close>

definition export_main :: "bool \<Rightarrow> bool \<Rightarrow> export_os \<Rightarrow> tile_row list \<Rightarrow> fsys \<Rightarrow> export_end \<times> fsys" where
  "export_main connected result os rows fs =
     (if \<not> connected then (ExportExit 1, fs)
      else if \<not> result then (ExportExit 1, fs)
      else export_rows os rows fs)"

section \<open>What the export leaves\<close>

lemma export_mkdirp_eq: "length path < PATH_MAX \<Longrightarrow> export_mkdirp deny fs path = Some (mkdirp deny fs path)"
  by (simp add: export_mkdirp_def mkdirp_def Let_def split: list.splits)

definition row_name :: "tile_row \<Rightarrow> string" where
  "row_name r = export_name (strtoul (the (tw_x r))) (strtoul (the (tw_y r))) (strtoul (the (tw_z r)))"

lemma export_name_short: "length (export_name x y z) < PATH_MAX"
  by (simp add: export_name_def snprintf_def PATH_MAX_def)

text \<open>Directories are all that is created on the way to a file.\<close>

lemma mkdir_walk_files: "mkdir_walk deny fs seen rest = (r, fs') \<Longrightarrow> fs' p = Some FFile \<Longrightarrow> fs p = Some FFile"
proof (induction rest arbitrary: fs seen)
  case (Cons c rest)
  then have "fs' = fs \<or> (\<exists>fs1. mkdir_walk deny fs1 (seen @ [c]) rest = (r, fs') \<and> (fs1 = fs \<or> fs1 = fs(seen \<mapsto> FDir)))"
    by (cases "fs seen"; cases "the (fs seen)") (auto split: if_splits)
  then show ?case using Cons.IH Cons.prems(2) by (fastforce split: if_splits)
qed simp

lemma mkdirp_files: "mkdirp deny fs path = (r, fs') \<Longrightarrow> fs' p = Some FFile \<longleftrightarrow> fs p = Some FFile"
proof
  assume m: "mkdirp deny fs path = (r, fs')"
  show "fs p = Some FFile" if "fs' p = Some FFile"
    using m that by (auto simp: mkdirp_def Let_def split: option.splits list.splits if_splits dest: mkdir_walk_files)
  show "fs' p = Some FFile" if "fs p = Some FFile"
    using mkdirp_keeps [OF m] that by (metis domI map_le_def)
qed

definition file_bytes :: "fsys \<Rightarrow> string \<Rightarrow> byte list" where
  "file_bytes fs p = (if fs_nodes fs p = Some FFile then fn_data (fs_file fs p) else [])"

lemma export_file_ok:
  assumes "export_file os path data c fs = (None, fs')" "length path < PATH_MAX"
  shows "fs_nodes fs' path = Some FFile \<and> file_bytes fs' path = data @ drop (length data) (file_bytes fs path) \<and> fn_mtime (fs_file fs' path) = c
    \<and> (\<forall>p. p \<noteq> path \<longrightarrow> (fs_nodes fs' p = Some FFile \<longleftrightarrow> fs_nodes fs p = Some FFile) \<and> fs_file fs' p = fs_file fs p)"
proof -
  obtain r nodes where m: "mkdirp (fe_deny (eo_env os)) (fs_nodes fs) path = (r, nodes)" by fastforce
  let ?old = "if nodes path = Some FFile then fn_data (fs_file fs path) else []" and ?now = "fe_now (eo_env os)"
  have "fs' = fs_put path \<lparr>fn_data = data @ drop (length data) ?old, fn_mtime = c, fn_atime = c, fn_ctime = ?now\<rparr>
      (fs_put path \<lparr>fn_data = data @ drop (length data) ?old, fn_mtime = ?now, fn_atime = ?now, fn_ctime = ?now\<rparr> (fs\<lparr>fs_nodes := nodes\<rparr>))"
    using assms(1) unfolding export_file_def export_mkdirp_eq [OF assms(2)] m by (simp add: Let_def fs_put_def split: if_splits)
  then show ?thesis using mkdirp_files [OF m] by (simp add: fs_put_def file_bytes_def)
qed

lemma export_row_ends: "export_row os r fs = (Some e, fs') \<Longrightarrow> e \<noteq> ExportExit 0"
  by (auto simp: export_row_def export_file_def Let_def split: if_splits option.splits prod.splits)

lemma export_row_ok:
  assumes "export_row os r fs = (None, fs')"
  obtains (skipped) "tw_data r = []" "fs' = fs"
  | (written) t where "tw_data r \<noteq> []" "tw_created_at r = Some t"
      "export_file os (row_name r) (tw_data r) (eo_mktime os (parseDate t)) fs = (None, fs')"
  using assms by (auto simp: export_row_def row_name_def Let_def split: if_splits option.splits)

lemma row_name_short: "length (row_name r) < PATH_MAX"
  by (simp add: row_name_def export_name_short)

abbreviation stored_rows :: "tile_row list \<Rightarrow> tile_row list" where
  "stored_rows rows \<equiv> filter (\<lambda>r. tw_data r \<noteq> []) rows"

lemma export_rows_frame:
  assumes "export_rows os rows fs = (ExportExit 0, fs')" "p \<notin> row_name ` set (stored_rows rows)"
  shows "(fs_nodes fs' p = Some FFile \<longleftrightarrow> fs_nodes fs p = Some FFile) \<and> fs_file fs' p = fs_file fs p"
  using assms
proof (induction rows arbitrary: fs)
  case (Cons r rows)
  obtain e fs1 where e: "export_row os r fs = (e, fs1)" by fastforce
  have n: "e = None" using Cons.prems(1) e export_row_ends [of os r fs] by (cases e) auto
  then have rest: "export_rows os rows fs1 = (ExportExit 0, fs')" using Cons.prems(1) e by simp
  from e n have "export_row os r fs = (None, fs1)" by simp
  then show ?case
  proof (cases rule: export_row_ok)
    case skipped
    then show ?thesis using Cons.IH [OF rest] Cons.prems(2) by simp
  next
    case (written t)
    then show ?thesis using Cons.IH [OF rest] Cons.prems(2) export_file_ok [OF written(3) row_name_short] by auto
  qed
qed simp

text \<open>
  C39. What the export leaves. If it ends with code zero and no two rows with data have the same tile, then for each of these rows the
  file of the tile exists, begins with the bytes of the row, and has the time the calendar makes of the row's date. As the file is not
  truncated, the bytes of an older and longer file stay behind them: the file is the tile exactly if there was no longer file before.
\<close>

theorem exported_tile_is_written:
  assumes "export_main True True os rows fs = (ExportExit 0, fs')" "r \<in> set rows" "tw_data r \<noteq> []"
    and "distinct (map row_name (stored_rows rows))"
  shows "\<exists>t. tw_created_at r = Some t \<and> fs_nodes fs' (row_name r) = Some FFile
    \<and> file_bytes fs' (row_name r) = tw_data r @ drop (length (tw_data r)) (file_bytes fs (row_name r))
    \<and> (file_bytes fs' (row_name r) = tw_data r \<longleftrightarrow> length (file_bytes fs (row_name r)) \<le> length (tw_data r))
    \<and> fn_mtime (fs_file fs' (row_name r)) = eo_mktime os (parseDate t)"
proof -
  have "\<exists>t. tw_created_at r = Some t \<and> fs_nodes fs' (row_name r) = Some FFile
    \<and> file_bytes fs' (row_name r) = tw_data r @ drop (length (tw_data r)) (file_bytes fs (row_name r))
    \<and> fn_mtime (fs_file fs' (row_name r)) = eo_mktime os (parseDate t)"
    using assms(1) [unfolded export_main_def, simplified] assms(2,4)
  proof (induction rows arbitrary: fs)
    case (Cons q rows)
    obtain e fs1 where e: "export_row os q fs = (e, fs1)" by fastforce
    have n: "e = None" using Cons.prems(1) e export_row_ends [of os q fs] by (cases e) auto
    then have rest: "export_rows os rows fs1 = (ExportExit 0, fs')" using Cons.prems(1) e by simp
    have d: "distinct (map row_name (stored_rows rows))" using Cons.prems(3) by (auto split: if_splits)
    from e n have "export_row os q fs = (None, fs1)" by simp
    then show ?case
    proof (cases rule: export_row_ok)
      case skipped
      then have "r \<in> set rows" using Cons.prems(2) assms(3) by auto
      then show ?thesis using Cons.IH [OF rest _ d] skipped by simp
    next
      case (written t)
      note ok = export_file_ok [OF written(3) row_name_short]
      have q: "row_name q \<notin> row_name ` set (stored_rows rows)" using Cons.prems(3) written(1) by simp
      show ?thesis
      proof (cases "r = q")
        case True
        then show ?thesis using written ok export_rows_frame [OF rest q] by (auto simp: file_bytes_def)
      next
        case False
        then have "r \<in> set rows" using Cons.prems(2) by simp
        moreover from this have "row_name r \<noteq> row_name q" using q assms(3) by (auto simp: image_iff)
        moreover from this have "file_bytes fs1 (row_name r) = file_bytes fs (row_name r)" using ok by (simp add: file_bytes_def)
        ultimately show ?thesis using Cons.IH [OF rest _ d] by simp
      qed
    qed
  qed simp
  then show ?thesis by auto
qed

text \<open>Reading a date as the data base prints it: the month is stored as printed, whereas the calendar counts from zero.\<close>

definition pad2 :: "nat \<Rightarrow> string" where
  "pad2 n = [digit_char (n div 10), digit_char (n mod 10)]"

definition date_text :: "nat \<Rightarrow> nat \<Rightarrow> nat \<Rightarrow> nat \<Rightarrow> nat \<Rightarrow> nat \<Rightarrow> string" where
  "date_text y mo d h mi s =
     show_nat y @ ''-'' @ pad2 mo @ ''-'' @ pad2 d @ '' '' @ pad2 h @ '':'' @ pad2 mi @ '':'' @ pad2 s"

lemma scan_int_pad2:
  assumes "n < 100" "no_digit_head r"
  shows "scan_int (pad2 n @ r) = Some (int n, r)"
proof -
  have d: "n div 10 < 10" using assms(1) by simp
  have stop: "takeWhile is_digit r = []" "dropWhile is_digit r = r" using takeWhile_digits [of "[]" r] assms(2) by simp_all
  have "digits_val (pad2 n) = n" using d by (simp add: digits_val_def pad2_def)
  moreover have hd: "is_digit (hd (pad2 n))" and "pad2 n \<noteq> []" using d by (simp_all add: pad2_def)
  moreover have "dropWhile is_space (pad2 n @ r) = pad2 n @ r" using d by (simp add: pad2_def digit_not_space)
  moreover have "hd (pad2 n) \<noteq> CHR ''-''" "hd (pad2 n) \<noteq> CHR ''+''" using hd by (metis not_digit_minus(1), metis not_digit_minus(2))
  moreover have "\<forall>c \<in> set (pad2 n). is_digit c" using d by (simp add: pad2_def)
  ultimately show ?thesis
    using assms(1) stop by (simp add: scan_int_def Let_def clamp64_id in_int32_def)
qed

lemma pad2_no_space: "n < 100 \<Longrightarrow> dropWhile is_space (pad2 n @ r) = pad2 n @ r"
  by (simp add: pad2_def digit_not_space)

lemma export_date_month:
  assumes "y < 10000" "mo < 100" "d < 100" "h < 100" "mi < 100" "s < 100"
  shows "parseDate (date_text y mo d h mi s) =
    \<lparr>dt_year = int y - 1900, dt_mon = int mo, dt_mday = int d, dt_hour = int h, dt_min = int mi, dt_sec = int s\<rparr>"
proof -
  have nd: "no_digit_head (CHR ''-'' # t)" "no_digit_head (CHR '' '' # t)" "no_digit_head (CHR '':'' # t)" "no_digit_head []" for t
    by (simp_all add: no_digit_head_def is_digit_def char_code_def)
  have sp: "is_space (CHR '' '')" by (simp add: is_space_def char_code_def)
  have y: "scan_int (show_nat y @ CHR ''-'' # t) = Some (int y, CHR ''-'' # t)" for t using assms(1) nd by (intro scan_int_show_nat) simp_all
  have p: "scan_int (pad2 s) = Some (int s, [])" using scan_int_pad2 [OF assms(6) nd(4)] by simp
  have "scan_fields ''-- ::'' (date_text y mo d h mi s) = [int y, int mo, int d, int h, int mi, int s]"
    unfolding date_text_def
    by (simp add: scan_fields.simps y scan_char_def scan_int_pad2 nd sp pad2_no_space assms p)
  moreover have "wrap32 (int y - 1900) = int y - 1900" using assms(1) by (simp add: wrap32_def)
  ultimately show ?thesis by (simp add: parseDate_def Let_def)
qed

text \<open>Two rows, one without data; the longer file of an earlier export is in the way of the other.\<close>

definition sample_row :: tile_row where
  "sample_row = \<lparr>tw_x = Some ''3'', tw_y = Some ''2'', tw_z = Some ''4'', tw_data = [7, 8], tw_created_at = Some ''2007-05-20 13:51:35''\<rparr>"

definition export_fs :: fsys where
  "export_fs = \<lparr>fs_nodes = [''/var/www/html/osm_tiles2/4/3'' \<mapsto> FDir, ''/var/www/html/osm_tiles2/4/3/2.png'' \<mapsto> FFile],
    fs_file = (\<lambda>_. \<lparr>fn_data = [1, 2, 3], fn_mtime = 0, fn_atime = 0, fn_ctime = 0\<rparr>)\<rparr>"

definition sample_export_os :: export_os where
  "sample_export_os = \<lparr>eo_env = sample_env, eo_utime = (\<lambda>_. True), eo_mktime = (\<lambda>t. dt_mon t), eo_num_fields = 5\<rparr>"

lemma sample_name: "export_name (strtoul ''3'') (strtoul ''2'') (strtoul ''4'') = ''/var/www/html/osm_tiles2/4/3/2.png''"
proof -
  have u: "strtoul ''3'' = 3" "strtoul ''2'' = 2" "strtoul ''4'' = 4"
    by (simp_all add: strtoul_def digits_val_def is_space_def is_digit_def digit_val_def char_code_def)
  have "show_nat 3 = ''3''" "show_nat 2 = ''2''" "show_nat 4 = ''4''" by code_simp+
  then show ?thesis unfolding u by (simp add: export_name_def snprintf_def PATH_MAX_def)
qed

lemma sample_row_name: "row_name sample_row = ''/var/www/html/osm_tiles2/4/3/2.png''"
  by (simp add: row_name_def sample_row_def sample_name)

lemma sample_export:
  "\<exists>fs'. export_main True True sample_export_os [sample_row\<lparr>tw_data := []\<rparr>, sample_row] export_fs = (ExportExit 0, fs')"
proof -
  have m: "export_mkdirp deny (fs_nodes export_fs) ''/var/www/html/osm_tiles2/4/3/2.png'' = Some (0, fs_nodes export_fs)" for deny
    by (simp add: export_mkdirp_def PATH_MAX_def strrchr_def export_fs_def)
  have "fst (export_file sample_export_os ''/var/www/html/osm_tiles2/4/3/2.png'' [7, 8] c export_fs) = None" for c
    unfolding export_file_def m by (simp add: Let_def sample_export_os_def sample_env_def export_fs_def)
  then obtain fs' where f: "export_file sample_export_os ''/var/www/html/osm_tiles2/4/3/2.png'' [7, 8] (eo_mktime sample_export_os (parseDate ''2007-05-20 13:51:35'')) export_fs
      = (None, fs')" by (metis prod.collapse)
  have "eo_num_fields sample_export_os = 5" by (simp add: sample_export_os_def)
  then show ?thesis using f by (simp add: export_main_def export_row_def sample_row_def sample_name Let_def)
qed

theorem exported_tile_is_written_witness:
  "\<exists>fs'. export_main True True sample_export_os [sample_row\<lparr>tw_data := []\<rparr>, sample_row] export_fs = (ExportExit 0, fs')
    \<and> file_bytes fs' ''/var/www/html/osm_tiles2/4/3/2.png'' = [7, 8, 3]"
proof -
  obtain fs' where r: "export_main True True sample_export_os [sample_row\<lparr>tw_data := []\<rparr>, sample_row] export_fs = (ExportExit 0, fs')"
    using sample_export by blast
  have "sample_row \<in> set [sample_row\<lparr>tw_data := []\<rparr>, sample_row]" "tw_data sample_row = [7, 8]"
      "distinct (map row_name (stored_rows [sample_row\<lparr>tw_data := []\<rparr>, sample_row]))"
    by (simp_all add: sample_row_def)
  then have "file_bytes fs' (row_name sample_row) = [7, 8] @ drop 2 (file_bytes export_fs (row_name sample_row))"
    using exported_tile_is_written [OF r, of sample_row] by (auto simp: numeral_2_eq_2)
  then show ?thesis using r by (simp add: sample_row_name file_bytes_def export_fs_def)
qed

end
