(* ===== verification/Renderd_Exit.thy ===== *)
theory Renderd_Exit
  imports Renderd
begin

text \<open>
  The end of the daemon (\<^verbatim>\<open>src/renderd.c\<close>): the handler of the signals writes a byte to a pipe that the event loop polls together with its
  sockets. The operating system of the event loop is extended by the pipe and by the signals: \<open>sig k\<close> tells whether one arrives
  before the call number \<open>k\<close> of \<open>poll\<close> or while it waits.
\<close>

section \<open>The pipe\<close>

text \<open>
  The static variable \<open>exit_pipe_fd\<close>, which is zero until the loop has created the pipe; the pipe's end for writing; the bytes in
  the pipe; and the descriptors that got a byte meant for the pipe.
\<close>

record exit_pipe =
  ex_fd :: int
  ex_pipe :: "int option"
  ex_bytes :: nat
  ex_stray :: "int list"

definition exit_pipe_init :: exit_pipe where
  "exit_pipe_init = \<lparr>ex_fd = 0, ex_pipe = None, ex_bytes = 0, ex_stray = []\<rparr>"

definition request_exit :: "exit_pipe \<Rightarrow> exit_pipe" where
  "request_exit ep =
     (if ex_pipe ep = Some (ex_fd ep) then ep\<lparr>ex_bytes := ex_bytes ep + 1\<rparr> else ep\<lparr>ex_stray := ex_stray ep @ [ex_fd ep]\<rparr>)"

text \<open>The beginning of \<open>process_loop\<close>; \<open>None\<close>: there is no pipe and the function returns.\<close>

definition open_exit_pipe :: "(int \<times> int) option \<Rightarrow> exit_pipe \<Rightarrow> exit_pipe option" where
  "open_exit_pipe pipefds ep =
     (case pipefds of None \<Rightarrow> None | Some (exit_pipe_read, w) \<Rightarrow> Some (ep\<lparr>ex_fd := w, ex_pipe := Some w, ex_bytes := 0\<rparr>))"

section \<open>The event loop with signals\<close>

type_synonym 's exit_state = "'s \<times> exit_pipe \<times> nat"

definition lift_os :: "('s \<Rightarrow> 'a \<times> 's) \<Rightarrow> 's exit_state \<Rightarrow> 'a \<times> 's exit_state" where
  "lift_os f w = (case f (fst w) of (r, s) \<Rightarrow> (r, (s, snd w)))"

definition exit_sock :: "'s sock_os \<Rightarrow> 's exit_state sock_os" where
  "exit_sock so = \<lparr>so_getsockopt = (\<lambda>w fd. so_getsockopt so (fst w) fd), so_send = (\<lambda>w fd bs. lift_os (\<lambda>s. so_send so s fd bs) w),
     so_recv = (\<lambda>w fd n b. lift_os (\<lambda>s. so_recv so s fd n b) w)\<rparr>"

text \<open>A signal during the call interrupts it, and it returns \<open>-1\<close>; otherwise a byte in the pipe makes that readable.\<close>

datatype arrival = NoSignal | BeforePoll | DuringPoll

definition exit_poll :: "'s daemon_os \<Rightarrow> (nat \<Rightarrow> arrival) \<Rightarrow> 's exit_state \<Rightarrow> int list \<Rightarrow> poll_result \<times> 's exit_state" where
  "exit_poll os sig w fds =
     (case w of (s, ep, k) \<Rightarrow>
        if sig k = DuringPoll then (\<lparr>po_num = -1, po_exit = False, po_listen = False, po_ready = (\<lambda>_. False)\<rparr>, (s, request_exit ep, Suc k))
        else let ep = (if sig k = BeforePoll then request_exit ep else ep)
             in case do_poll os s fds of
                  (p, s') \<Rightarrow> (if ex_bytes ep > 0 then p\<lparr>po_num := max 1 (po_num p), po_exit := True\<rparr> else p\<lparr>po_exit := False\<rparr>, (s', ep, Suc k)))"

definition exit_os :: "'s daemon_os \<Rightarrow> (nat \<Rightarrow> arrival) \<Rightarrow> 's exit_state daemon_os" where
  "exit_os os sig = \<lparr>do_sock = exit_sock (do_sock os), do_poll = exit_poll os sig, do_accept = lift_os (do_accept os),
     do_close = (\<lambda>w fd. (do_close os (fst w) fd, snd w)), do_malloc = (\<lambda>w al. lift_os (\<lambda>s. do_malloc os s al) w)\<rparr>"

definition process_loop_from_start ::
    "'s daemon_os \<Rightarrow> (nat \<Rightarrow> arrival) \<Rightarrow> (int \<times> int) option \<Rightarrow> request_queue \<Rightarrow> 's \<Rightarrow> exit_pipe \<Rightarrow> 's exit_state loop_state option" where
  "process_loop_from_start os sig pipefds q s ep =
     (case open_exit_pipe pipefds ep of
        None \<Rightarrow> Some \<lparr>pl_slots = [], pl_conns = 0, pl_queue = q, pl_os = (s, ep, 0), pl_sent = []\<rparr>
      | Some ep' \<Rightarrow> process_loop (exit_os os sig) \<lparr>pl_slots = [], pl_conns = 0, pl_queue = q, pl_os = (s, ep', 0), pl_sent = []\<rparr>)"

section \<open>What the loop does with the pipe\<close>

text \<open>No other call touches the pipe or counts as a poll.\<close>

lemma snd_lift_os [simp]: "snd (snd (lift_os f w)) = snd w"
  by (simp add: lift_os_def split: prod.splits)

lemma send_cmd_pipe [simp]: "snd (snd (send_cmd (exit_sock so) w c fd)) = snd w"
  by (simp add: send_cmd_def exit_sock_def)

lemma recv_cmd_pipe:
  assumes "recv_cmd (exit_sock so) w fd b = (ret, c, w')"
  shows "snd w' = snd w"
proof -
  have r: "so_recv (exit_sock so) w fd n b = ((x, y), w') \<Longrightarrow> snd w' = snd w" for w fd n b x y w'
    by (simp add: exit_sock_def lift_os_def split: prod.splits) auto
  show ?thesis
    using assms by (auto simp: recv_cmd_def Let_def split: prod.splits if_splits dest!: r)
qed

lemma accept_pipe: "snd (pl_os (accept_client (exit_os os sig) st)) = snd (pl_os st)"
proof -
  obtain c w where a: "do_accept (exit_os os sig) (pl_os st) = (c, w)" by (rule prod.exhaust)
  then have "snd w = snd (pl_os st)" using snd_lift_os [of "do_accept os" "pl_os st"] by (simp add: exit_os_def)
  then show ?thesis using a by (simp add: accept_client_def exit_os_def split: option.splits)
qed

lemma serve_client_pipe:
  assumes "serve_client (exit_os os sig) i fd st = Some st'"
  shows "snd (pl_os st') = snd (pl_os st)"
proof -
  obtain ret cmd w1 where r: "recv_cmd (exit_sock (do_sock os)) (pl_os st) fd False = (ret, cmd, w1)" using prod_cases3 by blast
  note p = recv_cmd_pipe [OF r]
  obtain mal w2 where m: "do_malloc (exit_os os sig) w1 (q_alloc (pl_queue st)) = (mal, w2)" by (rule prod.exhaust)
  then have "snd w2 = snd w1" using snd_lift_os [of "\<lambda>s. do_malloc os s (q_alloc (pl_queue st))" w1] by (simp add: exit_os_def)
  moreover have "do_sock (exit_os os sig) = exit_sock (do_sock os)" "do_close (exit_os os sig) w fd = (do_close os (fst w) fd, snd w)" for w
    by (simp_all add: exit_os_def)
  ultimately show ?thesis
    using assms r p m by (auto simp: serve_client_def Let_def split: if_splits option.splits prod.splits)
qed

lemma serve_slots_pipe: "serve_slots (exit_os os sig) ready i n st = Some st' \<Longrightarrow> snd (pl_os st') = snd (pl_os st)"
  by (induction n arbitrary: i st) (auto simp: Let_def dest: serve_client_pipe split: if_splits option.splits)

text \<open>One turn: a signal adds its byte, and a byte ends the loop.\<close>

lemma exit_turn:
  assumes "process_turn (exit_os os sig) st = Some (stop, st')" "pl_os st = (s, ep, k)"
  shows "snd (pl_os st') = (if sig k = NoSignal then ep else request_exit ep, Suc k)"
    "stop \<longleftrightarrow> sig k \<noteq> DuringPoll \<and> 0 < ex_bytes (if sig k = NoSignal then ep else request_exit ep)"
proof -
  have pl: "do_poll (exit_os os sig) = exit_poll os sig" by (simp add: exit_os_def)
  obtain p s1 where p: "do_poll os s (pl_slots st) = (p, s1)" by fastforce
  have sp: "snd (pl_os st3) = snd (pl_os st2)" if "serve_slots (exit_os os sig) ready i n st2 = Some st3" for ready i n st2 st3
    using serve_slots_pipe [OF that] .
  show "snd (pl_os st') = (if sig k = NoSignal then ep else request_exit ep, Suc k)"
    using assms p
    by (cases "sig k") (auto simp: process_turn_def Let_def pl exit_poll_def accept_pipe dest!: sp split: if_splits option.splits)
  show "stop \<longleftrightarrow> sig k \<noteq> DuringPoll \<and> 0 < ex_bytes (if sig k = NoSignal then ep else request_exit ep)"
    using assms p
    by (cases "sig k") (auto simp: process_turn_def Let_def pl exit_poll_def split: if_splits option.splits)
qed

lemma exit_malloc_fresh: "malloc_fresh os \<Longrightarrow> malloc_fresh (exit_os os sig)"
  by (auto simp: malloc_fresh_def exit_os_def lift_os_def split: prod.splits)

text \<open>Once the loop has its pipe, a signal ends it, unless signals interrupt the calls forever.\<close>

lemma signalled_loop_ends:
  assumes "malloc_fresh os" "\<forall>k > m. sig k = NoSignal"
  shows "sys_reach (exit_os os sig) (st, H) \<Longrightarrow> pl_os st = (s, ep, k) \<Longrightarrow> ex_pipe ep = Some (ex_fd ep)
    \<Longrightarrow> 0 < ex_bytes ep \<or> (\<exists>n \<ge> k. sig n \<noteq> NoSignal) \<Longrightarrow> \<exists>st'. process_loop (exit_os os sig) st = Some st' \<and> sys_reach (exit_os os sig) (st', H)"
proof (induction "Suc m - k" arbitrary: st s ep k rule: less_induct)
  case less
  obtain stop st' where t: "process_turn (exit_os os sig) st = Some (stop, st')" "sys_reach (exit_os os sig) (st', H)"
    using process_turn_returns [OF exit_malloc_fresh [OF assms(1)] less.prems(1)] by blast
  let ?ep = "if sig k = NoSignal then ep else request_exit ep"
  note e = exit_turn [OF t(1) less.prems(2)]
  show ?case
  proof (cases stop)
    case True
    then show ?thesis using t by (subst process_loop.simps) simp
  next
    case False
    have "\<exists>n \<ge> k. sig n \<noteq> NoSignal" using less.prems(4) e(2) False by (cases "sig k") auto
    then have k: "k \<le> m" using assms(2) by (meson leI less_le_trans)
    have fd: "ex_pipe ?ep = Some (ex_fd ?ep)" using less.prems(3) by (simp add: request_exit_def)
    have "0 < ex_bytes ?ep \<or> (\<exists>n \<ge> Suc k. sig n \<noteq> NoSignal)"
      using less.prems(3,4) by (cases "sig k") (auto simp: request_exit_def, metis le_antisym not_less_eq_eq)
    moreover obtain s' where "pl_os st' = (s', ?ep, Suc k)" using e(1) by (metis prod.collapse)
    ultimately have "\<exists>st''. process_loop (exit_os os sig) st' = Some st'' \<and> sys_reach (exit_os os sig) (st'', H)"
      using less.hyps [OF _ t(2) _ fd, of "Suc k" s'] k by simp
    then show ?thesis using t(1) False by (subst process_loop.simps) simp
  qed
qed

text \<open>Without a signal the loop goes on.\<close>

lemma unsignalled_loop_stays:
  assumes "process_loop (exit_os os sig) st = Some y" "pl_os st = (s, ep, k)" "ex_bytes ep = 0" "\<forall>j. sig j = NoSignal"
  shows False
proof -
  define P where "P = (\<lambda>os' (st :: 'a exit_state loop_state) (y :: 'a exit_state loop_state). os' = exit_os os sig \<longrightarrow> ex_bytes (fst (snd (pl_os st))) \<noteq> 0)"
  have "P (exit_os os sig) st y"
  proof (rule process_loop.raw_induct [OF _ assms(1)])
    fix pl os' st y
    assume IH: "\<And>os' st y. pl os' st = Some y \<Longrightarrow> P os' st y"
      and run: "(case process_turn os' st of None \<Rightarrow> None | Some (stop, st') \<Rightarrow> if stop then Some st' else pl os' st') = Some y"
    show "P os' st y"
      unfolding P_def
    proof
      assume os': "os' = exit_os os sig"
      obtain stop st' where t: "process_turn os' st = Some (stop, st')" "stop \<or> pl os' st' = Some y"
        using run by (auto split: option.splits if_splits)
      obtain s ep k where w: "pl_os st = (s, ep, k)" using prod_cases3 by blast
      note e = exit_turn [OF t(1) [unfolded os'] w]
      show "ex_bytes (fst (snd (pl_os st))) \<noteq> 0"
        using t(2) e IH [of os' st' y] os' assms(4) w by (auto simp: P_def)
    qed
  qed
  then show False using assms(2,3) by (simp add: P_def)
qed

lemma early_requests: "(request_exit ^^ j) exit_pipe_init = \<lparr>ex_fd = 0, ex_pipe = None, ex_bytes = 0, ex_stray = replicate j 0\<rparr>"
  by (induction j) (simp_all add: exit_pipe_init_def request_exit_def replicate_append_same)

text \<open>
  C10. The end of the daemon. Let finitely many signals arrive and the loop get its pipe. Then the event loop ends, and in a reachable state,
  exactly if a signal arrives after the loop has begun, be it between two calls of \<open>poll\<close> or in one of them. Requests to exit before
  that, however many, are lost: the bytes they write go to descriptor zero.
\<close>

theorem exit_request_ends_loop:
  assumes "malloc_fresh os" "\<forall>k > m. sig k = NoSignal" "request_queue_init True 0 0 True = Some q"
  shows "((\<exists>st. process_loop_from_start os sig (Some (r, w)) q s ((request_exit ^^ j) exit_pipe_init) = Some st) \<longleftrightarrow> (\<exists>k. sig k \<noteq> NoSignal))
    \<and> (\<forall>st. process_loop_from_start os sig (Some (r, w)) q s ((request_exit ^^ j) exit_pipe_init) = Some st \<longrightarrow> sys_reach (exit_os os sig) (st, {}))
    \<and> ex_stray ((request_exit ^^ j) exit_pipe_init) = replicate j 0"
proof -
  let ?ep = "\<lparr>ex_fd = w, ex_pipe = Some w, ex_bytes = 0, ex_stray = replicate j 0\<rparr>"
  let ?st = "\<lparr>pl_slots = [], pl_conns = 0, pl_queue = q, pl_os = (s, ?ep, 0), pl_sent = []\<rparr>"
  have start: "process_loop_from_start os sig (Some (r, w)) q s ((request_exit ^^ j) exit_pipe_init) = process_loop (exit_os os sig) ?st"
    by (simp add: process_loop_from_start_def open_exit_pipe_def early_requests)
  have "sys_reach (exit_os os sig) (?st, {})" by (rule sys_reach.sys_start [OF assms(3)])
  from signalled_loop_ends [OF assms(1,2) this, of s ?ep 0]
  have ends: "\<exists>st'. process_loop (exit_os os sig) ?st = Some st' \<and> sys_reach (exit_os os sig) (st', {})" if "\<exists>k. sig k \<noteq> NoSignal"
    using that by simp
  have "\<exists>k. sig k \<noteq> NoSignal" if "process_loop (exit_os os sig) ?st = Some st'" for st'
    using unsignalled_loop_stays [OF that, of s ?ep 0] by auto
  then have "(\<exists>st. process_loop (exit_os os sig) ?st = Some st) \<longleftrightarrow> (\<exists>k. sig k \<noteq> NoSignal)" using ends by blast
  moreover have "\<forall>st. process_loop (exit_os os sig) ?st = Some st \<longrightarrow> sys_reach (exit_os os sig) (st, {})"
    using ends \<open>\<And>st'. process_loop (exit_os os sig) ?st = Some st' \<Longrightarrow> \<exists>k. sig k \<noteq> NoSignal\<close> by fastforce
  ultimately show ?thesis unfolding start by (simp add: early_requests)
qed

text \<open>Two requests before the loop and one in its second call of \<open>poll\<close>.\<close>

theorem exit_request_ends_loop_witness:
  "(\<exists>st. process_loop_from_start idle_os (\<lambda>k. if k = 1 then DuringPoll else NoSignal) (Some (4, 5)) empty_queue () ((request_exit ^^ 2) exit_pipe_init) = Some st)
   \<and> \<not> (\<exists>st. process_loop_from_start idle_os (\<lambda>k. NoSignal) (Some (4, 5)) empty_queue () ((request_exit ^^ 2) exit_pipe_init) = Some st)"
proof -
  have h: "malloc_fresh idle_os" "request_queue_init True 0 0 True = Some empty_queue"
    by (simp_all add: malloc_fresh_def idle_os_def request_queue_init_def)
  let ?sig = "\<lambda>k :: nat. if k = 1 then DuringPoll else NoSignal"
  have "\<forall>k > 1. ?sig k = NoSignal" "\<exists>k. ?sig k \<noteq> NoSignal" by auto
  then show ?thesis
    using exit_request_ends_loop [OF h(1) _ h(2), of 1 ?sig 4 5 "()" 2] exit_request_ends_loop [OF h(1) _ h(2), of 1 "\<lambda>k. NoSignal" 4 5 "()" 2] by simp
qed

end
