(* ===== verification/Parameterize_Style.thy ===== *)
theory Parameterize_Style
  imports Throttle C_Double
begin

text \<open>
  The map library as the renderer uses it, and the parameterization of a map by the options of a request
  (\<^verbatim>\<open>src/parameterize_style.cpp\<close>). Maps, images and parameter values are opaque; the library's functions are the
  fields of a record that every definition takes. A function that throws has no result. The buffer for the
  replaced column has 256 bytes; a write past its end is an outcome of its own.
\<close>

section \<open>The map library\<close>

text \<open>A box in the coordinates of a projection: left, bottom, right, top.\<close>

type_synonym box = "rat \<times> rat \<times> rat \<times> rat"

text \<open>
  \<open>mk_layers\<close> are the parameters of the data sources of all layers, \<open>mk_set_layer\<close> replaces one of them by a
  newly created data source. \<open>mk_save\<close> encodes the part of an image at the given corner with the given width and
  height in the given format.
\<close>

record ('m, 'v, 'img) mapnik =
  mk_new :: "int \<Rightarrow> int \<Rightarrow> 'm"
  mk_load_map :: "'m \<Rightarrow> string \<Rightarrow> 'm option"
  mk_load_fonts :: "'m \<Rightarrow> 'm option"
  mk_srs :: "'m \<Rightarrow> string"
  mk_layers :: "'m \<Rightarrow> (string \<Rightarrow> 'v option) list"
  mk_set_layer :: "'m \<Rightarrow> nat \<Rightarrow> (string \<Rightarrow> 'v option) \<Rightarrow> 'm option"
  mk_string :: "string \<Rightarrow> 'v"
  mk_get_string :: "'v \<Rightarrow> string option"
  mk_resize :: "'m \<Rightarrow> int \<Rightarrow> int \<Rightarrow> 'm"
  mk_zoom_to_box :: "'m \<Rightarrow> box \<Rightarrow> 'm"
  mk_buffer_size :: "'m \<Rightarrow> int"
  mk_set_buffer_size :: "'m \<Rightarrow> int \<Rightarrow> 'm"
  mk_background :: "'m \<Rightarrow> bool"
  mk_image :: "int \<Rightarrow> int \<Rightarrow> bool \<Rightarrow> 'img"
  mk_render :: "'m \<Rightarrow> 'img \<Rightarrow> rat \<Rightarrow> 'img option"
  mk_save :: "'img \<Rightarrow> int \<Rightarrow> int \<Rightarrow> int \<Rightarrow> int \<Rightarrow> string \<Rightarrow> byte list option"

text \<open>
  What ends the thread, and with it the process: a write outside of a buffer, an exception that nothing catches,
  the use of a null pointer.
\<close>

datatype fault = BufferOverrun | UncaughtException | NullPointer

section \<open>The replaced column\<close>

text \<open>\<open>strncat\<close> onto a string in a buffer of \<open>cap\<close> bytes.\<close>

definition strncat :: "nat \<Rightarrow> string \<Rightarrow> string \<Rightarrow> nat \<Rightarrow> fault + string" where
  "strncat cap dst src n =
     (let r = dst @ take n src in if length r < cap then Inr r else Inl BufferOverrun)"

definition bind_fault :: "fault + 'a \<Rightarrow> ('a \<Rightarrow> fault + 'b) \<Rightarrow> fault + 'b" where
  "bind_fault r f = (case r of Inl e \<Rightarrow> Inl e | Inr x \<Rightarrow> f x)"

text \<open>The loop over the languages.\<close>

fun append_names :: "string \<Rightarrow> string list \<Rightarrow> fault + string" where
  "append_names buf [] = Inr buf"
| "append_names buf (tok # toks) =
     bind_fault
       (if tok = ''_'' then strncat 256 buf ''name,'' 255
        else bind_fault (strncat 256 buf ''tags->'name:'' 255) (\<lambda>b1.
             bind_fault (strncat 256 b1 tok 255) (\<lambda>b2. strncat 256 b2 ''',''  255)))
       (\<lambda>b. append_names b toks)"

text \<open>The text in \<open>name_replace\<close> before the layers are visited; \<open>None\<close>: there is no language in the parameter.\<close>

definition name_replace :: "string \<Rightarrow> fault + string option" where
  "name_replace parameter =
     (let toks = apr_tokens '','' parameter
      in if toks = [] then Inr None
         else bind_fault (strncat 256 [] '', coalesce('' 255) (\<lambda>b0.
              bind_fault (append_names b0 toks) (\<lambda>b1.
              bind_fault (strncat 256 (butlast b1) '') as name'' 255) (\<lambda>b2. Inr (Some b2)))))"

section \<open>The layers\<close>

text \<open>The first \<open>,name\<close> of a table is replaced.\<close>

definition replace_name :: "string \<Rightarrow> string \<Rightarrow> string option" where
  "replace_name column table =
     (case strstr table '',name'' of
        None \<Rightarrow> None
      | Some rest \<Rightarrow> Some (take (length table - length rest) table @ column @ drop 5 rest))"

text \<open>The loop over the layers; \<open>n\<close> layers are left.\<close>

fun language_layers :: "('m, 'v, 'img) mapnik \<Rightarrow> string \<Rightarrow> nat list \<Rightarrow> 'm \<Rightarrow> fault + 'm" where
  "language_layers mk column [] m = Inr m"
| "language_layers mk column (i # is) m =
     (let params = mk_layers mk m ! i
      in case Option.bind (params ''table'') (mk_get_string mk) of
           None \<Rightarrow> language_layers mk column is m
         | Some table \<Rightarrow>
             (case replace_name column table of
                None \<Rightarrow> language_layers mk column is m
              | Some str \<Rightarrow>
                  (case mk_set_layer mk m i (params(''table'' \<mapsto> mk_string mk str)) of
                     None \<Rightarrow> Inl UncaughtException
                   | Some m' \<Rightarrow> language_layers mk column is m')))"

definition parameterize_map_language :: "('m, 'v, 'img) mapnik \<Rightarrow> 'm \<Rightarrow> string \<Rightarrow> fault + 'm" where
  "parameterize_map_language mk m parameter =
     bind_fault (name_replace parameter) (\<lambda>c.
       case c of None \<Rightarrow> Inr m | Some column \<Rightarrow> language_layers mk column [0..<length (mk_layers mk m)] m)"

text \<open>The only function that can be named is the one for languages.\<close>

datatype parameterize_function_ptr = parameterize_NULL | parameterize_language

definition init_parameterization_function :: "string option \<Rightarrow> parameterize_function_ptr" where
  "init_parameterization_function name =
     (case name of
        None \<Rightarrow> parameterize_NULL
      | Some n \<Rightarrow> if n = ''language'' then parameterize_language else parameterize_NULL)"

section \<open>The column as an expression\<close>

text \<open>The column a language stands for, and the expression that takes the first one that is there.\<close>

definition name_column :: "string \<Rightarrow> string" where
  "name_column tok = (if tok = ''_'' then ''name'' else ''tags->'name:'' @ tok @ [CHR 0x27])"

definition language_expression :: "string list \<Rightarrow> string" where
  "language_expression toks =
     '', coalesce('' @ butlast (concat (map (\<lambda>tok. name_column tok @ '','') toks)) @ '') as name''"

lemma bind_fault_simps [simp]: "bind_fault (Inl e) f = Inl e" "bind_fault (Inr x) f = f x"
  by (simp_all add: bind_fault_def)

lemma strncat_step:
  "length src \<le> n \<Longrightarrow> strncat cap dst src n = (if length dst + length src < cap then Inr (dst @ src) else Inl BufferOverrun)"
  by (simp add: strncat_def)

lemma strtok_short: "t \<in> set (strtok_go seps acc s) \<Longrightarrow> length t \<le> length acc + length s"
  by (induction seps acc s rule: strtok_go.induct) (auto split: if_splits)

lemma append_names_value:
  assumes "\<forall>t\<in>set toks. length t \<le> 255" "length buf < 256"
  shows "append_names buf toks =
    (let r = buf @ concat (map (\<lambda>tok. name_column tok @ '','') toks) in if length r < 256 then Inr r else Inl BufferOverrun)"
  using assms
proof (induction toks arbitrary: buf)
  case (Cons tok toks)
  let ?b = "buf @ name_column tok @ '',''"
  have one: "(if tok = ''_'' then strncat 256 buf ''name,'' 255
        else bind_fault (strncat 256 buf ''tags->'name:'' 255) (\<lambda>b1.
             bind_fault (strncat 256 b1 tok 255) (\<lambda>b2. strncat 256 b2 ''','' 255)))
      = (if length ?b < 256 then Inr ?b else Inl BufferOverrun)"
    using Cons.prems by (simp add: name_column_def strncat_step)
  show ?case
  proof (cases "length ?b < 256")
    case True
    then show ?thesis using Cons.IH [OF _ True] Cons.prems one by (simp add: Let_def)
  next
    case False
    then show ?thesis using one by (simp add: Let_def)
  qed
qed simp

lemma names_nonempty: "toks \<noteq> [] \<Longrightarrow> concat (map (\<lambda>tok. name_column tok @ '','') toks) \<noteq> []"
  by (cases toks) (simp_all)

lemma name_replace_value:
  assumes "length parameter \<le> 255" "apr_tokens '','' parameter = toks" "toks \<noteq> []"
  shows "name_replace parameter =
    (if length (language_expression toks) < 256 then Inr (Some (language_expression toks)) else Inl BufferOverrun)"
proof -
  let ?names = "concat (map (\<lambda>tok. name_column tok @ '','') toks)"
  have t: "\<forall>t\<in>set toks. length t \<le> 255"
    using strtok_short [of _ "'',''" "[]" parameter] assms(1,2) by (fastforce simp: apr_tokens_def)
  have n: "?names \<noteq> []" by (rule names_nonempty [OF assms(3)])
  then have "0 < length ?names" by simp
  then show ?thesis
    using assms(2,3) append_names_value [OF t, of "'', coalesce(''"] n
    by (simp add: name_replace_def strncat_step language_expression_def Let_def butlast_append del: concat_eq_Nil_conv)
qed

text \<open>The tokens and the separators between them fit into the string.\<close>

lemma strtok_total: "sum_list (map (\<lambda>t. length t + 1) (strtok_go seps acc s)) \<le> length acc + length s + 1"
proof (induction seps acc s rule: strtok_go.induct)
  case (1 seps acc)
  then show ?case by simp
next
  case (2 seps acc c s)
  then show ?case by (cases "c \<in> set seps"; cases "acc = []") auto
qed

lemma length_expression:
  assumes "toks \<noteq> []"
  shows "length (language_expression toks) \<le> 19 + sum_list (map (\<lambda>t. length t + 14) toks)"
proof -
  have "length (concat (map (\<lambda>tok. name_column tok @ '','') toks)) \<le> sum_list (map (\<lambda>t. length t + 14) toks)"
    by (induction toks) (auto simp: name_column_def)
  moreover have "length (language_expression toks) = 19 + length (concat (map (\<lambda>tok. name_column tok @ '','') toks))"
    using names_nonempty [OF assms] length_greater_0_conv [of "concat (map (\<lambda>tok. name_column tok @ '','') toks)"]
    by (simp add: language_expression_def del: length_greater_0_conv)
  ultimately show ?thesis by linarith
qed

lemma sum_list_offset: "sum_list (map (\<lambda>t. f t + k) xs) = sum_list (map f xs) + k * length (xs :: 'a list)" for f :: "'a \<Rightarrow> nat"
  by (induction xs) auto

lemma short_expression:
  assumes "length parameter \<le> 40" "apr_tokens '','' parameter = toks" "toks \<noteq> []" "length toks \<le> 15"
  shows "length (language_expression toks) < 256"
proof -
  have "sum_list (map (\<lambda>t. length t + 1) toks) \<le> 41"
    using strtok_total [of "'',''" "[]" parameter] assms(1,2) by (simp add: apr_tokens_def)
  then have "sum_list (map length toks) + length toks \<le> 41" using sum_list_offset [of length 1 toks] by simp
  moreover have "length (language_expression toks) \<le> 19 + (sum_list (map length toks) + 14 * length toks)"
    using length_expression [OF assms(3)] sum_list_offset [of length 14 toks] by simp
  ultimately show ?thesis using assms(4) by linarith
qed

section \<open>Properties\<close>

text \<open>
  The column the renderer puts into the tables of a map. For the options of a request (at most 40 bytes)
  that name at least one language, the text written is the expression that takes the first of the named columns, whenever it fits the
  buffer of 256 bytes, and that is certain for up to 15 languages; otherwise the code writes past the end of the buffer, which a client's options of 39 bytes achieve.
\<close>

theorem language_column_bounds:
  assumes "length parameter \<le> 40" "apr_tokens '','' parameter = toks" "toks \<noteq> []"
  shows "(length toks \<le> 15 \<longrightarrow> name_replace parameter = Inr (Some (language_expression toks)))
    \<and> (name_replace parameter = Inl BufferOverrun \<longleftrightarrow> 256 \<le> length (language_expression toks))
    \<and> name_replace ''a,b,c,d,e,f,g,h,i,j,k,l,m,n,o,p,q,r,s,t'' = Inl BufferOverrun"
proof -
  have "length parameter \<le> 255" using assms(1) by simp
  note v = name_replace_value [OF this assms(2,3)]
  have "name_replace ''a,b,c,d,e,f,g,h,i,j,k,l,m,n,o,p,q,r,s,t'' = Inl BufferOverrun" by code_simp
  with v show ?thesis using short_expression [OF assms] by simp
qed

theorem language_column_bounds_witness:
  "name_replace ''de,_'' = Inr (Some '', coalesce(tags->'name:de',name) as name'')"
proof -
  have t: "apr_tokens '','' ''de,_'' = [''de'', ''_'']" by code_simp
  have e: "language_expression [''de'', ''_''] = '', coalesce(tags->'name:de',name) as name''" by code_simp
  show ?thesis using language_column_bounds [OF _ t] by (simp add: e)
qed

end
