(* ===== verification/Gen_Tile.thy ===== *)
theory Gen_Tile
  imports Parameterize_Style Cache_Expire Renderd_Config Store_File
begin

text \<open>
  The render threads (\<^verbatim>\<open>src/gen_tile.cpp\<close>): the projections, the area of a metatile, rendering one metatile and
  cutting it into tiles, the set-up of the maps, and what a thread does with an item of the queue. The map library
  is a parameter (\<open>mapnik\<close>), as are the operating system and the clock. The bounds are \<open>double\<close> values, rounded
  after every operation. Delays and log messages are left out.
\<close>

section \<open>Projections\<close>

record projectionconfig =
  pj_bound_x0 :: rat
  pj_bound_y0 :: rat
  pj_bound_x1 :: rat
  pj_bound_y1 :: rat
  pj_aspect_x :: int
  pj_aspect_y :: int

definition PRJ_MERC :: rat where
  "PRJ_MERC = dbl (200375083428 / 10000)"

definition PRJ_EQC_Y :: rat where
  "PRJ_EQC_Y = dbl (100187541714 / 10000)"

definition web_mercator :: projectionconfig where
  "web_mercator =
     \<lparr>pj_bound_x0 = - PRJ_MERC, pj_bound_y0 = - PRJ_MERC, pj_bound_x1 = PRJ_MERC, pj_bound_y1 = PRJ_MERC,
      pj_aspect_x = 1, pj_aspect_y = 1\<rparr>"

definition plate_carree :: projectionconfig where
  "plate_carree =
     \<lparr>pj_bound_x0 = - PRJ_MERC, pj_bound_y0 = - PRJ_EQC_Y, pj_bound_x1 = PRJ_MERC, pj_bound_y1 = PRJ_EQC_Y,
      pj_aspect_x = 2, pj_aspect_y = 1\<rparr>"

definition british_grid :: projectionconfig where
  "british_grid =
     \<lparr>pj_bound_x0 = 0, pj_bound_y0 = 0, pj_bound_x1 = 700000, pj_bound_y1 = 1400000, pj_aspect_x = 1, pj_aspect_y = 2\<rparr>"

definition get_projection :: "string \<Rightarrow> projectionconfig" where
  "get_projection srs =
     (if strstr srs ''+proj=merc +a=6378137 +b=6378137'' \<noteq> None then web_mercator
      else if srs = ''+proj=eqc +lat_ts=0 +lat_0=0 +lon_0=0 +x_0=0 +y_0=0 +ellps=WGS84 +datum=WGS84 +units=m +no_defs'' then plate_carree
      else if srs = ''+proj=tmerc +lat_0=49 +lon_0=-2 +k=0.9996012717 +x_0=400000 +y_0=-100000 +ellps=airy +datum=OSGB36 +units=m +no_defs''
      then british_grid
      else web_mercator)"

text \<open>\<open>1 << z\<close>.\<close>

definition shl1 :: "int \<Rightarrow> int" where
  "shl1 z = wrap32 (2 ^ nat z)"

text \<open>An \<open>unsigned int\<close>.\<close>

definition uint32 :: "int \<Rightarrow> int" where
  "uint32 v = v mod 2 ^ 32"

text \<open>The number of tiles a metatile has in each direction.\<close>

definition render_size :: "int \<Rightarrow> int \<Rightarrow> int" where
  "render_size aspect z = min METATILE (wrap32 (aspect * shl1 z))"

definition tile2prjbounds :: "projectionconfig \<Rightarrow> int \<Rightarrow> int \<Rightarrow> int \<Rightarrow> box" where
  "tile2prjbounds prj x y z =
     (let tx = render_size (pj_aspect_x prj) z;
          ty = render_size (pj_aspect_y prj) z;
          nx = of_int (wrap32 (pj_aspect_x prj * 2 ^ nat z));
          ny = of_int (wrap32 (pj_aspect_y prj * 2 ^ nat z));
          w = dsub (pj_bound_x1 prj) (pj_bound_x0 prj);
          h = dsub (pj_bound_y1 prj) (pj_bound_y0 prj);
          p0x = dadd (pj_bound_x0 prj) (dmul w (ddiv (of_int x) nx));
          p0y = dsub (pj_bound_y1 prj) (dmul h (ddiv (dadd (of_int y) (of_int ty)) ny));
          p1x = dadd (pj_bound_x0 prj) (dmul w (ddiv (dadd (of_int x) (of_int tx)) nx));
          p1y = dsub (pj_bound_y1 prj) (dmul h (ddiv (of_int y) ny))
      in (p0x, p0y, p1x, p1y))"

section \<open>The maps of a thread\<close>

record ('m, 'st) xmlmapconfig =
  xm_map :: 'm
  xm_cache :: "string \<Rightarrow> 'm option"
  xm_host :: string
  xm_htcphost :: string
  xm_output_format :: string
  xm_xmlfile :: string
  xm_xmlname :: string
  xm_xmluri :: string
  xm_scale :: rat
  xm_htcpsock :: int
  xm_maxzoom :: int
  xm_minzoom :: int
  xm_ok :: bool
  xm_tilesize :: int
  xm_parameterize :: parameterize_function_ptr
  xm_prj :: projectionconfig
  xm_store :: "'st storage_backend option"

definition check_xyz :: "int \<Rightarrow> int \<Rightarrow> int \<Rightarrow> ('m, 'st) xmlmapconfig \<Rightarrow> bool" where
  "check_xyz x y z m \<longleftrightarrow>
     \<not> (z < xm_minzoom m \<or> z > xm_maxzoom m)
     \<and> (let limit = shl1 z
        in \<not> (x < 0 \<or> x > wrap32 (limit * pj_aspect_x (xm_prj m)) - 1 \<or> y < 0 \<or> y > wrap32 (limit * pj_aspect_y (xm_prj m)) - 1))"

section \<open>Rendering a metatile\<close>

text \<open>The map to render with: the cached copy for the options, made if there is none, or the map itself.\<close>

definition select_map ::
    "('m, 'v, 'img) mapnik \<Rightarrow> ('m, 'st) xmlmapconfig \<Rightarrow> string \<Rightarrow> fault + 'm" where
  "select_map mk cfg options =
     (case xm_parameterize cfg of
        parameterize_NULL \<Rightarrow> Inr (xm_map cfg)
      | parameterize_language \<Rightarrow>
          (case xm_cache cfg options of
             Some m \<Rightarrow> Inr m
           | None \<Rightarrow>
               bind_fault (parameterize_map_language mk (xm_map cfg) options) (\<lambda>m.
                 case mk_load_fonts mk m of None \<Rightarrow> Inl UncaughtException | Some m' \<Rightarrow> Inr m')))"

text \<open>The chosen map is changed in place.\<close>

definition put_map :: "('m, 'st) xmlmapconfig \<Rightarrow> string \<Rightarrow> 'm \<Rightarrow> ('m, 'st) xmlmapconfig" where
  "put_map cfg options m =
     (case xm_parameterize cfg of
        parameterize_NULL \<Rightarrow> cfg\<lparr>xm_map := m\<rparr>
      | parameterize_language \<Rightarrow> cfg\<lparr>xm_cache := (xm_cache cfg)(options \<mapsto> m)\<rparr>)"

text \<open>The size, the area and, unless the style sets one, the buffer of the map.\<close>

definition prepare_map :: "('m, 'v, 'img) mapnik \<Rightarrow> ('m, 'st) xmlmapconfig \<Rightarrow> int \<Rightarrow> int \<Rightarrow> int \<Rightarrow> 'm \<Rightarrow> 'm" where
  "prepare_map mk cfg x y z m =
     (let tx = render_size (pj_aspect_x (xm_prj cfg)) z;
          ty = render_size (pj_aspect_y (xm_prj cfg)) z;
          m1 = mk_resize mk m (uint32 (tx * xm_tilesize cfg)) (uint32 (ty * xm_tilesize cfg));
          m2 = mk_zoom_to_box mk m1 (tile2prjbounds (xm_prj cfg) x y z)
      in if mk_buffer_size mk m2 = 0
         then mk_set_buffer_size mk m2 (dtrunc (dmul (of_int (drop_bit 1 (xm_tilesize cfg))) (xm_scale cfg)))
         else m2)"

text \<open>The two nested loops that cut the image: rows outside, columns inside.\<close>

definition cut_order :: "nat \<Rightarrow> nat \<Rightarrow> (nat \<times> nat) list" where
  "cut_order tx ty = concat (map (\<lambda>yy. map (\<lambda>xx. (xx, yy)) [0..<tx]) [0..<ty])"

fun cut_tiles :: "('m, 'v, 'img) mapnik \<Rightarrow> 'img \<Rightarrow> int \<Rightarrow> string \<Rightarrow> (nat \<times> nat) list \<Rightarrow> metaTile \<Rightarrow> fault + metaTile" where
  "cut_tiles mk img ts fmt [] t = Inr t"
| "cut_tiles mk img ts fmt ((xx, yy) # ps) t =
     (case mk_save mk img (uint32 (int xx * ts)) (uint32 (int yy * ts)) ts ts fmt of
        None \<Rightarrow> Inl UncaughtException
      | Some bs \<Rightarrow> cut_tiles mk img ts fmt ps (metaTile_set xx yy bs t))"

definition render ::
    "('m, 'v, 'img) mapnik \<Rightarrow> ('m, 'st) xmlmapconfig \<Rightarrow> int \<Rightarrow> int \<Rightarrow> int \<Rightarrow> string \<Rightarrow> metaTile
     \<Rightarrow> fault + protoCmd \<times> ('m, 'st) xmlmapconfig \<times> metaTile" where
  "render mk cfg x y z options tiles =
     bind_fault (select_map mk cfg options) (\<lambda>m0.
       let tx = render_size (pj_aspect_x (xm_prj cfg)) z;
           ty = render_size (pj_aspect_y (xm_prj cfg)) z;
           m = prepare_map mk cfg x y z m0;
           cfg' = put_map cfg options m;
           buf = mk_image mk (uint32 (tx * xm_tilesize cfg)) (uint32 (ty * xm_tilesize cfg)) (\<not> mk_background mk m)
       in case mk_render mk m buf (xm_scale cfg) of
            None \<Rightarrow> Inr (cmdNotDone, cfg', tiles)
          | Some img \<Rightarrow>
              bind_fault (cut_tiles mk img (xm_tilesize cfg) (xm_output_format cfg) (cut_order (nat tx) (nat ty)) tiles)
                (\<lambda>tiles'. Inr (cmdDone, cfg', tiles')))"

section \<open>Setting up the maps\<close>

definition RENDER_SIZE :: int where
  "RENDER_SIZE = 256 * (METATILE + 1)"

text \<open>
  The connection pools follow the number of threads, unless the style sets a size. Every layer's data source is
  created anew. \<open>None\<close>: the library threw.
\<close>

fun max_connections :: "('m, 'v, 'img) mapnik \<Rightarrow> int \<Rightarrow> nat list \<Rightarrow> 'm \<Rightarrow> 'm option" where
  "max_connections mk threads [] m = Some m"
| "max_connections mk threads (i # is) m =
     (let params = mk_layers mk m ! i;
          params' = (if params ''max_size'' = None
                     then params(''max_size'' \<mapsto> mk_string mk (snprintf 20 (show_int (wrap32 (threads + 2))))) else params)
      in case mk_set_layer mk m i params' of None \<Rightarrow> None | Some m' \<Rightarrow> max_connections mk threads is m')"

definition parameterize_map_max_connections :: "('m, 'v, 'img) mapnik \<Rightarrow> int \<Rightarrow> 'm \<Rightarrow> 'm option" where
  "parameterize_map_max_connections mk threads m = max_connections mk threads [0..<length (mk_layers mk m)] m"

text \<open>The calls on the mutex that guards the loading of maps.\<close>

datatype mutex_call = MutexLock | MutexUnlock

text \<open>
  Loading a map: the map, or nothing after an exception, and the calls on the mutex. The handler of the exception
  unlocks the mutex wherever the exception came from.
\<close>

definition load_layer ::
    "('m, 'v, 'img) mapnik \<Rightarrow> parameterize_function_ptr \<Rightarrow> int \<Rightarrow> string \<Rightarrow> 'm \<Rightarrow> 'm option \<times> mutex_call list" where
  "load_layer mk pf threads xmlfile m =
     (case Option.bind (mk_load_map mk m xmlfile) (\<lambda>m1. if pf = parameterize_NULL then mk_load_fonts mk m1 else Some m1) of
        None \<Rightarrow> (None, [MutexLock, MutexUnlock])
      | Some m2 \<Rightarrow>
          if threads > 10
          then (case parameterize_map_max_connections mk threads m2 of
                  None \<Rightarrow> (None, [MutexLock, MutexUnlock, MutexUnlock])
                | Some m3 \<Rightarrow> (Some m3, [MutexLock, MutexUnlock]))
          else (Some m2, [MutexLock, MutexUnlock]))"

text \<open>What a thread uses besides the map library.\<close>

record ('st, 's) render_os =
  ro_backends :: "storage_kind \<Rightarrow> string \<Rightarrow> 'st storage_backend option"
  ro_dirs :: dirs
  ro_net :: "'s net_os"
  ro_htcp :: "'s htcp_os"
  ro_malloc :: bool

text \<open>
  The set-up of one map over what its memory holds before: the map, whether the thread was counted as ready for
  it, the calls on the mutex, the descriptors left open and the state of the network. The map's loading starts from
  the map object its constructor has made.
\<close>

definition setup_map ::
    "('m, 'v, 'img) mapnik \<Rightarrow> ('st, 's) render_os \<Rightarrow> xmlconfigitem \<Rightarrow> ('m, 'st) xmlmapconfig \<Rightarrow> int list \<Rightarrow> 's
     \<Rightarrow> ('m, 'st) xmlmapconfig \<times> bool \<times> mutex_call list \<times> int list \<times> 's" where
  "setup_map mk os item raw opened s =
     (let pf = init_parameterization_function (Some (xi_parameterization item));
          store = init_storage_backend (ro_backends os) (ro_dirs os) (xi_tile_dir item);
          m0 = raw\<lparr>xm_map := mk_new mk 256 256, xm_cache := Map.empty, xm_maxzoom := xi_max_zoom item, xm_minzoom := xi_min_zoom item,
                   xm_output_format := take PATH_MAX (xi_output_format item), xm_parameterize := pf, xm_scale := xi_scale_factor item,
                   xm_store := store, xm_tilesize := xi_tile_px_size item, xm_xmlfile := take PATH_MAX (xi_xmlfile item),
                   xm_xmlname := take PATH_MAX (xi_xmlname item)\<rparr>
      in case store of
           None \<Rightarrow> (m0\<lparr>xm_ok := False\<rparr>, False, [], opened, s)
         | Some sb \<Rightarrow>
             let m1 = m0\<lparr>xm_ok := True, xm_map := mk_resize mk (xm_map m0) RENDER_SIZE RENDER_SIZE\<rparr>;
                 (loaded, calls) = load_layer mk pf (xi_num_threads item) (xm_xmlfile m1) (xm_map m1);
                 m2 = (case loaded of
                         None \<Rightarrow> m1\<lparr>xm_ok := False\<rparr>
                       | Some lm \<Rightarrow> m1\<lparr>xm_map := lm, xm_prj := get_projection (mk_srs mk lm)\<rparr>);
                 m3 = m2\<lparr>xm_host := take PATH_MAX (xi_host item), xm_htcphost := take PATH_MAX (xi_htcpip item),
                         xm_xmluri := take PATH_MAX (xi_xmluri item)\<rparr>
             in if xm_htcphost m3 \<noteq> []
                then let (sock, opened', rel, s') = init_cache_expire (ro_net os) (xm_htcphost m3) opened s
                     in (m3\<lparr>xm_htcpsock := sock\<rparr>, loaded \<noteq> None, calls, opened', s')
                else (m3\<lparr>xm_htcpsock := -1\<rparr>, loaded \<noteq> None, calls, opened, s))"

text \<open>
  The loop over the maps of the configuration: the maps and, for each, whether the thread was counted as ready.
\<close>

fun setup_maps ::
    "('m, 'v, 'img) mapnik \<Rightarrow> ('st, 's) render_os \<Rightarrow> (nat \<Rightarrow> ('m, 'st) xmlmapconfig) \<Rightarrow> nat \<Rightarrow> xmlconfigitem list \<Rightarrow> int list \<Rightarrow> 's
     \<Rightarrow> (('m, 'st) xmlmapconfig \<times> bool \<times> mutex_call list) list \<times> int list \<times> 's" where
  "setup_maps mk os raw k [] opened s = ([], opened, s)"
| "setup_maps mk os raw k (item # items) opened s =
     (if k \<ge> XMLCONFIGS_MAX then ([], opened, s)
      else let (m, ready, calls, opened1, s1) = setup_map mk os item (raw k) opened s;
               (rest, opened2, s2) = setup_maps mk os raw (Suc k) items opened1 s1
           in ((m, ready, calls) # rest, opened2, s2))"

section \<open>An item of the queue\<close>

fun find_xmlmap :: "('m, 'st) xmlmapconfig list \<Rightarrow> string \<Rightarrow> nat option" where
  "find_xmlmap [] name = None"
| "find_xmlmap (m # ms) name = (if xm_xmlname m = name then Some 0 else map_option Suc (find_xmlmap ms name))"

text \<open>The part of a thread's state that one item changes.\<close>

record ('m, 'st, 's) worker =
  wk_maps :: "('m, 'st) xmlmapconfig list"
  wk_store :: 'st
  wk_net :: 's

text \<open>
  What a thread does between fetching an item and answering it: the answer, the time reported for it and the new
  state. \<open>t1\<close> and \<open>t2\<close> are the clock before and after rendering, in milliseconds. Neither saving a metatile nor
  expiring it throws, so the handlers around the two are not reached.
\<close>

definition render_item ::
    "('m, 'v, 'img) mapnik \<Rightarrow> ('st, 's) render_os \<Rightarrow> int \<Rightarrow> int \<Rightarrow> item \<Rightarrow> ('m, 'st, 's) worker
     \<Rightarrow> fault + protoCmd \<times> int \<times> ('m, 'st, 's) worker" where
  "render_item mk os t1 t2 item w =
     (let req = it_req item
      in case find_xmlmap (wk_maps w) (pr_xmlname req) of
           None \<Rightarrow> Inr (cmdNotDone, -1, w)
         | Some i \<Rightarrow>
             let cfg = wk_maps w ! i
             in if \<not> xm_ok cfg then Inr (cmdNotDone, -1, w)
                else if \<not> check_xyz (it_mx item) (it_my item) (pr_z req) cfg then Inr (cmdIgnore, -1, w)
                else case xm_store cfg of
                       None \<Rightarrow> Inl NullPointer
                     | Some sb \<Rightarrow>
                         bind_fault (render mk cfg (it_mx item) (it_my item) (pr_z req) (pr_options req)
                             (metaTile_new (pr_xmlname req) (pr_options req) (it_mx item) (it_my item) (pr_z req)))
                           (\<lambda>(ret, cfg', tiles).
                              let w1 = w\<lparr>wk_maps := (wk_maps w)[i := cfg']\<rparr>; render_time = wrap32 (t2 - t1)
                              in if ret = cmdDone
                                 then (case metaTile_expire_tiles (ro_htcp os) (xm_htcpsock cfg) (xm_host cfg) (xm_xmluri cfg) tiles (wk_net w) of
                                         None \<Rightarrow> Inl NullPointer
                                       | Some s' \<Rightarrow>
                                           Inr (cmdDone, render_time,
                                                w1\<lparr>wk_store := metaTile_save (ro_malloc os) sb (wk_store w) tiles, wk_net := s'\<rparr>))
                                 else Inr (ret, render_time, w1)))"

text \<open>
  One turn of the thread's loop when no other thread runs in between: fetch, work, answer. The result is the queue,
  the sockets, the thread's state and the answers sent; waiting for an item changes nothing.
\<close>

definition render_turn ::
    "('m, 'v, 'img) mapnik \<Rightarrow> ('st, 's) render_os \<Rightarrow> 'c sock_os \<Rightarrow> int \<Rightarrow> int \<Rightarrow> request_queue \<Rightarrow> 'c \<Rightarrow> ('m, 'st, 's) worker
     \<Rightarrow> (fault + request_queue \<times> 'c \<times> ('m, 'st, 's) worker \<times> (int \<times> protocol) list) option" where
  "render_turn mk os so t1 t2 q c w =
     (case request_queue_fetch_request q of
        Some (Obj a, q1) \<Rightarrow>
          (case render_item mk os t1 t2 (q_mem q1 (Obj a)) w of
             Inl f \<Rightarrow> Some (Inl f)
           | Inr (ret, t, w') \<Rightarrow>
               (case send_response so q1 c a ret t of
                  None \<Rightarrow> None
                | Some (q2, c', out) \<Rightarrow> Some (Inr (q2, c', w', out))))
      | _ \<Rightarrow> Some (Inr (q, c, w, [])))"

section \<open>Coordinates\<close>

lemma shl1_value: "0 \<le> z \<Longrightarrow> z \<le> 30 \<Longrightarrow> shl1 z = 2 ^ nat z"
proof -
  assume "0 \<le> z" "z \<le> 30"
  then have "(2 :: int) ^ nat z \<le> 2 ^ 30" by (intro power_increasing) auto
  then show ?thesis using zero_le_power [of "2 :: int" "nat z"]
    by (simp add: shl1_def in_int32_def wrap32_id del: zero_le_power)
qed

text \<open>The zoom levels of a map are within those of the program, and its projection is one of the three.\<close>

definition map_sound :: "('m, 'st) xmlmapconfig \<Rightarrow> bool" where
  "map_sound m \<longleftrightarrow>
     0 \<le> xm_minzoom m \<and> xm_maxzoom m \<le> MAX_ZOOM
     \<and> (xm_ok m \<longrightarrow> xm_prj m \<in> {web_mercator, plate_carree, british_grid} \<and> xm_store m \<noteq> None)"

lemma aspect_cases:
  assumes "prj \<in> {web_mercator, plate_carree, british_grid}"
  shows "pj_aspect_x prj \<in> {1, 2}" "pj_aspect_y prj \<in> {1, 2}"
  using assms by (auto simp: web_mercator_def plate_carree_def british_grid_def)

lemma tiles_across:
  assumes "a \<in> {1, 2}" "0 \<le> z" "z \<le> MAX_ZOOM"
  shows "wrap32 (a * 2 ^ nat z) = a * 2 ^ nat z" "wrap32 (a * shl1 z) = a * 2 ^ nat z" "wrap32 (shl1 z * a) = a * 2 ^ nat z"
    "0 < a * 2 ^ nat z" "a * 2 ^ nat z \<le> 2 ^ 21"
proof -
  have z: "(2 :: int) ^ nat z \<le> 2 ^ 20" using assms by (intro power_increasing) (auto simp: MAX_ZOOM_def)
  then show b: "a * 2 ^ nat z \<le> 2 ^ 21" using assms(1) by auto
  show p: "0 < a * 2 ^ nat z" using assms(1) by auto
  show "wrap32 (a * 2 ^ nat z) = a * 2 ^ nat z" using b p by (intro wrap32_id) (simp add: in_int32_def)
  then show "wrap32 (a * shl1 z) = a * 2 ^ nat z" "wrap32 (shl1 z * a) = a * 2 ^ nat z"
    using shl1_value [of z] assms(2,3) by (simp_all add: MAX_ZOOM_def mult.commute)
qed

lemma check_xyz_iff:
  assumes "map_sound m" "xm_ok m"
  shows "check_xyz x y z m \<longleftrightarrow> xm_minzoom m \<le> z \<and> z \<le> xm_maxzoom m
    \<and> 0 \<le> x \<and> x < pj_aspect_x (xm_prj m) * 2 ^ nat z \<and> 0 \<le> y \<and> y < pj_aspect_y (xm_prj m) * 2 ^ nat z"
proof (cases "xm_minzoom m \<le> z \<and> z \<le> xm_maxzoom m")
  case True
  with assms have z: "0 \<le> z" "z \<le> MAX_ZOOM" by (auto simp: map_sound_def)
  have a: "pj_aspect_x (xm_prj m) \<in> {1, 2}" "pj_aspect_y (xm_prj m) \<in> {1, 2}"
    using assms aspect_cases by (auto simp: map_sound_def)
  show ?thesis using True tiles_across(3) [OF a(1) z] tiles_across(3) [OF a(2) z]
    by (auto simp: check_xyz_def Let_def)
qed (auto simp: check_xyz_def)

lemma check_xyz_zoom: "map_sound m \<Longrightarrow> check_xyz x y z m \<Longrightarrow> 0 \<le> z \<and> z \<le> MAX_ZOOM"
  by (auto simp: check_xyz_def map_sound_def)

section \<open>What rendering puts into a metatile\<close>

lemma cut_tiles_spec:
  assumes "cut_tiles mk img ts fmt ps t = Inr t'"
  shows "(\<forall>xx yy. (xx, yy) \<in> set ps \<longrightarrow> mk_save mk img (uint32 (int xx * ts)) (uint32 (int yy * ts)) ts ts fmt = Some (mt_tile t' xx yy))
    \<and> (\<forall>xx yy. (xx, yy) \<notin> set ps \<longrightarrow> mt_tile t' xx yy = mt_tile t xx yy)
    \<and> mt_x t' = mt_x t \<and> mt_y t' = mt_y t \<and> mt_z t' = mt_z t \<and> mt_xmlconfig t' = mt_xmlconfig t \<and> mt_options t' = mt_options t"
  using assms
proof (induction ps arbitrary: t)
  case (Cons p ps)
  obtain xx yy where p: "p = (xx, yy)" by (cases p)
  from Cons.prems obtain bs where bs: "mk_save mk img (uint32 (int xx * ts)) (uint32 (int yy * ts)) ts ts fmt = Some bs"
    and t': "cut_tiles mk img ts fmt ps (metaTile_set xx yy bs t) = Inr t'"
    by (auto simp: p split: option.splits)
  note IH = Cons.IH [OF t']
  have set: "mt_tile (metaTile_set xx yy bs t) u v = (if (u, v) = (xx, yy) then bs else mt_tile t u v)" for u v
    by (simp add: metaTile_set_def)
  have "mt_tile t' xx yy = bs"
  proof (cases "(xx, yy) \<in> set ps")
    case True
    then show ?thesis using IH bs by force
  next
    case False
    then show ?thesis using IH set by simp
  qed
  moreover have keep: "mt_x (metaTile_set xx yy bs t) = mt_x t" "mt_y (metaTile_set xx yy bs t) = mt_y t" "mt_z (metaTile_set xx yy bs t) = mt_z t"
    "mt_xmlconfig (metaTile_set xx yy bs t) = mt_xmlconfig t" "mt_options (metaTile_set xx yy bs t) = mt_options t"
    by (simp_all add: metaTile_set_def)
  ultimately show ?case using IH bs set by (auto simp: p)
qed simp

lemma cut_order_set: "(xx, yy) \<in> set (cut_order tx ty) \<longleftrightarrow> xx < tx \<and> yy < ty"
  by (auto simp: cut_order_def image_iff)

text \<open>The image a finished rendering has cut, and the tiles it stored.\<close>

lemma render_doneE:
  assumes "render mk cfg x y z opts t = Inr (cmdDone, cfg', t')"
  obtains m0 m img where "select_map mk cfg opts = Inr m0" "m = prepare_map mk cfg x y z m0" "cfg' = put_map cfg opts m"
    "mk_render mk m (mk_image mk (uint32 (render_size (pj_aspect_x (xm_prj cfg)) z * xm_tilesize cfg))
        (uint32 (render_size (pj_aspect_y (xm_prj cfg)) z * xm_tilesize cfg)) (\<not> mk_background mk m)) (xm_scale cfg) = Some img"
    "cut_tiles mk img (xm_tilesize cfg) (xm_output_format cfg)
        (cut_order (nat (render_size (pj_aspect_x (xm_prj cfg)) z)) (nat (render_size (pj_aspect_y (xm_prj cfg)) z))) t = Inr t'"
  using assms by (auto simp: render_def bind_fault_def Let_def split: sum.splits option.splits)

lemma render_cmd: "render mk cfg x y z opts t = Inr (ret, cfg', t') \<Longrightarrow> ret = cmdDone \<or> ret = cmdNotDone"
  by (auto simp: render_def bind_fault_def Let_def split: sum.splits option.splits)

lemma put_map_keeps [simp]:
  "xm_prj (put_map cfg o' m) = xm_prj cfg" "xm_ok (put_map cfg o' m) = xm_ok cfg" "xm_minzoom (put_map cfg o' m) = xm_minzoom cfg"
  "xm_maxzoom (put_map cfg o' m) = xm_maxzoom cfg" "xm_store (put_map cfg o' m) = xm_store cfg" "xm_xmlname (put_map cfg o' m) = xm_xmlname cfg"
  "xm_parameterize (put_map cfg o' m) = xm_parameterize cfg" "xm_tilesize (put_map cfg o' m) = xm_tilesize cfg" "xm_scale (put_map cfg o' m) = xm_scale cfg"
  "xm_output_format (put_map cfg o' m) = xm_output_format cfg"
  by (cases "xm_parameterize cfg"; simp add: put_map_def)+

lemma render_map: "render mk cfg x y z opts t = Inr (ret, cfg', t') \<Longrightarrow> \<exists>m. cfg' = put_map cfg opts m"
  by (auto simp: render_def bind_fault_def Let_def split: sum.splits option.splits)

lemma find_xmlmap_Some:
  "find_xmlmap ms name = Some i \<Longrightarrow> i < length ms \<and> xm_xmlname (ms ! i) = name \<and> (\<forall>j<i. xm_xmlname (ms ! j) \<noteq> name)"
proof (induction ms name arbitrary: i rule: find_xmlmap.induct)
  case (2 m ms name)
  then show ?case by (cases i) (auto simp: nth_Cons' less_Suc_eq_0_disj split: if_splits)
qed simp

section \<open>The thread and the queue\<close>

text \<open>A time is reported only for a tile whose zoom level was checked.\<close>

lemma render_item_zoom:
  assumes "render_item mk os t1 t2 item w = Inr (ret, t, w')" "\<forall>m\<in>set (wk_maps w). map_sound m"
  shows "t \<le> 0 \<or> 0 \<le> pr_z (it_req item) \<and> pr_z (it_req item) \<le> MAX_ZOOM"
proof (cases "find_xmlmap (wk_maps w) (pr_xmlname (it_req item))")
  case None
  then show ?thesis using assms(1) by (simp add: render_item_def)
next
  case (Some i)
  let ?m = "wk_maps w ! i"
  have "map_sound ?m" using find_xmlmap_Some [OF Some] assms(2) by simp
  moreover have "xm_ok ?m \<and> check_xyz (it_mx item) (it_my item) (pr_z (it_req item)) ?m" if "\<not> t \<le> 0"
    using assms(1) Some that by (auto simp: render_item_def Let_def split: if_splits)
  ultimately show ?thesis using check_xyz_zoom by blast
qed

section \<open>The items of the queue\<close>

text \<open>Every item of the queue has the corner of the metatile of its request.\<close>

definition items_ok :: "request_queue \<Rightarrow> bool" where
  "items_ok q \<longleftrightarrow> (\<forall>a. q_alloc q a \<longrightarrow>
     it_mx (q_mem q (Obj a)) = pr_x (it_req (q_mem q (Obj a))) AND NOT (METATILE - 1)
     \<and> it_my (q_mem q (Obj a)) = pr_y (it_req (q_mem q (Obj a))) AND NOT (METATILE - 1))"

lemma items_ok_mono:
  assumes "items_ok q" "\<And>b. q_alloc q' b \<Longrightarrow> q_alloc q b"
    "\<And>b. it_req (q_mem q' (Obj b)) = it_req (q_mem q (Obj b)) \<and> it_mx (q_mem q' (Obj b)) = it_mx (q_mem q (Obj b)) \<and> it_my (q_mem q' (Obj b)) = it_my (q_mem q (Obj b))"
  shows "items_ok q'"
  using assms by (simp add: items_ok_def)

lemma place_mem_item:
  "it_req (place_mem m h a c) = it_req (m c)" "it_mx (place_mem m h a c) = it_mx (m c)" "it_my (place_mem m h a c) = it_my (m c)"
  by (simp_all add: place_mem_def Let_def)

lemma fetch_mem_item:
  "it_req (fetch_mem m a c) = it_req (m c)" "it_mx (fetch_mem m a c) = it_mx (m c)" "it_my (fetch_mem m a c) = it_my (m c)"
  by (simp_all add: fetch_mem_def)

lemma add_request_items:
  assumes "repr q v"
  shows "it_req (q_mem (snd (add_request q a)) (Obj b)) = it_req (q_mem q (Obj b))
    \<and> it_mx (q_mem (snd (add_request q a)) (Obj b)) = it_mx (q_mem q (Obj b))
    \<and> it_my (q_mem (snd (add_request q a)) (Obj b)) = it_my (q_mem q (Obj b))"
  using assms
  by (cases rule: add_request_cases [where a = a]) (auto simp: free_item_def placed_def attach_mem_def place_mem_item)

lemma rx_request_items:
  assumes "repr q v" "{a. q_alloc q a} = owned v" "\<forall>a. mal = Some a \<longrightarrow> \<not> q_alloc q a"
    "rx_request mal q req fd = (st, req', q')" "items_ok q"
  shows "items_ok q'"
proof (cases "accepted req \<and> mal \<noteq> None")
  case False
  with assms(4,5) show ?thesis using rx_request_cases [of mal q req fd] by (auto split: if_splits option.splits)
next
  case True
  then obtain c where c: "mal = Some c" by blast
  let ?q = "store_item c (make_item (q_mem q (Obj c)) (upgrade req) fd) q"
  have q': "q' = snd (add_request ?q c)" using assms(4) c True rx_request_cases [of mal q req fd] by auto
  have r: "repr ?q v" by (rule repr_store_item [OF assms(1)]) (use assms(2,3) c in auto)
  have "items_ok ?q" using assms(5) by (auto simp: items_ok_def store_item_def make_item_def)
  then show ?thesis unfolding q'
    by (rule items_ok_mono) (use add_request_alloc_subset [OF r] add_request_items [OF r] in auto)
qed

lemma serve_client_items:
  assumes "malloc_fresh os" "serve_client os i fd st = Some st'" "repr (pl_queue st) v" "{a. q_alloc (pl_queue st) a} = owned v"
    "items_ok (pl_queue st)"
  shows "items_ok (pl_queue st')"
proof -
  obtain ret cmd s1 where r: "recv_cmd (do_sock os) (pl_os st) fd False = (ret, cmd, s1)" by (metis prod_cases3)
  obtain mal s2 where m: "do_malloc os s1 (q_alloc (pl_queue st)) = (mal, s2)" by fastforce
  obtain rsp cmd' q1 where x: "rx_request mal (pl_queue st) cmd fd = (rsp, cmd', q1)" by (metis prod_cases3)
  show ?thesis
  proof (cases "ret < 1")
    case True
    with assms(2) r obtain q1 where "request_queue_clear_requests_by_fd (pl_queue st) fd = Some q1" "pl_queue st' = q1"
      by (auto simp: serve_client_def split: option.splits)
    with clear_fd_refines [OF assms(3), of fd] have
      "q_alloc (pl_queue st') = q_alloc (pl_queue st)" "\<exists>S. q_mem (pl_queue st') = clear_set fd S (q_mem (pl_queue st))" by auto
    then show ?thesis using assms(5) by (auto simp: items_ok_def clear_set_def)
  next
    case False
    have "\<forall>a. mal = Some a \<longrightarrow> \<not> q_alloc (pl_queue st) a" using assms(1) m unfolding malloc_fresh_def by metis
    from rx_request_items [OF assms(3,4) this x assms(5)] show ?thesis
      using assms(2) r m x False by (auto simp: serve_client_def Let_def split: if_splits)
  qed
qed

lemma sys_items_step:
  assumes "sys_step os d d'" "malloc_fresh os" "sys_inv d v" "items_ok (pl_queue (fst d))"
  shows "items_ok (pl_queue (fst d'))"
  using assms
proof (induction rule: sys_step.induct)
  case (sys_serve i st st' H)
  then show ?case using serve_client_items [OF sys_serve(4,3), of v] by (auto simp: sys_inv_def daemon_inv_def)
next
  case (sys_fetch st a q' H)
  then have "repr (pl_queue st) v" by (simp add: sys_inv_def daemon_inv_def)
  from fetch_refines [OF this] sys_fetch(1)
  have "q_mem q' = fetch_mem (q_mem (pl_queue st)) a" "q_alloc q' = q_alloc (pl_queue st)" by (auto split: option.splits)
  then show ?case using sys_fetch(4) by (simp add: items_ok_def fetch_mem_item)
next
  case (sys_respond a H st t rsp q' s' out)
  then have "repr (pl_queue st) v" "a \<in> set (v_list v renderHead)" by (auto simp: sys_inv_def daemon_inv_def)
  from send_response_spec [OF this sys_respond(2), of "do_sock os" "pl_os st" rsp] sys_respond(3)
  have "q_mem q' = unlink_item (q_mem (pl_queue st)) (Obj a)" "\<And>b. q_alloc q' b \<Longrightarrow> q_alloc (pl_queue st) b" by auto
  then show ?case using sys_respond(6) by (simp add: items_ok_def)
qed simp_all

lemma sys_reach_items: "sys_reach os d \<Longrightarrow> malloc_fresh os \<Longrightarrow> items_ok (pl_queue (fst d))"
proof (induction rule: sys_reach.induct)
  case (sys_start q s)
  then show ?case by (auto simp: request_queue_init_def items_ok_def empty_queue_def)
next
  case (sys_next d d')
  then show ?case using sys_items_step sys_reach_inv by blast
qed

section \<open>The maps stay sound\<close>

lemma get_projection_cases: "get_projection srs \<in> {web_mercator, plate_carree, british_grid}"
  by (simp add: get_projection_def)

lemma setup_map_sound:
  assumes "map_ok item"
  shows "map_sound (fst (setup_map mk os item raw opened s))"
  using assms get_projection_cases
  by (auto simp: setup_map_def Let_def map_sound_def map_ok_def case_prod_beta split: option.split)

lemma setup_maps_sound:
  assumes "\<forall>item\<in>set items. map_ok item"
  shows "\<forall>m\<in>set (fst (setup_maps mk os raw k items opened s)). map_sound (fst m)"
  using assms
proof (induction items arbitrary: k opened s)
  case (Cons item items)
  obtain m ready calls o1 s1 where m: "setup_map mk os item (raw k) opened s = (m, ready, calls, o1, s1)" by (metis prod_cases5)
  have "map_sound m" using setup_map_sound [of item mk os "raw k" opened s] Cons.prems m by simp
  with Cons.IH [of "Suc k" o1 s1] Cons.prems m show ?case by (simp add: case_prod_beta Let_def)
qed simp

lemma render_item_cases:
  assumes "render_item mk os t1 t2 item w = Inr (ret, t, w')"
  obtains (refused) "w' = w" "t = -1" "ret = cmdNotDone \<or> ret = cmdIgnore"
  | (rendered) i sb cfg' tiles where "find_xmlmap (wk_maps w) (pr_xmlname (it_req item)) = Some i" "xm_ok (wk_maps w ! i)"
    "check_xyz (it_mx item) (it_my item) (pr_z (it_req item)) (wk_maps w ! i)" "xm_store (wk_maps w ! i) = Some sb"
    "render mk (wk_maps w ! i) (it_mx item) (it_my item) (pr_z (it_req item)) (pr_options (it_req item))
       (metaTile_new (pr_xmlname (it_req item)) (pr_options (it_req item)) (it_mx item) (it_my item) (pr_z (it_req item))) = Inr (ret, cfg', tiles)"
    "wk_maps w' = (wk_maps w)[i := cfg']"
    "wk_store w' = (if ret = cmdDone then metaTile_save (ro_malloc os) sb (wk_store w) tiles else wk_store w)"
  using assms
  by (fastforce simp: render_item_def Let_def bind_fault_def split: option.splits if_splits sum.splits prod.splits)

lemma render_item_sound:
  assumes "render_item mk os t1 t2 item w = Inr (ret, t, w')" "\<forall>m\<in>set (wk_maps w). map_sound m"
  shows "\<forall>m\<in>set (wk_maps w'). map_sound m"
  using assms(1)
proof (cases rule: render_item_cases)
  case refused
  then show ?thesis using assms(2) by simp
next
  case (rendered i sb cfg' tiles)
  have "map_sound (wk_maps w ! i)" using find_xmlmap_Some [OF rendered(1)] assms(2) by simp
  moreover obtain m where "cfg' = put_map (wk_maps w ! i) (pr_options (it_req item)) m" using render_map [OF rendered(5)] by blast
  ultimately have "map_sound cfg'" by (simp add: map_sound_def)
  then show ?thesis using assms(2) rendered(6) set_update_subset_insert [of "wk_maps w" i cfg'] by auto
qed

section \<open>The daemon with its render threads\<close>

text \<open>
  The event loop, the render threads and what they share. Thread \<open>k\<close> holds the item \<open>fm_job k\<close>, if any, and has its own
  maps; the storage and the network can also change by others.
\<close>

record ('m, 'st, 's, 'c) farm =
  fm_sys :: "'c loop_state"
  fm_job :: "nat \<Rightarrow> nat option"
  fm_maps :: "nat \<Rightarrow> ('m, 'st) xmlmapconfig list"
  fm_store :: 'st
  fm_net :: 's

definition worker_of :: "('m, 'st, 's, 'c) farm \<Rightarrow> nat \<Rightarrow> ('m, 'st, 's) worker" where
  "worker_of F k = \<lparr>wk_maps = fm_maps F k, wk_store = fm_store F, wk_net = fm_net F\<rparr>"

definition held_item :: "('m, 'st, 's, 'c) farm \<Rightarrow> nat \<Rightarrow> item" where
  "held_item F a = q_mem (pl_queue (fm_sys F)) (Obj a)"

inductive farm_step ::
    "('m, 'v, 'img) mapnik \<Rightarrow> ('st, 's) render_os \<Rightarrow> 'c daemon_os \<Rightarrow> ('m, 'st, 's, 'c) farm \<Rightarrow> ('m, 'st, 's, 'c) farm \<Rightarrow> bool"
    for mk ros os where
  fm_accept: "farm_step mk ros os F (F\<lparr>fm_sys := accept_client os (fm_sys F)\<rparr>)"
| fm_serve: "i < length (pl_slots (fm_sys F)) \<Longrightarrow> 0 \<le> pl_slots (fm_sys F) ! i
    \<Longrightarrow> serve_client os i (pl_slots (fm_sys F) ! i) (fm_sys F) = Some st'
    \<Longrightarrow> farm_step mk ros os F (F\<lparr>fm_sys := st'\<rparr>)"
| fm_world: "farm_step mk ros os F (F\<lparr>fm_sys := (fm_sys F)\<lparr>pl_os := c\<rparr>, fm_store := st, fm_net := s\<rparr>)"
| fm_fetch: "fm_job F k = None \<Longrightarrow> request_queue_fetch_request (pl_queue (fm_sys F)) = Some (Obj a, q')
    \<Longrightarrow> farm_step mk ros os F (F\<lparr>fm_sys := (fm_sys F)\<lparr>pl_queue := q'\<rparr>, fm_job := (fm_job F)(k \<mapsto> a)\<rparr>)"
| fm_finish: "fm_job F k = Some a \<Longrightarrow> render_item mk ros t1 t2 (held_item F a) (worker_of F k) = Inr (ret, t, w')
    \<Longrightarrow> send_response (do_sock os) (pl_queue (fm_sys F)) (pl_os (fm_sys F)) a ret t = Some (q', c', out)
    \<Longrightarrow> farm_step mk ros os F
          (F\<lparr>fm_sys := (fm_sys F)\<lparr>pl_queue := q', pl_os := c', pl_sent := pl_sent (fm_sys F) @ out\<rparr>,
             fm_job := (fm_job F)(k := None), fm_maps := (fm_maps F)(k := wk_maps w'), fm_store := wk_store w', fm_net := wk_net w'\<rparr>)"

text \<open>At the start no thread holds an item, and the maps of all threads were set up from accepted configuration items.\<close>

inductive farm_reach ::
    "('m, 'v, 'img) mapnik \<Rightarrow> ('st, 's) render_os \<Rightarrow> 'c daemon_os \<Rightarrow> xmlconfigitem list \<Rightarrow> ('m, 'st, 's, 'c) farm \<Rightarrow> bool"
    for mk ros os items where
  fm_start: "request_queue_init True 0 0 True = Some q
    \<Longrightarrow> \<forall>k. \<exists>raw opened s. M k = map fst (fst (setup_maps mk ros raw 0 items opened s))
    \<Longrightarrow> farm_reach mk ros os items
          \<lparr>fm_sys = \<lparr>pl_slots = [], pl_conns = 0, pl_queue = q, pl_os = c, pl_sent = []\<rparr>, fm_job = (\<lambda>_. None), fm_maps = M,
           fm_store = st, fm_net = s\<rparr>"
| fm_next: "farm_reach mk ros os items F \<Longrightarrow> farm_step mk ros os F F' \<Longrightarrow> farm_reach mk ros os items F'"

definition farm_inv :: "'c daemon_os \<Rightarrow> ('m, 'st, 's, 'c) farm \<Rightarrow> bool" where
  "farm_inv os F \<longleftrightarrow>
     sys_reach os (fm_sys F, ran (fm_job F)) \<and> inj_on (fm_job F) (dom (fm_job F)) \<and> (\<forall>k. \<forall>m\<in>set (fm_maps F k). map_sound m)"

text \<open>A fetched item is held by no thread.\<close>

lemma fetched_is_free:
  assumes "sys_inv (st, H) v" "request_queue_fetch_request (pl_queue st) = Some (Obj a, q')"
  shows "a \<notin> H"
proof -
  have r: "repr (pl_queue st) v" and H: "set (v_list v renderHead) = H" using assms(1) by (auto simp: sys_inv_def daemon_inv_def)
  from fetch_refines [OF r] assms(2) obtain v' where f: "v_fetch v = Some (a, v')" by (auto split: option.splits)
  then obtain h where h: "find (\<lambda>h. v_list v h \<noteq> []) fetch_order = Some h" "a = hd (v_list v h)"
    by (auto simp: v_fetch_def split: option.splits)
  then have "h \<in> set fetch_order" "v_list v h \<noteq> []" by (auto simp: find_Some_iff)
  then have "h \<noteq> renderHead" "a \<in> set (v_list v h)" using h(2) by (auto simp: fetch_order_def)
  moreover have "view_ok v" using r by (simp add: repr_def)
  ultimately show ?thesis using view_okD(3) [of v h renderHead] H by blast
qed

lemma ran_drop_job: "inj_on J (dom J) \<Longrightarrow> J k = Some a \<Longrightarrow> ran (J(k := None)) = ran J - {a}"
  by (auto simp: ran_def inj_on_def dom_def) (metis option.inject)+

lemma inj_drop_job: "inj_on J (dom J) \<Longrightarrow> inj_on (J(k := None)) (dom (J(k := None)))"
  by (auto simp: inj_on_def)

lemma inj_take_job: "inj_on J (dom J) \<Longrightarrow> J k = None \<Longrightarrow> a \<notin> ran J \<Longrightarrow> inj_on (J(k \<mapsto> a)) (dom (J(k \<mapsto> a)))"
  by (auto simp: inj_on_def ran_def dom_def split: if_splits)

lemma held_zoom_checked:
  assumes "render_item mk ros t1 t2 (held_item F a) w = Inr (ret, t, w')" "\<forall>m\<in>set (wk_maps w). map_sound m"
  shows "zoom_checked (pl_queue (fm_sys F)) a t"
  using render_item_zoom [OF assms] by (simp add: zoom_checked_def held_item_def)

lemma farm_inv_step:
  assumes "farm_step mk ros os F F'" "malloc_fresh os" "farm_inv os F"
  shows "farm_inv os F'"
  using assms
proof (induction rule: farm_step.induct)
  case (fm_accept F)
  then show ?case using sys_reach_accept by (auto simp: farm_inv_def)
next
  case (fm_serve i F st')
  then have "sys_reach os (st', ran (fm_job F))"
    by (auto simp: farm_inv_def intro: sys_reach.sys_next [OF _ sys_step.sys_serve])
  then show ?case using fm_serve by (simp add: farm_inv_def)
next
  case (fm_world F c st s)
  then show ?case using sys_reach_os by (auto simp: farm_inv_def)
next
  case (fm_fetch F k a q')
  then have r: "sys_reach os (fm_sys F, ran (fm_job F))" by (simp add: farm_inv_def)
  from sys_reach.sys_next [OF r sys_step.sys_fetch [OF fm_fetch(2)]]
  have "sys_reach os ((fm_sys F)\<lparr>pl_queue := q'\<rparr>, insert a (ran (fm_job F)))" .
  moreover have n: "a \<notin> ran (fm_job F)"
    using fetched_is_free [OF _ fm_fetch(2)] sys_reach_inv [OF r fm_fetch(3)] by blast
  have "inj_on ((fm_job F)(k \<mapsto> a)) (dom ((fm_job F)(k \<mapsto> a)))"
    by (rule inj_take_job [OF _ fm_fetch(1) n]) (use fm_fetch(4) in \<open>simp add: farm_inv_def\<close>)
  ultimately show ?case using fm_fetch(1,4) by (simp add: farm_inv_def ran_map_upd)
next
  case (fm_finish F k a t1 t2 ret t w' q' c' out)
  let ?st = "fm_sys F"
  have r: "sys_reach os (?st, ran (fm_job F))" and inj: "inj_on (fm_job F) (dom (fm_job F))" and m: "\<forall>m\<in>set (wk_maps (worker_of F k)). map_sound m"
    using fm_finish(5) by (auto simp: farm_inv_def worker_of_def)
  have "a \<in> ran (fm_job F)" using fm_finish(1) by (auto simp: ran_def)
  from sys_reach.sys_next [OF r sys_step.sys_respond [OF this held_zoom_checked [OF fm_finish(2) m] fm_finish(3)]]
  have "sys_reach os (?st\<lparr>pl_queue := q', pl_os := c', pl_sent := pl_sent ?st @ out\<rparr>, ran (fm_job F) - {a})" .
  then show ?case
    using ran_drop_job [OF inj fm_finish(1)] inj_drop_job [OF inj] render_item_sound [OF fm_finish(2) m] fm_finish(5)
    by (simp add: farm_inv_def)
qed

lemma farm_reach_inv:
  assumes "farm_reach mk ros os items F" "malloc_fresh os" "\<forall>item\<in>set items. map_ok item"
  shows "farm_inv os F"
  using assms(1)
proof (induction rule: farm_reach.induct)
  case (fm_start q M c st s)
  have "\<forall>m\<in>set (M k). map_sound m" for k
  proof -
    from fm_start(2) obtain raw opened s where "M k = map fst (fst (setup_maps mk ros raw 0 items opened s))" by blast
    then show ?thesis using setup_maps_sound [OF assms(3), of mk ros raw 0 opened s] by auto
  qed
  then show ?case using sys_reach.sys_start [OF fm_start(1)] by (simp add: farm_inv_def)
next
  case (fm_next F F')
  then show ?case using farm_inv_step assms(2) by blast
qed

section \<open>The area of a metatile\<close>

text \<open>The left and the lower edge as functions of the tile's number; the other two edges are those of the next metatile.\<close>

definition edge_x :: "projectionconfig \<Rightarrow> int \<Rightarrow> int \<Rightarrow> rat" where
  "edge_x prj z x =
     dadd (pj_bound_x0 prj) (dmul (dsub (pj_bound_x1 prj) (pj_bound_x0 prj)) (ddiv (of_int x) (of_int (pj_aspect_x prj * 2 ^ nat z))))"

definition edge_y :: "projectionconfig \<Rightarrow> int \<Rightarrow> int \<Rightarrow> rat" where
  "edge_y prj z y =
     dsub (pj_bound_y1 prj) (dmul (dsub (pj_bound_y1 prj) (pj_bound_y0 prj)) (ddiv (of_int y) (of_int (pj_aspect_y prj * 2 ^ nat z))))"

lemma dadd_int: "\<bar>a + b\<bar> < 2 ^ 53 \<Longrightarrow> dadd (of_int a) (of_int b) = of_int (a + b)"
  unfolding dadd_def of_int_add [symmetric] by (rule dbl_of_int)

lemma prjbounds_edges:
  assumes "prj \<in> {web_mercator, plate_carree, british_grid}" "0 \<le> z" "z \<le> MAX_ZOOM" "in_int32 x" "in_int32 y"
  shows "tile2prjbounds prj x y z =
    (edge_x prj z x, edge_y prj z (y + render_size (pj_aspect_y prj) z), edge_x prj z (x + render_size (pj_aspect_x prj) z), edge_y prj z y)"
proof -
  note a = aspect_cases [OF assms(1)]
  have s: "0 \<le> render_size b z \<and> render_size b z \<le> 8" if "b \<in> {1, 2}" for b
    using tiles_across(2,4) [OF that assms(2,3)] by (simp add: render_size_def METATILE_def)
  have "dadd (of_int v) (of_int (render_size b z)) = of_int (v + render_size b z)" if "in_int32 v" "b \<in> {1, 2}" for v b
    using s [OF that(2)] that(1) by (intro dadd_int) (simp add: in_int32_def abs_less_iff)
  then show ?thesis
    using assms(4,5) a tiles_across(1) [OF a(1) assms(2,3)] tiles_across(1) [OF a(2) assms(2,3)]
    by (simp add: tile2prjbounds_def Let_def edge_x_def edge_y_def)
qed

text \<open>The bounds of the three projections are exact, and so are their differences.\<close>

definition exact_bounds :: "projectionconfig \<Rightarrow> bool" where
  "exact_bounds prj \<longleftrightarrow>
     dbl (pj_bound_x0 prj) = pj_bound_x0 prj \<and> dbl (pj_bound_x1 prj) = pj_bound_x1 prj
     \<and> dbl (pj_bound_y0 prj) = pj_bound_y0 prj \<and> dbl (pj_bound_y1 prj) = pj_bound_y1 prj
     \<and> dbl (pj_bound_x1 prj - pj_bound_x0 prj) = pj_bound_x1 prj - pj_bound_x0 prj
     \<and> dbl (pj_bound_y1 prj - pj_bound_y0 prj) = pj_bound_y1 prj - pj_bound_y0 prj
     \<and> pj_bound_x0 prj \<le> pj_bound_x1 prj \<and> pj_bound_y0 prj \<le> pj_bound_y1 prj"

lemma dbl_nonneg: "0 \<le> q \<Longrightarrow> 0 \<le> dbl q"
  using dbl_mono [of 0 q] by simp

lemma dbl_twice: "dbl (dbl q + dbl q) = dbl q + dbl q"
  using dbl_double [of q] unfolding mult_2 .

lemma bounds_exact:
  assumes "prj \<in> {web_mercator, plate_carree, british_grid}"
  shows "exact_bounds prj"
proof -
  have p: "0 \<le> PRJ_MERC" "0 \<le> PRJ_EQC_Y" unfolding PRJ_MERC_def PRJ_EQC_Y_def by (rule dbl_nonneg, simp)+
  have d: "dbl PRJ_MERC = PRJ_MERC" "dbl PRJ_EQC_Y = PRJ_EQC_Y" "dbl (PRJ_MERC + PRJ_MERC) = PRJ_MERC + PRJ_MERC"
    "dbl (PRJ_EQC_Y + PRJ_EQC_Y) = PRJ_EQC_Y + PRJ_EQC_Y"
    unfolding PRJ_MERC_def PRJ_EQC_Y_def by (simp_all only: dbl_idem dbl_twice)
  have "exact_bounds web_mercator" "exact_bounds plate_carree"
    using p d by (simp_all add: exact_bounds_def web_mercator_def plate_carree_def)
  moreover have "exact_bounds british_grid"
    using dbl_of_int [of 700000] dbl_of_int [of 1400000] by (simp add: exact_bounds_def british_grid_def)
  ultimately show ?thesis using assms by blast
qed

lemma edge_x_ends:
  assumes "exact_bounds prj" "0 < pj_aspect_x prj"
  shows "edge_x prj z 0 = pj_bound_x0 prj" "edge_x prj z (pj_aspect_x prj * 2 ^ nat z) = pj_bound_x1 prj"
proof -
  have "(of_int (pj_aspect_x prj * 2 ^ nat z) :: rat) \<noteq> 0" using assms(2) by simp
  then have "ddiv (of_int (pj_aspect_x prj * 2 ^ nat z)) (of_int (pj_aspect_x prj * 2 ^ nat z)) = 1"
    using dbl_of_int [of 1] by (simp add: ddiv_def)
  then show "edge_x prj z (pj_aspect_x prj * 2 ^ nat z) = pj_bound_x1 prj"
    using assms(1) by (simp add: edge_x_def dsub_def dmul_def dadd_def exact_bounds_def)
  show "edge_x prj z 0 = pj_bound_x0 prj" using assms(1) by (simp add: edge_x_def ddiv_def dmul_def dadd_def exact_bounds_def)
qed

lemma edge_y_ends:
  assumes "exact_bounds prj" "0 < pj_aspect_y prj"
  shows "edge_y prj z 0 = pj_bound_y1 prj" "edge_y prj z (pj_aspect_y prj * 2 ^ nat z) = pj_bound_y0 prj"
proof -
  have "(of_int (pj_aspect_y prj * 2 ^ nat z) :: rat) \<noteq> 0" using assms(2) by simp
  then have "ddiv (of_int (pj_aspect_y prj * 2 ^ nat z)) (of_int (pj_aspect_y prj * 2 ^ nat z)) = 1"
    using dbl_of_int [of 1] by (simp add: ddiv_def)
  then show "edge_y prj z (pj_aspect_y prj * 2 ^ nat z) = pj_bound_y0 prj"
    using assms(1) by (simp add: edge_y_def dsub_def dmul_def exact_bounds_def)
  show "edge_y prj z 0 = pj_bound_y1 prj" using assms(1) by (simp add: edge_y_def ddiv_def dmul_def dsub_def exact_bounds_def)
qed

lemma scaled_mono:
  assumes "0 \<le> w" "0 < n" "x \<le> x'"
  shows "dmul w (ddiv (of_int x) (of_int n)) \<le> dmul w (ddiv (of_int x') (of_int n))"
  unfolding dmul_def ddiv_def
  by (intro dbl_mono mult_left_mono divide_right_mono) (use assms in auto)

lemma edges_mono:
  assumes "exact_bounds prj" "0 < pj_aspect_x prj" "0 < pj_aspect_y prj" "v \<le> v'"
  shows "edge_x prj z v \<le> edge_x prj z v'" "edge_y prj z v' \<le> edge_y prj z v"
proof -
  have w: "0 \<le> dsub (pj_bound_x1 prj) (pj_bound_x0 prj)" "0 \<le> dsub (pj_bound_y1 prj) (pj_bound_y0 prj)"
    unfolding dsub_def by (intro dbl_nonneg; use assms(1) in \<open>simp add: exact_bounds_def\<close>)+
  have n: "0 < pj_aspect_x prj * 2 ^ nat z" "0 < pj_aspect_y prj * 2 ^ nat z" using assms(2,3) by simp_all
  show "edge_x prj z v \<le> edge_x prj z v'" unfolding edge_x_def dadd_def
    by (intro dbl_mono add_left_mono scaled_mono w n assms)
  show "edge_y prj z v' \<le> edge_y prj z v" unfolding edge_y_def dsub_def [of _ "dmul _ _"]
    by (intro dbl_mono diff_left_mono scaled_mono w n assms)
qed
section \<open>Properties of the renderer\<close>

text \<open>
  C17. The areas of the metatiles cover the bounds of a projection without gap or overlap, in spite of
  the rounding of \<open>double\<close>: the outermost metatiles end exactly at the bounds, the right edge of a metatile is
  exactly the left edge of the next, its lower edge is exactly the upper edge of the one below, and no area is inverted.
\<close>

theorem metatile_areas_meet:
  assumes "prj \<in> {web_mercator, plate_carree, british_grid}" "0 \<le> z" "z \<le> MAX_ZOOM"
    and "0 \<le> x" "x < 2 ^ 30" "0 \<le> y" "y < 2 ^ 30"
    and "sx = render_size (pj_aspect_x prj) z" "sy = render_size (pj_aspect_y prj) z" "tile2prjbounds prj x y z = (l, b, r, t)"
  shows "(x = 0 \<longrightarrow> l = pj_bound_x0 prj) \<and> (x + sx = pj_aspect_x prj * 2 ^ nat z \<longrightarrow> r = pj_bound_x1 prj)
    \<and> (y = 0 \<longrightarrow> t = pj_bound_y1 prj) \<and> (y + sy = pj_aspect_y prj * 2 ^ nat z \<longrightarrow> b = pj_bound_y0 prj)
    \<and> l \<le> r \<and> b \<le> t
    \<and> fst (tile2prjbounds prj (x + sx) y z) = r \<and> snd (snd (snd (tile2prjbounds prj x (y + sy) z))) = b"
proof -
  note a = aspect_cases [OF assms(1)] and e = bounds_exact [OF assms(1)]
  have p: "0 < pj_aspect_x prj" "0 < pj_aspect_y prj" using a by auto
  have s: "0 \<le> sx" "sx \<le> 8" "0 \<le> sy" "sy \<le> 8"
    using tiles_across(2,4) [OF a(1) assms(2,3)] tiles_across(2,4) [OF a(2) assms(2,3)] assms(8,9) by (simp_all add: render_size_def METATILE_def)
  have i: "in_int32 x" "in_int32 y" "in_int32 (x + sx)" "in_int32 (y + sy)" using assms(4-7) s by (simp_all add: in_int32_def)
  note edges = prjbounds_edges [OF assms(1-3)]
  have lbrt: "l = edge_x prj z x" "b = edge_y prj z (y + sy)" "r = edge_x prj z (x + sx)" "t = edge_y prj z y"
    using edges [OF i(1,2)] assms(8-10) by simp_all
  have "edge_x prj z x \<le> edge_x prj z (x + sx)" "edge_y prj z (y + sy) \<le> edge_y prj z y"
    using edges_mono(1) [OF e p, of x "x + sx" z] edges_mono(2) [OF e p, of y "y + sy" z] s by simp_all
  then show ?thesis
    using edge_x_ends [OF e p(1), of z] edge_y_ends [OF e p(2), of z] edges [OF i(3,2)] edges [OF i(1,4)] by (auto simp: lbrt)
qed

theorem metatile_areas_meet_witness:
  "fst (tile2prjbounds plate_carree (8 + 8) 0 3) = fst (snd (snd (tile2prjbounds plate_carree 8 0 3)))"
proof -
  obtain l b r t where b: "tile2prjbounds plate_carree 8 0 3 = (l, b, r, t)" by (metis prod_cases4)
  have "render_size (pj_aspect_x plate_carree) 3 = 8" by (simp add: plate_carree_def render_size_def shl1_def wrap32_def METATILE_def)
  with metatile_areas_meet [OF _ _ _ _ _ _ _ refl refl b] b show ?thesis by (simp add: MAX_ZOOM_def)
qed

text \<open>
  What the map library promises of a map's settings: size and area are replaced by the next call that sets them, the
  buffer is independent of both and holds what was set last.
\<close>

definition map_settings :: "('m, 'v, 'img) mapnik \<Rightarrow> bool" where
  "map_settings mk \<longleftrightarrow>
     (\<forall>m w h b w' h' b'. mk_zoom_to_box mk (mk_resize mk (mk_zoom_to_box mk (mk_resize mk m w h) b) w' h') b'
        = mk_zoom_to_box mk (mk_resize mk m w' h') b')
     \<and> (\<forall>m k w h. mk_resize mk (mk_set_buffer_size mk m k) w h = mk_set_buffer_size mk (mk_resize mk m w h) k)
     \<and> (\<forall>m k b. mk_zoom_to_box mk (mk_set_buffer_size mk m k) b = mk_set_buffer_size mk (mk_zoom_to_box mk m b) k)
     \<and> (\<forall>m w h. mk_buffer_size mk (mk_resize mk m w h) = mk_buffer_size mk m)
     \<and> (\<forall>m b. mk_buffer_size mk (mk_zoom_to_box mk m b) = mk_buffer_size mk m)
     \<and> (\<forall>m k. mk_buffer_size mk (mk_set_buffer_size mk m k) = k)
     \<and> (\<forall>m k k'. mk_set_buffer_size mk (mk_set_buffer_size mk m k) k' = mk_set_buffer_size mk m k')"

text \<open>The configurations a thread has after any number of renderings.\<close>

inductive rendered_from :: "('m, 'v, 'img) mapnik \<Rightarrow> ('m, 'st) xmlmapconfig \<Rightarrow> ('m, 'st) xmlmapconfig \<Rightarrow> bool" for mk c0 where
  rf_start: "rendered_from mk c0 c0"
| rf_next: "rendered_from mk c0 c \<Longrightarrow> render mk c x y z opts t = Inr (ret, c', t') \<Longrightarrow> rendered_from mk c0 c'"

definition warmed :: "('m, 'v, 'img) mapnik \<Rightarrow> ('m, 'st) xmlmapconfig \<Rightarrow> 'm \<Rightarrow> 'm \<Rightarrow> bool" where
  "warmed mk c0 m0 m \<longleftrightarrow> m = m0 \<or> (\<exists>x y z. m = prepare_map mk c0 x y z m0)"

definition warm_cfg :: "('m, 'v, 'img) mapnik \<Rightarrow> ('m, 'st) xmlmapconfig \<Rightarrow> ('m, 'st) xmlmapconfig \<Rightarrow> bool" where
  "warm_cfg mk c0 c \<longleftrightarrow>
     c = c0\<lparr>xm_map := xm_map c, xm_cache := xm_cache c\<rparr>
     \<and> (case xm_parameterize c0 of
          parameterize_NULL \<Rightarrow> warmed mk c0 (xm_map c0) (xm_map c)
        | parameterize_language \<Rightarrow>
            xm_map c = xm_map c0 \<and> (\<forall>o' m. xm_cache c o' = Some m \<longrightarrow> (\<exists>m0. select_map mk c0 o' = Inr m0 \<and> warmed mk c0 m0 m)))"

lemma prepare_cong: "xm_prj c = xm_prj c0 \<Longrightarrow> xm_tilesize c = xm_tilesize c0 \<Longrightarrow> xm_scale c = xm_scale c0 \<Longrightarrow> prepare_map mk c = prepare_map mk c0"
  by (intro ext) (simp add: prepare_map_def Let_def)

lemma map_settingsD:
  assumes "map_settings mk"
  shows "mk_zoom_to_box mk (mk_resize mk (mk_zoom_to_box mk (mk_resize mk m w h) b) w' h') b' = mk_zoom_to_box mk (mk_resize mk m w' h') b'"
    "mk_resize mk (mk_set_buffer_size mk m k) w h = mk_set_buffer_size mk (mk_resize mk m w h) k"
    "mk_zoom_to_box mk (mk_set_buffer_size mk m k) b = mk_set_buffer_size mk (mk_zoom_to_box mk m b) k"
    "mk_buffer_size mk (mk_resize mk m w h) = mk_buffer_size mk m" "mk_buffer_size mk (mk_zoom_to_box mk m b) = mk_buffer_size mk m"
    "mk_buffer_size mk (mk_set_buffer_size mk m k) = k" "mk_set_buffer_size mk (mk_set_buffer_size mk m k) k' = mk_set_buffer_size mk m k'"
proof -
  note l = assms [unfolded map_settings_def]
  show "mk_zoom_to_box mk (mk_resize mk (mk_zoom_to_box mk (mk_resize mk m w h) b) w' h') b' = mk_zoom_to_box mk (mk_resize mk m w' h') b'"
    by (rule l [THEN conjunct1, rule_format])
  note l = l [THEN conjunct2]
  show "mk_resize mk (mk_set_buffer_size mk m k) w h = mk_set_buffer_size mk (mk_resize mk m w h) k" by (rule l [THEN conjunct1, rule_format])
  note l = l [THEN conjunct2]
  show "mk_zoom_to_box mk (mk_set_buffer_size mk m k) b = mk_set_buffer_size mk (mk_zoom_to_box mk m b) k" by (rule l [THEN conjunct1, rule_format])
  note l = l [THEN conjunct2]
  show "mk_buffer_size mk (mk_resize mk m w h) = mk_buffer_size mk m" by (rule l [THEN conjunct1, rule_format])
  note l = l [THEN conjunct2]
  show "mk_buffer_size mk (mk_zoom_to_box mk m b) = mk_buffer_size mk m" by (rule l [THEN conjunct1, rule_format])
  note l = l [THEN conjunct2]
  show "mk_buffer_size mk (mk_set_buffer_size mk m k) = k" by (rule l [THEN conjunct1, rule_format])
  show "mk_set_buffer_size mk (mk_set_buffer_size mk m k) k' = mk_set_buffer_size mk m k'" by (rule l [THEN conjunct2, rule_format])
qed

lemma prepare_again:
  assumes "map_settings mk"
  shows "prepare_map mk c x y z (prepare_map mk c x' y' z' m) = prepare_map mk c x y z m"
  by (simp add: prepare_map_def Let_def map_settingsD [OF assms])

lemma prepare_warmed: "map_settings mk \<Longrightarrow> warmed mk c0 m0 m \<Longrightarrow> prepare_map mk c0 x y z m = prepare_map mk c0 x y z m0"
  by (auto simp: warmed_def prepare_again)

lemma warm_cfg_fields:
  assumes "warm_cfg mk c0 c"
  shows "xm_prj c = xm_prj c0" "xm_tilesize c = xm_tilesize c0" "xm_scale c = xm_scale c0" "xm_output_format c = xm_output_format c0"
    "xm_parameterize c = xm_parameterize c0"
proof -
  have "c = c0\<lparr>xm_map := xm_map c, xm_cache := xm_cache c\<rparr>" using assms by (simp add: warm_cfg_def)
  then show "xm_prj c = xm_prj c0" "xm_tilesize c = xm_tilesize c0" "xm_scale c = xm_scale c0" "xm_output_format c = xm_output_format c0"
    "xm_parameterize c = xm_parameterize c0"
    by (metis xmlmapconfig.ext_inject xmlmapconfig.surjective xmlmapconfig.update_convs(1,2))+
qed

text \<open>The selected map is that of a fresh configuration, possibly prepared before.\<close>

lemma warm_select:
  assumes "warm_cfg mk c0 c" "xm_cache c0 = Map.empty"
  shows "(\<exists>f. select_map mk c opts = Inl f \<and> select_map mk c0 opts = Inl f)
    \<or> (\<exists>m0 m. select_map mk c opts = Inr m \<and> select_map mk c0 opts = Inr m0 \<and> warmed mk c0 m0 m)"
proof (cases "xm_parameterize c0")
  case parameterize_NULL
  then show ?thesis using assms warm_cfg_fields(5) [OF assms(1)] by (simp add: select_map_def warm_cfg_def)
next
  case parameterize_language
  note p = warm_cfg_fields(5) [OF assms(1)]
  show ?thesis
  proof (cases "xm_cache c opts")
    case None
    then have "select_map mk c opts = select_map mk c0 opts"
      using parameterize_language p assms by (simp add: select_map_def warm_cfg_def)
    then show ?thesis by (cases "select_map mk c0 opts") (auto simp: warmed_def)
  next
    case (Some m)
    then show ?thesis using parameterize_language p assms by (auto simp: select_map_def warm_cfg_def)
  qed
qed

lemma warm_put:
  assumes "warm_cfg mk c0 c" "select_map mk c0 opts = Inr m0"
  shows "warm_cfg mk c0 (put_map c opts (prepare_map mk c0 x y z m0))"
proof -
  have "c = c0\<lparr>xm_map := xm_map c, xm_cache := xm_cache c\<rparr>" using assms(1) by (simp add: warm_cfg_def)
  then obtain m k where c: "c = c0\<lparr>xm_map := m, xm_cache := k\<rparr>" by blast
  show ?thesis
  proof (cases "xm_parameterize c0")
    case parameterize_NULL
    then have "m0 = xm_map c0" using assms(2) by (simp add: select_map_def)
    then show ?thesis using parameterize_NULL by (auto simp: c warm_cfg_def put_map_def warmed_def)
  next
    case parameterize_language
    have "warmed mk c0 m0 (prepare_map mk c0 x y z m0)" by (auto simp: warmed_def)
    then show ?thesis using parameterize_language assms by (auto simp: c warm_cfg_def put_map_def)
  qed
qed

lemma warm_render:
  assumes "map_settings mk" "warm_cfg mk c0 c" "xm_cache c0 = Map.empty"
  shows "case render mk c0 x y z opts t of
      Inl f \<Rightarrow> render mk c x y z opts t = Inl f
    | Inr (ret, c0', t') \<Rightarrow> \<exists>c'. render mk c x y z opts t = Inr (ret, c', t') \<and> warm_cfg mk c0 c'"
proof -
  note fields = warm_cfg_fields [OF assms(2)]
  note prep = prepare_cong [OF fields(1-3), of mk]
  from warm_select [OF assms(2,3), of opts] show ?thesis
  proof (elim disjE exE conjE)
    fix f
    assume "select_map mk c opts = Inl f" "select_map mk c0 opts = Inl f"
    then show ?thesis by (simp add: render_def)
  next
    fix m0 m
    assume s: "select_map mk c opts = Inr m" "select_map mk c0 opts = Inr m0" "warmed mk c0 m0 m"
    note p = prepare_warmed [OF assms(1) s(3), of x y z]
    show ?thesis using s fields prep p warm_put [OF assms(2) s(2), of x y z]
      by (auto simp: render_def Let_def bind_fault_def split: option.splits sum.splits)
  qed
qed

lemma rendered_warm: "rendered_from mk c0 c \<Longrightarrow> map_settings mk \<Longrightarrow> xm_cache c0 = Map.empty \<Longrightarrow> warm_cfg mk c0 c"
proof (induction rule: rendered_from.induct)
  case rf_start
  then show ?case by (cases "xm_parameterize c0") (simp_all add: warm_cfg_def warmed_def)
next
  case (rf_next c x y z opts t ret c' t')
  then show ?case using warm_render [of mk c0 c x y z opts t] by (auto split: sum.splits)
qed

text \<open>
  C18. Caching the parameterized maps and reusing the map objects does not show: after any sequence of renderings, with any
  options, a metatile is rendered to exactly the same status and the same tiles, or fails in the same way, as with the map as it was loaded.
\<close>

theorem rendering_ignores_history:
  assumes "map_settings mk" "xm_cache c0 = Map.empty" "rendered_from mk c0 c"
  shows "map_sum id (\<lambda>(ret, _, tiles). (ret, tiles)) (render mk c x y z opts t)
    = map_sum id (\<lambda>(ret, _, tiles). (ret, tiles)) (render mk c0 x y z opts t)"
  using warm_render [OF assms(1) rendered_warm [OF assms(3,1,2)] assms(2), of x y z opts t] by (auto split: sum.splits)

text \<open>A small map library: a map is its size, its area and its buffer; an image is the map it was made from.\<close>

definition sample_mapnik :: "(int \<times> int \<times> box \<times> int, string, int \<times> int \<times> box \<times> int) mapnik" where
  "sample_mapnik =
     \<lparr>mk_new = (\<lambda>w h. (w, h, (0, 0, 0, 0), 0)), mk_load_map = (\<lambda>m f. Some m), mk_load_fonts = (\<lambda>m. Some m),
      mk_srs = (\<lambda>m. ''+proj=merc +a=6378137 +b=6378137''), mk_layers = (\<lambda>m. []), mk_set_layer = (\<lambda>m i p. None),
      mk_string = (\<lambda>s. s), mk_get_string = Some, mk_resize = (\<lambda>(_, _, b, k) w h. (w, h, b, k)),
      mk_zoom_to_box = (\<lambda>(w, h, _, k) b. (w, h, b, k)), mk_buffer_size = (\<lambda>(_, _, _, k). k),
      mk_set_buffer_size = (\<lambda>(w, h, b, _) k. (w, h, b, k)), mk_background = (\<lambda>m. True), mk_image = (\<lambda>w h i. (w, h, (0, 0, 0, 0), 0)),
      mk_render = (\<lambda>m img s. Some m), mk_save = (\<lambda>img x y w h f. Some [word_of_int (x div w), word_of_int (y div h)])\<rparr>"

lemma sample_settings: "map_settings sample_mapnik"
  by (simp add: map_settings_def sample_mapnik_def split_paired_all)

definition sample_cfg :: "parameterize_function_ptr \<Rightarrow> (int \<times> int \<times> box \<times> int, fsys) xmlmapconfig" where
  "sample_cfg pf =
     \<lparr>xm_map = (2304, 2304, (0, 0, 0, 0), 0), xm_cache = Map.empty, xm_host = [], xm_htcphost = [], xm_output_format = ''png256'',
      xm_xmlfile = ''osm.xml'', xm_xmlname = ''osm'', xm_xmluri = ''/osm/'', xm_scale = 1, xm_htcpsock = -1, xm_maxzoom = 20,
      xm_minzoom = 0, xm_ok = True, xm_tilesize = 256, xm_parameterize = pf, xm_prj = web_mercator,
      xm_store = init_storage_file sample_env ''/t''\<rparr>"

lemma sample_mapnik_total:
  "mk_save sample_mapnik img x y w h f \<noteq> None" "mk_render sample_mapnik m img sc = Some m"
  by (simp_all add: sample_mapnik_def)

lemma cut_tiles_returns:
  assumes "\<And>img x y w h f. mk_save mk img x y w h f \<noteq> None"
  shows "\<exists>t'. cut_tiles mk img ts fmt ps t = Inr t'"
  using assms by (induction ps arbitrary: t) (auto split: option.split)

lemma render_value:
  assumes "select_map mk cfg opts = Inr m0" "\<And>img x y w h f. mk_save mk img x y w h f \<noteq> None"
  shows "\<exists>ret t'. render mk cfg x y z opts t = Inr (ret, put_map cfg opts (prepare_map mk cfg x y z m0), t')
    \<and> ((\<forall>m img s. mk_render mk m img s \<noteq> None) \<longrightarrow> ret = cmdDone)"
proof -
  let ?m = "prepare_map mk cfg x y z m0"
  let ?tx = "render_size (pj_aspect_x (xm_prj cfg)) z" and ?ty = "render_size (pj_aspect_y (xm_prj cfg)) z"
  let ?buf = "mk_image mk (uint32 (?tx * xm_tilesize cfg)) (uint32 (?ty * xm_tilesize cfg)) (\<not> mk_background mk ?m)"
  show ?thesis
  proof (cases "mk_render mk ?m ?buf (xm_scale cfg)")
    case None
    then show ?thesis using assms(1) by (auto simp: render_def Let_def)
  next
    case (Some img)
    obtain t' where "cut_tiles mk img (xm_tilesize cfg) (xm_output_format cfg) (cut_order (nat ?tx) (nat ?ty)) t = Inr t'"
      using cut_tiles_returns [OF assms(2)] by blast
    then show ?thesis using assms(1) Some by (auto simp: render_def Let_def)
  qed
qed

theorem rendering_ignores_history_witness:
  "\<exists>c t'. render sample_mapnik (sample_cfg parameterize_language) 8 16 5 ''de'' (metaTile_new ''osm'' ''de'' 8 16 5) = Inr (cmdDone, c, t')
    \<and> c \<noteq> sample_cfg parameterize_language
    \<and> map_sum id (\<lambda>(ret, _, tiles). (ret, tiles)) (render sample_mapnik c 0 0 3 ''de'' t')
      = map_sum id (\<lambda>(ret, _, tiles). (ret, tiles)) (render sample_mapnik (sample_cfg parameterize_language) 0 0 3 ''de'' t')"
proof -
  let ?c0 = "sample_cfg parameterize_language"
  have "name_replace ''de'' = Inr (Some '', coalesce(tags->'name:de') as name'')" by code_simp
  then have sel: "select_map sample_mapnik ?c0 ''de'' = Inr (xm_map ?c0)"
    by (simp add: select_map_def sample_cfg_def parameterize_map_language_def sample_mapnik_def)
  obtain t' where r: "render sample_mapnik ?c0 8 16 5 ''de'' (metaTile_new ''osm'' ''de'' 8 16 5)
      = Inr (cmdDone, put_map ?c0 ''de'' (prepare_map sample_mapnik ?c0 8 16 5 (xm_map ?c0)), t')"
    using render_value [OF sel sample_mapnik_total(1), of 8 16 5 "metaTile_new ''osm'' ''de'' 8 16 5"] sample_mapnik_total(2) by auto
  have e: "xm_cache ?c0 = Map.empty" "xm_parameterize ?c0 = parameterize_language" by (simp_all add: sample_cfg_def)
  have n: "put_map ?c0 ''de'' m \<noteq> ?c0" for m
  proof
    assume "put_map ?c0 ''de'' m = ?c0"
    then have "xm_cache (put_map ?c0 ''de'' m) ''de'' = None" using e by simp
    then show False using e by (simp add: put_map_def)
  qed
  show ?thesis
    using r n rendering_ignores_history [OF sample_settings e(1) rendered_from.rf_next [OF rendered_from.rf_start r]] by blast
qed

text \<open>
  The mutex that guards the loading of maps is locked once and unlocked once for every map, except when a map is loaded
  for more than ten threads and the library throws while the data sources are replaced: then the handler unlocks it a second time.
\<close>

lemma map_load_mutex_calls:
  "snd (load_layer mk pf threads xmlfile m) =
     (if 10 < threads \<and> (\<exists>m2. Option.bind (mk_load_map mk m xmlfile) (\<lambda>m1. if pf = parameterize_NULL then mk_load_fonts mk m1 else Some m1) = Some m2
          \<and> parameterize_map_max_connections mk threads m2 = None)
      then [MutexLock, MutexUnlock, MutexUnlock] else [MutexLock, MutexUnlock])"
  by (auto simp: load_layer_def split: option.split)

section \<open>Answering what is held\<close>

lemma expire_tiles_returns: "\<forall>s. ht_malloc os s \<Longrightarrow> \<exists>s'. metaTile_expire_tiles os sock host uri t s = Some s'"
  using expire_all_sends [of os sock host uri "mt_z t" "expire_order t" s] by (auto simp: metaTile_expire_tiles_def)

lemma render_item_returns:
  assumes "\<forall>m\<in>set (wk_maps w). map_sound m \<and> xm_parameterize m = parameterize_NULL" "\<forall>s. ht_malloc (ro_htcp os) s"
    and "\<And>img x y w h f. mk_save mk img x y w h f \<noteq> None"
  shows "\<exists>ret t w'. render_item mk os t1 t2 item w = Inr (ret, t, w') \<and> ret \<in> {cmdDone, cmdNotDone, cmdIgnore}"
proof (cases "find_xmlmap (wk_maps w) (pr_xmlname (it_req item))")
  case None
  then show ?thesis by (simp add: render_item_def)
next
  case (Some i)
  let ?c = "wk_maps w ! i" and ?r = "it_req item"
  let ?t = "metaTile_new (pr_xmlname ?r) (pr_options ?r) (it_mx item) (it_my item) (pr_z ?r)"
  have c: "map_sound ?c" "xm_parameterize ?c = parameterize_NULL" using find_xmlmap_Some [OF Some] assms(1) by auto
  obtain ret c' t' where r: "render mk ?c (it_mx item) (it_my item) (pr_z ?r) (pr_options ?r) ?t = Inr (ret, c', t')"
    using render_value [OF _ assms(3), of ?c "pr_options ?r" "xm_map ?c" "it_mx item" "it_my item" "pr_z ?r" ?t] c(2) by (auto simp: select_map_def)
  obtain s' where s: "metaTile_expire_tiles (ro_htcp os) (xm_htcpsock ?c) (xm_host ?c) (xm_xmluri ?c) t' (wk_net w) = Some s'"
    using expire_tiles_returns [OF assms(2)] by blast
  show ?thesis
    using Some r s c(1) render_cmd [OF r] by (auto simp: render_item_def Let_def map_sound_def)
qed

text \<open>A thread that is done with its item answers it.\<close>

lemma finish_held:
  assumes "sys_inv (fm_sys F, ran (fm_job F)) v" "fm_job F k = Some a" "\<forall>m\<in>set (fm_maps F k). map_sound m"
    and r: "render_item mk ros t1 t2 (held_item F a) (worker_of F k) = Inr (ret, t, w')"
  shows "\<exists>F'. farm_step mk ros os F F' \<and> fm_job F' k = None \<and> fm_store F' = wk_store w'
    \<and> pl_sent (fm_sys F') = pl_sent (fm_sys F) @ answers (q_mem (pl_queue (fm_sys F))) ret (a # v_dups v a)"
proof -
  have z: "zoom_checked (pl_queue (fm_sys F)) a t" by (rule held_zoom_checked [OF r]) (use assms(3) in \<open>simp add: worker_of_def\<close>)
  have "a \<in> ran (fm_job F)" using assms(2) by (auto simp: ran_def)
  then have "repr (pl_queue (fm_sys F)) v" "a \<in> set (v_list v renderHead)" using assms(1) by (auto simp: sys_inv_def daemon_inv_def)
  from send_response_spec [OF this z, of "do_sock os" "pl_os (fm_sys F)" ret] obtain q' c' where
    s: "send_response (do_sock os) (pl_queue (fm_sys F)) (pl_os (fm_sys F)) a ret t
      = Some (q', c', answers (q_mem (pl_queue (fm_sys F))) ret (a # v_dups v a))" by blast
  show ?thesis
    by (rule exI, rule conjI, rule farm_step.fm_finish [OF assms(2) r s]) simp
qed


text \<open>A daemon with one client, whose request thread 0 holds.\<close>

definition sample_htcp :: "unit htcp_os" where
  "sample_htcp = \<lparr>ht_malloc = (\<lambda>_. True), ht_send = (\<lambda>s fd bs. (int (length bs), s))\<rparr>"

definition sample_ros :: "(fsys, unit) render_os" where
  "sample_ros =
     \<lparr>ro_backends = (\<lambda>k o'. if k = storageFile then init_storage_file sample_env o' else None), ro_dirs = [''/t'' \<mapsto> FDir],
      ro_net = \<lparr>no_getaddrinfo = (\<lambda>s h p. ((1, []), s)), no_socket = (\<lambda>s a. (-1, s)), no_connect = (\<lambda>s fd a. (-1, s))\<rparr>,
      ro_htcp = sample_htcp, ro_malloc = True\<rparr>"

definition sample_farm :: "fsys \<Rightarrow> (int \<times> int \<times> box \<times> int, fsys, unit, unit) farm" where
  "sample_farm fs =
     \<lparr>fm_sys = \<lparr>pl_slots = [7], pl_conns = 1, pl_queue = sample_queue2, pl_os = (), pl_sent = []\<rparr>, fm_job = [0 \<mapsto> 0],
      fm_maps = (\<lambda>_. [sample_cfg parameterize_NULL]), fm_store = fs, fm_net = ()\<rparr>"

lemma sample_queue2_alloc: "{a. q_alloc sample_queue2 a} = {0}"
proof -
  have f: "v_fetch sample_view1 = Some (0, sample_view2)"
    by (simp add: v_fetch_def fetch_order_def sample_view1_def sample_view2_def v_push_def empty_view_def)
  have "q_alloc sample_queue2 = q_alloc sample_queue1"
    using fetch_refines [OF sample_queue1_repr] f by (auto simp: sample_queue2_def)
  moreover have "q_alloc sample_queue1 b = (if b = 0 then 0 \<in> owned sample_view1 else q_alloc sample_queue b)" for b
    using add_request_alloc [OF sample_queue_repr, of 0 cmdIgnore sample_view1 b] sample_add
    by (simp add: sample_queue1_def sample_view1_def sample_item make_item_def sample_request_def)
  moreover have "0 \<in> owned sample_view1" by (auto simp: owned_def queued_def sample_view1_def v_push_def)
  moreover have "\<not> q_alloc sample_queue b" if "b \<noteq> 0" for b using that by (simp add: sample_queue_def store_item_def empty_queue_def)
  ultimately show ?thesis by auto
qed

lemma sample_queue2_item:
  "it_req (q_mem sample_queue2 (Obj 0)) = sample_request" "it_mx (q_mem sample_queue2 (Obj 0)) = 8" "it_my (q_mem sample_queue2 (Obj 0)) = 8"
  "it_fd (q_mem sample_queue2 (Obj 0)) \<in> {7, FD_INVALID}"
proof -
  have m: "q_mem sample_queue1 c = q_mem (snd (add_request sample_queue 0)) c" for c by (simp add: sample_queue1_def)
  note i = add_request_items [OF sample_queue_repr, of 0 0]
  show "it_req (q_mem sample_queue2 (Obj 0)) = sample_request" "it_mx (q_mem sample_queue2 (Obj 0)) = 8" "it_my (q_mem sample_queue2 (Obj 0)) = 8"
    using i by (simp_all add: sample_queue2_repr(2) fetch_mem_item m sample_item make_item_def sample_request_def METATILE_def)
  show "it_fd (q_mem sample_queue2 (Obj 0)) \<in> {7, FD_INVALID}"
    using add_request_fd [OF sample_queue_repr, of 0 0] by (simp add: sample_queue2_repr(2) m sample_item make_item_def sample_request_def)
qed

lemma sample_farm_inv: "sys_inv (fm_sys (sample_farm fs), ran (fm_job (sample_farm fs))) sample_view2"
proof -
  have a: "q_alloc sample_queue2 b \<longleftrightarrow> b = 0" for b using sample_queue2_alloc by blast
  have f: "pl_queue (fm_sys (sample_farm fs)) = sample_queue2" "pl_slots (fm_sys (sample_farm fs)) = [7]" "pl_conns (fm_sys (sample_farm fs)) = 1"
    "ran (fm_job (sample_farm fs)) = {0}"
    by (simp_all add: sample_farm_def)
  have "slots_ok (fm_sys (sample_farm fs))" by (simp add: slots_ok_def f MAX_CONNECTIONS_def FD_INVALID_def)
  moreover have "fds_ok sample_queue2 {7}" using sample_queue2_item(4) by (simp add: fds_ok_def a) blast
  ultimately show ?thesis
    using sample_queue2_repr(1) by (simp add: sys_inv_def daemon_inv_def f sample_view2_lists sample_queue2_alloc)
qed

lemma sample_maps_sound: "m \<in> set (fm_maps (sample_farm fs) k) \<Longrightarrow> map_sound m \<and> xm_parameterize m = parameterize_NULL"
  by (simp add: sample_farm_def sample_cfg_def map_sound_def MAX_ZOOM_def init_storage_file_def sample_env_def)


text \<open>
  C7. The render threads as they are written implement the threads the daemon's theorems assume: in every state that the
  event loop and any number of render threads reach, started with the maps of an accepted configuration, the daemon's part is a state its
  own relation reaches with exactly the items the threads hold; no item is held by two threads; every map keeps zoom levels within
  those of the program and one of the known projections; and every queued item has the corner of the metatile of its request.
\<close>

theorem render_threads_refine_daemon:
  assumes "farm_reach mk ros os items F" "malloc_fresh os" "\<forall>item\<in>set items. map_ok item"
  shows "sys_reach os (fm_sys F, ran (fm_job F))
    \<and> (\<forall>k k' a. fm_job F k = Some a \<longrightarrow> fm_job F k' = Some a \<longrightarrow> k = k')
    \<and> (\<forall>k. \<forall>m\<in>set (fm_maps F k). map_sound m) \<and> items_ok (pl_queue (fm_sys F))"
proof -
  have inv: "farm_inv os F" by (rule farm_reach_inv [OF assms])
  then have r: "sys_reach os (fm_sys F, ran (fm_job F))" by (simp add: farm_inv_def)
  have "k = k'" if "fm_job F k = Some a" "fm_job F k' = Some a" for k k' a
    using inv that inj_onD [of "fm_job F" "dom (fm_job F)" k k'] by (auto simp: farm_inv_def)
  then show ?thesis using inv r sys_reach_items [OF r assms(2)] by (auto simp: farm_inv_def)
qed

text \<open>A map of a configuration file.\<close>

definition sample_map_item :: xmlconfigitem where
  "sample_map_item =
     \<lparr>xi_attribution = [], xi_cors = [], xi_description = [], xi_file_extension = ''png'', xi_host = [], xi_htcpip = [],
      xi_mime_type = ''image/png'', xi_output_format = ''png256'', xi_parameterization = [], xi_server_alias = [], xi_tile_dir = ''/t'',
      xi_xmlfile = ''osm.xml'', xi_xmlname = ''osm'', xi_xmluri = ''/osm/'', xi_scale_factor = 1, xi_aspect_x = 1, xi_aspect_y = 1,
      xi_max_zoom = 20, xi_min_zoom = 0, xi_num_threads = 4, xi_tile_px_size = 256\<rparr>"

lemma sample_map_item_ok: "map_ok sample_map_item"
proof -
  have "MIN_SCALE \<le> 1" using dbl_mono [of "1 / 10" 1] dbl_of_int [of 1] by (simp add: MIN_SCALE_def)
  then show ?thesis by (simp add: map_ok_def sample_map_item_def MAX_ZOOM_def XMLCONFIG_MAX_def PATH_MAX_def)
qed

theorem render_threads_refine_daemon_witness:
  "\<exists>F. farm_reach sample_mapnik sample_ros idle_os [sample_map_item] F \<and> map xm_xmlname (fm_maps F 0) = [''osm''] \<and> items_ok (pl_queue (fm_sys F))"
proof -
  let ?M = "map fst (fst (setup_maps sample_mapnik sample_ros (\<lambda>_. sample_cfg parameterize_NULL) 0 [sample_map_item] [] ()))"
  let ?F = "\<lparr>fm_sys = \<lparr>pl_slots = [], pl_conns = 0, pl_queue = empty_queue, pl_os = (), pl_sent = []\<rparr>, fm_job = (\<lambda>_. None), fm_maps = (\<lambda>_. ?M),
      fm_store = sample_fs, fm_net = ()\<rparr>"
  have r: "farm_reach sample_mapnik sample_ros idle_os [sample_map_item] ?F"
    by (rule farm_reach.fm_start) (auto simp: request_queue_init_def)
  have "malloc_fresh idle_os" by (simp add: malloc_fresh_def idle_os_def)
  from render_threads_refine_daemon [OF r this] have "items_ok (pl_queue (fm_sys ?F))" by (simp add: sample_map_item_ok)
  moreover have "map xm_xmlname ?M = [''osm'']"
    by (simp add: XMLCONFIGS_MAX_def setup_map_def Let_def sample_map_item_def PATH_MAX_def case_prod_beta split: option.split)
  ultimately show ?thesis using r by (intro exI [of _ ?F]) simp
qed
text \<open>
  The caches are told about as many tiles per direction as the zoom level has, while a map that is twice as wide as high has
  twice as many columns: at the lowest zoom levels the tiles of its right half are rendered but not purged.
\<close>

lemma low_zoom_purge_incomplete:
  assumes "0 \<le> z" "z \<le> 2" "mt_z t = z" "mt_x t = 0" "mt_y t = 0"
  shows "(2 ^ nat z, 0) \<in> set (cut_order (nat (render_size (pj_aspect_x plate_carree) z)) (nat (render_size (pj_aspect_y plate_carree) z)))"
    "(2 ^ nat z, 0) \<notin> set (expire_order t)"
proof -
  show "(2 ^ nat z, 0) \<notin> set (expire_order t)" using expire_order_set(1) [of t] assms by auto
  have a: "(1 :: int) \<in> {1, 2}" "(2 :: int) \<in> {1, 2}" and m: "z \<le> MAX_ZOOM" using assms(2) by (auto simp: MAX_ZOOM_def)
  have "(2 :: int) ^ nat z \<le> 2 ^ 2" using assms(2) by (intro power_increasing) auto
  then have "int (2 ^ nat z) < render_size 2 z" "0 < render_size 1 z"
    using tiles_across(2) [OF a(1) assms(1) m] tiles_across(2) [OF a(2) assms(1) m] by (simp_all add: render_size_def METATILE_def)
  then show "(2 ^ nat z, 0) \<in> set (cut_order (nat (render_size (pj_aspect_x plate_carree) z)) (nat (render_size (pj_aspect_y plate_carree) z)))"
    by (simp add: cut_order_set plate_carree_def zless_nat_eq_int_zless)
qed

end
