(* ===== verification/Renderd_Main.thy ===== *)
theory Renderd_Main
  imports Tool_Options Gen_Tile
begin

text \<open>
  The daemon from its command line to its event loop (\<^verbatim>\<open>main\<close> of \<^verbatim>\<open>src/renderd.c\<close>), the turn of a slave thread and the release
  of the configuration. Results of the operating system's calls are parameters; messages, the process identifier's file and the detaching
  from the terminal are left out.
\<close>

section \<open>Options\<close>

record daemon_cli =
  dl_config :: "string option"
  dl_foreground :: bool
  dl_section :: int

definition daemon_option :: "(string \<Rightarrow> bool) \<Rightarrow> char \<Rightarrow> string \<Rightarrow> daemon_cli \<Rightarrow> int + daemon_cli" where
  "daemon_option exists c arg cl =
     (if c = CHR ''c''
      then let name = take PATH_MAX arg in if exists name then Inr (cl\<lparr>dl_config := Some name\<rparr>) else Inl 1
      else if c = CHR ''f'' then Inr (cl\<lparr>dl_foreground := True\<rparr>)
      else if c = CHR ''s'' then then_set (min_max_int_opt arg 0 (-1)) (\<lambda>v. cl\<lparr>dl_section := v\<rparr>)
      else if c = CHR ''h'' \<or> c = CHR ''V'' then Inl 0
      else Inl 1)"

definition daemon_start :: daemon_cli where
  "daemon_start = \<lparr>dl_config = None, dl_foreground = False, dl_section = 0\<rparr>"

section \<open>The release of the configuration\<close>

text \<open>A released section is all zero.\<close>

definition free_renderd_section :: "renderd_config \<Rightarrow> renderd_config" where
  "free_renderd_section c = zero_config"

definition free_renderd_sections :: "renderd_config list \<Rightarrow> renderd_config list" where
  "free_renderd_sections cs = map (\<lambda>c. if rc_num_threads c \<noteq> 0 then free_renderd_section c else c) cs"

text \<open>A daemon that connects to no slaves releases every section but its own.\<close>

definition free_unused_sections :: "int \<Rightarrow> renderd_config list \<Rightarrow> renderd_config list" where
  "free_unused_sections active cs =
     map (\<lambda>k. if active \<noteq> int k \<and> rc_num_threads (cs ! k) \<noteq> 0 then free_renderd_section (cs ! k) else cs ! k) [0..<length cs]"

text \<open>The maps of a configuration are those with a name; released ones have none.\<close>

definition free_map_sections :: "xmlconfigitem list \<Rightarrow> xmlconfigitem list" where
  "free_map_sections ms = []"

section \<open>Threads\<close>

text \<open>The sections of the slaves, one entry for each thread to be created.\<close>

definition slave_jobs :: "renderd_config list \<Rightarrow> nat list" where
  "slave_jobs cs = concat (map (\<lambda>i. replicate (nat (rc_num_threads (cs ! i))) i) [1..<nat MAX_SLAVES])"

text \<open>
  The creation of the slave threads into an array of \<open>cap\<close> entries: \<open>None\<close> is a write behind its end, \<open>Inl\<close> the exit code, \<open>Inr\<close> the number of
  threads.
\<close>

fun spawn_slaves :: "(nat \<Rightarrow> bool) \<Rightarrow> nat \<Rightarrow> nat \<Rightarrow> nat list \<Rightarrow> (int + nat) option" where
  "spawn_slaves create cap k [] = Some (Inr k)"
| "spawn_slaves create cap k (i # jobs) =
     (if k \<ge> cap then None else if \<not> create k then Some (Inl 7) else spawn_slaves create cap (Suc k) jobs)"

definition start_slaves :: "(nat \<Rightarrow> bool) \<Rightarrow> (int \<Rightarrow> bool) \<Rightarrow> int \<Rightarrow> daemon_conf \<Rightarrow> (int + nat \<times> renderd_config list) option" where
  "start_slaves create malloc active dc =
     (if active = 0 \<and> dc_num_slave_threads dc > 0
      then if \<not> malloc (dc_num_slave_threads dc) then Some (Inl 7)
           else (case spawn_slaves create (nat (dc_num_slave_threads dc)) 0 (slave_jobs (dc_slaves dc)) of
                   None \<Rightarrow> None
                 | Some (Inl e) \<Rightarrow> Some (Inl e)
                 | Some (Inr k) \<Rightarrow> Some (Inr (k, dc_slaves dc)))
      else Some (Inr (0, free_unused_sections active (dc_slaves dc))))"

section \<open>Waiting for the render threads\<close>

definition RENDER_THREAD_STARTUP_TIMEOUT_SEC :: int where
  "RENDER_THREAD_STARTUP_TIMEOUT_SEC = 20"

text \<open>The number of maps whose counter has reached the number of threads.\<close>

definition total_maps_ok :: "int \<Rightarrow> (nat \<Rightarrow> int) \<Rightarrow> nat \<Rightarrow> nat" where
  "total_maps_ok n threads_ok num_maps = length (filter (\<lambda>i. threads_ok i = n) [0..<num_maps])"

text \<open>
  The loop, with the counters and the clock it finds in round \<open>r\<close>: the exit code, or the round in which all maps were ready. \<open>None\<close>: it never
  ends.
\<close>

partial_function (option) wait_for_maps ::
    "int \<Rightarrow> nat \<Rightarrow> int \<Rightarrow> (nat \<Rightarrow> int) \<Rightarrow> (nat \<Rightarrow> nat \<Rightarrow> int) \<Rightarrow> nat \<Rightarrow> (int + nat) option" where
  "wait_for_maps n num_maps start_time clock threads_ok r =
     (if total_maps_ok n (threads_ok r) num_maps < num_maps
      then if clock r - start_time \<ge> wrap32 (RENDER_THREAD_STARTUP_TIMEOUT_SEC * n) then Some (Inl 7)
           else wait_for_maps n num_maps start_time clock threads_ok (Suc r)
      else Some (Inr r))"

section \<open>The program\<close>

text \<open>What the calls of the program return; \<open>ms_threads_ok r i\<close> is the counter of map \<open>i\<close> in round \<open>r\<close> of the wait.\<close>

record main_os =
  ms_exists :: "string \<Rightarrow> bool"
  ms_load :: "string \<Rightarrow> ini option"
  ms_config_default :: string
  ms_defaults :: conf_defaults
  ms_queue :: "bool \<times> int \<times> int \<times> bool"
  ms_server :: server_os
  ms_sigaction :: bool
  ms_stats_thread :: bool
  ms_malloc :: "int \<Rightarrow> bool"
  ms_render_thread :: "nat \<Rightarrow> bool"
  ms_slave_thread :: "nat \<Rightarrow> bool"
  ms_start_time :: int
  ms_clock :: "nat \<Rightarrow> int"
  ms_threads_ok :: "nat \<Rightarrow> nat \<Rightarrow> int"

record started =
  sd_conf :: daemon_conf
  sd_queue :: request_queue
  sd_fd :: int
  sd_slaves :: nat
  sd_sections :: "renderd_config list"
  sd_round :: nat

text \<open>An access outside of an array, a wait without end, an exit code, or the event loop.\<close>

datatype startup = StartFault | StartWaits | StartExit int | StartReady started

definition daemon_main :: "main_os \<Rightarrow> (char \<times> string) list \<Rightarrow> startup" where
  "daemon_main ms opts =
     (case run_options (daemon_option (ms_exists ms)) opts daemon_start of
        Inl e \<Rightarrow> StartExit e
      | Inr cl \<Rightarrow>
     (case process_config_file (ms_load ms (or_default (dl_config cl) (ms_config_default ms))) (ms_defaults ms) (dl_section cl) of
        None \<Rightarrow> StartFault
      | Some (Inl e) \<Rightarrow> StartExit e
      | Some (Inr dc) \<Rightarrow>
     (let cfg = dc_slaves dc ! dc_active dc; n = rc_num_threads cfg; (a, b, c, d) = ms_queue ms
      in case request_queue_init a b c d of
        None \<Rightarrow> StartExit 1
      | Some q \<Rightarrow>
     (case fst (server_socket_init (ms_server ms) cfg) of
        Inl e \<Rightarrow> StartExit e
      | Inr fd \<Rightarrow>
          if \<not> ms_sigaction ms then StartExit 6
          else if take (PATH_MAX - 1) (rc_stats_filename cfg) \<noteq> [] \<and> \<not> ms_stats_thread ms then StartExit 7
          else if \<not> ms_malloc ms n then StartExit 7
          else if \<not> list_all (ms_render_thread ms) [0..<nat n] then StartExit 7
          else (case start_slaves (ms_slave_thread ms) (ms_malloc ms) (dl_section cl) dc of
                  None \<Rightarrow> StartFault
                | Some (Inl e) \<Rightarrow> StartExit e
                | Some (Inr (k, cs)) \<Rightarrow>
                    (case wait_for_maps n (length (dc_maps dc)) (ms_start_time ms) (ms_clock ms) (ms_threads_ok ms) 0 of
                       None \<Rightarrow> StartWaits
                     | Some (Inl e) \<Rightarrow> StartExit e
                     | Some (Inr r) \<Rightarrow>
                         StartReady \<lparr>sd_conf = dc, sd_queue = q, sd_fd = fd, sd_slaves = k, sd_sections = cs, sd_round = r\<rparr>))))))"

text \<open>Behind the event loop the configuration is released.\<close>

definition daemon_end :: "started \<Rightarrow> started" where
  "daemon_end sd =
     sd\<lparr>sd_conf := (sd_conf sd)\<lparr>dc_maps := free_map_sections (dc_maps (sd_conf sd))\<rparr>, sd_sections := free_renderd_sections (sd_sections sd)\<rparr>"

section \<open>The turn of a slave thread\<close>

text \<open>
  A turn of the loop: without a connection the thread tries to make one and takes no item; with one it takes an item, if there is one, and
  brings it to the slave.
\<close>

definition slave_turn ::
    "'s slave_os \<Rightarrow> renderd_config \<Rightarrow> int \<Rightarrow> int list \<Rightarrow> request_queue \<Rightarrow> 's
     \<Rightarrow> (slave_next \<times> request_queue \<times> 's \<times> (int \<times> protocol) list) option" where
  "slave_turn os cfg pfd op q s =
     (let (pfd1, op1, s1) = (if pfd = FD_INVALID then client_socket_init (sl_net os) cfg op s else (pfd, op, s))
      in if pfd1 = FD_INVALID then Some (SlaveContinue FD_INVALID, q, s1, [])
         else case request_queue_fetch_request q of
                Some (Obj a, q1) \<Rightarrow> slave_item os cfg pfd1 op1 q1 s1 a
              | _ \<Rightarrow> Some (SlaveContinue pfd1, q, s1, []))"

section \<open>The slave threads' array\<close>

lemma spawn_slaves_result:
  assumes "\<And>k. create k"
  shows "spawn_slaves create cap k jobs = (if k + length jobs \<le> cap \<or> jobs = [] then Some (Inr (k + length jobs)) else None)"
  using assms by (induction jobs arbitrary: k) auto

lemma spawn_slaves_fault: "spawn_slaves create cap k jobs = None \<Longrightarrow> cap < k + length jobs"
proof (induction jobs arbitrary: k)
  case (Cons i jobs)
  show ?case
  proof (cases "k \<ge> cap")
    case False
    then have "spawn_slaves create cap (Suc k) jobs = None" using Cons.prems by (simp split: if_splits)
    then show ?thesis using Cons.IH [of "Suc k"] by simp
  qed simp
qed simp

lemma sum_nat_ge: "sum_list (map f xs) \<le> (\<Sum>x\<leftarrow>xs. int (nat (f x)))" for f :: "'a \<Rightarrow> int"
  by (induction xs) auto

lemma sum_nat_eq: "sum_list (map f xs) = (\<Sum>x\<leftarrow>xs. int (nat (f x))) \<longleftrightarrow> (\<forall>x\<in>set xs. 0 \<le> f x)" for f :: "'a \<Rightarrow> int"
proof (induction xs)
  case (Cons x xs)
  then show ?case using sum_nat_ge [of f xs] by auto
qed simp

lemma length_slave_jobs: "int (length (slave_jobs cs)) = (\<Sum>k\<leftarrow>[1..<nat MAX_SLAVES]. int (nat (rc_num_threads (cs ! k))))"
proof -
  have "int (sum_list ns) = (\<Sum>n\<leftarrow>ns. int n)" for ns :: "nat list" by (induction ns) simp_all
  then show ?thesis by (simp add: slave_jobs_def length_concat comp_def)
qed

lemma slave_threads_master:
  assumes "length cs = nat MAX_SLAVES"
  shows "slave_threads 0 cs = sum_list (map (\<lambda>k. rc_num_threads (cs ! k)) [1..<nat MAX_SLAVES])"
proof -
  have u: "[0..<nat MAX_SLAVES] = 0 # [1..<nat MAX_SLAVES]" by (simp add: MAX_SLAVES_def upt_conv_Cons)
  have "map (\<lambda>k. if int k = 0 then 0 else rc_num_threads (cs ! k)) [1..<nat MAX_SLAVES] = map (\<lambda>k. rc_num_threads (cs ! k)) [1..<nat MAX_SLAVES]"
    by (rule map_cong) auto
  then show ?thesis by (simp only: slave_threads_def assms u list.map sum_list.Cons) simp
qed

lemma renderd_loop_length: "renderd_loop i cd k cs ss = Some (Inr (k', cs')) \<Longrightarrow> length cs' = length cs"
  by (induction i cd k cs ss arbitrary: k' cs' rule: renderd_loop.induct) (auto split: if_splits option.splits sum.splits)

lemma config_table:
  assumes "process_config_file io cd active = Some (Inr dc)"
  shows "length (dc_slaves dc) = nat MAX_SLAVES" "dc_num_slave_threads dc = slave_threads active (dc_slaves dc)"
    "length (dc_maps dc) \<le> XMLCONFIGS_MAX"
proof -
  from assms obtain i cs c where cs: "process_renderd_sections (Some i) cd = Some (Inr cs)"
      and ms: "process_map_sections (Some i) (rc_tile_dir c) (rc_num_threads c) = Inr (dc_maps dc)"
      and dc: "dc_slaves dc = cs[nat active := c]" "dc_num_slave_threads dc = slave_threads active (cs[nat active := c])"
    by (auto simp: process_config_file_def Let_def split: if_splits option.splits sum.splits)
  have "length cs = nat MAX_SLAVES"
    using cs by (auto simp: process_renderd_sections_def dest: renderd_loop_length split: option.splits sum.splits if_splits)
  then show "length (dc_slaves dc) = nat MAX_SLAVES" "dc_num_slave_threads dc = slave_threads active (dc_slaves dc)" using dc by simp_all
  show "length (dc_maps dc) \<le> XMLCONFIGS_MAX"
    using ms map_loop_ok by (fastforce simp: process_map_sections_def split: sum.splits if_splits)
qed


text \<open>A file with a master and two slaves, the first of which asks for a negative number of threads.\<close>

definition slaves_ini :: "int \<Rightarrow> int \<Rightarrow> ini" where
  "slaves_ini m n =
     sample_ini\<lparr>ini_secnames := [''renderd'', ''renderd1'', ''renderd2'', ''mapnik'', ''osm''],
                ini_getint := (\<lambda>k d. if k = ''renderd1:num_threads'' then m else if k = ''renderd2:num_threads'' then n else d)\<rparr>"

lemma slaves_numbers: "renderd_number ''renderd'' = Some 0" "renderd_number ''renderd1'' = Some 1" "renderd_number ''renderd2'' = Some 2"
  by code_simp+

lemma slaves_maps: "\<exists>mp. process_map_sections (Some (slaves_ini m n)) ''/tiles'' threads = Inr [mp] \<and> xi_tile_dir mp = ''/tiles''"
proof -
  have "type_parts ''png image/png png256'' = Some (''png'', ''image/png'', ''png256'')"
    by (simp add: type_parts_def copy_string_def INILINE_MAX_def apr_tokens_def)
  then show ?thesis
    using sample_scale
    by (simp add: process_map_sections_def slaves_ini_def sample_ini_def map_section_name_def XMLCONFIGS_MAX_def process_map_section_def Let_def
        process_config_double_def process_config_int_def process_config_string_def copy_string_def MAX_ZOOM_def INILINE_MAX_def PATH_MAX_def name_with_section_def)
qed

lemma slaves_config:
  assumes "m \<noteq> -1" "n \<noteq> -1"
  shows "\<exists>dc. process_config_file (Some (slaves_ini m n)) sample_defaults 0 = Some (Inr dc) \<and> dc_num_slave_threads dc = m + n
    \<and> rc_num_threads (dc_slaves dc ! 1) = m \<and> rc_num_threads (dc_slaves dc ! 2) = n \<and> rc_num_threads (dc_slaves dc ! 3) = 0 \<and> rc_num_threads (dc_slaves dc ! 4) = 0
    \<and> dc_active dc = 0 \<and> rc_num_threads (dc_slaves dc ! 0) = 4 \<and> rc_ipport (dc_slaves dc ! 0) = 0 \<and> rc_stats_filename (dc_slaves dc ! 0) = []
    \<and> (\<exists>mp. dc_maps dc = [mp] \<and> xi_tile_dir mp = ''/tiles'')"
proof -
  have t: "replicate 5 c = [c, c, c, c, c]" for c :: renderd_config
    by (simp add: numeral_eq_Suc)
  obtain c0 c1 c2 where r: "process_renderd_sections (Some (slaves_ini m n)) sample_defaults = Some (Inr [c0, c1, c2, zero_config, zero_config])"
      and c: "rc_num_threads c0 = 4" "rc_num_threads c1 = m" "rc_num_threads c2 = n" "rc_ipport c0 = 0" "rc_stats_filename c0 = []" "rc_tile_dir c0 = ''/tiles''"
    using assms
    by (simp add: process_renderd_sections_def slaves_ini_def sample_ini_def t slaves_numbers MAX_SLAVES_def renderd_section_def Let_def
        process_config_int_def process_config_string_def name_with_section_def copy_string_def sample_defaults_def zero_config_def NUM_THREADS_def
        PATH_MAX_def INILINE_MAX_def)
  obtain c where mk: "process_mapnik_section (Some (slaves_ini m n)) (cd_fonts_dir sample_defaults) (cd_plugins_dir sample_defaults) (cd_fonts_recurse sample_defaults) c0 = Inr c"
      "rc_num_threads c = 4" "rc_ipport c = 0" "rc_stats_filename c = []" "rc_tile_dir c = ''/tiles''"
    using c by (simp add: process_mapnik_section_def slaves_ini_def)
  obtain mp where ms: "process_map_sections (Some (slaves_ini m n)) ''/tiles'' 4 = Inr [mp]" "xi_tile_dir mp = ''/tiles''" using slaves_maps by blast
  then show ?thesis
    by (simp add: process_config_file_def r c mk MAX_SLAVES_def ms Let_def slave_threads_def zero_config_def upt_rec)
qed

section \<open>The wait\<close>

declare wait_for_maps.simps [simp del]

lemma wait_ends:
  assumes "\<forall>r. clock r < clock (Suc r)"
  shows "wait_for_maps n num_maps start_time clock threads_ok r \<noteq> None"
proof (induction "nat (start_time + wrap32 (RENDER_THREAD_STARTUP_TIMEOUT_SEC * n) - clock r)" arbitrary: r rule: less_induct)
  case less
  show ?case
  proof (cases "clock r - start_time \<ge> wrap32 (RENDER_THREAD_STARTUP_TIMEOUT_SEC * n)")
    case True
    then show ?thesis by (subst wait_for_maps.simps) simp
  next
    case False
    then have "wait_for_maps n num_maps start_time clock threads_ok (Suc r) \<noteq> None"
      using assms [rule_format, of r] by (intro less) linarith
    then show ?thesis by (subst wait_for_maps.simps) simp
  qed
qed

lemma total_maps_ok_all:
  assumes "\<not> total_maps_ok n ok num_maps < num_maps" "i < num_maps"
  shows "ok i = n"
proof (rule ccontr)
  assume "ok i \<noteq> n"
  then have "length (filter (\<lambda>i. ok i = n) [0..<num_maps]) < length [0..<num_maps]"
    using assms(2) by (intro length_filter_less [of i]) auto
  then show False using assms(1) by (simp add: total_maps_ok_def)
qed

lemma wait_result:
  assumes "wait_for_maps n num_maps start_time clock threads_ok r = Some y"
  shows "\<forall>r' i. y = Inr r' \<longrightarrow> i < num_maps \<longrightarrow> threads_ok r' i = n"
proof -
  let ?P = "\<lambda>n num_maps (start_time :: int) (clock :: nat \<Rightarrow> int) threads_ok (r :: nat) y. \<forall>r' i. y = Inr r' \<longrightarrow> i < num_maps \<longrightarrow> threads_ok r' i = n"
  show ?thesis
    by (rule wait_for_maps.raw_induct [where P = ?P, OF _ assms]) (use total_maps_ok_all in \<open>auto split: if_splits\<close>)
qed

lemma wait_ready: "wait_for_maps n num_maps start_time clock threads_ok r = Some (Inr r') \<Longrightarrow> i < num_maps \<Longrightarrow> threads_ok r' i = n"
  using wait_result by blast

lemma setup_map_ready: "setup_map mk ros item raw opened s = (m, ready, calls, opened', s') \<Longrightarrow> ready \<Longrightarrow> xm_ok m"
  by (auto simp: setup_map_def Let_def split: option.splits prod.splits if_splits)

lemma setup_maps_result:
  assumes "setup_maps mk ros raw k items opened s = (ms, opened', s')" "k + length items \<le> XMLCONFIGS_MAX"
  shows "length ms = length items \<and> (\<forall>e\<in>set ms. fst (snd e) \<longrightarrow> xm_ok (fst e))"
  using assms
proof (induction mk ros raw k items opened s arbitrary: ms opened' s' rule: setup_maps.induct)
  case (2 mk ros raw k item items opened s)
  obtain m ready calls o1 s1 where m: "setup_map mk ros item (raw k) opened s = (m, ready, calls, o1, s1)" by (metis prod_cases5)
  obtain rest o2 s2 where r: "setup_maps mk ros raw (Suc k) items o1 s1 = (rest, o2, s2)" by (metis prod_cases3)
  have "\<not> k \<ge> XMLCONFIGS_MAX" using "2.prems"(2) by simp
  moreover have "length rest = length items \<and> (\<forall>e\<in>set rest. fst (snd e) \<longrightarrow> xm_ok (fst e))"
    using "2.IH" [OF calculation m [symmetric] refl refl refl refl r] "2.prems"(2) by simp
  ultimately show ?case using "2.prems"(1) m r setup_map_ready [OF m] by auto
qed simp


section \<open>What a started daemon has\<close>

definition render_threads :: "started \<Rightarrow> int" where
  "render_threads sd = rc_num_threads (dc_slaves (sd_conf sd) ! dc_active (sd_conf sd))"

lemma daemon_main_ready:
  assumes "daemon_main ms opts = StartReady sd"
  shows "\<exists>io active. process_config_file io (ms_defaults ms) active = Some (Inr (sd_conf sd))"
    "wait_for_maps (render_threads sd) (length (dc_maps (sd_conf sd))) (ms_start_time ms) (ms_clock ms) (ms_threads_ok ms) 0 = Some (Inr (sd_round sd))"
  using assms by (auto simp: daemon_main_def render_threads_def Let_def split: sum.splits option.splits prod.splits if_splits; blast)+



text \<open>A start without slaves, with counters that reach the number of threads in round \<open>k\<close>.\<close>

definition sample_start :: "nat \<Rightarrow> main_os" where
  "sample_start k =
     \<lparr>ms_exists = (\<lambda>_. True), ms_load = (\<lambda>_. Some (slaves_ini 0 0)), ms_config_default = ''/etc/renderd.conf'', ms_defaults = sample_defaults,
      ms_queue = (True, 0, 0, True),
      ms_server = \<lparr>sv_socket6 = -1, sv_reuse6 = True, sv_bind6 = 0, sv_bind6_retry = True, sv_socket4 = -1, sv_reuse4 = True, sv_bind4 = 0,
                   sv_socketU = 3, sv_bindU = 0, sv_listen = 0\<rparr>,
      ms_sigaction = True, ms_stats_thread = True, ms_malloc = (\<lambda>_. True), ms_render_thread = (\<lambda>_. True), ms_slave_thread = (\<lambda>_. True),
      ms_start_time = 0, ms_clock = int, ms_threads_ok = (\<lambda>r i. if r < k then 0 else 4)\<rparr>"

lemma sample_wait:
  assumes "k \<le> 80" "r \<le> k"
  shows "wait_for_maps 4 1 0 int (\<lambda>r i. if r < k then 0 else 4) r = Some (Inr k)"
  using assms(2)
proof (induction "k - r" arbitrary: r)
  case 0
  then show ?case by (subst wait_for_maps.simps) (simp add: total_maps_ok_def)
next
  case (Suc d)
  then have "wait_for_maps 4 1 0 int (\<lambda>r i. if r < k then 0 else 4) (Suc r) = Some (Inr k)" by (intro Suc(1)) simp_all
  moreover have "r < k" using Suc by simp
  ultimately show ?case
    using assms(1) by (subst wait_for_maps.simps) (simp add: total_maps_ok_def RENDER_THREAD_STARTUP_TIMEOUT_SEC_def wrap32_def)
qed

lemma sample_start_ready:
  assumes "k \<le> 80"
  shows "\<exists>sd mp. daemon_main (sample_start k) [] = StartReady sd \<and> render_threads sd = 4 \<and> dc_maps (sd_conf sd) = [mp] \<and> xi_tile_dir mp = ''/tiles''"
proof -
  obtain dc mp where dc: "process_config_file (Some (slaves_ini 0 0)) sample_defaults 0 = Some (Inr dc)" "dc_num_slave_threads dc = 0"
      "dc_active dc = 0" "rc_num_threads (dc_slaves dc ! 0) = 4" "rc_ipport (dc_slaves dc ! 0) = 0" "rc_stats_filename (dc_slaves dc ! 0) = []"
      and mp: "dc_maps dc = [mp]" "xi_tile_dir mp = ''/tiles''"
    using slaves_config [of 0 0] by auto
  have w: "wait_for_maps 4 (Suc 0) 0 int (\<lambda>r i. if r < k then 0 else 4) 0 = Some (Inr k)" using sample_wait [OF assms, of 0] by simp
  show ?thesis
    using w by (simp add: daemon_main_def sample_start_def daemon_start_def or_default_def dc mp request_queue_init_def server_socket_init_def
        start_slaves_def Let_def list_all_iff render_threads_def)
qed


definition ready_ros :: "(unit, unit) render_os" where
  "ready_ros =
     \<lparr>ro_backends = (\<lambda>k o'. Some full_storage), ro_dirs = [''/tiles'' \<mapsto> FDir],
      ro_net = \<lparr>no_getaddrinfo = (\<lambda>s h p. ((1, []), s)), no_socket = (\<lambda>s a. (-1, s)), no_connect = (\<lambda>s fd a. (-1, s))\<rparr>,
      ro_htcp = sample_htcp, ro_malloc = True\<rparr>"

lemma ready_setup:
  assumes "xi_tile_dir mp = ''/tiles''"
  shows "fst (snd (setup_map sample_mapnik ready_ros mp raw opened s))"
proof -
  have "init_storage_backend (ro_backends ready_ros) (ro_dirs ready_ros) (xi_tile_dir mp) = Some full_storage"
    by (simp add: init_storage_backend_def storage_choice_def ready_ros_def assms)
  then show ?thesis
    by (simp add: setup_map_def load_layer_def sample_mapnik_def parameterize_map_max_connections_def Let_def split: prod.split if_split)
qed



text \<open>A slave thread that cannot connect takes no request from the queue: it stays there for the other threads.\<close>

lemma unconnected_slave_takes_nothing:
  assumes "slave_turn os cfg FD_INVALID op q s = Some (next, q', s', out)" "fst (client_socket_init (sl_net os) cfg op s) = FD_INVALID"
  shows "q' = q \<and> out = [] \<and> next = SlaveContinue FD_INVALID"
  using assms by (auto simp: slave_turn_def split: prod.splits)

end
