(* ===== verification/System_Glue.thy ===== *)
theory System_Glue
  imports Renderd_Main
begin

text \<open>
  The program and the system around it: the messages of the program (\<^verbatim>\<open>src/g_logger.c\<close>), the call that detaches a process from
  its terminal on systems without one (\<^verbatim>\<open>src/daemon_compat.c\<close>), and the part of \<^verbatim>\<open>main\<close> of \<^verbatim>\<open>src/renderd.c\<close> that puts the daemon into
  the background with them. A process is given by its table of descriptors, its reaction to the signal \<open>SIGHUP\<close>, its
  directory, its process group and session and its error number; what a system call may do differently is a parameter.
\<close>

section \<open>Messages\<close>

text \<open>The levels of GLib and the priorities of the system's log; a mask has one bit for each priority.\<close>

definition G_LOG_LEVEL_ERROR :: int where "G_LOG_LEVEL_ERROR = 4"

definition G_LOG_LEVEL_CRITICAL :: int where "G_LOG_LEVEL_CRITICAL = 8"

definition G_LOG_LEVEL_WARNING :: int where "G_LOG_LEVEL_WARNING = 16"

definition G_LOG_LEVEL_MESSAGE :: int where "G_LOG_LEVEL_MESSAGE = 32"

definition G_LOG_LEVEL_INFO :: int where "G_LOG_LEVEL_INFO = 64"

definition G_LOG_LEVEL_DEBUG :: int where "G_LOG_LEVEL_DEBUG = 128"

lemmas log_levels =
  G_LOG_LEVEL_ERROR_def G_LOG_LEVEL_CRITICAL_def G_LOG_LEVEL_WARNING_def G_LOG_LEVEL_MESSAGE_def G_LOG_LEVEL_INFO_def G_LOG_LEVEL_DEBUG_def

definition LOG_CRIT :: nat where "LOG_CRIT = 2"

definition LOG_ERR :: nat where "LOG_ERR = 3"

definition LOG_WARNING :: nat where "LOG_WARNING = 4"

definition LOG_INFO :: nat where "LOG_INFO = 6"

definition LOG_DEBUG :: nat where "LOG_DEBUG = 7"

lemmas log_priorities = LOG_CRIT_def LOG_ERR_def LOG_WARNING_def LOG_INFO_def LOG_DEBUG_def

definition LOG_UPTO :: "nat \<Rightarrow> int" where
  "LOG_UPTO p = push_bit (p + 1) 1 - 1"

definition g_logger_level_name :: "int \<Rightarrow> string" where
  "g_logger_level_name log_level =
     (if log_level = G_LOG_LEVEL_ERROR then ''ERROR''
      else if log_level = G_LOG_LEVEL_CRITICAL then ''CRITICAL''
      else if log_level = G_LOG_LEVEL_WARNING then ''WARNING''
      else if log_level = G_LOG_LEVEL_MESSAGE then ''MESSAGE''
      else if log_level = G_LOG_LEVEL_INFO then ''INFO''
      else if log_level = G_LOG_LEVEL_DEBUG then ''DEBUG''
      else ''UNKNOWN'')"

text \<open>
  Where a message goes: three writers of GLib, which get the level and the field \<open>MESSAGE\<close>, and the log of the system with a
  priority. The state is the mask of the process and what was written; \<open>syslog\<close> drops what the mask does not have.
\<close>

datatype log_entry = StandardStreams int string | WriterDefault int string | Journald int string | Syslog nat string

record log_state =
  ls_mask :: int
  ls_out :: "log_entry list"

definition put_log :: "log_entry \<Rightarrow> log_state \<Rightarrow> log_state" where
  "put_log e st = st\<lparr>ls_out := ls_out st @ [e]\<rparr>"

definition syslog :: "nat \<Rightarrow> string \<Rightarrow> log_state \<Rightarrow> log_state" where
  "syslog prio text st = (if bit (ls_mask st) prio then put_log (Syslog prio text) st else st)"

text \<open>
  The two formatted texts; \<open>None\<close> for a failing \<open>vasprintf\<close> or \<open>asprintf\<close>, after which \<open>g_error\<close> ends the process.
\<close>

record log_os =
  lo_vasprintf :: bool
  lo_asprintf :: bool
  lo_journald :: bool

definition g_logger :: "log_os \<Rightarrow> int \<Rightarrow> int \<Rightarrow> string \<Rightarrow> log_state \<Rightarrow> log_state option" where
  "g_logger os foreground log_level log_message st =
     (if \<not> lo_vasprintf os then None
      else if \<not> lo_asprintf os then None
      else let log_message_prefixed = g_logger_level_name log_level @ '': '' @ log_message
           in Some
             (if foreground = 1
              then if log_level = G_LOG_LEVEL_ERROR then put_log (StandardStreams log_level log_message) st
                   else if log_level = G_LOG_LEVEL_INFO then put_log (StandardStreams log_level log_message) st
                   else put_log (WriterDefault log_level log_message) st
              else if lo_journald os
              then if log_level = G_LOG_LEVEL_ERROR then put_log (Journald log_level log_message) st
                   else if log_level = G_LOG_LEVEL_INFO then put_log (Journald log_level log_message) st
                   else put_log (WriterDefault log_level log_message) st
              else let st = st\<lparr>ls_mask := LOG_UPTO LOG_INFO\<rparr>
                   in if log_level = G_LOG_LEVEL_ERROR then syslog LOG_ERR log_message_prefixed st
                      else if log_level = G_LOG_LEVEL_CRITICAL then syslog LOG_CRIT log_message_prefixed st
                      else if log_level = G_LOG_LEVEL_WARNING then syslog LOG_WARNING log_message_prefixed st
                      else if log_level = G_LOG_LEVEL_MESSAGE then syslog LOG_INFO log_message_prefixed st
                      else if log_level = G_LOG_LEVEL_INFO then syslog LOG_INFO log_message_prefixed st
                      else if log_level = G_LOG_LEVEL_DEBUG then syslog LOG_DEBUG log_message_prefixed st
                      else st))"

section \<open>Processes\<close>

datatype handler = SIG_DFL | SIG_IGN | Handler string

text \<open>A descriptor is an index of the table; \<open>None\<close> is a free one, and so is every index behind the table.\<close>

record 'f process =
  ps_pid :: int
  ps_pgid :: int
  ps_sid :: int
  ps_fds :: "'f option list"
  ps_hup :: handler
  ps_cwd :: string
  ps_errno :: int

definition fd_at :: "'f option list \<Rightarrow> nat \<Rightarrow> 'f option" where
  "fd_at t n = (if n < length t then t ! n else None)"

definition fd_set :: "'f option list \<Rightarrow> nat \<Rightarrow> 'f option \<Rightarrow> 'f option list" where
  "fd_set t n v = (if n < length t then t[n := v] else t @ replicate (n - length t) None @ [v])"

text \<open>A new descriptor is the smallest free one; \<open>dup2\<close> of a descriptor to itself does nothing.\<close>

definition first_free :: "'f option list \<Rightarrow> nat" where
  "first_free t = length (takeWhile (\<lambda>v. v \<noteq> None) t)"

definition os_dup2 :: "nat \<Rightarrow> nat \<Rightarrow> 'f option list \<Rightarrow> 'f option list" where
  "os_dup2 fd new t = (if fd_at t fd = None \<or> fd = new then t else fd_set t new (fd_at t fd))"

definition os_close :: "nat \<Rightarrow> 'f option list \<Rightarrow> 'f option list" where
  "os_close fd t = fd_set t fd None"

text \<open>
  The system calls of \<open>daemon\<close>. A result \<open>Inl e\<close> is a failure with error number \<open>e\<close>; the first and the second call of \<open>sigaction\<close>
  and \<open>chdir\<close> have an error number or none. \<open>setsid\<close> fails exactly for the leader of a process group.
\<close>

record 'f detach_os =
  bo_sigaction :: "int option"
  bo_sigaction2 :: "int option"
  bo_fork :: "int + int"
  bo_chdir :: "int option"
  bo_devnull :: "int + 'f"

definition os_sigaction :: "int option \<Rightarrow> handler \<Rightarrow> 'f process \<Rightarrow> int \<times> 'f process" where
  "os_sigaction r h p = (case r of Some e \<Rightarrow> (-1, p\<lparr>ps_errno := e\<rparr>) | None \<Rightarrow> (0, p\<lparr>ps_hup := h\<rparr>))"

definition EPERM :: int where "EPERM = 1"

definition os_setsid :: "'f process \<Rightarrow> int \<times> 'f process" where
  "os_setsid p =
     (if ps_pgid p = ps_pid p then (-1, p\<lparr>ps_errno := EPERM\<rparr>)
      else (ps_pid p, p\<lparr>ps_pgid := ps_pid p, ps_sid := ps_pid p\<rparr>))"

definition os_chdir :: "int option \<Rightarrow> string \<Rightarrow> 'f process \<Rightarrow> 'f process" where
  "os_chdir r dir p = (case r of Some e \<Rightarrow> p\<lparr>ps_errno := e\<rparr> | None \<Rightarrow> p\<lparr>ps_cwd := dir\<rparr>)"

text \<open>The three standard descriptors onto the null device.\<close>

definition redirect :: "int + 'f \<Rightarrow> 'f process \<Rightarrow> 'f process" where
  "redirect r p =
     (case r of
        Inl e \<Rightarrow> p\<lparr>ps_errno := e\<rparr>
      | Inr f \<Rightarrow>
          let fd = first_free (ps_fds p);
              t = os_dup2 fd 2 (os_dup2 fd 1 (os_dup2 fd 0 (fd_set (ps_fds p) fd (Some f))))
          in p\<lparr>ps_fds := (if fd > 2 then os_close fd t else t)\<rparr>)"

text \<open>
  The call: its return value, the process it returns in (after a successful \<open>fork\<close> the child) and the exit code of the calling process, if it ended.
\<close>

definition daemon :: "'f detach_os \<Rightarrow> bool \<Rightarrow> bool \<Rightarrow> 'f process \<Rightarrow> int \<times> 'f process \<times> int option" where
  "daemon os nochdir noclose p =
     (let osa = ps_hup p; (osa_ok, p1) = os_sigaction (bo_sigaction os) SIG_IGN p
      in case bo_fork os of
           Inl e \<Rightarrow> (-1, p1\<lparr>ps_errno := e\<rparr>, None)
         | Inr pid \<Rightarrow>
             let (newgrp, p2) = os_setsid (p1\<lparr>ps_pid := pid\<rparr>);
                 oerrno = ps_errno p2;
                 p3 = (if osa_ok \<noteq> -1 then snd (os_sigaction (bo_sigaction2 os) osa p2) else p2)
             in if newgrp = -1 then (-1, p3\<lparr>ps_errno := oerrno\<rparr>, Some 0)
                else let p4 = (if nochdir then p3 else os_chdir (bo_chdir os) ''/'' p3);
                         p5 = (if noclose then p4 else redirect (bo_devnull os) p4)
                     in (0, p5, Some 0))"

section \<open>The start of the map library\<close>

text \<open>
  What \<open>render_init\<close> of \<^verbatim>\<open>src/gen_tile.cpp\<close> asks of the library, and its messages with their levels; \<open>faces\<close> are the fonts the
  library knows afterwards. A directory that cannot be opened is reported and left out.
\<close>

datatype library_call = RegisterDatasources string | RegisterFonts string bool

definition load_fonts :: "(string \<Rightarrow> bool) \<Rightarrow> (string \<times> string) list \<Rightarrow> string \<Rightarrow> bool \<Rightarrow> library_call list \<times> (int \<times> string) list" where
  "load_fonts opens faces font_dir recurse =
     (if \<not> opens font_dir then ([], [(G_LOG_LEVEL_CRITICAL, ''Unable to open font directory: '' @ font_dir)])
      else ([RegisterFonts font_dir recurse],
            (G_LOG_LEVEL_INFO, ''Loading fonts'' @ (if recurse then '' recursively '' else '' '') @ ''from directory '' @ [CHR 0x27] @ font_dir @ [CHR 0x27])
            # map (\<lambda>(face, file). (G_LOG_LEVEL_DEBUG, ''Loaded font face '' @ [CHR 0x27] @ face @ [CHR 0x27] @ '' from file '' @ [CHR 0x27] @ file @ [CHR 0x27])) faces))"

definition render_init ::
    "(string \<Rightarrow> bool) \<Rightarrow> (string \<times> string) list \<Rightarrow> int \<times> int \<times> int \<Rightarrow> string \<Rightarrow> string \<Rightarrow> bool \<Rightarrow> library_call list \<times> (int \<times> string) list" where
  "render_init opens faces version plugins_dir font_dir font_dir_recurse =
     (let (major, minor, patch) = version; (calls, log) = load_fonts opens faces font_dir font_dir_recurse
      in (RegisterDatasources plugins_dir # calls,
          (G_LOG_LEVEL_INFO, ''Renderd is using mapnik version '' @ show_int major @ ''.'' @ show_int minor @ ''.'' @ show_int patch) # log))"

section \<open>Into the background\<close>

text \<open>
  What \<open>main\<close> does between the start of the map library and the statistics thread: the process that goes on, the end of the calling one, the messages
  and the file with the process number (the directory, the name and the text; \<open>None\<close>: not written). Whether the journal takes messages depends
  on what is behind the descriptor of the standard error stream.
\<close>

record 'f background =
  bg_process :: "'f process"
  bg_caller :: "int option"
  bg_log :: "log_state option"
  bg_pidfile :: "(string \<times> string \<times> string) option"

definition stderr_log :: "('f option \<Rightarrow> bool) \<Rightarrow> bool \<Rightarrow> 'f process \<Rightarrow> log_os" where
  "stderr_log journal memory p = \<lparr>lo_vasprintf = memory, lo_asprintf = memory, lo_journald = journal (fd_at (ps_fds p) 2)\<rparr>"

definition go_background ::
    "'f detach_os \<Rightarrow> ('f option \<Rightarrow> bool) \<Rightarrow> bool \<Rightarrow> (int \<Rightarrow> string) \<Rightarrow> bool \<Rightarrow> bool \<Rightarrow> renderd_config \<Rightarrow> 'f process \<Rightarrow> log_state \<Rightarrow> 'f background" where
  "go_background os journal memory strerror pid_openable foreground cfg p st =
     (if foreground
      then \<lparr>bg_process = p, bg_caller = None, bg_log = g_logger (stderr_log journal memory p) 1 G_LOG_LEVEL_INFO ''Running in foreground mode'' st,
            bg_pidfile = None\<rparr>
      else let (r, p', ended) = daemon os False False p;
               st' = (if r \<noteq> 0
                      then g_logger (stderr_log journal memory p') 0 G_LOG_LEVEL_ERROR (''can't daemonize: '' @ strerror (ps_errno p')) st
                      else Some st)
           in \<lparr>bg_process = p', bg_caller = ended, bg_log = st',
               bg_pidfile = (if st' = None \<or> \<not> pid_openable then None
                             else Some (ps_cwd p', rc_pid_filename cfg, show_int (ps_pid p') @ [char_of (10 :: nat)]))\<rparr>)"

section \<open>The table of descriptors\<close>

lemma fd_at_set [simp]: "fd_at (fd_set t n v) m = (if m = n then v else fd_at t m)"
  by (auto simp: fd_at_def fd_set_def nth_append nth_Cons')

lemma first_free_is_free: "fd_at t (first_free t) = None"
proof (cases "first_free t < length t")
  case True
  then show ?thesis using nth_length_takeWhile [of "\<lambda>v. v \<noteq> None" t] by (simp add: first_free_def fd_at_def)
next
  case False
  then show ?thesis by (simp add: fd_at_def)
qed

lemma dup2_at: "fd_at t fd \<noteq> None \<Longrightarrow> fd_at (os_dup2 fd new t) m = (if m = new then fd_at t fd else fd_at t m)"
  by (auto simp: os_dup2_def)

text \<open>Whatever is open before, the standard descriptors lead to the device afterwards and no other descriptor has changed.\<close>

lemma redirect_at:
  "fd_at (ps_fds (redirect (Inr f) p)) m = (if m \<le> 2 then Some f else fd_at (ps_fds p) m)"
proof -
  let ?fd = "first_free (ps_fds p)" and ?t = "fd_set (ps_fds p) (first_free (ps_fds p)) (Some f)"
  have "fd_at (os_dup2 ?fd 2 (os_dup2 ?fd 1 (os_dup2 ?fd 0 ?t))) m = (if m \<le> 2 \<or> m = ?fd then Some f else fd_at (ps_fds p) m)"
    by (simp add: dup2_at)
  then show ?thesis using first_free_is_free [of "ps_fds p"] by (simp add: redirect_def Let_def os_close_def)
qed

lemma redirect_keeps [simp]:
  "ps_pid (redirect r p) = ps_pid p" "ps_pgid (redirect r p) = ps_pgid p" "ps_sid (redirect r p) = ps_sid p"
  "ps_hup (redirect r p) = ps_hup p" "ps_cwd (redirect r p) = ps_cwd p"
  by (simp_all add: redirect_def Let_def split: sum.splits)

section \<open>Messages and the mask\<close>

lemma upto_info [simp]: "bit (LOG_UPTO 6) p \<longleftrightarrow> p \<le> 6"
proof -
  have "LOG_UPTO 6 = mask 7" by (simp add: LOG_UPTO_def mask_eq_exp_minus_1 push_bit_eq_mult)
  then show ?thesis by (simp add: bit_mask_iff) linarith
qed

definition program_levels :: "int set" where
  "program_levels = {G_LOG_LEVEL_ERROR, G_LOG_LEVEL_CRITICAL, G_LOG_LEVEL_WARNING, G_LOG_LEVEL_MESSAGE, G_LOG_LEVEL_INFO, G_LOG_LEVEL_DEBUG}"

text \<open>The text of an entry that reaches its reader.\<close>

fun entry_text :: "log_entry \<Rightarrow> string" where
  "entry_text (StandardStreams l s) = s"
| "entry_text (WriterDefault l s) = s"
| "entry_text (Journald l s) = s"
| "entry_text (Syslog p s) = s"

fun is_syslog :: "log_entry \<Rightarrow> bool" where
  "is_syslog (Syslog p s) = True"
| "is_syslog _ = False"

lemma g_logger_entries:
  assumes "lo_vasprintf os" "lo_asprintf os" "l \<in> program_levels"
  shows "\<exists>st'. g_logger os fg l msg st = Some st' \<and>
    (if fg = 1 \<or> lo_journald os then \<exists>e. ls_out st' = ls_out st @ [e] \<and> entry_text e = msg \<and> \<not> is_syslog e
     else if l = G_LOG_LEVEL_DEBUG then ls_out st' = ls_out st
     else \<exists>p \<le> LOG_INFO. ls_out st' = ls_out st @ [Syslog p (g_logger_level_name l @ '': '' @ msg)])"
  using assms
  by (auto simp: g_logger_def Let_def program_levels_def put_log_def syslog_def log_levels log_priorities)

section \<open>The daemon in the background\<close>

lemma daemon_detaches:
  assumes "bo_fork os = Inr pid" "0 < pid" "pid \<noteq> ps_pgid p" "bo_devnull os = Inr null" "bo_sigaction2 os = None"
  obtains q where "daemon os nochdir noclose p = (0, if noclose then q else redirect (Inr null) q, Some 0)"
    "ps_pid q = pid" "ps_sid q = pid" "ps_pgid q = pid" "ps_hup q = ps_hup p" "ps_fds q = ps_fds p"
    "ps_cwd q = (if nochdir \<or> bo_chdir os \<noteq> None then ps_cwd p else ''/'')"
proof -
  let ?q = "\<lambda>p1 :: 'a process. (p1\<lparr>ps_pid := pid, ps_pgid := pid, ps_sid := pid, ps_hup := ps_hup p\<rparr>)"
  have "\<exists>p1. ps_pgid p1 = ps_pgid p \<and> ps_fds p1 = ps_fds p \<and> ps_cwd p1 = ps_cwd p \<and>
      daemon os nochdir noclose p =
        (let p4 = (if nochdir then ?q p1 else os_chdir (bo_chdir os) ''/'' (?q p1)) in (0, if noclose then p4 else redirect (Inr null) p4, Some 0))"
  proof (cases "bo_sigaction os")
    case None
    then show ?thesis using assms
      by (intro exI [of _ "p\<lparr>ps_hup := SIG_IGN\<rparr>"]) (simp add: daemon_def Let_def os_sigaction_def os_setsid_def)
  next
    case (Some e)
    then show ?thesis using assms
      by (intro exI [of _ "p\<lparr>ps_errno := e\<rparr>"]) (simp add: daemon_def Let_def os_sigaction_def os_setsid_def)
  qed
  then obtain p1 where "ps_pgid p1 = ps_pgid p" "ps_fds p1 = ps_fds p" "ps_cwd p1 = ps_cwd p"
    "daemon os nochdir noclose p =
        (let p4 = (if nochdir then ?q p1 else os_chdir (bo_chdir os) ''/'' (?q p1)) in (0, if noclose then p4 else redirect (Inr null) p4, Some 0))"
    by blast
  then show ?thesis
    by (intro that [of "if nochdir then ?q p1 else os_chdir (bo_chdir os) ''/'' (?q p1)"]) (auto simp: os_chdir_def split: option.splits)
qed

text \<open>
  C26. Going into the background. If the process can be forked (its child has a number that is not that of a process group) and the null device can be
  opened, the caller ends with code zero and the child goes on without an error: in a session of its own, in the root directory unless that
  cannot be entered, with the reaction to \<open>SIGHUP\<close> it had before and its number in the file for it. Whatever descriptors were open, the three
  standard ones lead to the null device and every other one is as before: a listening socket above them is kept, one among
  them, as the daemon gets when it is started with a standard stream closed, is lost. From then on a message reaches the system's log
  exactly if it is not of the debugging level, with the name of its level in front.
\<close>

theorem background_daemon_detached:
  assumes "bo_fork os = Inr pid" "0 < pid" "pid \<noteq> ps_pgid p" "bo_devnull os = Inr null" "bo_sigaction2 os = None" "\<not> journal (Some null)"
    and "b = go_background os journal memory strerror True False cfg p st" "p' = bg_process b"
  shows "bg_caller b = Some 0 \<and> bg_log b = Some st \<and> ps_pid p' = pid \<and> ps_sid p' = pid \<and> ps_pgid p' = pid \<and> ps_hup p' = ps_hup p
    \<and> ps_cwd p' = (if bo_chdir os = None then ''/'' else ps_cwd p)
    \<and> bg_pidfile b = Some (ps_cwd p', rc_pid_filename cfg, show_int pid @ [char_of (10 :: nat)])
    \<and> (\<forall>fd. fd_at (ps_fds p') fd = (if fd \<le> 2 then Some null else fd_at (ps_fds p) fd))
    \<and> (\<forall>l \<in> program_levels. \<forall>msg st1. \<exists>st2. g_logger (stderr_log journal True p') 0 l msg st1 = Some st2 \<and>
          (if l = G_LOG_LEVEL_DEBUG then ls_out st2 = ls_out st1
           else \<exists>prio \<le> LOG_INFO. ls_out st2 = ls_out st1 @ [Syslog prio (g_logger_level_name l @ '': '' @ msg)]))"
proof -
  obtain q where d: "daemon os False False p = (0, redirect (Inr null) q, Some 0)"
    and q: "ps_pid q = pid" "ps_sid q = pid" "ps_pgid q = pid" "ps_hup q = ps_hup p" "ps_fds q = ps_fds p"
      "ps_cwd q = (if bo_chdir os = None then ''/'' else ps_cwd p)"
    by (rule daemon_detaches [OF assms(1-5), of False False]) simp
  have p': "p' = redirect (Inr null) q" and b: "bg_caller b = Some 0" "bg_log b = Some st"
      "bg_pidfile b = Some (ps_cwd p', rc_pid_filename cfg, show_int pid @ [char_of (10 :: nat)])"
    using assms(7,8) d q(1) by (simp_all add: go_background_def)
  have "\<not> lo_journald (stderr_log journal True p')" using assms(6) by (simp add: stderr_log_def p' redirect_at)
  moreover have "lo_vasprintf (stderr_log journal True p')" "lo_asprintf (stderr_log journal True p')" by (simp_all add: stderr_log_def)
  ultimately have "\<forall>l \<in> program_levels. \<forall>msg st1. \<exists>st2. g_logger (stderr_log journal True p') 0 l msg st1 = Some st2 \<and>
          (if l = G_LOG_LEVEL_DEBUG then ls_out st2 = ls_out st1
           else \<exists>prio \<le> LOG_INFO. ls_out st2 = ls_out st1 @ [Syslog prio (g_logger_level_name l @ '': '' @ msg)])"
    using g_logger_entries [of "stderr_log journal True p'" _ 0] by simp
  then show ?thesis using b q by (simp add: p' redirect_at)
qed

text \<open>Where the fork fails, the process is told so, but it goes on ignoring \<open>SIGHUP\<close>.\<close>

lemma fork_failure_ignores_hup:
  assumes "bo_fork os = Inl e" "bo_sigaction os = None"
  shows "daemon os nochdir noclose p = (-1, p\<lparr>ps_hup := SIG_IGN, ps_errno := e\<rparr>, None)"
  using assms by (simp add: daemon_def Let_def os_sigaction_def)

text \<open>A daemon started with the standard input closed: its socket is descriptor zero. The files are numbered, the null device is 99.\<close>

definition sample_process :: "nat process" where
  "sample_process = \<lparr>ps_pid = 41, ps_pgid = 41, ps_sid = 40, ps_fds = [Some 7, Some 1, None, Some 9], ps_hup = SIG_DFL, ps_cwd = ''/home'', ps_errno = 0\<rparr>"

definition sample_detach_os :: "nat detach_os" where
  "sample_detach_os = \<lparr>bo_sigaction = None, bo_sigaction2 = None, bo_fork = Inr 42, bo_chdir = None, bo_devnull = Inr 99\<rparr>"

theorem background_daemon_detached_witness:
  "\<exists>b st2. go_background sample_detach_os (\<lambda>_. False) True (\<lambda>_. []) True False zero_config sample_process \<lparr>ls_mask = 255, ls_out = []\<rparr> = b
    \<and> bg_caller b = Some 0 \<and> ps_sid (bg_process b) = 42 \<and> ps_cwd (bg_process b) = ''/'' \<and> ps_hup (bg_process b) = SIG_DFL
    \<and> map (fd_at (ps_fds (bg_process b))) [0, 1, 2, 3, 4] = [Some 99, Some 99, Some 99, Some 9, None]
    \<and> g_logger (stderr_log (\<lambda>_. False) True (bg_process b)) 0 G_LOG_LEVEL_DEBUG ''x'' \<lparr>ls_mask = 255, ls_out = []\<rparr> = Some st2 \<and> ls_out st2 = []"
proof -
  let ?b = "go_background sample_detach_os (\<lambda>_. False) True (\<lambda>_. []) True False zero_config sample_process \<lparr>ls_mask = 255, ls_out = []\<rparr>"
  have h: "bo_fork sample_detach_os = Inr 42" "(0 :: int) < 42" "42 \<noteq> ps_pgid sample_process" "bo_devnull sample_detach_os = Inr 99"
      "bo_sigaction2 sample_detach_os = None" "\<not> (\<lambda>_ :: nat option. False) (Some 99)"
    by (simp_all add: sample_detach_os_def sample_process_def)
  note r = background_daemon_detached [OF h, of ?b True "\<lambda>_. []" zero_config "\<lparr>ls_mask = 255, ls_out = []\<rparr>", OF refl refl]
  have "G_LOG_LEVEL_DEBUG \<in> program_levels" by (simp add: program_levels_def)
  with r obtain st2 where "g_logger (stderr_log (\<lambda>_. False) True (bg_process ?b)) 0 G_LOG_LEVEL_DEBUG ''x'' \<lparr>ls_mask = 255, ls_out = []\<rparr> = Some st2" "ls_out st2 = []"
    by (metis log_state.select_convs(2))
  moreover have "ps_hup sample_process = SIG_DFL" "bo_chdir sample_detach_os = None" by (simp_all add: sample_process_def sample_detach_os_def)
  moreover have "map (fd_at (ps_fds sample_process)) [3, 4] = [Some 9, None]" by (simp add: sample_process_def fd_at_def)
  ultimately show ?thesis using r by (intro exI [of _ ?b] exI [of _ st2]) simp
qed

end
