(* ===== verification/Slave_Thread.thy ===== *)
theory Slave_Thread
  imports Renderd_Main
begin

text \<open>
  The whole of a slave thread (\<^verbatim>\<open>slave_thread\<close> of \<^verbatim>\<open>src/renderd.c\<close>): its start and any number of turns of its loop, beside the event loop and the
  other threads of the daemon. Every turn is a path of the daemon's step relation, so that what holds of all states of the
  daemon also holds with slave threads.
\<close>

section \<open>The thread\<close>

text \<open>
  The first \<open>n\<close> turns of the loop, from a connection (or none) on: whether the thread goes on, the queue, the state of the operating system and
  what was sent to the clients. \<open>None\<close>: a turn does not return.
\<close>

fun slave_turns ::
    "'s slave_os \<Rightarrow> renderd_config \<Rightarrow> nat \<Rightarrow> int \<Rightarrow> request_queue \<Rightarrow> 's \<Rightarrow> (slave_next \<times> request_queue \<times> 's \<times> (int \<times> protocol) list) option" where
  "slave_turns os cfg 0 pfd q s = Some (SlaveContinue pfd, q, s, [])"
| "slave_turns os cfg (Suc n) pfd q s =
     (case slave_turn os cfg pfd (if pfd = FD_INVALID then [] else [pfd]) q s of
        None \<Rightarrow> None
      | Some (SlaveEnd, q1, s1, out) \<Rightarrow> Some (SlaveEnd, q1, s1, out)
      | Some (SlaveContinue pfd1, q1, s1, out) \<Rightarrow>
          (case slave_turns os cfg n pfd1 q1 s1 of
             None \<Rightarrow> None
           | Some (nx, q2, s2, out2) \<Rightarrow> Some (nx, q2, s2, out @ out2)))"

text \<open>The thread ends at once if one of its two buffers cannot be allocated; it starts without a connection.\<close>

definition slave_thread ::
    "bool \<Rightarrow> bool \<Rightarrow> 's slave_os \<Rightarrow> renderd_config \<Rightarrow> nat \<Rightarrow> request_queue \<Rightarrow> 's \<Rightarrow> (slave_next \<times> request_queue \<times> 's \<times> (int \<times> protocol) list) option" where
  "slave_thread req_malloc resp_malloc os cfg n q s =
     (if \<not> req_malloc then Some (SlaveEnd, q, s, [])
      else if \<not> resp_malloc then Some (SlaveEnd, q, s, [])
      else slave_turns os cfg n FD_INVALID q s)"

section \<open>A turn as steps of the daemon\<close>

definition after :: "'s loop_state \<Rightarrow> request_queue \<Rightarrow> 's \<Rightarrow> (int \<times> protocol) list \<Rightarrow> 's loop_state" where
  "after st q s out = st\<lparr>pl_queue := q, pl_os := s, pl_sent := pl_sent st @ out\<rparr>"

lemma after_simps [simp]:
  "pl_queue (after st q s out) = q" "pl_os (after st q s out) = s" "pl_slots (after st q s out) = pl_slots st"
  "after (after st q s out) q' s' out' = after st q' s' (out @ out')"
  by (simp_all add: after_def)

lemma reach_respond:
  assumes "sys_reach dos (st, insert a H)" "a \<notin> H" "send_response (do_sock dos) (pl_queue st) s a rsp (-1) = Some (q', s', out)"
  shows "sys_reach dos (after st q' s' out, H)"
proof -
  have z: "zoom_checked (pl_queue (st\<lparr>pl_os := s\<rparr>)) a (-1)" by (simp add: zoom_checked_def)
  have "sys_step dos (st\<lparr>pl_os := s\<rparr>, insert a H)
      ((st\<lparr>pl_os := s\<rparr>)\<lparr>pl_queue := q', pl_os := s', pl_sent := pl_sent (st\<lparr>pl_os := s\<rparr>) @ out\<rparr>, insert a H - {a})"
    by (rule sys_step.sys_respond [OF _ z]) (use assms(3) in simp_all)
  from sys_reach.sys_next [OF sys_reach_os [OF assms(1)] this] show ?thesis using assms(2) by (simp add: after_def)
qed

text \<open>A fetched item was held by no thread and is on the render list afterwards.\<close>

lemma fetched_item:
  assumes "sys_reach dos (st, H)" "malloc_fresh dos" "request_queue_fetch_request (pl_queue st) = Some (Obj a, q1)"
  shows "a \<notin> H" "sys_reach dos (st\<lparr>pl_queue := q1\<rparr>, insert a H)" "\<exists>v. repr q1 v \<and> a \<in> set (v_list v renderHead)"
proof -
  from sys_reach_inv [OF assms(1,2)] obtain v where v: "repr (pl_queue st) v" "set (v_list v renderHead) = H"
    by (auto simp: sys_inv_def daemon_inv_def)
  from fetch_refines [OF v(1)] assms(3) obtain v' where f: "v_fetch v = Some (a, v')" "repr q1 v'" by (auto split: option.splits)
  then obtain h where h: "v' = v_start h v" "a = hd (v_list v h)" by (auto simp: v_fetch_def split: option.splits)
  have "distinct (v_list v' renderHead)" using f(2) by (simp add: repr_def view_ok_def)
  then show "a \<notin> H" using v(2) h by (simp add: v_start_def)
  show "sys_reach dos (st\<lparr>pl_queue := q1\<rparr>, insert a H)" by (rule sys_reach.sys_next [OF assms(1) sys_step.sys_fetch [OF assms(3)]])
  show "\<exists>v. repr q1 v \<and> a \<in> set (v_list v renderHead)" using f(2) h by (auto simp: v_start_def)
qed

text \<open>What becomes of an item: answered, or lost because sending it failed for good.\<close>

definition send_failed :: "send_outcome \<Rightarrow> bool" where
  "send_failed oc \<longleftrightarrow> (case oc of SlaveShutdown \<Rightarrow> True | SlaveGaveUp _ \<Rightarrow> True | _ \<Rightarrow> False)"

lemma slave_item_steps:
  assumes "sys_reach dos (st, insert a H)" "a \<notin> H" "repr (pl_queue st) v" "a \<in> set (v_list v renderHead)" "recv_sound os" "sl_sock os = do_sock dos"
    and "fst (slave_send os cfg (slave_request (it_req (q_mem (pl_queue st) (Obj a)))) 2 pfd op s) = oc"
  shows "\<exists>nx q' s' out. slave_item os cfg pfd op (pl_queue st) s a = Some (nx, q', s', out)
    \<and> sys_reach dos (after st q' s' out, if send_failed oc then insert a H else H) \<and> (send_failed oc \<longrightarrow> out = [])"
proof -
  let ?q = "pl_queue st"
  obtain op' s1 where send: "slave_send os cfg (slave_request (it_req (q_mem ?q (Obj a)))) 2 pfd op s = (oc, op', s1)" using assms(7) by (metis prod.collapse)
  have respond: "\<exists>q' s' out. send_response (sl_sock os) ?q s2 a rsp (-1) = Some (q', s', out) \<and> sys_reach dos (after st q' s' out, H)" for s2 rsp
  proof -
    have "zoom_checked ?q a (-1)" by (simp add: zoom_checked_def)
    from send_response_spec [OF assms(3,4) this, of "sl_sock os" s2 rsp] obtain q' s' out where
      "send_response (sl_sock os) ?q s2 a rsp (-1) = Some (q', s', out)" by blast
    then show ?thesis using reach_respond [OF assms(1,2)] assms(6) by auto
  qed
  have keep: "sys_reach dos (after st ?q s' [], insert a H)" for s' using sys_reach_os [OF assms(1), of s'] by (simp add: after_def)
  show ?thesis
  proof (cases oc)
    case (SlaveSent pfd')
    obtain got closed s2 where r: "slave_recv os pfd' 10 [] s1 = Some (got, closed, s2)"
      using slave_recv_returns [OF assms(5)] by (metis prod_cases3)
    let ?c = "if length got < sizeof_protocol then cmdNotDone else pr_cmd (bytes_protocol got)"
    obtain q' s' out where "send_response (sl_sock os) ?q s2 a ?c (-1) = Some (q', s', out)" "sys_reach dos (after st q' s' out, H)"
      using respond by blast
    then show ?thesis using send r SlaveSent by (simp add: slave_item_def Let_def send_failed_def)
  next
    case SlaveDropped
    obtain q' s' out where "send_response (sl_sock os) ?q s1 a cmdNotDone (-1) = Some (q', s', out)" "sys_reach dos (after st q' s' out, H)"
      using respond by blast
    then show ?thesis using send SlaveDropped by (simp add: slave_item_def send_failed_def)
  qed (use send keep in \<open>simp_all add: slave_item_def send_failed_def\<close>)
qed

text \<open>A thread has no connection or one with a valid descriptor.\<close>

definition link_ok :: "slave_next \<Rightarrow> bool" where
  "link_ok nx \<longleftrightarrow> (case nx of SlaveContinue fd \<Rightarrow> fd = FD_INVALID \<or> 0 \<le> fd | SlaveEnd \<Rightarrow> True)"

lemma link_fd: "client_socket_init os cfg op s = (fd, op', s') \<Longrightarrow> fd \<noteq> FD_INVALID \<Longrightarrow> 0 \<le> fd"
  by (drule client_socket_opened) simp

lemma slave_send_link:
  "slave_send os cfg req n pfd op s = (oc, op', s') \<Longrightarrow> 0 \<le> pfd \<Longrightarrow> (case oc of SlaveSent fd \<Rightarrow> 0 \<le> fd | SlaveGaveUp fd \<Rightarrow> 0 \<le> fd | _ \<Rightarrow> True)"
proof (induction n arbitrary: pfd op s)
  case 0
  then show ?case by (auto simp: Let_def dest: link_fd split: prod.splits if_splits)
next
  case (Suc n)
  obtain ret s1 where c: "send_cmd (sl_sock os) s req pfd = (ret, s1)" by fastforce
  obtain pfd' op1 s2 where k: "client_socket_init (sl_net os) cfg (remove1 pfd op) s1 = (pfd', op1, s2)" using prod_cases3 by blast
  have "slave_send os cfg req (Suc n) pfd op s =
      (if ret = int sizeof_protocol then (SlaveSent pfd, op, s1) else if sl_errno os s1 \<noteq> EPIPE then (SlaveShutdown, remove1 pfd op, s1)
       else if pfd' = FD_INVALID then (SlaveDropped, op1, s2) else slave_send os cfg req n pfd' op1 s2)"
    using c k by (subst slave_send.simps) (simp del: slave_send.simps)
  then show ?case using Suc.IH [of pfd' op1 s2] Suc.prems link_fd [OF k] by (auto simp del: slave_send.simps split: if_splits)
qed

lemma slave_item_link:
  assumes "slave_item os cfg pfd op q s a = Some (nx, q', s', out)" "0 \<le> pfd"
  shows "link_ok nx"
proof -
  obtain oc op' s1 where r: "slave_send os cfg (slave_request (it_req (q_mem q (Obj a)))) 2 pfd op s = (oc, op', s1)" using prod_cases3 by blast
  from slave_send_link [OF this assms(2)] show ?thesis
    using assms(1) r by (auto simp: slave_item_def link_ok_def Let_def split: send_outcome.splits option.splits prod.splits)
qed

definition sending_fails :: "'s slave_os \<Rightarrow> renderd_config \<Rightarrow> bool" where
  "sending_fails os cfg \<longleftrightarrow> (\<exists>req pfd op s. 0 \<le> pfd \<and> send_failed (fst (slave_send os cfg (slave_request req) 2 pfd op s)))"

lemma slave_turn_steps:
  assumes "sys_reach dos (st, H)" "malloc_fresh dos" "recv_sound os" "sl_sock os = do_sock dos" "link_ok (SlaveContinue pfd)"
  shows "\<exists>nx q' s' out lost. slave_turn os cfg pfd op (pl_queue st) (pl_os st) = Some (nx, q', s', out) \<and> link_ok nx
    \<and> sys_reach dos (after st q' s' out, H \<union> lost) \<and> H \<inter> lost = {} \<and> finite lost \<and> card lost \<le> 1 \<and> (lost \<noteq> {} \<longrightarrow> out = [] \<and> sending_fails os cfg)"
proof -
  let ?q = "pl_queue st"
  obtain pfd1 op1 s1 where c: "(if pfd = FD_INVALID then client_socket_init (sl_net os) cfg op (pl_os st) else (pfd, op, pl_os st)) = (pfd1, op1, s1)"
    using prod_cases3 by blast
  have l: "pfd1 = FD_INVALID \<or> 0 \<le> pfd1"
    using c assms(5) client_socket_opened [of "sl_net os" cfg op "pl_os st"] by (auto simp: link_ok_def split: if_splits)
  have idle: "sys_reach dos (after st ?q s1 [], H)" using sys_reach_os [OF assms(1), of s1] by (simp add: after_def)
  have fetch: "request_queue_fetch_request ?q = None \<or> (\<exists>a q1. request_queue_fetch_request ?q = Some (Obj a, q1))"
  proof -
    obtain v where "repr ?q v" using sys_reach_inv [OF assms(1,2)] by (auto simp: sys_inv_def daemon_inv_def)
    from fetch_refines [OF this] show ?thesis by (auto split: option.splits)
  qed
  show ?thesis
  proof (cases "pfd1 = FD_INVALID \<or> request_queue_fetch_request ?q = None")
    case True
    then have "slave_turn os cfg pfd op ?q (pl_os st) = Some (SlaveContinue pfd1, ?q, s1, [])" using c by (auto simp: slave_turn_def)
    then show ?thesis using idle l by (intro exI [of _ "SlaveContinue pfd1"] exI [of _ ?q] exI [of _ s1] exI [of _ "[]"] exI [of _ "{}"]) (simp add: link_ok_def)
  next
    case False
    then obtain a q1 where f: "request_queue_fetch_request ?q = Some (Obj a, q1)" using fetch by auto
    note it = fetched_item [OF assms(1,2) f]
    then obtain v where v: "repr q1 v" "a \<in> set (v_list v renderHead)" by blast
    let ?st = "st\<lparr>pl_queue := q1\<rparr>"
    obtain oc where oc: "fst (slave_send os cfg (slave_request (it_req (q_mem q1 (Obj a)))) 2 pfd1 op1 s1) = oc" by simp
    from slave_item_steps [of dos ?st a H v os cfg pfd1 op1 s1 oc] it(1,2) v assms(3,4) oc
    obtain nx q' s' out where r: "slave_item os cfg pfd1 op1 q1 s1 a = Some (nx, q', s', out)"
        "sys_reach dos (after ?st q' s' out, if send_failed oc then insert a H else H)" "send_failed oc \<longrightarrow> out = []" by auto
    have "slave_turn os cfg pfd op ?q (pl_os st) = Some (nx, q', s', out)" using c f r(1) False by (auto simp: slave_turn_def)
    moreover have "after ?st q' s' out = after st q' s' out" by (simp add: after_def)
    moreover have "send_failed oc \<longrightarrow> sending_fails os cfg" using oc l False by (auto simp: sending_fails_def)
    moreover have "link_ok nx" using slave_item_link [OF r(1)] l False by simp
    ultimately show ?thesis
      using r(2,3) it(1) by (intro exI [of _ nx] exI [of _ q'] exI [of _ s'] exI [of _ out] exI [of _ "if send_failed oc then {a} else {}"]) (auto split: if_splits)
  qed
qed


definition sample_dos :: "nat daemon_os" where
  "sample_dos =
     \<lparr>do_sock = \<lparr>so_getsockopt = (\<lambda>s fd. 0), so_send = (\<lambda>s fd bs. (int (length bs), s)), so_recv = (\<lambda>s fd n b. ((0, []), s))\<rparr>,
      do_poll = (\<lambda>s fds. (\<lparr>po_num = 1, po_exit = False, po_listen = True, po_ready = (\<lambda>_. True)\<rparr>, s)),
      do_accept = (\<lambda>s. (7, s)), do_close = (\<lambda>s fd. s), do_malloc = (\<lambda>s al. (None, s))\<rparr>"


end
