(* ===== verification/Spec2Isabelle.thy ===== *)
theory Spec2Isabelle
  imports Renderd_Slave Throttle Mod_Tile_Serving Cache_Expire Render_Submit Renderd_Config Render_Expired Render_List Render_Old Store_Object Store_Readonly Archived_Tools Table_Export Renderd_Exit System_Glue Slave_Thread Renderd_Main
begin

text \<open>
  A verification development of mod_tile, the Apache module that serves map tiles, of renderd, the daemon that renders
  them, and of the command line tools around the two.

  \<^bold>\<open>The program.\<close> A request for a tile reaches the module (\<^verbatim>\<open>src/mod_tile.c\<close>), which translates its address
  to a layer and a tile, charges the client's token bucket, and serves the tile from a storage
  (\<^verbatim>\<open>src/store*.c\<close>). If the tile is missing or old the module asks the daemon (\<^verbatim>\<open>src/renderd.c\<close>) over a socket,
  in the format of \<^verbatim>\<open>src/protocol_helper.c\<close>. The daemon keeps the requests in a queue (\<^verbatim>\<open>src/request_queue.c\<close>), from which
  render threads, or threads that pass them on to other daemons, take them; they render 8 by 8 tiles at a time,
  save them as one metatile (\<^verbatim>\<open>src/metatile.cpp\<close>), tell the HTTP caches (\<^verbatim>\<open>src/cache_expire.c\<close>) and answer every
  client that waits. Daemon and module read one configuration file (\<^verbatim>\<open>src/renderd_config.c\<close>). The tools
  (\<^verbatim>\<open>src/render_list.c\<close>, \<^verbatim>\<open>src/render_expired.c\<close>, \<^verbatim>\<open>src/render_old.c\<close>, \<^verbatim>\<open>src/render_speedtest.cpp\<close>) send whole lists of
  tiles to the daemon through a queue of their own (\<^verbatim>\<open>src/render_submit_queue.c\<close>). Two older tools move tiles between
  layouts (\<^verbatim>\<open>src/archived/convert_meta.c\<close>) and out of a database (\<^verbatim>\<open>src/archived/mysql2file.c\<close>).

  \<^bold>\<open>Foundations.\<close>
  \<^item> \<open>Tile_Prelude\<close>: C integers (a C \<open>int\<close> is an integer, with \<open>wrap32\<close> where a value can leave its range), C
    strings as character lists, the print and scan directives in use, bytes. \<open>C_Double\<close>: the finite values of
    \<open>double\<close> as rationals rounded to 53 bits after every operation.
  \<^item> \<open>Interfaces\<close>: the locales \<open>keyed_index\<close>, \<open>linked_lists\<close>, \<open>fifo\<close> and \<open>connector\<close>. The locale \<open>tile_storage\<close> is
    in \<open>Store\<close>, \<open>composite_storage\<close> in \<open>Store_Readonly\<close>, \<open>option_function\<close> in \<open>Tool_Options\<close>. Each is interpreted on the operations of the component that
    provides it, and the component's theorems rest on these interpretations.

  \<^bold>\<open>The daemon.\<close>
  \<^item> \<open>Protocol\<close>: \<open>struct protocol\<close>, its bytes in the three versions, \<open>send_cmd\<close> and \<open>recv_cmd\<close>.
  \<^item> \<open>Request_Queue\<close>: the queue as the code has it, doubly linked rings and duplicate chains in a store of
    objects, the hash index, the statistics; every function of \<^verbatim>\<open>src/request_queue.c\<close>. Each operation is one atomic
    step, as the mutex makes it. \<open>Request_Queue_Structures\<close> proves the lists and the index against their interfaces,
    \<open>Request_Queue_Spec\<close> gives the abstract queue (\<open>qview\<close>) and the relation \<open>repr\<close> between the two.
  \<^item> \<open>Renderd\<close>: \<open>rx_request\<close>, \<open>send_response\<close>, the event loop \<open>process_loop\<close>, and the interleaving of the loop with the
    render threads as the step relation \<open>sys_step\<close>. Theorems: the invariant of every reachable state, the refinement of
    the abstract queue, the order of fetching, that every waiting client is answered, that a closed
    connection is forgotten, and that a turn of the loop returns.
  \<^item> \<open>Parameterize_Style\<close>: the map library as a parameter (\<open>mapnik\<close>) and the map for a list of languages
    (\<^verbatim>\<open>src/parameterize_style.cpp\<close>), with the bounds of its buffer.
  \<^item> \<open>Gen_Tile\<close>: the render threads (\<^verbatim>\<open>src/gen_tile.cpp\<close>): projections and the area of a metatile in \<open>double\<close> arithmetic,
    rendering and cutting, the cache of parameterised maps, the set-up of the maps, an item of the queue, and the event loop with
    all render threads as the step relation \<open>farm_step\<close>. Theorems: the areas of neighbouring metatiles meet exactly; what was rendered
    before does not change a metatile; the threads refine the steps of \<open>Renderd\<close>; an item that a thread holds is answered.
  \<^item> \<open>Renderd_Slave\<close>: client and server sockets, one item of \<open>slave_thread\<close>, one round of the statistics thread.
    \<open>Slave_Thread\<close>: the whole of such a thread, from the first connection to its end. Theorem: whatever the other daemon
    sends, the queue stays in a state the daemon can reach, and items are only left unanswered if a request cannot be sent.
  \<^item> \<open>Renderd_Main\<close>: \<open>main\<close> of the daemon from its options to the event loop, the wait for the maps, the array of the slave threads and
    the turn of such a thread. Theorems: the start ends; the event loop is entered only with every map loaded in every
    thread; when the array is overrun. \<open>Renderd_Exit\<close>: the pipe and the signal handler by which the loop is ended, from
    the first turn on. Theorem: the loop ends exactly if a signal arrives after it has begun.
  \<^item> \<open>System_Glue\<close>: the log with its levels and destinations (\<^verbatim>\<open>src/g_logger.c\<close>), \<open>daemon\<close> over a model of the process
    (\<^verbatim>\<open>src/daemon_compat.c\<close>), the registration of plugins and fonts by \<open>render_init\<close>. Theorem: the daemon that goes to the
    background is the leader of a session of its own and keeps no descriptor of the terminal.
  \<^item> \<open>Renderd_Config\<close>: the configuration file over the dictionary of the ini parser, which is a parameter.
  \<^item> \<open>Cache_Expire\<close>: the purge datagrams, read back by a reader of their format.

  \<^bold>\<open>Storages.\<close>
  \<^item> \<open>Tile_Paths\<close>: the paths of metatiles, both ways, and the directories. \<open>Store\<close>: the interface, the choice of a storage,
    the null storage, the metatile format and \<open>metaTile::save\<close>.
  \<^item> \<open>Store_File\<close>: the file storage over a model of the file system in which reads may be short and any call may
    fail. \<open>Store_Object\<close>: memcached and Ceph; the client libraries are parameters, with what they document of
    a successful write as hypotheses. \<open>Store_Readonly\<close>: the proxy and the composite storage.
  Theorems: what was saved is read back; failures and short files are reported and damage nothing; reads stay within the
  buffer; a proxied tile is the one asked for; the cached header of the Ceph storage outlives changes.

  \<^bold>\<open>The module.\<close>
  \<^item> \<open>Throttle\<close>: global locks and the token buckets. \<open>Mod_Tile_Config\<close>: every directive, the defaults and the merge of
    configurations. \<open>Tile_Request\<close>: the exchange with the daemon. \<open>Mod_Tile_Stats\<close>: the counters and their two pages.
    \<open>Mod_Tile\<close>: translation, the storage hook, every handler and the order in which they run. \<open>Mod_Tile_Serving\<close>: the
    theorems about serving, among them the whole way of a tile from the renderer's buffer to the answer.

  \<^bold>\<open>The tools.\<close>
  \<^item> \<open>Render_Submit\<close>: the queue of a tool as a linked list, its workers, and both as a step relation.
  \<^item> \<open>Render_Expired\<close>, \<open>Render_List\<close>, \<open>Render_Old\<close>: settings, input and loops of the three tools: which metatiles
    they reach, how often, and what they do with them.
  \<^item> \<open>Tool_Options\<close>: the options of the four tools, the numbers on the command line as \<open>strtod\<close>, \<open>strtof\<close> and \<open>strtol\<close> read and round
    them (infinities and not-a-numbers included), the programs from their options on, and the tiles of the speed test.
    Theorems: every accepted command line is well-formed; an integer option is the number of its numeral; the tiles of
    \<open>render_list --all\<close> are tiles of their zoom level.
  \<^item> \<open>Archived_Tools\<close>: the tool that packs and unpacks metatiles: the walk over the tree, its options, its errors. The two
    functions that convert one file are not among the sources and are parameters. \<open>Table_Export\<close>: the export of a table of tiles into
    files. Theorems: every metatile of the tree is converted; an exported tile has the bytes and the date of its row.

  \<^bold>\<open>Composition.\<close> This theory follows a request from the queue through the renderer into the file storage, and on to the client that
  asks the module for the tile: what the client receives is the part of the rendered image that belongs to the tile.

  \<^bold>\<open>Bounds.\<close> Loops over lists, buffers and zoom levels are total functions. Loops that wait for the outside world
  (connecting again, waiting for the load or for the maps) are partial functions in which not returning is \<open>None\<close>. The recursion
  over directories in \<open>Render_Old\<close> has a bound on its depth; \<open>PATH_MAX\<close> is enough, since every level makes the path longer. The walk of \<open>Archived_Tools\<close> has a bound on the entries it
  visits, and a tree of finite depth has one that is enough.

  \<^bold>\<open>Not modelled.\<close> The map library, the client libraries of memcached, Ceph, curl and MySQL, and the two functions
  \<open>process_pack\<close> and \<open>process_unpack\<close>, which are not among the sources: only the calls the sources make are parameters. The splitting of the
  command line by \<open>getopt_long\<close>: the models start from the options it delivers. Sine, cosine, tangent and logarithm of the C library
  and \<open>mktime\<close>, which are parameters. The messages at the places where the code only reports what it does, the statistics and rates the
  tools print, pauses. Infinities and not-a-numbers of \<open>double\<close> outside of the command line. The inverse projection
  \<open>fromPixelToLL\<close> of the speed test, which nothing calls. The unit tests. Memory is only modelled where the code's behaviour depends on it:
  the objects of the two queues, buffers that are read before they are written, and accesses outside of a table or a value,
  which are the result \<open>None\<close>.
\<close>

section \<open>From the queue to the storage\<close>

text \<open>A rendered item: what the thread stores and answers.\<close>

lemma render_item_done:
  assumes "find_xmlmap (wk_maps w) (pr_xmlname (it_req item)) = Some i" "cfg = wk_maps w ! i" "xm_ok cfg"
    "check_xyz (it_mx item) (it_my item) (pr_z (it_req item)) cfg" "xm_store cfg = Some sb" "ro_malloc os" "\<forall>s. ht_malloc (ro_htcp os) s"
    "render mk cfg (it_mx item) (it_my item) (pr_z (it_req item)) (pr_options (it_req item))
       (metaTile_new (pr_xmlname (it_req item)) (pr_options (it_req item)) (it_mx item) (it_my item) (pr_z (it_req item))) = Inr (cmdDone, cfg', tiles)"
  shows "\<exists>t w'. render_item mk os t1 t2 item w = Inr (cmdDone, t, w') \<and> wk_store w' = metaTile_save True sb (wk_store w) tiles"
proof -
  obtain s' where "metaTile_expire_tiles (ro_htcp os) (xm_htcpsock cfg) (xm_host cfg) (xm_xmluri cfg) tiles (wk_net w) = Some s'"
    using expire_tiles_returns [OF assms(7)] by blast
  then show ?thesis using assms by (simp add: render_item_def Let_def)
qed

lemma corner_aligned: "(x AND NOT (METATILE - 1)) mod 8 = 0"
  unfolding METATILE_def metatile_corner [unfolded METATILE_def] by (simp add: minus_mod_eq_mult_div)

text \<open>A metatile cut from an image and written completely: what the storage delivers of it.\<close>

lemma cut_tiles_read_back:
  assumes cut: "cut_tiles mk img ts fmt (cut_order nx ny) (metaTile_new name opts x y z) = Inr tiles" and corner: "x mod 8 = 0" "y mod 8 = 0"
    and wr: "init_storage_file ew td = Some sb" "in_int32 (int (length (metatile_buffer tiles)))"
      "fst (file_metatile_write ew td fs name opts x y z (metatile_buffer tiles)) = int (length (metatile_buffer tiles))"
    and read: "fe_malloc er" "\<forall>n. 0 \<le> fe_chunk er n" "fe_openable er (tile_file td name opts x y z)"
    and tile: "ox < nx" "oy < ny" "nx \<le> 8" "ny \<le> 8"
  shows "\<exists>bs. mk_save mk img (uint32 (int ox * ts)) (uint32 (int oy * ts)) ts ts fmt = Some bs
    \<and> (\<forall>sz \<ge> length bs. file_tile_read er td (metaTile_save True sb fs tiles) name opts (x + int ox) (y + int oy) z sz
         = \<lparr>rr_ret = int (length bs), rr_buf = bs, rr_compressed = Some 0\<rparr>)"
proof -
  note c = cut_tiles_spec [OF cut]
  have f: "mt_x tiles = x" "mt_y tiles = y" "mt_z tiles = z" "mt_xmlconfig tiles = name" "mt_options tiles = opts"
    using c by (simp_all add: metaTile_new_def)
  have al: "aligned tiles" using corner by (simp add: aligned_def f)
  have "sb_metatile_write sb = file_metatile_write ew td" by (rule storage_file_ops(3) [OF wr(1)])
  then have "file_metatile_write ew td fs name opts x y z (metatile_buffer tiles) = (int (length (metatile_buffer tiles)), metaTile_save True sb fs tiles)"
    using wr(3) by (simp add: metaTile_save_def f prod_eq_iff)
  note stored = file_write_success [OF this]
  have "ox < 8" "oy < 8" using tile by simp_all
  note r = read_stored_tile [OF al wr(2) this _ read(1,2) refl, of _ td name opts "metaTile_save True sb fs tiles"]
  have "mk_save mk img (uint32 (int ox * ts)) (uint32 (int oy * ts)) ts ts fmt = Some (mt_tile tiles ox oy)"
    using c tile by (simp add: cut_order_set)
  then show ?thesis using r read(3) stored by (simp add: f)
qed

text \<open>A thread that holds a renderable item finishes it: the next state, the image and the tiles cut from it.\<close>

lemma held_item_rendered:
  assumes daemon: "sys_inv (fm_sys F, ran (fm_job F)) v" "items_ok (pl_queue (fm_sys F))" "fm_job F k = Some a"
    and item: "item = held_item F a" "req = it_req item" "find_xmlmap (fm_maps F k) (pr_xmlname req) = Some i" "cfg = fm_maps F k ! i"
    and map: "\<forall>m\<in>set (fm_maps F k). map_sound m" "xm_ok cfg" "check_xyz (it_mx item) (it_my item) (pr_z req) cfg"
    and store: "xm_store cfg = Some sb" "ro_malloc ros" "\<forall>s. ht_malloc (ro_htcp ros) s"
    and rendered: "render mk cfg (it_mx item) (it_my item) (pr_z req) (pr_options req)
      (metaTile_new (pr_xmlname req) (pr_options req) (it_mx item) (it_my item) (pr_z req)) = Inr (cmdDone, cfg', tiles)"
  obtains F' img m0 where "farm_step mk ros os F F'" "fm_store F' = metaTile_save True sb (fm_store F) tiles"
    "pl_sent (fm_sys F') = pl_sent (fm_sys F) @ answers (q_mem (pl_queue (fm_sys F))) cmdDone (a # v_dups v a)"
    "select_map mk cfg (pr_options req) = Inr m0"
    "mk_render mk (prepare_map mk cfg (it_mx item) (it_my item) (pr_z req) m0)
       (mk_image mk (uint32 (render_size (pj_aspect_x (xm_prj cfg)) (pr_z req) * xm_tilesize cfg))
         (uint32 (render_size (pj_aspect_y (xm_prj cfg)) (pr_z req) * xm_tilesize cfg))
         (\<not> mk_background mk (prepare_map mk cfg (it_mx item) (it_my item) (pr_z req) m0))) (xm_scale cfg) = Some img"
    "cut_tiles mk img (xm_tilesize cfg) (xm_output_format cfg)
       (cut_order (nat (render_size (pj_aspect_x (xm_prj cfg)) (pr_z req))) (nat (render_size (pj_aspect_y (xm_prj cfg)) (pr_z req))))
       (metaTile_new (pr_xmlname req) (pr_options req) (it_mx item) (it_my item) (pr_z req)) = Inr tiles"
    "it_mx item mod 8 = 0" "it_my item mod 8 = 0"
proof -
  let ?x = "it_mx item" and ?y = "it_my item" and ?z = "pr_z req" and ?o = "pr_options req" and ?n = "pr_xmlname req"
  let ?sx = "render_size (pj_aspect_x (xm_prj cfg)) ?z" and ?sy = "render_size (pj_aspect_y (xm_prj cfg)) ?z"
  have w: "wk_maps (worker_of F k) = fm_maps F k" "wk_store (worker_of F k) = fm_store F" by (simp_all add: worker_of_def)
  obtain t w' where r: "render_item mk ros 0 0 (held_item F a) (worker_of F k) = Inr (cmdDone, t, w')" "wk_store w' = metaTile_save True sb (fm_store F) tiles"
    using render_item_done [of "worker_of F k" item i cfg sb ros mk cfg' tiles 0 0] item map(2,3) store rendered w by auto
  from finish_held [OF daemon(1,3) map(1) r(1), of os] obtain F' where
    F': "farm_step mk ros os F F'" "fm_store F' = metaTile_save True sb (fm_store F) tiles"
      "pl_sent (fm_sys F') = pl_sent (fm_sys F) @ answers (q_mem (pl_queue (fm_sys F))) cmdDone (a # v_dups v a)" using r(2) by auto
  obtain m0 m img where sel: "select_map mk cfg ?o = Inr m0" "m = prepare_map mk cfg ?x ?y ?z m0"
      "mk_render mk m (mk_image mk (uint32 (?sx * xm_tilesize cfg)) (uint32 (?sy * xm_tilesize cfg)) (\<not> mk_background mk m)) (xm_scale cfg) = Some img"
    and cut: "cut_tiles mk img (xm_tilesize cfg) (xm_output_format cfg) (cut_order (nat ?sx) (nat ?sy)) (metaTile_new ?n ?o ?x ?y ?z) = Inr tiles"
    using render_doneE [OF rendered] by metis
  have "a \<in> ran (fm_job F)" using daemon(3) by (auto simp: ran_def)
  then have "a \<in> set (v_list v renderHead)" "{b. q_alloc (pl_queue (fm_sys F)) b} = owned v" using daemon(1) by (auto simp: sys_inv_def daemon_inv_def)
  then have "q_alloc (pl_queue (fm_sys F)) a" using queuedI [of a v renderHead] by (auto simp: owned_def)
  then have corner: "?x mod 8 = 0" "?y mod 8 = 0" using daemon(2) item(1) corner_aligned by (simp_all add: items_ok_def held_item_def)
  show ?thesis by (rule that [OF F' sel(1) sel(3) [unfolded sel(2)] cut corner])
qed

lemma render_size_le: "nat (render_size a z) \<le> 8"
  by (simp add: render_size_def METATILE_def)

text \<open>
  The way of a tile through the daemon. When a render thread holds an item whose map is loaded and whose tile is within the map, the
  library renders the metatile, and the file storage takes the whole of it, then the thread finishes: every client that waits for the tile
  is told that it is done, and from then on the storage delivers, for every tile of the metatile that the world has at
  this zoom level and for any division of the file into partial reads, exactly the encoded part of the image at the place of that tile.
\<close>

theorem rendered_tile_is_stored:
  assumes daemon: "sys_inv (fm_sys F, ran (fm_job F)) v" "items_ok (pl_queue (fm_sys F))" "fm_job F k = Some a"
    and item: "item = held_item F a" "req = it_req item" "find_xmlmap (fm_maps F k) (pr_xmlname req) = Some i" "cfg = fm_maps F k ! i"
    and map: "\<forall>m\<in>set (fm_maps F k). map_sound m" "xm_ok cfg" "check_xyz (it_mx item) (it_my item) (pr_z req) cfg"
    and store: "xm_store cfg = Some sb" "init_storage_file ew td = Some sb" "ro_malloc ros" "\<forall>s. ht_malloc (ro_htcp ros) s"
    and rendered: "render mk cfg (it_mx item) (it_my item) (pr_z req) (pr_options req)
      (metaTile_new (pr_xmlname req) (pr_options req) (it_mx item) (it_my item) (pr_z req)) = Inr (cmdDone, cfg', tiles)"
    and written: "in_int32 (int (length (metatile_buffer tiles)))"
      "fst (file_metatile_write ew td (fm_store F) (pr_xmlname req) (pr_options req) (it_mx item) (it_my item) (pr_z req) (metatile_buffer tiles))
        = int (length (metatile_buffer tiles))"
    and reader: "fe_malloc er" "\<forall>n. 0 \<le> fe_chunk er n" "fe_openable er (tile_file td (pr_xmlname req) (pr_options req) (it_mx item) (it_my item) (pr_z req))"
  shows "\<exists>F' img. farm_step mk ros os F F'
    \<and> pl_sent (fm_sys F') = pl_sent (fm_sys F) @ answers (q_mem (pl_queue (fm_sys F))) cmdDone (a # v_dups v a)
    \<and> (\<exists>m0. select_map mk cfg (pr_options req) = Inr m0
        \<and> mk_render mk (prepare_map mk cfg (it_mx item) (it_my item) (pr_z req) m0)
            (mk_image mk (uint32 (render_size (pj_aspect_x (xm_prj cfg)) (pr_z req) * xm_tilesize cfg))
              (uint32 (render_size (pj_aspect_y (xm_prj cfg)) (pr_z req) * xm_tilesize cfg))
              (\<not> mk_background mk (prepare_map mk cfg (it_mx item) (it_my item) (pr_z req) m0))) (xm_scale cfg) = Some img)
    \<and> (\<forall>ox oy. int ox < render_size (pj_aspect_x (xm_prj cfg)) (pr_z req) \<longrightarrow> int oy < render_size (pj_aspect_y (xm_prj cfg)) (pr_z req) \<longrightarrow>
        (\<exists>bs. mk_save mk img (uint32 (int ox * xm_tilesize cfg)) (uint32 (int oy * xm_tilesize cfg)) (xm_tilesize cfg) (xm_tilesize cfg)
             (xm_output_format cfg) = Some bs
          \<and> (\<forall>sz \<ge> length bs. file_tile_read er td (fm_store F') (pr_xmlname req) (pr_options req) (it_mx item + int ox) (it_my item + int oy) (pr_z req) sz
             = \<lparr>rr_ret = int (length bs), rr_buf = bs, rr_compressed = Some 0\<rparr>)))"
proof -
  obtain F' img m0 where F': "farm_step mk ros os F F'" "fm_store F' = metaTile_save True sb (fm_store F) tiles"
      "pl_sent (fm_sys F') = pl_sent (fm_sys F) @ answers (q_mem (pl_queue (fm_sys F))) cmdDone (a # v_dups v a)"
    and sel: "select_map mk cfg (pr_options req) = Inr m0"
      "mk_render mk (prepare_map mk cfg (it_mx item) (it_my item) (pr_z req) m0)
         (mk_image mk (uint32 (render_size (pj_aspect_x (xm_prj cfg)) (pr_z req) * xm_tilesize cfg))
           (uint32 (render_size (pj_aspect_y (xm_prj cfg)) (pr_z req) * xm_tilesize cfg))
           (\<not> mk_background mk (prepare_map mk cfg (it_mx item) (it_my item) (pr_z req) m0))) (xm_scale cfg) = Some img"
    and cut: "cut_tiles mk img (xm_tilesize cfg) (xm_output_format cfg)
         (cut_order (nat (render_size (pj_aspect_x (xm_prj cfg)) (pr_z req))) (nat (render_size (pj_aspect_y (xm_prj cfg)) (pr_z req))))
         (metaTile_new (pr_xmlname req) (pr_options req) (it_mx item) (it_my item) (pr_z req)) = Inr tiles"
      "it_mx item mod 8 = 0" "it_my item mod 8 = 0"
    by (rule held_item_rendered [OF daemon item map store(1,3,4) rendered, where os = os])
  note read = cut_tiles_read_back [OF cut store(2) written reader _ _ render_size_le render_size_le]
  show ?thesis
    by (rule exI [of _ F'], rule exI [of _ img]) (use F' sel read in \<open>auto simp: zless_nat_eq_int_zless\<close>)
qed

text \<open>A file system with the directory of the sample's metatile.\<close>

definition sample_fs8 :: fsys where
  "sample_fs8 = \<lparr>fs_nodes = [''/t/osm/5/0/0/0/0'' \<mapsto> FDir], fs_file = (\<lambda>_. \<lparr>fn_data = [], fn_mtime = 0, fn_atime = 0, fn_ctime = 0\<rparr>)\<rparr>"

lemma sample_path8: "tile_file ''/t'' ''osm'' [] 8 8 5 = ''/t/osm/5/0/0/0/0/136.meta''"
  by code_simp

lemma sample_write8: "fst (file_metatile_write sample_env ''/t'' sample_fs8 ''osm'' [] 8 8 5 buf) = int (length buf)"
proof -
  have t: "''/t/osm/5/0/0/0/0/136.meta'' @ ''.'' @ show_nat 1 = ''/t/osm/5/0/0/0/0/136.meta.1''" by code_simp
  have d: "nodes ''/t/osm/5/0/0/0/0'' = Some FDir \<Longrightarrow> mkdirp deny nodes ''/t/osm/5/0/0/0/0/136.meta.1'' = (0, nodes)" for nodes deny
    by (simp add: mkdirp_def PATH_MAX_def strrchr_def)
  show ?thesis
    unfolding file_metatile_write_def Let_def sample_path8 sample_self t
    by (simp add: d sample_fs8_def fs_put_def Let_def) (simp add: sample_env_def)
qed

lemma sample_render8:
  "\<exists>cfg' tiles. render sample_mapnik (sample_cfg parameterize_NULL) 8 8 5 [] (metaTile_new ''osm'' [] 8 8 5) = Inr (cmdDone, cfg', tiles)
    \<and> in_int32 (int (length (metatile_buffer tiles)))"
proof -
  let ?c = "sample_cfg parameterize_NULL"
  have sel: "select_map sample_mapnik ?c [] = Inr (xm_map ?c)" by (simp add: select_map_def sample_cfg_def)
  obtain cfg' tiles where r: "render sample_mapnik ?c 8 8 5 [] (metaTile_new ''osm'' [] 8 8 5) = Inr (cmdDone, cfg', tiles)"
    using render_value [OF sel sample_mapnik_total(1), of 8 8 5 "metaTile_new ''osm'' [] 8 8 5"] sample_mapnik_total(2) by auto
  obtain img nx ny where "cut_tiles sample_mapnik img (xm_tilesize ?c) (xm_output_format ?c) (cut_order nx ny) (metaTile_new ''osm'' [] 8 8 5) = Inr tiles"
    by (rule render_doneE [OF r])
  moreover have "xm_tilesize ?c = 256" "xm_output_format ?c = ''png256''" by (simp_all add: sample_cfg_def)
  ultimately have "cut_tiles sample_mapnik img 256 ''png256'' (cut_order nx ny) (metaTile_new ''osm'' [] 8 8 5) = Inr tiles" by (simp only:)
  note c = cut_tiles_spec [OF this]
  have two: "length (mt_tile tiles u v) \<le> 2" for u v
  proof (cases "(u, v) \<in> set (cut_order nx ny)")
    case True
    with c have "mk_save sample_mapnik img (uint32 (int u * 256)) (uint32 (int v * 256)) 256 256 ''png256'' = Some (mt_tile tiles u v)" by blast
    then have "mt_tile tiles u v = [word_of_int (uint32 (int u * 256) div 256), word_of_int (uint32 (int v * 256) div 256)]" by (simp add: sample_mapnik_def)
    then show ?thesis by simp
  next
    case False
    with c show ?thesis by (simp add: metaTile_new_def)
  qed
  have "length (concat (map (tdata tiles) ps)) \<le> 2 * length ps" for ps
  proof (induction ps)
    case (Cons p ps)
    then show ?case using two [of "fst p" "snd p"] by (simp add: tdata_def)
  qed simp
  from this [of tile_order] have "length (concat (map (tdata tiles) tile_order)) \<le> 128" by simp
  moreover have "aligned tiles" using c by (simp add: aligned_def metaTile_new_def)
  ultimately have "length (metatile_buffer tiles) \<le> 660" using buffer_header [of tiles] by simp
  then show ?thesis using r by (auto simp: in_int32_def)
qed

lemma sample8_request:
  "pr_xmlname sample_request = ''osm''" "pr_options sample_request = []" "pr_z sample_request = 5"
  "pr_x sample_request AND NOT (METATILE - 1) = 8" "pr_y sample_request AND NOT (METATILE - 1) = 8"
  by (simp_all add: sample_request_def METATILE_def)

lemma sample8_cfg:
  "xm_ok (sample_cfg parameterize_NULL)" "check_xyz 8 8 5 (sample_cfg parameterize_NULL)" "xm_tilesize (sample_cfg parameterize_NULL) = 256"
  "xm_output_format (sample_cfg parameterize_NULL) = ''png256''" "xm_prj (sample_cfg parameterize_NULL) = web_mercator"
  "xm_store (sample_cfg parameterize_NULL) = Some sample_backend" "find_xmlmap [sample_cfg parameterize_NULL] ''osm'' = Some 0"
  "xm_xmlname (sample_cfg parameterize_NULL) = ''osm''"
  by (simp_all add: sample_cfg_def check_xyz_def web_mercator_def shl1_def wrap32_def sample_backend_init)

lemma sample8_size: "render_size (pj_aspect_x web_mercator) 5 = 8" "render_size (pj_aspect_y web_mercator) 5 = 8"
  by (simp_all add: web_mercator_def render_size_def shl1_def wrap32_def METATILE_def)

lemma sample8_farm:
  "fm_job (sample_farm fs) 0 = Some 0" "held_item (sample_farm fs) 0 = q_mem sample_queue2 (Obj 0)" "fm_maps (sample_farm fs) 0 = [sample_cfg parameterize_NULL]"
  "fm_store (sample_farm fs) = fs" "pl_queue (fm_sys (sample_farm fs)) = sample_queue2" "pl_sent (fm_sys (sample_farm fs)) = []"
  by (simp_all add: sample_farm_def held_item_def)

lemma sample8_items: "items_ok (pl_queue (fm_sys (sample_farm fs)))"
  using sample_queue2_alloc sample_queue2_item(1-3) sample8_request(4,5) by (auto simp: items_ok_def sample8_farm(5) set_eq_iff)

text \<open>What both ways of the sample's tile start from: the item, the map, the rendering and the writing.\<close>

lemma sample8_start:
  obtains cfg' tiles where "in_int32 (int (length (metatile_buffer tiles)))"
    "find_xmlmap (fm_maps (sample_farm sample_fs8) 0) (pr_xmlname sample_request) = Some 0"
    "sample_cfg parameterize_NULL = fm_maps (sample_farm sample_fs8) 0 ! 0" "\<forall>m\<in>set (fm_maps (sample_farm sample_fs8) 0). map_sound m"
    "check_xyz (it_mx (q_mem sample_queue2 (Obj 0))) (it_my (q_mem sample_queue2 (Obj 0))) (pr_z sample_request) (sample_cfg parameterize_NULL)"
    "render sample_mapnik (sample_cfg parameterize_NULL) (it_mx (q_mem sample_queue2 (Obj 0))) (it_my (q_mem sample_queue2 (Obj 0))) (pr_z sample_request)
       (pr_options sample_request) (metaTile_new (pr_xmlname sample_request) (pr_options sample_request) (it_mx (q_mem sample_queue2 (Obj 0)))
         (it_my (q_mem sample_queue2 (Obj 0))) (pr_z sample_request)) = Inr (cmdDone, cfg', tiles)"
    "fst (file_metatile_write sample_env ''/t'' (fm_store (sample_farm sample_fs8)) (pr_xmlname sample_request) (pr_options sample_request)
       (it_mx (q_mem sample_queue2 (Obj 0))) (it_my (q_mem sample_queue2 (Obj 0))) (pr_z sample_request) (metatile_buffer tiles)) = int (length (metatile_buffer tiles))"
proof -
  obtain cfg' tiles where r: "render sample_mapnik (sample_cfg parameterize_NULL) 8 8 5 [] (metaTile_new ''osm'' [] 8 8 5) = Inr (cmdDone, cfg', tiles)"
      "in_int32 (int (length (metatile_buffer tiles)))" using sample_render8 by blast
  show ?thesis
    by (rule that [OF r(2)])
      (use sample_maps_sound [of _ sample_fs8 0] in \<open>simp_all add: sample8_farm sample8_request sample_queue2_item(1-3) sample8_cfg sample_write8 r(1)\<close>)
qed

lemma sample8_os: "ro_malloc sample_ros" "\<forall>s. ht_malloc (ro_htcp sample_ros) s" "fe_malloc sample_env" "\<forall>n. 0 \<le> fe_chunk sample_env n" "fe_openable sample_env p"
  by (simp_all add: sample_ros_def sample_htcp_def sample_env_def)

theorem rendered_tile_is_stored_witness:
  "\<exists>F' img bs. farm_step sample_mapnik sample_ros idle_os (sample_farm sample_fs8) F'
    \<and> pl_sent (fm_sys F') = answers (q_mem sample_queue2) cmdDone [0]
    \<and> mk_save sample_mapnik img (uint32 (int 4 * 256)) (uint32 (int 1 * 256)) 256 256 ''png256'' = Some bs
    \<and> file_tile_read sample_env ''/t'' (fm_store F') ''osm'' [] (8 + int 4) (8 + int 1) 5 16384 = \<lparr>rr_ret = int (length bs), rr_buf = bs, rr_compressed = Some 0\<rparr>"
proof -
  let ?F = "sample_farm sample_fs8" and ?c = "sample_cfg parameterize_NULL" and ?i = "q_mem sample_queue2 (Obj 0)"
  note it = sample_queue2_item(1-3)
  obtain cfg' tiles where h: "in_int32 (int (length (metatile_buffer tiles)))"
      "find_xmlmap (fm_maps ?F 0) (pr_xmlname sample_request) = Some 0" "?c = fm_maps ?F 0 ! 0" "\<forall>m\<in>set (fm_maps ?F 0). map_sound m"
      "check_xyz (it_mx ?i) (it_my ?i) (pr_z sample_request) ?c"
      "render sample_mapnik ?c (it_mx ?i) (it_my ?i) (pr_z sample_request) (pr_options sample_request)
        (metaTile_new (pr_xmlname sample_request) (pr_options sample_request) (it_mx ?i) (it_my ?i) (pr_z sample_request)) = Inr (cmdDone, cfg', tiles)"
      "fst (file_metatile_write sample_env ''/t'' (fm_store ?F) (pr_xmlname sample_request) (pr_options sample_request) (it_mx ?i) (it_my ?i)
        (pr_z sample_request) (metatile_buffer tiles)) = int (length (metatile_buffer tiles))"
    by (rule sample8_start)
  from rendered_tile_is_stored [OF sample_farm_inv sample8_items sample8_farm(1) sample8_farm(2) [symmetric] it(1) [symmetric] h(2-4) sample8_cfg(1) h(5) sample8_cfg(6)
      sample_backend_init sample8_os(1,2) h(6,1,7) sample8_os(3,4) sample8_os(5), where os = idle_os]
  obtain F' img where X: "farm_step sample_mapnik sample_ros idle_os ?F F'"
      "pl_sent (fm_sys F') = pl_sent (fm_sys ?F) @ answers (q_mem (pl_queue (fm_sys ?F))) cmdDone (0 # v_dups sample_view2 0)"
    and Y: "\<And>ox oy. int ox < render_size (pj_aspect_x (xm_prj ?c)) (pr_z sample_request) \<Longrightarrow> int oy < render_size (pj_aspect_y (xm_prj ?c)) (pr_z sample_request) \<Longrightarrow>
        \<exists>bs. mk_save sample_mapnik img (uint32 (int ox * xm_tilesize ?c)) (uint32 (int oy * xm_tilesize ?c)) (xm_tilesize ?c) (xm_tilesize ?c) (xm_output_format ?c) = Some bs
          \<and> (\<forall>sz \<ge> length bs. file_tile_read sample_env ''/t'' (fm_store F') (pr_xmlname sample_request) (pr_options sample_request)
               (it_mx ?i + int ox) (it_my ?i + int oy) (pr_z sample_request) sz = \<lparr>rr_ret = int (length bs), rr_buf = bs, rr_compressed = Some 0\<rparr>)"
    by blast
  from Y [of 4 1] obtain bs where b: "mk_save sample_mapnik img (uint32 (int 4 * 256)) (uint32 (int 1 * 256)) 256 256 ''png256'' = Some bs"
      "\<forall>sz \<ge> length bs. file_tile_read sample_env ''/t'' (fm_store F') ''osm'' [] (8 + int 4) (8 + int 1) 5 sz
        = \<lparr>rr_ret = int (length bs), rr_buf = bs, rr_compressed = Some 0\<rparr>"
    unfolding sample8_cfg sample8_request it sample8_size by auto
  have "length bs = 2" using b(1) by (auto simp: sample_mapnik_def)
  then have "length bs \<le> 16384" by simp
  with X b show ?thesis by (intro exI [of _ F'] exI [of _ img] exI [of _ bs]) (simp add: sample8_farm sample_view2_lists)
qed

section \<open>From the queue to the client\<close>

text \<open>
  C2. The way of a tile through the whole system. Let a render thread hold an item whose map is loaded and whose tile is within the map, let
  the library render the metatile and the file storage take the whole of it, and let a layer of the web server, without
  parameterisation and with the same map and directory, have this tile. Then the daemon has a step after which every client that
  waits for the tile is told that it is done, and on the file system after this step, provided the import of the data is not newer
  than the file, a request for the address of any tile of the metatile whose image is neither empty nor larger than
  the module's buffer is answered with status 200 and exactly the bytes that the map library encoded for the part of the image at the
  place of this tile, with their length, the type of the layer and the tag computed from them.
\<close>

theorem rendered_tile_is_served:
  assumes daemon: "sys_inv (fm_sys F, ran (fm_job F)) v" "items_ok (pl_queue (fm_sys F))" "fm_job F k = Some a"
    and item: "item = held_item F a" "rr = it_req item" "find_xmlmap (fm_maps F k) (pr_xmlname rr) = Some j" "cfg = fm_maps F k ! j"
    and map: "\<forall>m\<in>set (fm_maps F k). map_sound m" "xm_ok cfg" "check_xyz (it_mx item) (it_my item) (pr_z rr) cfg"
    and store: "xm_store cfg = Some sb" "ro_malloc ros" "\<forall>s. ht_malloc (ro_htcp ros) s"
    and rendered: "render mk cfg (it_mx item) (it_my item) (pr_z rr) (pr_options rr)
      (metaTile_new (pr_xmlname rr) (pr_options rr) (it_mx item) (it_my item) (pr_z rr)) = Inr (cmdDone, cfg', tiles)"
    and written: "init_storage_file ew td = Some sb" "in_int32 (int (length (metatile_buffer tiles)))"
      "fst (file_metatile_write ew td (fm_store F) (pr_xmlname rr) (pr_options rr) (it_mx item) (it_my item) (pr_z rr) (metatile_buffer tiles))
        = int (length (metatile_buffer tiles))"
    and layer: "l = sc_configs (he_scfg he) ! i" "layer_sane gmax l" "tr_enableOptions l = 0" "ext_ok (tr_fileExtension l)" "tr_cors l = None"
      "pr_xmlname rr = tr_xmlname l" "pr_options rr = []" "length (tr_xmlname l) \<le> 40"
    and tile: "int ox < render_size (pj_aspect_x (xm_prj cfg)) (pr_z rr)" "int oy < render_size (pj_aspect_y (xm_prj cfg)) (pr_z rr)"
    and req: "rq_uri r = tile_uri l (it_mx item + int ox) (it_my item + int oy) (pr_z rr)" "reaches_layer he i (rq_uri r)"
      "tile_in_layer l (it_mx item + int ox) (it_my item + int oy) (pr_z rr)"
    and server: "sv_world sv = metaTile_save True sb (fm_store F) tiles" "stores_ok he sv" "get_storage_backend he i sv = (Some b, sv1)"
      "init_storage_file er td = Some b" "\<forall>k. 0 \<le> fe_chunk er k"
      "fe_openable er (tile_file td (pr_xmlname rr) (pr_options rr) (it_mx item) (it_my item) (pr_z rr))"
    and calm: "\<not> sc_enable_tile_throttling (he_scfg he)" "he_alloc he" "\<forall>r. he_meets he r = HTTP_OK" "gmax < int (length (sc_mincachetime (he_scfg he)))"
      "stats_ready gmax (length (sc_configs (he_scfg he))) (sv_stats sv)"
    and current: "get_planet_time (\<lambda>p. map_option fn_mtime (fs_stat (sv_world sv) p)) (fe_now er) td (Some (pr_xmlname rr)) \<le> fe_now ew"
  shows "\<exists>F' m0 img bs. farm_step mk ros os F F' \<and> fm_store F' = sv_world sv
    \<and> pl_sent (fm_sys F') = pl_sent (fm_sys F) @ answers (q_mem (pl_queue (fm_sys F))) cmdDone (a # v_dups v a)
    \<and> select_map mk cfg (pr_options rr) = Inr m0
    \<and> mk_render mk (prepare_map mk cfg (it_mx item) (it_my item) (pr_z rr) m0)
          (mk_image mk (uint32 (render_size (pj_aspect_x (xm_prj cfg)) (pr_z rr) * xm_tilesize cfg))
            (uint32 (render_size (pj_aspect_y (xm_prj cfg)) (pr_z rr) * xm_tilesize cfg))
            (\<not> mk_background mk (prepare_map mk cfg (it_mx item) (it_my item) (pr_z rr) m0))) (xm_scale cfg) = Some img
    \<and> mk_save mk img (uint32 (int ox * xm_tilesize cfg)) (uint32 (int oy * xm_tilesize cfg)) (xm_tilesize cfg) (xm_tilesize cfg)
          (xm_output_format cfg) = Some bs
    \<and> (bs \<noteq> [] \<and> length bs \<le> MAX_SIZE \<longrightarrow>
        (\<exists>r' sv'. handle_request he r sv = Some (HTTP_OK, r', sv') \<and> rq_body r' = rq_body r @ bs
          \<and> rq_content_type r' = Some (tr_mimeType l) \<and> rq_content_length r' = Some (int (length bs))
          \<and> map_of (rq_headers_out r') ''ETag'' = Some (etag he bs)))"
proof -
  obtain F' img m0 where F': "farm_step mk ros os F F'" "fm_store F' = metaTile_save True sb (fm_store F) tiles"
      "pl_sent (fm_sys F') = pl_sent (fm_sys F) @ answers (q_mem (pl_queue (fm_sys F))) cmdDone (a # v_dups v a)"
    and sel: "select_map mk cfg (pr_options rr) = Inr m0"
      "mk_render mk (prepare_map mk cfg (it_mx item) (it_my item) (pr_z rr) m0)
         (mk_image mk (uint32 (render_size (pj_aspect_x (xm_prj cfg)) (pr_z rr) * xm_tilesize cfg))
           (uint32 (render_size (pj_aspect_y (xm_prj cfg)) (pr_z rr) * xm_tilesize cfg))
           (\<not> mk_background mk (prepare_map mk cfg (it_mx item) (it_my item) (pr_z rr) m0))) (xm_scale cfg) = Some img"
    and cut: "cut_tiles mk img (xm_tilesize cfg) (xm_output_format cfg)
         (cut_order (nat (render_size (pj_aspect_x (xm_prj cfg)) (pr_z rr))) (nat (render_size (pj_aspect_y (xm_prj cfg)) (pr_z rr))))
         (metaTile_new (pr_xmlname rr) (pr_options rr) (it_mx item) (it_my item) (pr_z rr)) = Inr tiles"
      "it_mx item mod 8 = 0" "it_my item mod 8 = 0"
    by (rule held_item_rendered [OF daemon item map store rendered, where os = os])
  note c = cut_tiles_spec [OF cut(1)]
  have f: "mt_x tiles = it_mx item" "mt_y tiles = it_my item" "mt_z tiles = pr_z rr" "mt_xmlconfig tiles = pr_xmlname rr" "mt_options tiles = pr_options rr"
    using c by (simp_all add: metaTile_new_def)
  have small: "ox < 8" "oy < 8" using tile render_size_le [of "pj_aspect_x (xm_prj cfg)" "pr_z rr"] render_size_le [of "pj_aspect_y (xm_prj cfg)" "pr_z rr"] by linarith+
  have bs: "mk_save mk img (uint32 (int ox * xm_tilesize cfg)) (uint32 (int oy * xm_tilesize cfg)) (xm_tilesize cfg) (xm_tilesize cfg)
          (xm_output_format cfg) = Some (mt_tile tiles ox oy)"
    using c tile by (simp add: cut_order_set zless_nat_eq_int_zless)
  have i: "i < length (sc_configs (he_scfg he))" using req(2) by (simp add: reaches_layer_def)
  have w: "sv_world sv1 = sv_world sv" using get_storage_backend_facts(3) [OF server(3,2) i] .
  have "\<exists>r' sv'. handle_request he r sv = Some (HTTP_OK, r', sv') \<and> rq_body r' = rq_body r @ mt_tile tiles ox oy
          \<and> rq_content_type r' = Some (tr_mimeType l) \<and> rq_content_length r' = Some (int (length (mt_tile tiles ox oy)))
          \<and> map_of (rq_headers_out r') ''ETag'' = Some (etag he (mt_tile tiles ox oy))"
    if "mt_tile tiles ox oy \<noteq> []" "length (mt_tile tiles ox oy) \<le> MAX_SIZE"
  proof -
    have al: "aligned tiles" using cut(2,3) by (simp add: aligned_def f)
    note m = saved_metatile_current [of ew td sb "sv_world sv" "fm_store F" tiles, unfolded f, OF written(1) server(1) written(3) al written(2) small that(2)
        layer(6-8) w server(4-6) current]
    show ?thesis
      by (rule current_tile_served [OF layer(1-5) req server(2,3) _ calm m(1)]) (use storage_file_ops(4) [OF server(4)] m(2) that(1) in simp_all)
  qed
  then show ?thesis using F' sel bs server(1) by (intro exI [of _ F'] exI [of _ m0] exI [of _ img] exI [of _ "mt_tile tiles ox oy"]) simp
qed

text \<open>The sample's tile on the sample server.\<close>

lemma sample8_planet:
  assumes "fs = metaTile_save True sample_backend sample_fs8 t" "mt_x t = 8" "mt_y t = 8" "mt_z t = 5" "mt_xmlconfig t = ''osm''" "mt_options t = []"
  shows "get_planet_time (\<lambda>p. map_option fn_mtime (fs_stat fs p)) (fe_now sample_env) ''/t'' (Some ''osm'') \<le> fe_now sample_env"
proof -
  have t: "''/t/osm/5/0/0/0/0/136.meta'' @ ''.'' @ show_nat 1 = ''/t/osm/5/0/0/0/0/136.meta.1''" by code_simp
  have d: "nodes ''/t/osm/5/0/0/0/0'' = Some FDir \<Longrightarrow> mkdirp deny nodes ''/t/osm/5/0/0/0/0/136.meta.1'' = (0, nodes)" for nodes deny
    by (simp add: mkdirp_def PATH_MAX_def strrchr_def)
  have "fs_nodes fs p = None" if "p = ''/t/osm//planet-import-complete'' \<or> p = ''/t//planet-import-complete''" for p
    using that unfolding assms(1) metaTile_save_def assms(2-6) storage_file_ops(3) [OF sample_backend_init] file_metatile_write_def Let_def sample_path8 sample_self t
    by (auto simp: d sample_fs8_def fs_put_def fs_unlink_def Let_def)
  then show ?thesis by (simp add: get_planet_time_def fs_stat_def snprintf_def PLANET_TIMESTAMP_def PATH_MAX_def)
qed

theorem rendered_tile_is_served_witness:
  "\<exists>F' bs r' sv'. farm_step sample_mapnik sample_ros idle_os (sample_farm sample_fs8) F' \<and> length bs = 2
    \<and> pl_sent (fm_sys F') = answers (q_mem sample_queue2) cmdDone [0]
    \<and> handle_request sample_henv (sample_rr (tile_uri sample_layer (8 + int 4) (8 + int 1) 5)) (sample_server (fm_store F')) = Some (HTTP_OK, r', sv')
    \<and> rq_body r' = bs \<and> rq_content_type r' = Some ''image/png'' \<and> rq_content_length r' = Some 2"
proof -
  let ?F = "sample_farm sample_fs8" and ?c = "sample_cfg parameterize_NULL" and ?i = "q_mem sample_queue2 (Obj 0)"
  let ?r = "sample_rr (tile_uri sample_layer (8 + int 4) (8 + int 1) 5)"
  note it = sample_queue2_item(1-3)
  obtain cfg' tiles where h: "in_int32 (int (length (metatile_buffer tiles)))"
      "find_xmlmap (fm_maps ?F 0) (pr_xmlname sample_request) = Some 0" "?c = fm_maps ?F 0 ! 0" "\<forall>m\<in>set (fm_maps ?F 0). map_sound m"
      "check_xyz (it_mx ?i) (it_my ?i) (pr_z sample_request) ?c"
      "render sample_mapnik ?c (it_mx ?i) (it_my ?i) (pr_z sample_request) (pr_options sample_request)
        (metaTile_new (pr_xmlname sample_request) (pr_options sample_request) (it_mx ?i) (it_my ?i) (pr_z sample_request)) = Inr (cmdDone, cfg', tiles)"
      "fst (file_metatile_write sample_env ''/t'' (fm_store ?F) (pr_xmlname sample_request) (pr_options sample_request) (it_mx ?i) (it_my ?i)
        (pr_z sample_request) (metatile_buffer tiles)) = int (length (metatile_buffer tiles))"
    by (rule sample8_start)
  obtain img nx ny where cut: "cut_tiles sample_mapnik img (xm_tilesize ?c) (xm_output_format ?c) (cut_order nx ny)
      (metaTile_new (pr_xmlname sample_request) (pr_options sample_request) (it_mx ?i) (it_my ?i) (pr_z sample_request)) = Inr tiles"
    by (rule render_doneE [OF h(6)])
  have f: "mt_x tiles = 8" "mt_y tiles = 8" "mt_z tiles = 5" "mt_xmlconfig tiles = ''osm''" "mt_options tiles = []"
    using cut_tiles_spec [OF cut] by (simp_all add: metaTile_new_def sample8_request it)
  let ?fs = "metaTile_save True sample_backend (fm_store ?F) tiles"
  have lay: "sample_layer = sc_configs (he_scfg sample_henv) ! 0" "tr_enableOptions sample_layer = 0" "ext_ok (tr_fileExtension sample_layer)"
    "tr_cors sample_layer = None" "pr_xmlname sample_request = tr_xmlname sample_layer" "length (tr_xmlname sample_layer) \<le> 40"
    "tile_in_layer sample_layer (it_mx ?i + int 4) (it_my ?i + int 1) (pr_z sample_request)" "tr_mimeType sample_layer = ''image/png''"
    by (simp_all add: sample_layer_def ext_ok_def tile_in_layer_def sample_configs sample8_request it)
  have req: "rq_uri ?r = tile_uri sample_layer (it_mx ?i + int 4) (it_my ?i + int 1) (pr_z sample_request)" "reaches_layer sample_henv 0 (rq_uri ?r)" "rq_body ?r = []"
    by (simp_all add: sample_rr_def sample8_request it sample_reaches)
  have sv: "sv_world (sample_server ?fs) = ?fs" "stores_ok sample_henv (sample_server ?fs)" by (simp_all add: sample_server_def stores_ok_def)
  have sz: "int 4 < render_size (pj_aspect_x (xm_prj ?c)) (pr_z sample_request)" "int 1 < render_size (pj_aspect_y (xm_prj ?c)) (pr_z sample_request)"
    by (simp_all add: sample8_cfg sample8_request sample8_size)
  have pl: "get_planet_time (\<lambda>p. map_option fn_mtime (fs_stat (sv_world (sample_server ?fs)) p)) (fe_now sample_env) ''/t'' (Some (pr_xmlname sample_request)) \<le> fe_now sample_env"
    unfolding sv(1) sample8_request(1) using sample8_planet [OF _ f] sample8_farm(4) by simp
  have cf: "\<forall>r. he_meets sample_henv r = HTTP_OK" "19 < int (length (sc_mincachetime (he_scfg sample_henv)))"
      "stats_ready 19 (length (sc_configs (he_scfg sample_henv))) (sv_stats (sample_server ?fs))"
    using sample_conf sample_ready by (simp_all add: sample_configs)
  from rendered_tile_is_served [OF sample_farm_inv sample8_items sample8_farm(1) sample8_farm(2) [symmetric] it(1) [symmetric] h(2-4) sample8_cfg(1) h(5) sample8_cfg(6)
      sample8_os(1,2) h(6) sample_backend_init h(1,7) lay(1) sample_layer_sane lay(2-5) sample8_request(2) lay(6) sz req(1,2) lay(7) sv sample_storage sample_backend_init
      sample8_os(4) sample8_os(5) sample_conf(1,2) cf pl, where os = idle_os]
  obtain F' img bs where X: "farm_step sample_mapnik sample_ros idle_os ?F F'" "fm_store F' = ?fs"
      "pl_sent (fm_sys F') = pl_sent (fm_sys ?F) @ answers (q_mem (pl_queue (fm_sys ?F))) cmdDone (0 # v_dups sample_view2 0)"
      "mk_save sample_mapnik img (uint32 (int 4 * xm_tilesize ?c)) (uint32 (int 1 * xm_tilesize ?c)) (xm_tilesize ?c) (xm_tilesize ?c) (xm_output_format ?c) = Some bs"
    and Y: "bs \<noteq> [] \<and> length bs \<le> MAX_SIZE \<Longrightarrow> \<exists>r' sv'. handle_request sample_henv ?r (sample_server ?fs) = Some (HTTP_OK, r', sv')
      \<and> rq_body r' = rq_body ?r @ bs \<and> rq_content_type r' = Some (tr_mimeType sample_layer) \<and> rq_content_length r' = Some (int (length bs))"
    unfolding sv(1) by blast
  have "length bs = 2" using X(4) by (auto simp: sample_mapnik_def sample8_cfg)
  moreover from this have "bs \<noteq> [] \<and> length bs \<le> MAX_SIZE" by (auto simp: MAX_SIZE_def)
  ultimately show ?thesis using X(1-3) Y unfolding lay(8) req(3) by (fastforce simp: sample8_farm sample_view2_lists)
qed

end
